(* ===== verification/TSD_Prelude.thy ===== *)
theory TSD_Prelude
  imports Main "HOL-Library.Word"
begin

text \<open>
  Shared vocabulary of the development: the machine integers and error codes of the C
  sources, the SIMD width enumeration (\<^verbatim>\<open>include/thermal/simd/simd_width.h\<close>) with its order,
  the oracle lists that stand for the results of system calls, and generic lemmas on words and
  lists used by several components.
\<close>

section \<open>Collections of facts\<close>

named_theorems width_simps \<open>comparisons and ranks of SIMD widths\<close>
named_theorems tsd_frame \<open>fields an operation leaves unchanged\<close>

section \<open>Machine integers and error codes\<close>

type_synonym u8 = "8 word"
type_synonym u32 = "32 word"
type_synonym u64 = "64 word"

text \<open>The bounds of \<^verbatim>\<open>int\<close> on x86-64 Linux.\<close>

abbreviation INT_MAX :: int where "INT_MAX \<equiv> 2147483647"
abbreviation INT_MIN :: int where "INT_MIN \<equiv> - 2147483648"

text \<open>
  The \<^verbatim>\<open>errno\<close> values the sources assign or test. \<^verbatim>\<open>ENOTSUP\<close> and \<^verbatim>\<open>EOPNOTSUPP\<close> are the same
  number on Linux. \<open>EOTHER n\<close> is any other code a system call may report.
\<close>

datatype errno =
    EPERM | ENOENT | ESRCH | EINTR | EIO | E2BIG | EBADF | EAGAIN | ENOMEM | EACCES | EBUSY
  | ENODEV | EINVAL | ERANGE | EDEADLK | ENODATA | EOPNOTSUPP | EKEYREJECTED | EOTHER nat

abbreviation ENOTSUP :: errno where "ENOTSUP \<equiv> EOPNOTSUPP"

text \<open>A C function that returns 0, or -1 with \<^verbatim>\<open>errno\<close> set, returns one of these.\<close>

type_synonym rc = "errno + unit"

abbreviation ok :: rc where "ok \<equiv> Inr ()"

section \<open>SIMD widths\<close>

text \<open>
  \<^verbatim>\<open>simd_width_t\<close>. GCC gives the enumeration an unsigned underlying type, so an object of it
  can also hold numbers beyond the three enumerators: \<open>SIMD_OTHER n\<close> is the value \<open>n + 3\<close>.
  These are the values the range checks of the sources reject.
\<close>

datatype simd_width_t = SIMD_SSE41 | SIMD_AVX2 | SIMD_AVX512 | SIMD_OTHER nat

primrec width_rank :: "simd_width_t \<Rightarrow> nat" where
  "width_rank SIMD_SSE41 = 0"
| "width_rank SIMD_AVX2 = 1"
| "width_rank SIMD_AVX512 = 2"
| "width_rank (SIMD_OTHER n) = n + 3"

definition width_of_nat :: "nat \<Rightarrow> simd_width_t" where
  "width_of_nat n = (if n = 0 then SIMD_SSE41 else if n = 1 then SIMD_AVX2
     else if n = 2 then SIMD_AVX512 else SIMD_OTHER (n - 3))"

lemma width_of_nat_rank [simp]: "width_of_nat (width_rank w) = w"
  by (cases w) (auto simp: width_of_nat_def)

lemma width_rank_of_nat [simp]: "width_rank (width_of_nat n) = n"
  by (auto simp: width_of_nat_def)

lemma width_rank_inj: "width_rank v = width_rank w \<longleftrightarrow> v = w"
  by (metis width_of_nat_rank)

instantiation simd_width_t :: linorder
begin

definition less_eq_simd_width_t :: "simd_width_t \<Rightarrow> simd_width_t \<Rightarrow> bool" where
  "less_eq_simd_width_t v w = (width_rank v \<le> width_rank w)"

definition less_simd_width_t :: "simd_width_t \<Rightarrow> simd_width_t \<Rightarrow> bool" where
  "less_simd_width_t v w = (width_rank v < width_rank w)"

instance
  by standard (auto simp: less_eq_simd_width_t_def less_simd_width_t_def width_rank_inj)

end

text \<open>The range check \<^verbatim>\<open>width < SIMD_SSE41 || width > SIMD_AVX512\<close> of the sources.\<close>

definition width_valid :: "simd_width_t \<Rightarrow> bool" where
  "width_valid w = (\<not> (w < SIMD_SSE41 \<or> w > SIMD_AVX512))"

lemma width_valid_simps [simp, width_simps]:
  "width_valid SIMD_SSE41" "width_valid SIMD_AVX2" "width_valid SIMD_AVX512"
  "\<not> width_valid (SIMD_OTHER n)"
  by (simp_all add: width_valid_def less_simd_width_t_def)

lemma width_less_simps [simp, width_simps]:
  "\<not> w < SIMD_SSE41" "SIMD_SSE41 < SIMD_AVX2" "SIMD_SSE41 < SIMD_AVX512" "SIMD_AVX2 < SIMD_AVX512"
  "SIMD_SSE41 < SIMD_OTHER n" "SIMD_AVX2 < SIMD_OTHER n" "SIMD_AVX512 < SIMD_OTHER n"
  "\<not> SIMD_AVX2 < SIMD_AVX2" "\<not> SIMD_AVX512 < SIMD_AVX2" "\<not> SIMD_AVX512 < SIMD_AVX512"
  "\<not> SIMD_OTHER n < SIMD_AVX2" "\<not> SIMD_OTHER n < SIMD_AVX512"
  by (simp_all add: less_simd_width_t_def)

lemma width_le_simps [simp, width_simps]:
  "SIMD_SSE41 \<le> w" "\<not> SIMD_AVX2 \<le> SIMD_SSE41" "\<not> SIMD_AVX512 \<le> SIMD_SSE41"
  "\<not> SIMD_OTHER n \<le> SIMD_SSE41" "SIMD_AVX2 \<le> SIMD_AVX512" "\<not> SIMD_AVX512 \<le> SIMD_AVX2"
  "\<not> SIMD_OTHER n \<le> SIMD_AVX2" "\<not> SIMD_OTHER n \<le> SIMD_AVX512"
  "SIMD_AVX2 \<le> SIMD_OTHER n" "SIMD_AVX512 \<le> SIMD_OTHER n"
  by (simp_all add: less_eq_simd_width_t_def)

lemma width_gt_sse [simp, width_simps]: "SIMD_SSE41 < w \<longleftrightarrow> w \<noteq> SIMD_SSE41"
  by (cases w) simp_all

lemma width_le_sse [simp, width_simps]: "w \<le> SIMD_SSE41 \<longleftrightarrow> w = SIMD_SSE41"
  by (cases w) simp_all

lemma width_valid_iff: "width_valid w \<longleftrightarrow> w \<in> {SIMD_SSE41, SIMD_AVX2, SIMD_AVX512}"
  by (cases w) simp_all

lemma width_valid_le: "v \<le> w \<Longrightarrow> width_valid w \<Longrightarrow> width_valid v"
  by (cases v; cases w) simp_all

section \<open>Oracle lists\<close>

text \<open>
  The result of a system call is not determined by the program. The model keeps, per call, a
  list of the results the operating system will give, and each call consumes one; an exhausted
  list means the stated default. Quantifying over the list quantifies over every behaviour of
  the call.
\<close>

fun next_of :: "'a \<Rightarrow> 'a list \<Rightarrow> 'a \<times> 'a list" where
  "next_of d [] = (d, [])"
| "next_of d (x # xs) = (x, xs)"

lemma next_of_rest: "set (snd (next_of d l)) \<subseteq> set l"
  by (cases l) auto

section \<open>Generic lemmas\<close>

lemma unat_plus_simple_le: "unat x + unat y < 2 ^ LENGTH('a) \<Longrightarrow> unat (x + y) = unat x + unat y"
  for x y :: "'a::len word"
  by (simp add: unat_word_ariths)

lemma unat_of_nat_lt: "n < 2 ^ LENGTH('a) \<Longrightarrow> unat (of_nat n :: 'a::len word) = n"
  by (simp add: unat_of_nat)

lemma unat_lt_pow: "unat (x :: 'a::len word) < 2 ^ LENGTH('a)"
  by (rule unsigned_less)

lemma unat_ucast_u32_u64: "unat (ucast (x :: u32) :: u64) = unat x"
  using unat_lt_pow [of x] by (simp add: unsigned_ucast_eq take_bit_nat_eq_self)

lemma unat_drop_bit_u64: "unat (drop_bit n x) = unat x div 2 ^ n" for x :: u64
proof -
  have "take_bit 64 (unat x) = unat x"
    using unat_lt_pow [of x] by (simp add: take_bit_nat_eq_self)
  then have "unat (drop_bit n x) = drop_bit n (unat x)" by (simp add: unsigned_drop_bit_eq)
  also have "\<dots> = unat x div 2 ^ n" by (rule drop_bit_eq_div)
  finally show ?thesis .
qed

section \<open>Reachability and invariants\<close>

text \<open>
  States a system can be in, and the states a run reaches while every state satisfies a
  condition. A component states its invariant by interpreting \<open>inductive_invariant\<close> on its own
  initial states and steps.
\<close>

inductive reachable :: "('s \<Rightarrow> bool) \<Rightarrow> ('s \<Rightarrow> 's \<Rightarrow> bool) \<Rightarrow> 's \<Rightarrow> bool" for init step where
  reachable_init: "init s \<Longrightarrow> reachable init step s"
| reachable_step: "reachable init step s \<Longrightarrow> step s s' \<Longrightarrow> reachable init step s'"

inductive run_while :: "('s \<Rightarrow> 's \<Rightarrow> bool) \<Rightarrow> ('s \<Rightarrow> bool) \<Rightarrow> 's \<Rightarrow> 's \<Rightarrow> bool" for step P where
  run_refl: "run_while step P s s"
| run_step: "run_while step P s s' \<Longrightarrow> step s' s'' \<Longrightarrow> P s'' \<Longrightarrow> run_while step P s s''"

locale inductive_invariant =
  fixes init :: "'s \<Rightarrow> bool" and step :: "'s \<Rightarrow> 's \<Rightarrow> bool" and inv :: "'s \<Rightarrow> bool"
  assumes init_inv: "init s \<Longrightarrow> inv s"
    and step_inv: "inv s \<Longrightarrow> step s s' \<Longrightarrow> inv s'"
begin

lemma reachable_inv: "reachable init step s \<Longrightarrow> inv s"
  by (induction rule: reachable.induct) (auto intro: init_inv step_inv)

lemma run_inv: "run_while step P s s' \<Longrightarrow> inv s \<Longrightarrow> inv s'"
  by (induction rule: run_while.induct) (auto intro: step_inv)

end

end
