(* ===== verification/Statistics.thy ===== *)
theory Statistics
  imports TSD_Prelude "HOL-Library.Multiset"
begin

text \<open>
  \<^verbatim>\<open>src/statistics.c\<close>: the integer EWMA \<^verbatim>\<open>tsd_update_ewma\<close> and the trimmed mean
  \<^verbatim>\<open>tsd_compute_trimmed_mean\<close> with its in-place insertion sort. The words keep the widths of the
  C types; the array loops are index loops over a list.
\<close>

abbreviation TSD_RATIO_HISTORY :: nat where "TSD_RATIO_HISTORY \<equiv> 8"

section \<open>EWMA\<close>

definition tsd_update_ewma :: "u64 \<Rightarrow> u64 \<Rightarrow> nat \<Rightarrow> u64" where
  "tsd_update_ewma prev sample shift =
     (if prev = 0 \<or> shift = 0 then sample
      else if sample = prev then prev
      else if sample > prev then
        (let delta = sample - prev;
             step = drop_bit shift delta;
             step = (if step = 0 then 1 else step);
             nxt = prev + step
         in if nxt > sample then sample else nxt)
      else
        (let delta = prev - sample;
             step = drop_bit shift delta;
             step = (if step = 0 then 1 else step);
             nxt = prev - step
         in if nxt < sample then sample else nxt))"

section \<open>Insertion sort and trimmed mean\<close>

text \<open>The inner \<^verbatim>\<open>while\<close> loop and the store of the key behind it.\<close>

fun sift_down :: "u32 \<Rightarrow> u32 list \<Rightarrow> nat \<Rightarrow> u32 list" where
  "sift_down key scratch 0 = scratch[0 := key]"
| "sift_down key scratch (Suc j) =
     (if scratch ! j > key then sift_down key (scratch[Suc j := scratch ! j]) j
      else scratch[Suc j := key])"

text \<open>The outer \<^verbatim>\<open>for\<close> loop.\<close>

function insertion_loop :: "nat \<Rightarrow> nat \<Rightarrow> u32 list \<Rightarrow> u32 list" where
  "insertion_loop cnt i scratch =
     (if i < cnt then insertion_loop cnt (Suc i) (sift_down (scratch ! i) scratch i)
      else scratch)"
  by pat_completeness auto
termination
  by (relation "measure (\<lambda>(cnt, i, _). cnt - i)") auto

declare insertion_loop.simps [simp del]

definition sum_range :: "u32 list \<Rightarrow> nat \<Rightarrow> nat \<Rightarrow> u64" where
  "sum_range scratch start stop = fold (\<lambda>i sum. sum + ucast (scratch ! i)) [start..<stop] 0"

definition tsd_compute_trimmed_mean :: "u32 list option \<Rightarrow> nat \<Rightarrow> u32" where
  "tsd_compute_trimmed_mean values cnt =
     (case values of
        None \<Rightarrow> 0
      | Some vs \<Rightarrow>
          if cnt = 0 then 0
          else let cnt = (if cnt > TSD_RATIO_HISTORY then TSD_RATIO_HISTORY else cnt);
                   scratch = insertion_loop cnt 1 (take cnt vs)
               in if cnt \<le> 2 then ucast (sum_range scratch 0 cnt div of_nat cnt)
                  else let samples = (cnt - 1) - 1
                       in if samples \<noteq> 0
                          then ucast (sum_range scratch 1 (cnt - 1) div of_nat samples)
                          else scratch ! (cnt div 2))"

section \<open>EWMA: bounds, progress, convergence\<close>

lemma unat_drop_bit_le: "unat (drop_bit n x) \<le> unat x" for x :: u64
  by (simp add: unat_drop_bit_u64)

text \<open>The step taken towards the sample: at least one, at most the distance.\<close>

definition ewma_step :: "nat \<Rightarrow> u64 \<Rightarrow> u64" where
  "ewma_step shift delta = (if drop_bit shift delta = 0 then 1 else drop_bit shift delta)"

lemma ewma_step_bounds:
  "delta \<noteq> 0 \<Longrightarrow> 1 \<le> unat (ewma_step shift delta) \<and> unat (ewma_step shift delta) \<le> unat delta"
  using unat_drop_bit_le [of shift delta]
  by (auto simp: ewma_step_def unat_eq_zero Suc_le_eq unat_gt_0)

lemma ewma_up:
  assumes "prev \<noteq> 0" "shift \<noteq> 0" "prev < sample"
  shows "unat (tsd_update_ewma prev sample shift) = unat prev + unat (ewma_step shift (sample - prev))"
    and "unat (ewma_step shift (sample - prev)) \<le> unat sample - unat prev"
proof -
  have d: "unat (sample - prev) = unat sample - unat prev"
    using assms(3) by (simp add: unat_sub less_imp_le)
  have ne: "sample - prev \<noteq> 0" using assms(3) by simp
  from ewma_step_bounds [OF ne, of shift] d
  show b: "unat (ewma_step shift (sample - prev)) \<le> unat sample - unat prev" by simp
  have lt: "unat prev < unat sample" using assms(3) by (simp add: word_less_nat_alt)
  have s64: "unat sample < 2 ^ 64" using unsigned_less [of sample] by simp
  have sum: "unat (prev + ewma_step shift (sample - prev)) = unat prev + unat (ewma_step shift (sample - prev))"
    using b lt s64 by (intro unat_plus_simple_le) simp
  have le: "\<not> prev + ewma_step shift (sample - prev) > sample"
    using b lt sum by (simp add: word_less_nat_alt)
  have "tsd_update_ewma prev sample shift = prev + ewma_step shift (sample - prev)"
    using assms le by (auto simp: tsd_update_ewma_def ewma_step_def Let_def)
  with sum show "unat (tsd_update_ewma prev sample shift) = unat prev + unat (ewma_step shift (sample - prev))"
    by simp
qed

lemma ewma_down:
  assumes "shift \<noteq> 0" "sample < prev"
  shows "unat (tsd_update_ewma prev sample shift) = unat prev - unat (ewma_step shift (prev - sample))"
    and "unat (ewma_step shift (prev - sample)) \<le> unat prev - unat sample"
proof -
  have d: "unat (prev - sample) = unat prev - unat sample"
    using assms(2) by (simp add: unat_sub less_imp_le)
  have ne: "prev - sample \<noteq> 0" using assms(2) by simp
  from ewma_step_bounds [OF ne, of shift] d
  show b: "unat (ewma_step shift (prev - sample)) \<le> unat prev - unat sample" by simp
  have lt: "unat sample < unat prev" using assms(2) by (simp add: word_less_nat_alt)
  have "ewma_step shift (prev - sample) \<le> prev"
    using b by (simp add: word_le_nat_alt)
  then have sub: "unat (prev - ewma_step shift (prev - sample)) = unat prev - unat (ewma_step shift (prev - sample))"
    by (simp add: unat_sub)
  have le: "\<not> prev - ewma_step shift (prev - sample) < sample"
    using b lt sub by (simp add: word_less_nat_alt)
  have "prev \<noteq> 0" using assms(2) by auto
  then have "tsd_update_ewma prev sample shift = prev - ewma_step shift (prev - sample)"
    using assms le by (auto simp: tsd_update_ewma_def ewma_step_def Let_def)
  with sub show "unat (tsd_update_ewma prev sample shift) = unat prev - unat (ewma_step shift (prev - sample))"
    by simp
qed

text \<open>The distance of an estimate from the sample it tracks.\<close>

definition ewma_dist :: "u64 \<Rightarrow> u64 \<Rightarrow> nat" where
  "ewma_dist a b = (if a \<le> b then unat b - unat a else unat a - unat b)"

lemma ewma_dist_zero: "ewma_dist a b = 0 \<longleftrightarrow> a = b"
  by (auto simp: ewma_dist_def word_le_nat_alt word_unat_eq_iff)

lemma ewma_dist_decreases:
  assumes "prev \<noteq> 0" "shift \<noteq> 0" "prev \<noteq> sample"
  shows "ewma_dist (tsd_update_ewma prev sample shift) sample < ewma_dist prev sample"
proof (cases "prev < sample")
  case True
  then have "1 \<le> unat (ewma_step shift (sample - prev))"
    using ewma_step_bounds [of "sample - prev" shift] by simp
  with ewma_up [OF assms(1,2) True] True show ?thesis
    by (auto simp: ewma_dist_def word_le_nat_alt word_less_nat_alt)
next
  case False
  with assms(3) have lt: "sample < prev" by simp
  then have "1 \<le> unat (ewma_step shift (prev - sample))"
    using ewma_step_bounds [of "prev - sample" shift] by simp
  with ewma_down [OF assms(2) lt] lt show ?thesis
    by (auto simp: ewma_dist_def word_le_nat_alt word_less_nat_alt)
qed

lemma ewma_between:
  assumes "prev \<noteq> 0"
  shows "min prev sample \<le> tsd_update_ewma prev sample shift \<and>
    tsd_update_ewma prev sample shift \<le> max prev sample"
proof (cases "shift = 0 \<or> prev = sample")
  case True
  then show ?thesis by (auto simp: tsd_update_ewma_def)
next
  case False
  then consider "prev < sample" | "sample < prev" by force
  then show ?thesis
  proof cases
    case 1
    with ewma_up [of prev shift sample] assms False show ?thesis
      by (auto simp: word_le_nat_alt word_less_nat_alt min_def max_def)
  next
    case 2
    with ewma_down [of shift sample prev] assms False show ?thesis
      by (auto simp: word_le_nat_alt word_less_nat_alt min_def max_def)
  qed
qed

text \<open>Feeding the same sample again and again.\<close>

fun ewma_iterate :: "u64 \<Rightarrow> u64 \<Rightarrow> nat \<Rightarrow> nat \<Rightarrow> u64" where
  "ewma_iterate prev sample shift 0 = prev"
| "ewma_iterate prev sample shift (Suc n) =
     ewma_iterate (tsd_update_ewma prev sample shift) sample shift n"

lemma ewma_fixed [simp]: "tsd_update_ewma sample sample shift = sample"
  by (simp add: tsd_update_ewma_def)

lemma ewma_iterate_fixed [simp]: "ewma_iterate sample sample shift n = sample"
  by (induction n) simp_all

lemma ewma_iterate_reaches:
  "ewma_dist prev sample \<le> n \<Longrightarrow> prev \<noteq> 0 \<or> 0 < n \<Longrightarrow> ewma_iterate prev sample shift n = sample"
proof (induction n arbitrary: prev)
  case 0
  then show ?case by (simp add: ewma_dist_zero)
next
  case (Suc n)
  show ?case
  proof (cases "prev = 0 \<or> shift = 0 \<or> prev = sample")
    case True
    then show ?thesis by (auto simp: tsd_update_ewma_def)
  next
    case False
    let ?x = "tsd_update_ewma prev sample shift"
    from False have d: "ewma_dist ?x sample \<le> n"
      using ewma_dist_decreases [of prev shift sample] Suc.prems by simp
    show ?thesis
    proof (cases "?x = sample")
      case True
      then show ?thesis by (simp del: ewma_iterate.simps(1))
    next
      case ne: False
      with d have "?x \<noteq> 0 \<or> 0 < n" using ewma_dist_zero [of ?x sample] by (cases n) auto
      from Suc.IH [OF d this] show ?thesis by simp
    qed
  qed
qed

section \<open>The in-place insertion sort computes \<open>sort\<close>\<close>

lemma length_sift_down [simp]: "length (sift_down key xs j) = length xs"
  by (induction key xs j rule: sift_down.induct) auto

lemma insort_snoc_greater: "key < z \<Longrightarrow> insort key (ys @ [z]) = insort key ys @ [z]"
  by (induction ys) auto

lemma insort_snoc_max:
  "sorted ys \<Longrightarrow> \<forall>y \<in> set ys. y \<le> key \<Longrightarrow> insort key ys = ys @ [key]"
proof (induction ys)
  case (Cons y ys)
  then have IH: "insort key ys = ys @ [key]" by simp
  show ?case
  proof (cases "key \<le> y")
    case True
    with Cons.prems have "y = key" and "\<forall>z \<in> set ys. z = key" by force+
    then show ?thesis using IH by (cases ys) auto
  qed (simp add: IH)
qed simp

lemma sift_down_insort:
  "j < length xs \<Longrightarrow> sorted (take j xs) \<Longrightarrow>
   sift_down key xs j = insort key (take j xs) @ drop (Suc j) xs"
proof (induction key xs j rule: sift_down.induct)
  case (1 key xs)
  then show ?case by (cases xs) auto
next
  case (2 key xs j)
  have split: "take (Suc j) xs = take j xs @ [xs ! j]"
    using 2(2) by (simp add: take_Suc_conv_app_nth)
  show ?case
  proof (cases "xs ! j > key")
    case True
    let ?ys = "xs[Suc j := xs ! j]"
    have "take j ?ys = take j xs" by simp
    moreover have "drop (Suc j) ?ys = xs ! j # drop (Suc (Suc j)) xs"
      using 2(2) by (simp add: drop_update_swap Cons_nth_drop_Suc [symmetric])
    moreover have "sorted (take j xs)"
      using 2(3) split by (simp add: sorted_append)
    ultimately have "sift_down key ?ys j = insort key (take j xs) @ xs ! j # drop (Suc (Suc j)) xs"
      using 2(1) [OF True] 2(2) by simp
    moreover have "insort key (take j xs @ [xs ! j]) = insort key (take j xs) @ [xs ! j]"
      using True by (rule insort_snoc_greater)
    ultimately show ?thesis using True split by simp
  next
    case False
    moreover have "\<forall>y \<in> set (take j xs). y \<le> xs ! j"
      using 2(3) split by (simp add: sorted_append)
    ultimately have "insort key (take (Suc j) xs) = take (Suc j) xs @ [key]"
      using 2(3) split by (intro insort_snoc_max) auto
    moreover have "xs[Suc j := key] = take (Suc j) xs @ key # drop (Suc (Suc j)) xs"
      using 2(2) by (simp add: upd_conv_take_nth_drop)
    ultimately show ?thesis using False by simp
  qed
qed

lemma insertion_loop_sort:
  "length xs = n \<Longrightarrow> i \<le> n \<Longrightarrow> sorted (take i xs) \<Longrightarrow>
   sorted (insertion_loop n i xs) \<and> mset (insertion_loop n i xs) = mset xs"
proof (induction n i xs rule: insertion_loop.induct)
  case (1 n i xs)
  show ?case
  proof (cases "i < n")
    case False
    then have "insertion_loop n i xs = xs" by (simp add: insertion_loop.simps [of n i xs])
    with False 1 show ?thesis by simp
  next
    case True
    let ?ys = "sift_down (xs ! i) xs i"
    have eq: "?ys = insort (xs ! i) (take i xs) @ drop (Suc i) xs"
      using True 1(2,4) by (intro sift_down_insort) auto
    have "length (insort (xs ! i) (take i xs)) = Suc i" using True 1(2) by simp
    then have "take (Suc i) ?ys = insort (xs ! i) (take i xs)" by (simp add: eq)
    then have "sorted (take (Suc i) ?ys)" using 1(4) by (simp add: sorted_insort)
    then have "sorted (insertion_loop n (Suc i) ?ys) \<and> mset (insertion_loop n (Suc i) ?ys) = mset ?ys"
      using True 1(2) by (intro 1(1)) auto
    moreover have "mset xs = mset (take i xs @ xs ! i # drop (Suc i) xs)"
      using True 1(2) by (intro arg_cong [where f = mset] id_take_nth_drop) simp
    then have "mset ?ys = mset xs" unfolding eq by (simp only: mset_append mset_insort) simp
    ultimately show ?thesis using True by (simp add: insertion_loop.simps [of n i xs])
  qed
qed

lemma insertion_loop_eq_sort: "insertion_loop (length xs) 1 xs = sort xs"
proof (cases "xs = []")
  case True
  then show ?thesis by (simp add: insertion_loop.simps)
next
  case False
  then have "sorted (take 1 xs)" and "1 \<le> length xs" by (cases xs; simp)+
  from insertion_loop_sort [OF refl this(2,1)] show ?thesis
    by (metis properties_for_sort)
qed

lemma length_insertion_loop [simp]: "length (insertion_loop n i xs) = length xs"
proof (induction n i xs rule: insertion_loop.induct)
  case (1 n i xs)
  then show ?case by (cases "i < n") (simp_all add: insertion_loop.simps [of n i xs])
qed

section \<open>The accumulating loops do not overflow\<close>

lemma fold_sum_unat:
  "unat s + sum_list (map (\<lambda>i. unat (xs ! i)) is) < 2 ^ 64 \<Longrightarrow>
   unat (fold (\<lambda>i sum. sum + ucast (xs ! i)) is s) = unat s + sum_list (map (\<lambda>i. unat (xs ! i)) is)"
  for s :: u64 and xs :: "u32 list"
proof (induction "is" arbitrary: s)
  case (Cons i "is")
  have "unat (s + ucast (xs ! i)) = unat s + unat (xs ! i)"
    using Cons.prems by (subst unat_plus_simple_le) (simp_all add: unat_ucast_u32_u64)
  with Cons show ?case by simp
qed simp

lemma sum_list_bound: "\<forall>x \<in> set xs. f x < (k::nat) \<Longrightarrow> sum_list (map f xs) \<le> length xs * k"
  by (induction xs) (auto simp: add_mono less_imp_le)

lemma map_nth_range: "stop \<le> length xs \<Longrightarrow> map (\<lambda>i. f (xs ! i)) [start..<stop] = map f (drop start (take stop xs))"
  by (rule nth_equalityI) auto

lemma sum_range_unat:
  assumes "stop \<le> length xs" "stop \<le> 8"
  shows "unat (sum_range xs start stop) = sum_list (map unat (drop start (take stop xs)))"
proof -
  let ?l = "map (\<lambda>i. unat (xs ! i)) [start..<stop]"
  have "sum_list ?l \<le> length [start..<stop] * 2 ^ 32"
    using unat_lt_pow [where 'a = 32] by (intro sum_list_bound) simp
  also have "\<dots> \<le> 8 * 2 ^ 32" using assms(2) by simp
  also have "\<dots> < (2::nat) ^ 64" by simp
  finally have "unat (sum_range xs start stop) = sum_list ?l"
    unfolding sum_range_def by (subst fold_sum_unat) simp_all
  then show ?thesis using assms(1) by (simp add: map_nth_range)
qed

section \<open>Trimmed mean against its specification\<close>

text \<open>
  What the trimmed mean promises: the plain mean of at most two values, otherwise the mean of the
  values without one smallest and one largest.
\<close>

definition trimmed_spec :: "nat list \<Rightarrow> nat" where
  "trimmed_spec vs =
     (let s = sort vs in
      if length vs \<le> 2 then sum_list s div length s
      else sum_list (butlast (tl s)) div (length s - 2))"

lemma sort_map_unat: "sort (map unat xs) = map unat (sort xs)" for xs :: "u32 list"
proof -
  have "sorted (map unat (sort xs))"
    by (simp add: sorted_map word_le_nat_alt [symmetric])
  then show ?thesis by (intro properties_for_sort) simp_all
qed

lemma mean_bounds:
  assumes "xs \<noteq> []" "\<forall>x \<in> set xs. lo \<le> x \<and> x \<le> (hi::nat)"
  shows "lo \<le> sum_list xs div length xs \<and> sum_list xs div length xs \<le> hi"
proof -
  have "length xs * lo \<le> sum_list xs \<and> sum_list xs \<le> length xs * hi"
    using assms(2) by (induction xs) auto
  then have "length xs * lo div length xs \<le> sum_list xs div length xs \<and>
    sum_list xs div length xs \<le> length xs * hi div length xs"
    by (intro conjI div_le_mono) simp_all
  then show ?thesis using assms(1) by simp
qed

lemma butlast_tl_conv: "butlast (tl xs) = drop 1 (take (length xs - 1) xs)"
  by (cases xs) (auto simp: butlast_conv_take drop_take)

lemma set_butlast_tl: "set (butlast (tl xs)) \<subseteq> set xs"
  by (cases xs) (auto dest: in_set_butlastD)

lemma trimmed_spec_bounds:
  assumes "vs \<noteq> []" "\<forall>v \<in> set vs. lo \<le> v \<and> v \<le> hi"
  shows "lo \<le> trimmed_spec vs \<and> trimmed_spec vs \<le> hi"
proof (cases "length vs \<le> 2")
  case True
  have "sort vs \<noteq> []" using assms(1) by (metis length_0_conv length_sort)
  with True assms(2) mean_bounds [of "sort vs" lo hi] show ?thesis
    by (simp add: trimmed_spec_def)
next
  case False
  then have "length (butlast (tl (sort vs))) = length vs - 2" by simp
  moreover with False have "butlast (tl (sort vs)) \<noteq> []" by (simp del: length_butlast length_tl flip: length_0_conv)
  moreover have "\<forall>v \<in> set (butlast (tl (sort vs))). lo \<le> v \<and> v \<le> hi"
    using set_butlast_tl [of "sort vs"] assms(2) by auto
  ultimately show ?thesis using False mean_bounds [of "butlast (tl (sort vs))" lo hi]
    by (simp add: trimmed_spec_def Let_def)
qed

lemma ucast_mean:
  assumes "unat (tot :: u64) = sum_list (map unat (xs :: u32 list))" "xs \<noteq> []" "length xs \<le> 8" "n = length xs"
  shows "unat (ucast (tot div of_nat n) :: u32) = sum_list (map unat xs) div n"
proof -
  have "\<forall>x \<in> set (map unat xs). 0 \<le> x \<and> x \<le> 2 ^ 32 - 1"
    using unat_lt_pow [where 'a = 32] by (fastforce simp flip: less_Suc_eq_le)
  from mean_bounds [OF _ this] assms(2,4)
  have "sum_list (map unat xs) div n \<le> 2 ^ 32 - 1" by simp
  moreover have "unat (of_nat n :: u64) = n" using assms(3,4) by (intro unat_of_nat_lt) simp
  ultimately show ?thesis
    using assms(1) by (simp add: unsigned_ucast_eq unat_div take_bit_nat_eq_self)
qed

lemma trimmed_mean_eq_spec:
  assumes "1 \<le> n" "n \<le> length vs"
  shows "unat (tsd_compute_trimmed_mean (Some vs) n) =
    trimmed_spec (map unat (take (min n TSD_RATIO_HISTORY) vs))"
proof -
  define m where "m = min n TSD_RATIO_HISTORY"
  define xs where "xs = take m vs"
  have len: "length xs = m" "1 \<le> m" "m \<le> 8" using assms by (auto simp: xs_def m_def)
  have m_if: "(if n > TSD_RATIO_HISTORY then TSD_RATIO_HISTORY else n) = m" by (simp add: m_def)
  have srt: "insertion_loop m 1 xs = sort xs" using insertion_loop_eq_sort [of xs] len(1) by simp
  have spec: "trimmed_spec (map unat xs) =
    (if m \<le> 2 then sum_list (map unat (sort xs)) div m
     else sum_list (map unat (butlast (tl (sort xs)))) div (m - 2))"
    using len by (simp add: trimmed_spec_def sort_map_unat Let_def map_tl map_butlast)
  show ?thesis
  proof (cases "m \<le> 2")
    case True
    have "unat (ucast (sum_range (sort xs) 0 m div of_nat m) :: u32) = sum_list (map unat (sort xs)) div m"
      using len by (intro ucast_mean) (auto simp: sum_range_unat simp flip: length_0_conv)
    then show ?thesis
      using True spec assms(1) m_if srt
      by (simp add: tsd_compute_trimmed_mean_def Let_def xs_def [symmetric] m_def [symmetric])
  next
    case False
    let ?b = "butlast (tl (sort xs))"
    have lb: "length ?b = m - 2" using len by simp
    have "unat (sum_range (sort xs) 1 (m - 1)) = sum_list (map unat ?b)"
      using len by (subst sum_range_unat) (simp_all add: butlast_tl_conv)
    then have "unat (ucast (sum_range (sort xs) 1 (m - 1) div of_nat (m - 2)) :: u32) =
      sum_list (map unat ?b) div (m - 2)"
      using lb len False by (intro ucast_mean) (auto simp flip: length_0_conv)
    then show ?thesis
      using False spec assms(1) m_if srt
      by (simp add: tsd_compute_trimmed_mean_def Let_def xs_def [symmetric] m_def [symmetric] numeral_2_eq_2)
  qed
qed

section \<open>Properties\<close>

text \<open>
  C40. The trimmed mean of at least one value is the mean of the first (at most eight) values
  without one smallest and one largest when there are more than two, and it lies between any
  lower and upper bound of these values. In particular the 64-bit sum does not wrap and the
  final conversion to 32 bits loses nothing.
\<close>
theorem trimmed_mean_correct:
  assumes "1 \<le> n" "n \<le> length vs" "\<forall>v \<in> set (take TSD_RATIO_HISTORY vs). lo \<le> v \<and> v \<le> hi"
  shows "unat (tsd_compute_trimmed_mean (Some vs) n) =
      trimmed_spec (map unat (take (min n TSD_RATIO_HISTORY) vs)) \<and>
    lo \<le> tsd_compute_trimmed_mean (Some vs) n \<and> tsd_compute_trimmed_mean (Some vs) n \<le> hi"
proof -
  let ?xs = "map unat (take (min n TSD_RATIO_HISTORY) vs)"
  have eq: "unat (tsd_compute_trimmed_mean (Some vs) n) = trimmed_spec ?xs"
    using assms(1,2) by (rule trimmed_mean_eq_spec)
  have "set (take (min n TSD_RATIO_HISTORY) vs) \<subseteq> set (take TSD_RATIO_HISTORY vs)"
    by (simp add: set_take_subset_set_take)
  then have "\<forall>v \<in> set ?xs. unat lo \<le> v \<and> v \<le> unat hi"
    using assms(3) by (auto simp: word_le_nat_alt)
  moreover have "?xs \<noteq> []" using assms(1,2) by (cases vs) auto
  ultimately have "unat lo \<le> trimmed_spec ?xs \<and> trimmed_spec ?xs \<le> unat hi"
    by (intro trimmed_spec_bounds)
  then show ?thesis by (simp add: word_le_nat_alt eq)
qed

theorem trimmed_mean_correct_witness:
  "unat (tsd_compute_trimmed_mean (Some [900, 100, 1000, 700]) 4) = 800 \<and>
   100 \<le> tsd_compute_trimmed_mean (Some [900, 100, 1000, 700]) 4 \<and>
   tsd_compute_trimmed_mean (Some [900, 100, 1000, 700]) 4 \<le> 1000"
  using trimmed_mean_correct [of 4 "[900, 100, 1000, 700]" 100 1000]
  by (simp add: trimmed_spec_def Let_def flip: numeral_2_eq_2)

text \<open>
  The integer EWMA moves towards the sample without leaving the interval between the two,
  and repeating the same sample reaches it exactly after at most as many updates as their
  distance: the forced step of one means that the shift never leaves a residue.
\<close>
theorem ewma_converges:
  assumes "prev \<noteq> 0" "ewma_dist prev sample \<le> n"
  shows "min prev sample \<le> tsd_update_ewma prev sample shift \<and>
    tsd_update_ewma prev sample shift \<le> max prev sample \<and>
    ewma_iterate prev sample shift n = sample"
  using assms ewma_between [OF assms(1)] ewma_iterate_reaches by blast

theorem ewma_converges_witness:
  "min 1000 1003 \<le> tsd_update_ewma 1000 1003 3 \<and> tsd_update_ewma 1000 1003 3 \<le> max 1000 1003 \<and>
   ewma_iterate 1000 1003 3 3 = 1003"
  using ewma_converges [of 1000 1003 3 3] by (simp add: ewma_dist_def)

end
