(* ===== verification/Float64.thy ===== *)
theory Float64
  imports TSD_Prelude "HOL-Library.Log_Nat"
begin

text \<open>
  The C type \<^verbatim>\<open>double\<close> (IEEE 754 binary64, round to nearest, ties to even) as the sources use it.
  A finite value is the rational number it denotes; every arithmetic operation is the exact
  rational operation followed by \<open>rnd64\<close>. The sign of a zero is not kept: no code modelled here
  can observe it.
\<close>

section \<open>Rounding\<close>

datatype dbl = Fin rat | PInf | NInf | NaN

definition pow2 :: "int \<Rightarrow> rat" where
  "pow2 k = (if 0 \<le> k then 2 ^ nat k else 1 / 2 ^ nat (- k))"

text \<open>The binary exponent of a positive rational.\<close>

definition binexp :: "rat \<Rightarrow> int" where
  "binexp x = (let (p, q) = quotient_of x; e = bitlen p - bitlen q in if pow2 e \<le> x then e else e - 1)"

definition round_half_even :: "rat \<Rightarrow> int" where
  "round_half_even y = (let f = \<lfloor>y\<rfloor>; d = y - of_int f in
     if d < 1 / 2 then f else if d > 1 / 2 then f + 1 else if even f then f else f + 1)"

text \<open>The exponent of the unit in the last place; \<open>- 1074\<close> is the one of the subnormal numbers.\<close>

definition ulp_exp :: "rat \<Rightarrow> int" where
  "ulp_exp x = max (binexp \<bar>x\<bar> - 52) (- 1074)"

definition rnd64 :: "rat \<Rightarrow> dbl" where
  "rnd64 x =
     (if x = 0 then Fin 0
      else let u = ulp_exp x; r = of_int (round_half_even (x / pow2 u)) * pow2 u
           in if \<bar>r\<bar> \<ge> pow2 1024 then (if x > 0 then PInf else NInf) else Fin r)"

section \<open>Operations\<close>

definition dbl_of_int :: "int \<Rightarrow> dbl" where
  "dbl_of_int n = rnd64 (of_int n)"

fun isfinite :: "dbl \<Rightarrow> bool" where
  "isfinite (Fin _) = True"
| "isfinite _ = False"

fun isnan :: "dbl \<Rightarrow> bool" where
  "isnan NaN = True"
| "isnan _ = False"

fun dbl_neg :: "dbl \<Rightarrow> dbl" where
  "dbl_neg (Fin x) = Fin (- x)"
| "dbl_neg PInf = NInf"
| "dbl_neg NInf = PInf"
| "dbl_neg NaN = NaN"

fun dbl_add :: "dbl \<Rightarrow> dbl \<Rightarrow> dbl" where
  "dbl_add (Fin x) (Fin y) = rnd64 (x + y)"
| "dbl_add NaN _ = NaN"
| "dbl_add _ NaN = NaN"
| "dbl_add PInf NInf = NaN"
| "dbl_add NInf PInf = NaN"
| "dbl_add PInf _ = PInf"
| "dbl_add _ PInf = PInf"
| "dbl_add NInf _ = NInf"
| "dbl_add _ NInf = NInf"

definition dbl_sub :: "dbl \<Rightarrow> dbl \<Rightarrow> dbl" where
  "dbl_sub a b = dbl_add a (dbl_neg b)"

fun dbl_sgn :: "dbl \<Rightarrow> int" where
  "dbl_sgn (Fin x) = (if x > 0 then 1 else if x < 0 then - 1 else 0)"
| "dbl_sgn PInf = 1"
| "dbl_sgn NInf = - 1"
| "dbl_sgn NaN = 0"

definition dbl_inf :: "int \<Rightarrow> dbl" where
  "dbl_inf s = (if s > 0 then PInf else if s < 0 then NInf else NaN)"

fun dbl_mul :: "dbl \<Rightarrow> dbl \<Rightarrow> dbl" where
  "dbl_mul (Fin x) (Fin y) = rnd64 (x * y)"
| "dbl_mul NaN _ = NaN"
| "dbl_mul _ NaN = NaN"
| "dbl_mul a b = dbl_inf (dbl_sgn a * dbl_sgn b)"

text \<open>Division by a zero is kept as \<open>NaN\<close> for \<open>0 / 0\<close>; the sources divide by positive constants only.\<close>

fun dbl_div :: "dbl \<Rightarrow> dbl \<Rightarrow> dbl" where
  "dbl_div (Fin x) (Fin y) = (if y = 0 then dbl_inf (dbl_sgn (Fin x)) else rnd64 (x / y))"
| "dbl_div NaN _ = NaN"
| "dbl_div _ NaN = NaN"
| "dbl_div (Fin x) _ = Fin 0"
| "dbl_div a (Fin y) = dbl_inf (dbl_sgn a * (if y < 0 then - 1 else 1))"
| "dbl_div _ _ = NaN"

text \<open>Comparisons: every one with a NaN is false.\<close>

fun dbl_less :: "dbl \<Rightarrow> dbl \<Rightarrow> bool" where
  "dbl_less (Fin x) (Fin y) = (x < y)"
| "dbl_less (Fin _) PInf = True"
| "dbl_less NInf (Fin _) = True"
| "dbl_less NInf PInf = True"
| "dbl_less _ _ = False"

fun dbl_eq :: "dbl \<Rightarrow> dbl \<Rightarrow> bool" where
  "dbl_eq (Fin x) (Fin y) = (x = y)"
| "dbl_eq PInf PInf = True"
| "dbl_eq NInf NInf = True"
| "dbl_eq _ _ = False"

definition dbl_le :: "dbl \<Rightarrow> dbl \<Rightarrow> bool" where
  "dbl_le a b = (dbl_less a b \<or> dbl_eq a b)"

text \<open>Conversion to an integer type discards the fraction.\<close>

fun dbl_trunc :: "dbl \<Rightarrow> int" where
  "dbl_trunc (Fin x) = (if x < 0 then \<lceil>x\<rceil> else \<lfloor>x\<rfloor>)"
| "dbl_trunc _ = 0"

text \<open>\<^verbatim>\<open>llround\<close>: to the nearest integer, ties away from zero.\<close>

fun llround :: "dbl \<Rightarrow> int" where
  "llround (Fin x) = (if x < 0 then - \<lfloor>- x + 1 / 2\<rfloor> else \<lfloor>x + 1 / 2\<rfloor>)"
| "llround _ = 0"

section \<open>Rounding: binade, exactness, error, order\<close>

lemma pow2_powi: "pow2 k = 2 powi k"
  by (simp add: pow2_def power_int_def field_simps power_inverse)

lemma pow2_pos [simp]: "0 < pow2 k"
  by (simp add: pow2_def)

lemma pow2_add: "pow2 (a + b) = pow2 a * pow2 b"
  by (simp add: pow2_powi power_int_add)

lemma pow2_mono: "a \<le> b \<Longrightarrow> pow2 a \<le> pow2 b"
  by (simp add: pow2_powi power_int_increasing)

lemma pow2_strict_mono: "a < b \<Longrightarrow> pow2 a < pow2 b"
  by (simp add: pow2_powi power_int_strict_increasing)

lemma pow2_nat: "pow2 (int n) = 2 ^ n"
  by (simp add: pow2_def)

lemma bitlen_pow2_bounds:
  assumes "0 < p"
  shows "pow2 (bitlen p - 1) \<le> of_int p" "(of_int p :: rat) < pow2 (bitlen p)"
proof -
  have b: "0 < bitlen p" using assms bitlen_eq_zero_iff [of p] bitlen_nonneg [of p] by linarith
  have "2 ^ nat (bitlen p - 1) \<le> p \<and> p < 2 ^ nat (bitlen p)" by (rule bitlen_bounds [OF assms])
  then have "(of_int (2 ^ nat (bitlen p - 1)) :: rat) \<le> of_int p"
    "(of_int p :: rat) < of_int (2 ^ nat (bitlen p))"
    by (simp_all only: of_int_le_iff of_int_less_iff)
  with b show "pow2 (bitlen p - 1) \<le> of_int p" "(of_int p :: rat) < pow2 (bitlen p)"
    by (simp_all add: pow2_def)
qed

lemma binexp_bounds:
  assumes "0 < x"
  shows "pow2 (binexp x) \<le> x" "x < pow2 (binexp x + 1)"
proof -
  obtain p q where pq: "quotient_of x = (p, q)" by fastforce
  then have x: "x = of_int p / of_int q" by (rule quotient_of_div)
  have q: "0 < q" using pq by (rule quotient_of_denom_pos)
  with x assms have p: "0 < p" by (simp add: zero_less_divide_iff)
  let ?e = "bitlen p - bitlen q"
  have xq: "x * of_int q = of_int p" using x q by simp
  have "pow2 (bitlen p - 1) \<le> x * of_int q" using bitlen_pow2_bounds(1) [OF p] xq by simp
  also have "\<dots> < x * pow2 (bitlen q)"
    using bitlen_pow2_bounds(2) [OF q] assms by (rule mult_strict_left_mono)
  finally have "pow2 (?e - 1) * pow2 (bitlen q) < x * pow2 (bitlen q)"
    using pow2_add [of "?e - 1" "bitlen q"] by simp
  then have lo: "pow2 (?e - 1) < x" by simp
  have "x * pow2 (bitlen q - 1) \<le> x * of_int q"
    using bitlen_pow2_bounds(1) [OF q] assms by (intro mult_left_mono) auto
  also have "\<dots> < pow2 (bitlen p)" using bitlen_pow2_bounds(2) [OF p] xq by simp
  finally have "x * pow2 (bitlen q - 1) < pow2 (?e + 1) * pow2 (bitlen q - 1)"
    using pow2_add [of "?e + 1" "bitlen q - 1"] by simp
  then have hi: "x < pow2 (?e + 1)" by simp
  show "pow2 (binexp x) \<le> x" "x < pow2 (binexp x + 1)"
    using lo hi pq by (auto simp: binexp_def Let_def)
qed

lemma round_half_even_int [simp]: "round_half_even (of_int n) = n"
  by (simp add: round_half_even_def)

lemma round_half_even_error: "\<bar>of_int (round_half_even y) - y\<bar> \<le> 1 / 2"
  using floor_correct [of y] by (auto simp: round_half_even_def Let_def)

lemma round_half_even_mono:
  assumes "x \<le> y" shows "round_half_even x \<le> round_half_even y"
proof (cases "\<lfloor>x\<rfloor> = \<lfloor>y\<rfloor>")
  case True
  with assms show ?thesis by (auto simp: round_half_even_def Let_def)
next
  case False
  then have "\<lfloor>x\<rfloor> + 1 \<le> \<lfloor>y\<rfloor>" using floor_mono [OF assms] by linarith
  moreover have "round_half_even x \<le> \<lfloor>x\<rfloor> + 1" "\<lfloor>y\<rfloor> \<le> round_half_even y"
    by (auto simp: round_half_even_def Let_def)
  ultimately show ?thesis by linarith
qed

text \<open>An integer of at most 53 bits is a double, so its conversion is exact.\<close>

lemma pow2_grid_int:
  assumes "u \<le> 0"
  shows "of_int n / pow2 u = of_int (n * 2 ^ nat (- u))"
proof (cases "u = 0")
  case True
  then show ?thesis by (simp add: pow2_def)
next
  case False
  with assms show ?thesis by (simp add: pow2_def)
qed

lemma binexp_le:
  assumes "0 < x" "x < pow2 (k + 1)"
  shows "binexp x \<le> k"
proof (rule ccontr)
  assume "\<not> binexp x \<le> k"
  then have "pow2 (k + 1) \<le> pow2 (binexp x)" by (intro pow2_mono) simp
  with binexp_bounds(1) [OF assms(1)] assms(2) show False by linarith
qed

lemma rnd64_int:
  assumes "\<bar>n\<bar> < 2 ^ 53"
  shows "rnd64 (of_int n) = Fin (of_int n)"
proof (cases "n = 0")
  case True
  then show ?thesis by (simp add: rnd64_def)
next
  case False
  let ?x = "of_int n :: rat" and ?u = "ulp_exp (of_int n)"
  have "(of_int \<bar>n\<bar> :: rat) < of_int (2 ^ 53)" using assms by (simp only: of_int_less_iff)
  then have lt: "\<bar>?x\<bar> < pow2 (52 + 1)" by (simp add: pow2_def)
  then have "binexp \<bar>?x\<bar> \<le> 52" using False by (intro binexp_le) auto
  then have "?u \<le> 0" by (simp add: ulp_exp_def)
  then have "of_int (round_half_even (?x / pow2 ?u)) * pow2 ?u = ?x"
    by (metis pow2_grid_int pow2_pos less_irrefl nonzero_eq_divide_eq round_half_even_int)
  moreover have "\<bar>?x\<bar> < pow2 1024" using lt pow2_strict_mono [of "52 + 1" 1024] by linarith
  ultimately show ?thesis using False by (simp add: rnd64_def Let_def)
qed

lemma dbl_of_int_exact: "\<bar>n\<bar> < 2 ^ 53 \<Longrightarrow> dbl_of_int n = Fin (of_int n)"
  by (simp add: dbl_of_int_def rnd64_int)

lemma isfinite_iff: "isfinite d \<longleftrightarrow> (\<exists>x. d = Fin x)"
  by (cases d) auto

lemma dbl_le_Fin [simp]: "dbl_le (Fin x) (Fin y) \<longleftrightarrow> x \<le> y"
  by (auto simp: dbl_le_def)

section \<open>Rounding is monotone and idempotent\<close>

text \<open>The rounding grid of a binade: \<open>rnd_at u x\<close> is the nearest multiple of \<open>pow2 u\<close>.\<close>

definition rnd_at :: "int \<Rightarrow> rat \<Rightarrow> rat" where
  "rnd_at u x = of_int (round_half_even (x / pow2 u)) * pow2 u"

lemma rnd64_rnd_at:
  "rnd64 x = (if x = 0 then Fin 0 else if \<bar>rnd_at (ulp_exp x) x\<bar> \<ge> pow2 1024 then (if x > 0 then PInf else NInf)
     else Fin (rnd_at (ulp_exp x) x))"
  by (simp add: rnd64_def rnd_at_def Let_def)

lemma rnd_at_mono: "x \<le> y \<Longrightarrow> rnd_at u x \<le> rnd_at u y"
  unfolding rnd_at_def by (intro mult_right_mono of_int_le_iff [THEN iffD2] round_half_even_mono divide_right_mono)
    (simp_all add: less_imp_le)

lemma rnd_at_grid: "rnd_at u (of_int k * pow2 u) = of_int k * pow2 u"
  by (simp add: rnd_at_def)

lemma pow2_as_grid: "u \<le> e \<Longrightarrow> pow2 e = of_int (2 ^ nat (e - u)) * pow2 u"
  using pow2_add [of "e - u" u] by (simp add: pow2_def)

lemma rnd_at_pow2: "u \<le> e \<Longrightarrow> rnd_at u (pow2 e) = pow2 e"
  using rnd_at_grid [of u "2 ^ nat (e - u)"] by (simp only: pow2_as_grid [symmetric])

lemma round_half_even_neg: "round_half_even (- y) = - round_half_even y"
proof (cases "y = of_int \<lfloor>y\<rfloor>")
  case True
  then have "- y = of_int (- \<lfloor>y\<rfloor>)" by simp
  then have "round_half_even (- y) = - \<lfloor>y\<rfloor>" by (simp only: round_half_even_int)
  moreover have "round_half_even y = \<lfloor>y\<rfloor>" using True round_half_even_int [of "\<lfloor>y\<rfloor>"] by simp
  ultimately show ?thesis by simp
next
  case False
  then have strict: "of_int \<lfloor>y\<rfloor> < y" "y < of_int \<lfloor>y\<rfloor> + 1" using floor_correct [of y] by linarith+
  have "\<lfloor>- y\<rfloor> = - \<lfloor>y\<rfloor> - 1" by (rule floor_unique) (use strict in simp_all)
  then show ?thesis by (auto simp: round_half_even_def Let_def)
qed

lemma ulp_exp_neg [simp]: "ulp_exp (- x) = ulp_exp x"
  by (simp add: ulp_exp_def)

lemma rnd_at_neg: "rnd_at u (- x) = - rnd_at u x"
  by (simp add: rnd_at_def round_half_even_neg)

lemma rnd64_neg: "rnd64 (- x) = dbl_neg (rnd64 x)"
  by (auto simp: rnd64_rnd_at rnd_at_neg)

lemma binexp_mono: "0 < x \<Longrightarrow> x \<le> y \<Longrightarrow> binexp x \<le> binexp y"
  using binexp_bounds [of y] by (intro binexp_le) auto

lemma ulp_exp_mono: "0 < x \<Longrightarrow> x \<le> y \<Longrightarrow> ulp_exp x \<le> ulp_exp y"
  using binexp_mono [of x y] by (simp add: ulp_exp_def)

lemma rnd_at_ulp_mono:
  assumes "0 < x" "x \<le> y"
  shows "rnd_at (ulp_exp x) x \<le> rnd_at (ulp_exp y) y"
proof (cases "ulp_exp x = ulp_exp y")
  case True
  then show ?thesis using rnd_at_mono [OF assms(2)] by simp
next
  case False
  let ?b = "binexp x + 1"
  have lt: "ulp_exp x < ulp_exp y" using False ulp_exp_mono [OF assms] by simp
  then have u: "ulp_exp y = binexp y - 52" using assms by (auto simp: ulp_exp_def)
  have b: "binexp x < binexp y" using lt assms by (auto simp: ulp_exp_def split: if_splits)
  have grid: "ulp_exp x \<le> max ?b (- 1074)" using assms by (auto simp: ulp_exp_def)
  have "x \<le> pow2 (max ?b (- 1074))" using binexp_bounds(2) [OF assms(1)] pow2_mono [of ?b "max ?b (- 1074)"] by linarith
  then have "rnd_at (ulp_exp x) x \<le> pow2 (max ?b (- 1074))"
    using rnd_at_mono [of x "pow2 (max ?b (- 1074))" "ulp_exp x"] rnd_at_pow2 [OF grid] by simp
  also have "\<dots> \<le> pow2 (binexp y)"
    using b lt u by (intro pow2_mono) (auto simp: ulp_exp_def)
  also have "\<dots> \<le> rnd_at (ulp_exp y) y"
  proof -
    have "pow2 (binexp y) \<le> y" using binexp_bounds(1) [of y] assms by simp
    then show ?thesis using rnd_at_mono [of "pow2 (binexp y)" y "ulp_exp y"] rnd_at_pow2 [of "ulp_exp y" "binexp y"] u by simp
  qed
  finally show ?thesis .
qed

lemma rnd_at_nonneg: "0 \<le> x \<Longrightarrow> 0 \<le> rnd_at u x"
  using rnd_at_mono [of 0 x u] by (simp add: rnd_at_def round_half_even_def)
lemma rnd64_mono_pos:
  assumes "0 < x" "x \<le> y"
  shows "dbl_le (rnd64 x) (rnd64 y)"
proof -
  have "0 \<le> rnd_at (ulp_exp x) x" using assms by (intro rnd_at_nonneg) simp
  then show ?thesis
    using rnd_at_ulp_mono [OF assms] assms by (auto simp: rnd64_rnd_at dbl_le_def)
qed

lemma rnd64_sign: "0 \<le> x \<Longrightarrow> dbl_le (Fin 0) (rnd64 x)"
  using rnd_at_nonneg [of x "ulp_exp x"] by (auto simp: rnd64_rnd_at dbl_le_def)

lemma dbl_le_neg: "dbl_le (dbl_neg a) (dbl_neg b) \<longleftrightarrow> dbl_le b a"
  by (cases a; cases b) (auto simp: dbl_le_def)

lemma dbl_le_trans: "dbl_le a b \<Longrightarrow> dbl_le b c \<Longrightarrow> dbl_le a c"
  by (cases a; cases b; cases c) (auto simp: dbl_le_def)

lemma dbl_le_less_trans: "dbl_le a b \<Longrightarrow> dbl_less b c \<Longrightarrow> dbl_less a c"
  by (cases a; cases b; cases c) (auto simp: dbl_le_def)

lemma dbl_less_trans: "dbl_less a b \<Longrightarrow> dbl_less b c \<Longrightarrow> dbl_less a c"
  by (cases a; cases b; cases c) auto

lemma rnd64_mono: assumes "x \<le> y" shows "dbl_le (rnd64 x) (rnd64 y)"
proof -
  consider "0 < x" | "x \<le> 0" "0 \<le> y" | "y < 0" using assms by linarith
  then show ?thesis
  proof cases
    case 1
    then show ?thesis using rnd64_mono_pos assms by simp
  next
    case 2
    then have "dbl_le (Fin 0) (rnd64 (- x))" by (intro rnd64_sign) simp
    then have "dbl_le (dbl_neg (rnd64 (- x))) (Fin 0)" using dbl_le_neg [of "rnd64 (- x)" "Fin 0"] by simp
    then have "dbl_le (rnd64 x) (Fin 0)" using rnd64_neg [of "- x"] by simp
    then show ?thesis using rnd64_sign [OF 2(2)] by (rule dbl_le_trans)
  next
    case 3
    then have "dbl_le (rnd64 (- y)) (rnd64 (- x))" using assms by (intro rnd64_mono_pos) simp_all
    then show ?thesis by (simp add: rnd64_neg dbl_le_neg)
  qed
qed

lemma binexp_pow2: "binexp (pow2 e) = e"
proof -
  have "binexp (pow2 e) \<le> e" using pow2_strict_mono [of e "e + 1"] by (intro binexp_le) simp_all
  moreover have "pow2 e < pow2 (binexp (pow2 e) + 1)" by (rule binexp_bounds) simp
  then have "\<not> binexp (pow2 e) + 1 \<le> e" using pow2_mono [of "binexp (pow2 e) + 1" e] by linarith
  ultimately show ?thesis by linarith
qed

text \<open>A rounded value lies on its own grid.\<close>

lemma rnd_at_ulp_fixed:
  assumes y: "0 < y" and x: "x = rnd_at (ulp_exp y) y" "0 < x"
  shows "rnd_at (ulp_exp x) x = x"
proof -
  let ?u = "ulp_exp y" and ?e = "max (binexp y + 1) (ulp_exp y)"
  obtain k where k: "x = of_int k * pow2 ?u" using x(1) by (auto simp: rnd_at_def)
  have ge: "ulp_exp z \<ge> - 1074" for z by (simp add: ulp_exp_def)
  have "y \<le> pow2 ?e" using binexp_bounds(2) [OF y] pow2_mono [of "binexp y + 1" ?e] by linarith
  then have "x \<le> pow2 ?e" using rnd_at_mono [of y "pow2 ?e" ?u] rnd_at_pow2 [of ?u ?e] x(1) by simp
  then consider "x = pow2 ?e" | "x < pow2 ?e" by linarith
  then show ?thesis
  proof cases
    case 1
    have "- 1074 \<le> ?e" using ge [of y] by (rule max.coboundedI2)
    moreover have "ulp_exp x = max (?e - 52) (- 1074)" 
      unfolding ulp_exp_def [of x] abs_of_pos [OF x(2)] using 1 binexp_pow2 [of ?e] by simp
    ultimately have "ulp_exp x \<le> ?e" by linarith
    then show ?thesis using rnd_at_pow2 1 by simp
  next
    case 2
    have "k \<ge> 1" using x(2) k pow2_pos [of ?u] by (simp add: zero_less_mult_iff)
    then have "pow2 ?u \<le> x" using k by simp
    then have e: "?e = binexp y + 1" using 2 by (auto simp: max_def)
    then have "binexp x \<le> binexp y" using binexp_le [OF x(2), of "binexp y"] 2 by simp
    then have le: "ulp_exp x \<le> ?u" using x(2) y by (simp add: ulp_exp_def)
    have "x = of_int (k * 2 ^ nat (?u - ulp_exp x)) * pow2 (ulp_exp x)"
      using k pow2_as_grid [OF le] by simp
    then show ?thesis using rnd_at_grid by metis
  qed
qed

lemma rnd64_idem_pos:
  assumes "0 < y" "rnd64 y = Fin x"
  shows "rnd64 x = Fin x"
proof -
  have x: "x = rnd_at (ulp_exp y) y" "\<bar>x\<bar> < pow2 1024" using assms by (auto simp: rnd64_rnd_at split: if_splits)
  have "0 \<le> x" using x(1) rnd_at_nonneg assms(1) by simp
  then consider "x = 0" | "0 < x" by linarith
  then show ?thesis
  proof cases
    case 2
    then show ?thesis using rnd_at_ulp_fixed [OF assms(1) x(1) 2] x(2) by (simp add: rnd64_rnd_at)
  qed (simp add: rnd64_rnd_at)
qed

lemma rnd64_idem:
  assumes "rnd64 y = Fin x"
  shows "rnd64 x = Fin x"
proof -
  consider "y = 0" | "0 < y" | "0 < - y" by linarith
  then show ?thesis
  proof cases
    case 1
    then show ?thesis using assms by (simp add: rnd64_rnd_at)
  next
    case 2
    then show ?thesis using rnd64_idem_pos assms by blast
  next
    case 3
    have "rnd64 (- y) = Fin (- x)" using assms by (simp add: rnd64_neg)
    then have "rnd64 (- x) = Fin (- x)" by (rule rnd64_idem_pos [OF 3])
    then show ?thesis using rnd64_neg [of "- x"] by simp
  qed
qed

text \<open>A double: an infinity, NaN, or a rational that rounds to itself.\<close>

fun is_dbl :: "dbl \<Rightarrow> bool" where
  "is_dbl (Fin x) = (rnd64 x = Fin x)"
| "is_dbl _ = True"

lemma is_dbl_rnd64 [simp]: "is_dbl (rnd64 x)"
  using rnd64_idem by (cases "rnd64 x") auto

lemma is_dbl_add [simp]: "is_dbl (dbl_add a b)"
  by (cases a; cases b) auto

lemma rnd64_zero: "rnd64 0 = Fin 0"
  by (simp add: rnd64_def)

lemma dbl_add_grows:
  assumes "is_dbl a" "0 \<le> m"
  shows "a = NaN \<or> dbl_le a (dbl_add a (Fin m))"
proof (cases a)
  case (Fin x)
  then show ?thesis using rnd64_mono [of x "x + m"] assms by simp
qed (auto simp: dbl_le_def)

lemma dbl_less_of_margin: "is_dbl a \<Longrightarrow> 0 \<le> m \<Longrightarrow> dbl_less (dbl_add a (Fin m)) b \<Longrightarrow> dbl_less a b"
  using dbl_add_grows [of a m] dbl_le_less_trans [of a "dbl_add a (Fin m)" b] by fastforce

text \<open>Multiples of a power of two with at most 53 bits are doubles.\<close>

lemma rnd64_grid:
  assumes "\<bar>k\<bar> < 2 ^ 53" "- 1074 \<le> e" "e \<le> 900"
  shows "rnd64 (of_int k * pow2 e) = Fin (of_int k * pow2 e)"
proof (cases "k = 0")
  case False
  let ?x = "of_int k * pow2 e"
  have nz: "?x \<noteq> 0" using False by (simp add: less_imp_neq [symmetric])
  have "(of_int \<bar>k\<bar> :: rat) < of_int (2 ^ 53)" using assms(1) by (simp only: of_int_less_iff)
  then have "\<bar>of_int k\<bar> < pow2 53" by (simp add: pow2_def)
  then have "\<bar>of_int k\<bar> * pow2 e < pow2 53 * pow2 e" by (rule mult_strict_right_mono) simp
  then have "\<bar>?x\<bar> < pow2 53 * pow2 e" by (simp add: abs_mult abs_of_pos)
  then have lt: "\<bar>?x\<bar> < pow2 (52 + e + 1)" by (simp add: pow2_add [symmetric] algebra_simps)
  then have "binexp \<bar>?x\<bar> \<le> 52 + e" using nz by (intro binexp_le) auto
  then have u: "ulp_exp ?x \<le> e" using assms(2) by (simp add: ulp_exp_def)
  have "?x = of_int (k * 2 ^ nat (e - ulp_exp ?x)) * pow2 (ulp_exp ?x)" using pow2_as_grid [OF u] by simp
  then have "rnd_at (ulp_exp ?x) ?x = ?x" using rnd_at_grid by metis
  moreover have "\<bar>?x\<bar> < pow2 1024" using lt pow2_mono [of "52 + e + 1" 1024] assms(3) by linarith
  ultimately show ?thesis using nz by (simp add: rnd64_rnd_at)
qed (simp add: rnd64_zero)

lemma rnd64_quarters: "\<bar>k\<bar> < 2 ^ 53 \<Longrightarrow> rnd64 (of_int k / 4) = Fin (of_int k / 4)"
  using rnd64_grid [of k "- 2"] by (simp add: pow2_def)

lemma rnd64_finite:
  assumes "\<bar>x\<bar> \<le> 1"
  obtains r where "rnd64 x = Fin r"
proof -
  have "rnd64 1 = Fin 1" using rnd64_int [of 1] by simp
  moreover have "rnd64 (- 1) = Fin (- 1)" using rnd64_int [of "- 1"] by simp
  moreover have "dbl_le (rnd64 (- 1)) (rnd64 x)" "dbl_le (rnd64 x) (rnd64 1)" using assms by (auto intro!: rnd64_mono)
  ultimately show thesis using that by (cases "rnd64 x") (auto simp: dbl_le_def)
qed

end
