(* ===== verification/C_Library.thy ===== *)
theory C_Library
  imports Float64
begin

text \<open>
  The string functions of the C library the configuration code calls: \<^verbatim>\<open>strtol\<close> in base 10,
  \<^verbatim>\<open>strtod\<close> and \<^verbatim>\<open>strncmp\<close>. A C string is the list of its characters before the terminating
  NUL; a pointer into it is an offset.
\<close>

section \<open>Characters\<close>

definition char_code :: "char \<Rightarrow> nat" where
  "char_code c = of_char c"

definition c_isspace :: "char \<Rightarrow> bool" where
  "c_isspace c = (char_code c = 32 \<or> (9 \<le> char_code c \<and> char_code c \<le> 13))"

definition c_isdigit :: "char \<Rightarrow> bool" where
  "c_isdigit c = (48 \<le> char_code c \<and> char_code c \<le> 57)"

definition c_isxdigit :: "char \<Rightarrow> bool" where
  "c_isxdigit c = (c_isdigit c \<or> (65 \<le> char_code c \<and> char_code c \<le> 70)
     \<or> (97 \<le> char_code c \<and> char_code c \<le> 102))"

definition c_isword :: "char \<Rightarrow> bool" where
  "c_isword c = (c_isdigit c \<or> (65 \<le> char_code c \<and> char_code c \<le> 90)
     \<or> (97 \<le> char_code c \<and> char_code c \<le> 122) \<or> char_code c = 95)"

definition c_tolower :: "char \<Rightarrow> char" where
  "c_tolower c = (if 65 \<le> char_code c \<and> char_code c \<le> 90 then char_of (char_code c + 32) else c)"

definition digit_val :: "char \<Rightarrow> nat" where
  "digit_val c = (if char_code c \<le> 57 then char_code c - 48
     else if char_code c \<le> 70 then char_code c - 55 else char_code c - 87)"

definition base_val :: "nat \<Rightarrow> string \<Rightarrow> nat" where
  "base_val b ds = foldl (\<lambda>acc c. acc * b + digit_val c) 0 ds"

section \<open>Pointers and comparison\<close>

text \<open>\<open>c_suffix n s\<close> is \<^verbatim>\<open>s + n\<close> when that points into the string or at its NUL.\<close>

definition c_suffix :: "nat \<Rightarrow> string \<Rightarrow> string option" where
  "c_suffix n s = (if n \<le> length s then Some (drop n s) else None)"

definition strncmp_eq :: "string \<Rightarrow> string \<Rightarrow> nat \<Rightarrow> bool" where
  "strncmp_eq s t n = (take n (s @ [CHR 0x00]) = take n (t @ [CHR 0x00]))"

section \<open>strtol\<close>

definition LONG_MAX :: int where "LONG_MAX = 2 ^ 63 - 1"
definition LONG_MIN :: int where "LONG_MIN = - (2 ^ 63)"

text \<open>An optional sign: whether it is a minus, and how many characters it takes.\<close>

definition c_sign :: "string \<Rightarrow> bool \<times> nat" where
  "c_sign s = (case s of [] \<Rightarrow> (False, 0)
     | c # _ \<Rightarrow> if c = CHR ''-'' then (True, 1) else if c = CHR ''+'' then (False, 1) else (False, 0))"

text \<open>
  The result is the value, the offset of \<^verbatim>\<open>*endptr\<close> (0 when there is no conversion) and
  whether \<^verbatim>\<open>errno\<close> is set to \<^verbatim>\<open>ERANGE\<close>.
\<close>

definition strtol10 :: "string \<Rightarrow> int \<times> nat \<times> bool" where
  "strtol10 s =
     (let ws = length (takeWhile c_isspace s);
          (neg, k) = c_sign (drop ws s);
          ds = takeWhile c_isdigit (drop (ws + k) s);
          n = int (base_val 10 ds);
          v = (if neg then - n else n)
      in if ds = [] then (0, 0, False)
         else if v > LONG_MAX then (LONG_MAX, ws + k + length ds, True)
         else if v < LONG_MIN then (LONG_MIN, ws + k + length ds, True)
         else (v, ws + k + length ds, False))"

section \<open>strtod\<close>

text \<open>
  The exponent part: a letter, an optional sign and at least one digit, or nothing. The result is
  the exponent and the number of characters.
\<close>

definition exponent_part :: "char \<Rightarrow> string \<Rightarrow> int \<times> nat" where
  "exponent_part letter s =
     (case s of [] \<Rightarrow> (0, 0)
      | c # rest \<Rightarrow>
          if c_tolower c \<noteq> letter then (0, 0)
          else let (neg, k) = c_sign rest; ds = takeWhile c_isdigit (drop k rest);
                   e = int (base_val 10 ds)
               in if ds = [] then (0, 0) else (if neg then - e else e, Suc (k + length ds)))"

text \<open>Digits with an optional radix point: the digits, how many follow the point, the length.\<close>

definition mantissa_part :: "(char \<Rightarrow> bool) \<Rightarrow> string \<Rightarrow> string \<times> nat \<times> nat" where
  "mantissa_part dig s =
     (let a = takeWhile dig s; rest = drop (length a) s
      in case rest of [] \<Rightarrow> (a, 0, length a)
         | c # rest' \<Rightarrow>
             if c = CHR ''.'' then
               (let b = takeWhile dig rest'
                in if a = [] \<and> b = [] then ([], 0, 0) else (a @ b, length b, length a + 1 + length b))
             else (a, 0, length a))"

definition pow_int :: "nat \<Rightarrow> int \<Rightarrow> rat" where
  "pow_int b e = (if 0 \<le> e then of_nat b ^ nat e else 1 / of_nat b ^ nat (- e))"

text \<open>
  An unsigned number: its exact value and length. Hexadecimal needs a digit after \<^verbatim>\<open>0x\<close>;
  otherwise only the \<^verbatim>\<open>0\<close> is converted, as the decimal rule does.
\<close>

definition unsigned_number :: "string \<Rightarrow> (rat \<times> nat) option" where
  "unsigned_number s =
     (let hex = (length s \<ge> 2 \<and> s ! 0 = CHR ''0'' \<and> c_tolower (s ! 1) = CHR ''x'');
          (hds, hfrac, hlen) = mantissa_part c_isxdigit (drop 2 s)
      in if hex \<and> hds \<noteq> []
         then (let (e, elen) = exponent_part (CHR ''p'') (drop (2 + hlen) s)
               in Some (of_nat (base_val 16 hds) * pow_int 2 (e - 4 * int hfrac), 2 + hlen + elen))
         else (let (ds, frac, len) = mantissa_part c_isdigit s
               in if ds = [] then None
                  else (let (e, elen) = exponent_part (CHR ''e'') (drop len s)
                        in Some (of_nat (base_val 10 ds) * pow_int 10 (e - int frac), len + elen))))"

definition prefix_ci :: "string \<Rightarrow> string \<Rightarrow> bool" where
  "prefix_ci p s = (map c_tolower (take (length p) s) = p)"

text \<open>\<^verbatim>\<open>nan\<close> may be followed by a parenthesised sequence of letters, digits and underscores.\<close>

definition nan_len :: "string \<Rightarrow> nat" where
  "nan_len s =
     (case drop 3 s of [] \<Rightarrow> 3
      | c # rest \<Rightarrow>
          if c = CHR ''('' then
            (let w = takeWhile c_isword rest
             in if take 1 (drop (length w) rest) = '')'' then 5 + length w else 3)
          else 3)"

text \<open>The smallest positive normal double.\<close>

definition DBL_MIN :: rat where "DBL_MIN = pow2 (- 1022)"

text \<open>
  The result is the value, the offset of \<^verbatim>\<open>*endptr\<close> (0: no conversion) and whether \<^verbatim>\<open>errno\<close> is
  \<^verbatim>\<open>ERANGE\<close>: on overflow, and on an inexact result below the normal range as glibc does.
\<close>

definition strtod :: "string \<Rightarrow> dbl \<times> nat \<times> bool" where
  "strtod s =
     (let ws = length (takeWhile c_isspace s);
          (neg, k) = c_sign (drop ws s);
          off = ws + k;
          body = drop off s;
          sg = (\<lambda>d. if neg then dbl_neg d else d)
      in if prefix_ci ''infinity'' body then (sg PInf, off + 8, False)
         else if prefix_ci ''inf'' body then (sg PInf, off + 3, False)
         else if prefix_ci ''nan'' body then (NaN, off + nan_len body, False)
         else (case unsigned_number body of
                 None \<Rightarrow> (Fin 0, 0, False)
               | Some (x, len) \<Rightarrow>
                   (case rnd64 x of
                      Fin r \<Rightarrow> (sg (Fin r), off + len, r \<noteq> x \<and> r < DBL_MIN)
                    | d \<Rightarrow> (sg d, off + len, True))))"

end
