(* ===== verification/Config_Parser.thy ===== *)
theory Config_Parser
  imports C_Library
begin

text \<open>
  \<^verbatim>\<open>src/config_parser.c\<close>: the option parsers and the conversion of milliseconds into monitor
  ticks. A \<^verbatim>\<open>NULL\<close> string is \<^term>\<open>None\<close>; the flag \<open>out\<close> tells whether the caller gave an
  address for the result, which is returned as a value. Return code -1 is \<^term>\<open>None\<close>, or the
  \<^verbatim>\<open>errno\<close> the function sets.
\<close>

section \<open>Operations\<close>

text \<open>Conversion to \<^verbatim>\<open>int\<close>, reduced modulo \<open>2 ^ 32\<close> as GCC defines it.\<close>

definition c_int :: "int \<Rightarrow> int" where
  "c_int v = (v + 2147483648) mod 4294967296 - 2147483648"

definition tsd_parse_int_option :: "string option \<Rightarrow> int \<Rightarrow> int \<Rightarrow> bool \<Rightarrow> int option" where
  "tsd_parse_int_option val lo hi out =
     (case val of
        None \<Rightarrow> None
      | Some s \<Rightarrow>
          if \<not> out then None
          else let (parsed, endp, erange) = strtol10 s
               in if erange \<or> endp = 0 \<or> endp \<noteq> length s then None
                  else if parsed < lo \<or> parsed > hi then None
                  else Some (c_int parsed))"

definition tsd_parse_ms_option :: "string option \<Rightarrow> int \<Rightarrow> int \<Rightarrow> bool \<Rightarrow> int option" where
  "tsd_parse_ms_option val min_ms max_ms out =
     (case tsd_parse_int_option val min_ms max_ms True of
        None \<Rightarrow> None
      | Some parsed_ms \<Rightarrow>
          let converted = parsed_ms * 1000
          in if converted > INT_MAX then None
             else if \<not> out then None
             else Some (c_int converted))"

text \<open>\<^verbatim>\<open>(double)UINT64_MAX\<close> rounds to \<open>2 ^ 64\<close>.\<close>

definition tsd_parse_ratio_option ::
    "string option \<Rightarrow> dbl \<Rightarrow> dbl \<Rightarrow> bool \<Rightarrow> bool \<Rightarrow> (dbl \<times> u64) option" where
  "tsd_parse_ratio_option val lo hi ratio_out scaled_out =
     (case val of
        None \<Rightarrow> None
      | Some s \<Rightarrow>
          if \<not> ratio_out \<or> \<not> scaled_out then None
          else let (parsed, endp, erange) = strtod s
               in if erange \<or> endp = 0 \<or> endp \<noteq> length s then None
                  else if \<not> isfinite parsed then None
                  else if dbl_less parsed lo \<or> dbl_less hi parsed then None
                  else let scaled = dbl_mul parsed (Fin 1000)
                       in if dbl_less scaled (Fin 0) \<or> dbl_less (dbl_of_int (2 ^ 64 - 1)) scaled then None
                          else let v = (of_int (dbl_trunc (dbl_add scaled (Fin (1 / 2)))) :: u64)
                               in Some (parsed, if v = 0 \<and> dbl_less (Fin 0) parsed then 1 else v))"

definition tsd_parse_double_option :: "string option \<Rightarrow> dbl \<Rightarrow> dbl \<Rightarrow> bool \<Rightarrow> dbl option" where
  "tsd_parse_double_option val lo hi out =
     (case val of
        None \<Rightarrow> None
      | Some s \<Rightarrow>
          if \<not> out then None
          else let (parsed, endp, erange) = strtod s
               in if erange \<or> endp = 0 \<or> endp \<noteq> length s then None
                  else if \<not> isfinite parsed then None
                  else if dbl_less parsed lo \<or> dbl_less hi parsed then None
                  else Some parsed)"

text \<open>The pair of the raw tick count left in \<^verbatim>\<open>*raw_ticks_out\<close> and the result.\<close>

definition tsd_compute_ticks_from_ms :: "int \<Rightarrow> int \<Rightarrow> bool \<Rightarrow> int \<times> (errno + int)" where
  "tsd_compute_ticks_from_ms interval_us ms out =
     (if \<not> out then (- 1, Inl EINVAL)
      else if interval_us \<le> 0 then (- 1, Inl EINVAL)
      else if ms < 0 then (- 1, Inl EINVAL)
      else let total_us = ms * 1000;
               ticks64 = (total_us + interval_us - 1) div interval_us
           in if ticks64 \<le> 0 \<or> ticks64 > INT_MAX then (ticks64, Inl ERANGE)
              else (ticks64, Inr ticks64))"

section \<open>Decimal round trip\<close>

text \<open>The decimal representation \<^verbatim>\<open>printf\<close> gives a \<^verbatim>\<open>%d\<close>.\<close>

fun dec_nat :: "nat \<Rightarrow> string" where
  "dec_nat n = (if n < 10 then [char_of (48 + n)] else dec_nat (n div 10) @ [char_of (48 + n mod 10)])"

declare dec_nat.simps [simp del]

definition dec_int :: "int \<Rightarrow> string" where
  "dec_int i = (if i < 0 then CHR ''-'' # dec_nat (nat (- i)) else dec_nat (nat i))"

lemma digit_char:
  assumes "k < 10"
  shows "c_isdigit (char_of (48 + k))" "digit_val (char_of (48 + k)) = k"
    "\<not> c_isspace (char_of (48 + k))" "char_of (48 + k) \<noteq> CHR ''-''" "char_of (48 + k) \<noteq> CHR ''+''"
proof -
  have c: "char_code (char_of (48 + k)) = 48 + k"
    using assms by (simp add: char_code_def)
  then show "c_isdigit (char_of (48 + k))" "digit_val (char_of (48 + k)) = k"
    "\<not> c_isspace (char_of (48 + k))"
    using assms by (simp_all add: c_isdigit_def digit_val_def c_isspace_def)
  have "char_code (CHR ''-'') = 45" "char_code (CHR ''+'') = 43" by (simp_all add: char_code_def)
  with c show "char_of (48 + k) \<noteq> CHR ''-''" "char_of (48 + k) \<noteq> CHR ''+''" by auto
qed

lemma dec_nat_nonempty: "dec_nat n \<noteq> []"
  by (subst dec_nat.simps) simp

lemma dec_nat_digits: "\<forall>c \<in> set (dec_nat n). c_isdigit c"
  by (induction n rule: dec_nat.induct)
    (subst dec_nat.simps, auto simp: digit_char)

lemma base_val_snoc: "base_val b (ds @ [c]) = base_val b ds * b + digit_val c"
  by (simp add: base_val_def)

lemma base_val_dec_nat: "base_val 10 (dec_nat n) = n"
proof (induction n rule: dec_nat.induct)
  case (1 n)
  show ?case
  proof (cases "n < 10")
    case True
    then show ?thesis by (subst dec_nat.simps) (simp add: base_val_def digit_char)
  next
    case False
    then show ?thesis using 1 by (subst dec_nat.simps) (simp add: base_val_snoc digit_char)
  qed
qed

lemma dec_nat_hd:
  "\<not> c_isspace (hd (dec_nat n)) \<and> hd (dec_nat n) \<noteq> CHR ''-'' \<and> hd (dec_nat n) \<noteq> CHR ''+''"
proof -
  have "c_isdigit (hd (dec_nat n))" using dec_nat_digits dec_nat_nonempty by (meson list.set_sel(1))
  then show ?thesis by (auto simp: c_isdigit_def c_isspace_def char_code_def)
qed

lemma takeWhile_digits_dec [simp]: "takeWhile c_isdigit (dec_nat n) = dec_nat n"
  by (simp add: takeWhile_eq_all_conv dec_nat_digits)

lemma strtol10_dec_nat:
  assumes "int n \<le> LONG_MAX"
  shows "strtol10 (dec_nat n) = (int n, length (dec_nat n), False)"
proof -
  obtain c cs where d: "dec_nat n = c # cs" using dec_nat_nonempty [of n] by (cases "dec_nat n") auto
  have ws: "takeWhile c_isspace (dec_nat n) = []" using dec_nat_hd [of n] d by simp
  have sg: "c_sign (dec_nat n) = (False, 0)" using dec_nat_hd [of n] d by (simp add: c_sign_def)
  show ?thesis using assms
    by (simp add: strtol10_def ws sg Let_def base_val_dec_nat dec_nat_nonempty LONG_MIN_def)
qed

lemma strtol10_dec_neg:
  assumes "int n \<le> LONG_MAX"
  shows "strtol10 (CHR ''-'' # dec_nat n) = (- int n, Suc (length (dec_nat n)), False)"
proof -
  have ws: "\<not> c_isspace (CHR ''-'')" by (simp add: c_isspace_def char_code_def)
  have sg: "c_sign (CHR ''-'' # dec_nat n) = (True, 1)" by (simp add: c_sign_def)
  show ?thesis using assms
    by (simp add: strtol10_def ws sg Let_def base_val_dec_nat dec_nat_nonempty LONG_MIN_def LONG_MAX_def)
qed

lemma c_int_id: "INT_MIN \<le> v \<Longrightarrow> v \<le> INT_MAX \<Longrightarrow> c_int v = v"
  by (simp add: c_int_def)

lemma parse_int_sound:
  assumes "tsd_parse_int_option val lo hi out = Some v" "INT_MIN \<le> lo" "hi \<le> INT_MAX"
  shows "lo \<le> v \<and> v \<le> hi"
  using assms
  by (auto simp: tsd_parse_int_option_def c_int_id split: option.splits if_splits prod.splits)

lemma ceil_div_bounds:
  assumes "0 < (i::int)"
  shows "(n + i - 1) div i * i < n + i" "n \<le> (n + i - 1) div i * i"
proof -
  have "(n + i - 1) div i * i + (n + i - 1) mod i = n + i - 1" by simp
  moreover have "0 \<le> (n + i - 1) mod i" "(n + i - 1) mod i < i" using assms by simp_all
  ultimately show "(n + i - 1) div i * i < n + i" "n \<le> (n + i - 1) div i * i" by linarith+
qed

section \<open>Properties\<close>

text \<open>
  The integer parser accepts the decimal representation of every number of the given range
  and returns that number, and whatever string it accepts yields a number of the range.
\<close>
theorem parse_int_roundtrip:
  assumes "INT_MIN \<le> lo" "hi \<le> INT_MAX" "lo \<le> v" "v \<le> hi"
  shows "tsd_parse_int_option (Some (dec_int v)) lo hi True = Some v \<and>
    (\<forall>s w. tsd_parse_int_option s lo hi True = Some w \<longrightarrow> lo \<le> w \<and> w \<le> hi)"
proof -
  have id: "c_int v = v" using assms by (intro c_int_id) auto
  have "strtol10 (dec_int v) = (v, length (dec_int v), False)" "length (dec_int v) \<noteq> 0"
    using assms strtol10_dec_nat [of "nat v"] strtol10_dec_neg [of "nat (- v)"] dec_nat_nonempty
    by (auto simp: dec_int_def LONG_MAX_def)
  then show ?thesis
    using assms id parse_int_sound by (auto simp: tsd_parse_int_option_def)
qed

theorem parse_int_roundtrip_witness:
  "tsd_parse_int_option (Some (dec_int (- 42))) (- 100) 200 True = Some (- 42)"
  using parse_int_roundtrip [of "- 100" 200 "- 42"] by simp

text \<open>
  With a positive interval and a non-negative time, the tick count is the least number of
  ticks that covers the time, and it is an error exactly when that number is zero or does not
  fit an \<^verbatim>\<open>int\<close>.
\<close>
theorem ticks_ceiling:
  assumes "0 < interval_us" "0 \<le> ms"
  shows "case tsd_compute_ticks_from_ms interval_us ms True of
      (raw, Inr t) \<Rightarrow> t = raw \<and> 1 \<le> t \<and> t \<le> INT_MAX \<and>
        (t - 1) * interval_us < ms * 1000 \<and> ms * 1000 \<le> t * interval_us
    | (raw, Inl e) \<Rightarrow> e = ERANGE \<and> (ms = 0 \<or> INT_MAX * interval_us < ms * 1000)"
proof -
  let ?t = "(ms * 1000 + interval_us - 1) div interval_us"
  have lo: "?t * interval_us < ms * 1000 + interval_us" and hi: "ms * 1000 \<le> ?t * interval_us"
    using ceil_div_bounds [OF assms(1)] by auto
  have neg: "ms = 0" if "?t \<le> 0"
  proof -
    have "?t * interval_us \<le> 0" using that assms by (simp add: mult_nonpos_nonneg)
    with hi assms show ?thesis by linarith
  qed
  have big: "INT_MAX * interval_us < ms * 1000" if "INT_MAX < ?t"
  proof -
    have "(INT_MAX + 1) * interval_us \<le> ?t * interval_us"
      using that assms by (intro mult_right_mono) auto
    with lo show ?thesis by (simp add: algebra_simps)
  qed
  show ?thesis
    using assms lo hi neg big
    by (auto simp: tsd_compute_ticks_from_ms_def Let_def algebra_simps)
qed

theorem ticks_ceiling_witness:
  "tsd_compute_ticks_from_ms 50000 1001 True = (21, Inr 21) \<and>
   (21 - 1) * 50000 < (1001 * 1000 :: int) \<and> 1001 * 1000 \<le> (21 * 50000 :: int)"
proof -
  have v: "tsd_compute_ticks_from_ms 50000 1001 True = (21, Inr 21)"
    by (simp add: tsd_compute_ticks_from_ms_def)
  show ?thesis using ticks_ceiling [of 50000 1001] unfolding v by simp
qed

end
