(* ===== verification/Runtime_Config.thy ===== *)
theory Runtime_Config
  imports Config_Parser
begin

text \<open>
  \<^verbatim>\<open>src/thermal_config.c\<close> without its parsers, \<^verbatim>\<open>src/policy/policy_config.c\<close>, and the generation
  check \<^verbatim>\<open>validate_generation_config\<close> of \<^verbatim>\<open>src/runtime_guard.c\<close>: the runtime configuration
  with its defaults, the degraded overlay the control loop reads it through, and the derived
  tick counts.
\<close>

section \<open>Configuration values\<close>

datatype tsd_log_level_t = TSD_LOG_LEVEL_ERROR | TSD_LOG_LEVEL_WARN | TSD_LOG_LEVEL_INFO | TSD_LOG_LEVEL_DEBUG

record tsd_policy_config =
  slo_ratio_milli :: u32
  slo_temp_millic :: int
  transition_penalty_up_milli :: u32
  transition_penalty_down_milli :: u32
  forecast_horizon :: u32

record tsd_runtime_config =
  check_interval_us :: int
  down_count :: int
  up_count :: int
  down_ratio :: dbl
  down_ratio_milli :: u64
  cooldown_down_ms :: int
  cooldown_up_ms :: int
  allow_avx512 :: int
  min_dwell_ms :: int
  memory_guard_divisor :: int
  memory_guard_offset_milli :: int
  demo_duration_sec :: int
  run_forever :: int
  work_iters :: int
  cooldown_down_ticks :: int
  cooldown_up_ticks :: int
  min_dwell_ticks :: int
  thermal_temp_weight_milli :: int
  thermal_ratio_weight_milli :: int
  degraded_timeout_sec :: int
  degraded_policy_active :: int
  health_check_mode :: int
  metrics_enabled :: int
  metrics_port :: int
  metrics_bind_host :: string
  metrics_tls_cert_path :: string
  metrics_tls_key_path :: string
  metrics_tls_ca_path :: string
  metrics_tls_require_client_auth :: int
  metrics_basic_auth_user :: string
  metrics_basic_auth_pass :: string
  statsd_host :: string
  statsd_port :: int
  telemetry_interval_ms :: int
  telemetry_max_skew_ms :: int
  telemetry_ewma_alpha :: dbl
  telemetry_profile_path :: string
  predictive_temp_ceiling_c :: int
  predictive_safety_margin_c :: int
  predictive_emergency_margin_c :: int
  predictive_alpha :: dbl
  predictive_coeff_path :: string
  log_level :: tsd_log_level_t
  policy :: tsd_policy_config

section \<open>Defaults and policy bounds\<close>

definition tsd_policy_config_set_defaults :: "tsd_policy_config \<Rightarrow> tsd_policy_config" where
  "tsd_policy_config_set_defaults cfg = cfg\<lparr>slo_ratio_milli := 1500, slo_temp_millic := 85000,
     transition_penalty_up_milli := 750, transition_penalty_down_milli := 1000, forecast_horizon := 5\<rparr>"

definition tsd_policy_config_apply_bounds :: "tsd_policy_config \<Rightarrow> tsd_policy_config" where
  "tsd_policy_config_apply_bounds cfg =
     (if forecast_horizon cfg = 0 then cfg\<lparr>forecast_horizon := 1\<rparr> else cfg)"

definition k_default_policy_config :: tsd_policy_config where
  "k_default_policy_config = \<lparr>slo_ratio_milli = 1500, slo_temp_millic = 85000,
     transition_penalty_up_milli = 750, transition_penalty_down_milli = 1000, forecast_horizon = 5\<rparr>"

text \<open>The policy of the zero initialiser \<^verbatim>\<open>{0}\<close>; it is overwritten before use.\<close>

definition zero_policy_config :: tsd_policy_config where
  "zero_policy_config = \<lparr>slo_ratio_milli = 0, slo_temp_millic = 0,
     transition_penalty_up_milli = 0, transition_penalty_down_milli = 0, forecast_horizon = 0\<rparr>"

definition k_default_config :: tsd_runtime_config where
  "k_default_config = \<lparr>
     check_interval_us = 50000, down_count = 3, up_count = 5,
     down_ratio = Fin (3 / 2), down_ratio_milli = 1500,
     cooldown_down_ms = 1000, cooldown_up_ms = 2000, allow_avx512 = 0, min_dwell_ms = 200,
     memory_guard_divisor = 5, memory_guard_offset_milli = 200,
     demo_duration_sec = 10, run_forever = 0, work_iters = 10000000,
     cooldown_down_ticks = 0, cooldown_up_ticks = 0, min_dwell_ticks = 0,
     thermal_temp_weight_milli = 0, thermal_ratio_weight_milli = 0,
     degraded_timeout_sec = 120, degraded_policy_active = 0, health_check_mode = 0,
     metrics_enabled = 1, metrics_port = 9464, metrics_bind_host = ''127.0.0.1'',
     metrics_tls_cert_path = '''', metrics_tls_key_path = '''', metrics_tls_ca_path = '''',
     metrics_tls_require_client_auth = 0, metrics_basic_auth_user = '''',
     metrics_basic_auth_pass = '''', statsd_host = '''', statsd_port = 8125,
     telemetry_interval_ms = 50, telemetry_max_skew_ms = 150, telemetry_ewma_alpha = Fin (1 / 4),
     telemetry_profile_path = '''',
     predictive_temp_ceiling_c = 92, predictive_safety_margin_c = 4,
     predictive_emergency_margin_c = 10, predictive_alpha = Fin (1 / 4),
     predictive_coeff_path = ''config/controller_coeffs.json'',
     log_level = TSD_LOG_LEVEL_INFO, policy = zero_policy_config\<rparr>"

definition tsd_runtime_config_set_defaults :: "tsd_runtime_config option \<Rightarrow> tsd_runtime_config option" where
  "tsd_runtime_config_set_defaults cfg =
     map_option (\<lambda>_. k_default_config
       \<lparr>policy := tsd_policy_config_apply_bounds k_default_policy_config,
        degraded_policy_active := 0\<rparr>) cfg"

section \<open>Degraded overlay\<close>

text \<open>
  The overlay is the one atomic flag \<^verbatim>\<open>g_tsd_degraded_active\<close>, an argument \<open>degraded\<close> here. The
  mode changes act only when they are handed the address of the process-wide configuration.
\<close>

datatype config_ptr = GlobalConfig | OtherConfig

definition saturated_double_int :: "int \<Rightarrow> int" where
  "saturated_double_int v = (if v \<le> 0 then v else if v > INT_MAX div 2 then INT_MAX else v * 2)"

definition tsd_runtime_config_effective_down_count :: "bool \<Rightarrow> tsd_runtime_config option \<Rightarrow> int" where
  "tsd_runtime_config_effective_down_count degraded cfg =
     (case cfg of None \<Rightarrow> 1
      | Some c \<Rightarrow>
          let v = down_count c;
              v = (if degraded \<and> v > 1 then v - 1 else v)
          in if v > 0 then v else 1)"

definition tsd_runtime_config_effective_up_count :: "bool \<Rightarrow> tsd_runtime_config option \<Rightarrow> int" where
  "tsd_runtime_config_effective_up_count degraded cfg =
     (case cfg of None \<Rightarrow> 1
      | Some c \<Rightarrow>
          let v = up_count c;
              v = (if degraded \<and> v < 10 then (if v + 2 > 10 then 10 else v + 2) else v)
          in if v > 0 then v else 1)"

definition tsd_runtime_config_effective_cooldown_down_ms :: "bool \<Rightarrow> tsd_runtime_config option \<Rightarrow> int" where
  "tsd_runtime_config_effective_cooldown_down_ms degraded cfg =
     (case cfg of None \<Rightarrow> 0
      | Some c \<Rightarrow>
          let v = cooldown_down_ms c;
              v = (if degraded then (if v < 2000 then 2000 else saturated_double_int v) else v)
          in if v > 0 then v else 0)"

definition tsd_runtime_config_effective_cooldown_up_ms :: "bool \<Rightarrow> tsd_runtime_config option \<Rightarrow> int" where
  "tsd_runtime_config_effective_cooldown_up_ms degraded cfg =
     (case cfg of None \<Rightarrow> 0
      | Some c \<Rightarrow>
          let v = cooldown_up_ms c;
              v = (if degraded then (if v < 4000 then 4000 else saturated_double_int v) else v)
          in if v > 0 then v else 0)"

definition tsd_runtime_config_effective_min_dwell_ms :: "bool \<Rightarrow> tsd_runtime_config option \<Rightarrow> int" where
  "tsd_runtime_config_effective_min_dwell_ms degraded cfg =
     (case cfg of None \<Rightarrow> 0
      | Some c \<Rightarrow>
          let v = min_dwell_ms c;
              v = (if degraded \<and> v < 500 then 500 else v)
          in if v > 0 then v else 0)"

definition tsd_runtime_config_effective_down_ratio_milli :: "bool \<Rightarrow> tsd_runtime_config option \<Rightarrow> u64" where
  "tsd_runtime_config_effective_down_ratio_milli degraded cfg =
     (case cfg of None \<Rightarrow> 1500
      | Some c \<Rightarrow>
          let v = (if down_ratio_milli c \<noteq> 0 then down_ratio_milli c else 1500)
          in if degraded \<and> v > 1300 then 1300 else v)"

text \<open>The compare-and-exchange on the flag; a failing one leaves it as it is.\<close>

definition tsd_runtime_config_enter_degraded_mode :: "config_ptr option \<Rightarrow> bool \<Rightarrow> bool" where
  "tsd_runtime_config_enter_degraded_mode cfg degraded =
     (if cfg \<noteq> Some GlobalConfig then degraded else if degraded then degraded else True)"

definition tsd_runtime_config_exit_degraded_mode :: "config_ptr option \<Rightarrow> bool \<Rightarrow> bool" where
  "tsd_runtime_config_exit_degraded_mode cfg degraded =
     (if cfg \<noteq> Some GlobalConfig then degraded else if \<not> degraded then degraded else False)"

section \<open>Derived ticks and validation\<close>

text \<open>
  The three conversions write their fields one after the other; an error leaves the fields that
  were written before it.
\<close>

definition tsd_runtime_config_refresh_ticks :: "tsd_runtime_config \<Rightarrow> rc \<times> tsd_runtime_config" where
  "tsd_runtime_config_refresh_ticks cfg =
     (case snd (tsd_compute_ticks_from_ms (check_interval_us cfg) (cooldown_down_ms cfg) True) of
        Inl e \<Rightarrow> (Inl e, cfg)
      | Inr d \<Rightarrow>
          let cfg = cfg\<lparr>cooldown_down_ticks := d\<rparr> in
          (case snd (tsd_compute_ticks_from_ms (check_interval_us cfg) (cooldown_up_ms cfg) True) of
             Inl e \<Rightarrow> (Inl e, cfg)
           | Inr u \<Rightarrow>
               let cfg = cfg\<lparr>cooldown_up_ticks := u\<rparr> in
               (case snd (tsd_compute_ticks_from_ms (check_interval_us cfg) (min_dwell_ms cfg) True) of
                  Inl e \<Rightarrow> (Inl e, cfg)
                | Inr m \<Rightarrow> (ok, cfg\<lparr>min_dwell_ticks := m\<rparr>))))"

definition generation_ranges_ok :: "tsd_runtime_config \<Rightarrow> bool" where
  "generation_ranges_ok cfg =
     (\<not> (check_interval_us cfg \<le> 0 \<or> down_count cfg \<le> 0 \<or> up_count cfg \<le> 0 \<or>
         \<not> isfinite (down_ratio cfg) \<or> dbl_le (down_ratio cfg) (Fin 0) \<or>
         cooldown_down_ms cfg < 0 \<or> cooldown_up_ms cfg < 0 \<or> min_dwell_ms cfg < 0 \<or>
         memory_guard_divisor cfg \<le> 0 \<or> degraded_timeout_sec cfg \<le> 0 \<or>
         telemetry_interval_ms cfg < 10 \<or> telemetry_interval_ms cfg > 60000 \<or>
         telemetry_max_skew_ms cfg < 0 \<or> telemetry_max_skew_ms cfg > 60000 \<or>
         \<not> isfinite (telemetry_ewma_alpha cfg) \<or> dbl_less (telemetry_ewma_alpha cfg) (Fin 0) \<or>
         dbl_less (Fin 1) (telemetry_ewma_alpha cfg) \<or>
         predictive_temp_ceiling_c cfg < 20 \<or> predictive_temp_ceiling_c cfg > 125 \<or>
         predictive_safety_margin_c cfg < 0 \<or> predictive_safety_margin_c cfg > 60 \<or>
         predictive_emergency_margin_c cfg < 0 \<or> predictive_emergency_margin_c cfg > 60 \<or>
         \<not> isfinite (predictive_alpha cfg) \<or> dbl_less (predictive_alpha cfg) (Fin 0) \<or>
         dbl_less (Fin 1) (predictive_alpha cfg)))"

text \<open>\<^verbatim>\<open>validate_generation_config\<close>, with the copy it completes.\<close>

definition validate_generation_config :: "tsd_runtime_config \<Rightarrow> rc \<times> tsd_runtime_config" where
  "validate_generation_config cfg =
     (if \<not> generation_ranges_ok cfg then (Inl EINVAL, cfg)
      else let scaled = dbl_mul (down_ratio cfg) (Fin 1000) in
        if down_ratio_milli cfg = 0 \<and>
           (\<not> isfinite scaled \<or> dbl_less scaled (Fin 1) \<or> dbl_less (dbl_of_int (2 ^ 64 - 1)) scaled)
        then (Inl EINVAL, cfg)
        else let cfg = (if down_ratio_milli cfg = 0
                        then cfg\<lparr>down_ratio_milli := of_int (dbl_trunc (dbl_add scaled (Fin (1 / 2))))\<rparr>
                        else cfg);
                 cfg = cfg\<lparr>policy := tsd_policy_config_apply_bounds (policy cfg)\<rparr>
             in tsd_runtime_config_refresh_ticks cfg)"

section \<open>Lemmas\<close>

lemmas effective_defs =
  tsd_runtime_config_effective_down_count_def tsd_runtime_config_effective_up_count_def
  tsd_runtime_config_effective_cooldown_down_ms_def tsd_runtime_config_effective_cooldown_up_ms_def
  tsd_runtime_config_effective_min_dwell_ms_def tsd_runtime_config_effective_down_ratio_milli_def

lemma saturated_double_bounds:
  "v \<le> INT_MAX \<Longrightarrow> v \<le> saturated_double_int v \<or> v \<le> 0"
  "v \<le> INT_MAX \<Longrightarrow> saturated_double_int v \<le> INT_MAX"
  by (auto simp: saturated_double_int_def)

lemma ticks_ok:
  assumes "snd (tsd_compute_ticks_from_ms i ms True) = Inr t"
  shows "1 \<le> t \<and> t \<le> INT_MAX \<and> (t - 1) * i < ms * 1000 \<and> ms * 1000 \<le> t * i"
proof -
  have "0 < i" "0 \<le> ms" using assms by (auto simp: tsd_compute_ticks_from_ms_def split: if_splits)
  moreover have "t = (ms * 1000 + i - 1) div i" "1 \<le> t" "t \<le> INT_MAX"
    using assms by (auto simp: tsd_compute_ticks_from_ms_def Let_def split: if_splits)
  ultimately show ?thesis using ceil_div_bounds [of i "ms * 1000"] by (simp add: algebra_simps)
qed

text \<open>What a refreshed configuration promises about one of its tick fields.\<close>

definition ticks_cover :: "int \<Rightarrow> int \<Rightarrow> int \<Rightarrow> bool" where
  "ticks_cover interval ms t = (1 \<le> t \<and> t \<le> INT_MAX \<and> (t - 1) * interval < ms * 1000 \<and> ms * 1000 \<le> t * interval)"

lemma refresh_ticks_ok:
  assumes "tsd_runtime_config_refresh_ticks cfg = (Inr u, cfg')"
  shows "ticks_cover (check_interval_us cfg) (cooldown_down_ms cfg) (cooldown_down_ticks cfg')"
    and "ticks_cover (check_interval_us cfg) (cooldown_up_ms cfg) (cooldown_up_ticks cfg')"
    and "ticks_cover (check_interval_us cfg) (min_dwell_ms cfg) (min_dwell_ticks cfg')"
    and "cfg' = cfg\<lparr>cooldown_down_ticks := cooldown_down_ticks cfg',
      cooldown_up_ticks := cooldown_up_ticks cfg', min_dwell_ticks := min_dwell_ticks cfg'\<rparr>"
  using assms ticks_ok
  by (auto simp: tsd_runtime_config_refresh_ticks_def ticks_cover_def Let_def split: sum.splits)

lemma apply_bounds_horizon: "forecast_horizon (tsd_policy_config_apply_bounds p) \<noteq> 0"
  by (simp add: tsd_policy_config_apply_bounds_def)

lemma apply_bounds_idem:
  "tsd_policy_config_apply_bounds (tsd_policy_config_apply_bounds p) = tsd_policy_config_apply_bounds p"
  by (simp add: tsd_policy_config_apply_bounds_def)

lemma generation_ranges_ticks [simp]:
  "generation_ranges_ok (cfg\<lparr>down_ratio_milli := a\<rparr>) = generation_ranges_ok cfg"
  "generation_ranges_ok (cfg\<lparr>policy := b\<rparr>) = generation_ranges_ok cfg"
  "generation_ranges_ok (cfg\<lparr>cooldown_down_ticks := c\<rparr>) = generation_ranges_ok cfg"
  "generation_ranges_ok (cfg\<lparr>cooldown_up_ticks := d\<rparr>) = generation_ranges_ok cfg"
  "generation_ranges_ok (cfg\<lparr>min_dwell_ticks := e\<rparr>) = generation_ranges_ok cfg"
  by (simp_all add: generation_ranges_ok_def)

text \<open>A configuration a runtime generation may run with.\<close>

definition generation_config :: "tsd_runtime_config \<Rightarrow> bool" where
  "generation_config cfg = (generation_ranges_ok cfg \<and>
     forecast_horizon (policy cfg) \<noteq> 0 \<and>
     ticks_cover (check_interval_us cfg) (cooldown_down_ms cfg) (cooldown_down_ticks cfg) \<and>
     ticks_cover (check_interval_us cfg) (cooldown_up_ms cfg) (cooldown_up_ticks cfg) \<and>
     ticks_cover (check_interval_us cfg) (min_dwell_ms cfg) (min_dwell_ticks cfg))"

lemma refresh_ticks_generation:
  assumes "tsd_runtime_config_refresh_ticks cfg = (Inr u, cfg')" "generation_ranges_ok cfg"
    "forecast_horizon (policy cfg) \<noteq> 0"
  shows "generation_config cfg'"
proof -
  from refresh_ticks_ok(4) [OF assms(1)] obtain a b c where
    cfg': "cfg' = cfg\<lparr>cooldown_down_ticks := a, cooldown_up_ticks := b, min_dwell_ticks := c\<rparr>" by blast
  show ?thesis using refresh_ticks_ok(1-3) [OF assms(1)] assms(2,3)
    unfolding generation_config_def cfg' by simp
qed

lemma validate_generation_ok:
  assumes "validate_generation_config cfg = (Inr u, cfg')"
  shows "generation_config cfg'"
proof -
  obtain c where "tsd_runtime_config_refresh_ticks c = (Inr u, cfg')" "generation_ranges_ok c"
    "policy c = tsd_policy_config_apply_bounds (policy cfg)"
  proof (cases "down_ratio_milli cfg = 0")
    case True
    with assms that show ?thesis
      by (auto simp: validate_generation_config_def Let_def split: if_splits)
  next
    case False
    with assms that show ?thesis
      by (auto simp: validate_generation_config_def Let_def split: if_splits)
  qed
  then show ?thesis by (elim refresh_ticks_generation) (simp_all add: apply_bounds_horizon)
qed

section \<open>Properties\<close>

text \<open>
  Degraded mode is never less careful than the configured policy: it downgrades after at most
  as many throttle events and at a ratio at most as high, it upgrades after at least as many
  stable events, it waits at least as long, and no value leaves the range of \<^verbatim>\<open>int\<close>.
\<close>
theorem degraded_overlay_conservative:
  assumes "cooldown_down_ms c \<le> INT_MAX" "cooldown_up_ms c \<le> INT_MAX"
  shows "tsd_runtime_config_effective_down_count True (Some c) \<le> tsd_runtime_config_effective_down_count False (Some c)
    \<and> tsd_runtime_config_effective_down_ratio_milli True (Some c) \<le> tsd_runtime_config_effective_down_ratio_milli False (Some c)
    \<and> tsd_runtime_config_effective_up_count False (Some c) \<le> tsd_runtime_config_effective_up_count True (Some c)
    \<and> tsd_runtime_config_effective_min_dwell_ms False (Some c) \<le> tsd_runtime_config_effective_min_dwell_ms True (Some c)
    \<and> tsd_runtime_config_effective_cooldown_down_ms False (Some c) \<le> tsd_runtime_config_effective_cooldown_down_ms True (Some c)
    \<and> tsd_runtime_config_effective_cooldown_up_ms False (Some c) \<le> tsd_runtime_config_effective_cooldown_up_ms True (Some c)
    \<and> tsd_runtime_config_effective_cooldown_down_ms True (Some c) \<le> INT_MAX
    \<and> tsd_runtime_config_effective_cooldown_up_ms True (Some c) \<le> INT_MAX"
  using assms by (auto simp: effective_defs Let_def saturated_double_int_def)

theorem degraded_overlay_conservative_witness:
  "tsd_runtime_config_effective_down_count True (Some k_default_config) = 2 \<and>
   tsd_runtime_config_effective_down_count True (Some k_default_config) \<le>
     tsd_runtime_config_effective_down_count False (Some k_default_config)"
  using degraded_overlay_conservative [of k_default_config]
  by (simp add: effective_defs k_default_config_def)



end
