(* ===== verification/Observability.thy ===== *)
theory Observability
  imports Runtime_Config
begin

text \<open>
  \<^verbatim>\<open>src/observability/telemetry_state.cpp\<close>: the telemetry snapshots the width guard reads. This
  theory holds the snapshots, the assignments of each \<^verbatim>\<open>update_*\<close> method and the queries; the
  methods with the safety gate around the assignments are in the guard's theories. Clock readings
  are nanoseconds since the epoch of the clock, 0 being the default-constructed time point.
\<close>

section \<open>Telemetry structures\<close>

record tsd_controller_telemetry_t =
  ct_fallback_active :: int
  ct_current_width :: simd_width_t
  ct_recommended_width :: simd_width_t
  ct_issued_change :: int

record tsd_fusion_telemetry_t =
  ft_running :: int
  ft_degraded :: int
  ft_temp_available :: int
  ft_package_temp_c :: dbl
  ft_freq_available :: int
  ft_freq_ratio :: dbl
  ft_cpi_available :: int
  ft_thermal_cpi :: dbl
  ft_power_available :: int
  ft_power_budget_w :: dbl

record tsd_temperature_channels_t =
  tc_raw_available :: int
  tc_raw_package_temp_c :: dbl
  tc_filtered_available :: int
  tc_filtered_package_temp_c :: dbl

record tsd_perf_telemetry_t =
  pt_mode :: int
  pt_counters_healthy :: int
  pt_pinned_cpu :: int
  pt_monitor_cpu :: int

text \<open>The snapshots; their fields carry a prefix (\<open>cs_\<close>, \<open>fs_\<close>, \<open>ps_\<close>) because several share a name.\<close>

record ControllerTelemetrySnapshot =
  cs_fallback_active :: bool
  cs_current_width :: simd_width_t
  cs_recommended_width :: simd_width_t
  cs_issued_change :: bool
  cs_updated_at :: int
  cs_freshness_at :: int

record FusionTelemetrySnapshot =
  fs_running :: bool
  fs_degraded :: bool
  fs_temp_available :: bool
  fs_package_temp_c :: dbl
  fs_raw_temp_available :: bool
  fs_raw_package_temp_c :: dbl
  fs_filtered_temp_available :: bool
  fs_filtered_package_temp_c :: dbl
  fs_freq_available :: bool
  fs_freq_ratio :: dbl
  fs_cpi_available :: bool
  fs_thermal_cpi :: dbl
  fs_power_available :: bool
  fs_power_budget_w :: dbl
  fs_updated_at :: int
  fs_freshness_at :: int
  fs_raw_temp_freshness_at :: int

record PerfTelemetrySnapshot =
  ps_mode :: int
  ps_counters_healthy :: bool
  ps_pinned_cpu :: int
  ps_monitor_cpu :: int
  ps_updated_at :: int
  ps_freshness_at :: int

text \<open>The state of the class \<^verbatim>\<open>TelemetryState\<close>.\<close>

record telemetry_state =
  ts_controller :: ControllerTelemetrySnapshot
  ts_fusion :: FusionTelemetrySnapshot
  ts_perf :: PerfTelemetrySnapshot

definition telemetry_state_init :: telemetry_state where
  "telemetry_state_init = \<lparr>
     ts_controller = \<lparr>cs_fallback_active = False, cs_current_width = SIMD_SSE41,
       cs_recommended_width = SIMD_SSE41, cs_issued_change = False, cs_updated_at = 0, cs_freshness_at = 0\<rparr>,
     ts_fusion = \<lparr>fs_running = False, fs_degraded = False, fs_temp_available = False,
       fs_package_temp_c = Fin 0, fs_raw_temp_available = False, fs_raw_package_temp_c = Fin 0,
       fs_filtered_temp_available = False, fs_filtered_package_temp_c = Fin 0,
       fs_freq_available = False, fs_freq_ratio = Fin 0, fs_cpi_available = False,
       fs_thermal_cpi = Fin 0, fs_power_available = False, fs_power_budget_w = Fin 0,
       fs_updated_at = 0, fs_freshness_at = 0, fs_raw_temp_freshness_at = 0\<rparr>,
     ts_perf = \<lparr>ps_mode = 0, ps_counters_healthy = False, ps_pinned_cpu = - 1, ps_monitor_cpu = - 1,
       ps_updated_at = 0, ps_freshness_at = 0\<rparr>\<rparr>"

section \<open>The assignments of the update methods\<close>

text \<open>\<open>sys\<close> and \<open>steady\<close> are the readings of the two clocks.\<close>

definition controller_assign ::
    "int \<Rightarrow> int \<Rightarrow> tsd_controller_telemetry_t \<Rightarrow> telemetry_state \<Rightarrow> telemetry_state" where
  "controller_assign sys steady t st = st\<lparr>ts_controller := \<lparr>
     cs_fallback_active = (ct_fallback_active t \<noteq> 0),
     cs_current_width = ct_current_width t,
     cs_recommended_width = ct_recommended_width t,
     cs_issued_change = (ct_issued_change t \<noteq> 0),
     cs_updated_at = sys, cs_freshness_at = steady\<rparr>\<rparr>"

definition fusion_assign ::
    "int \<Rightarrow> int \<Rightarrow> tsd_fusion_telemetry_t \<Rightarrow> telemetry_state \<Rightarrow> telemetry_state" where
  "fusion_assign sys steady t st = st\<lparr>ts_fusion := (ts_fusion st)\<lparr>
     fs_running := (ft_running t \<noteq> 0),
     fs_degraded := (ft_degraded t \<noteq> 0),
     fs_temp_available := (ft_temp_available t \<noteq> 0),
     fs_package_temp_c := ft_package_temp_c t,
     fs_filtered_temp_available := (ft_temp_available t \<noteq> 0),
     fs_filtered_package_temp_c := ft_package_temp_c t,
     fs_freq_available := (ft_freq_available t \<noteq> 0),
     fs_freq_ratio := ft_freq_ratio t,
     fs_cpi_available := (ft_cpi_available t \<noteq> 0),
     fs_thermal_cpi := ft_thermal_cpi t,
     fs_power_available := (ft_power_available t \<noteq> 0),
     fs_power_budget_w := ft_power_budget_w t,
     fs_updated_at := sys, fs_freshness_at := steady\<rparr>\<rparr>"

definition temperature_channels_assign ::
    "int \<Rightarrow> int \<Rightarrow> tsd_temperature_channels_t \<Rightarrow> telemetry_state \<Rightarrow> telemetry_state" where
  "temperature_channels_assign sys steady t st =
     (let f = (ts_fusion st)\<lparr>fs_raw_temp_available := (tc_raw_available t \<noteq> 0),
                fs_raw_package_temp_c := tc_raw_package_temp_c t\<rparr>;
          f = f\<lparr>fs_raw_temp_freshness_at := (if tc_raw_available t \<noteq> 0 then steady else 0)\<rparr>;
          f = f\<lparr>fs_filtered_temp_available := (tc_filtered_available t \<noteq> 0),
                fs_filtered_package_temp_c := tc_filtered_package_temp_c t\<rparr>;
          f = (if tc_filtered_available t \<noteq> 0
               then f\<lparr>fs_temp_available := True, fs_package_temp_c := tc_filtered_package_temp_c t\<rparr>
               else if tc_raw_available t = 0
               then f\<lparr>fs_temp_available := False, fs_package_temp_c := Fin 0\<rparr>
               else f);
          f = f\<lparr>fs_updated_at := sys, fs_freshness_at := steady\<rparr>
      in st\<lparr>ts_fusion := f\<rparr>)"

definition perf_assign ::
    "int \<Rightarrow> int \<Rightarrow> tsd_perf_telemetry_t \<Rightarrow> telemetry_state \<Rightarrow> telemetry_state" where
  "perf_assign sys steady t st = st\<lparr>ts_perf := \<lparr>
     ps_mode = pt_mode t,
     ps_counters_healthy = (pt_counters_healthy t \<noteq> 0),
     ps_pinned_cpu = pt_pinned_cpu t,
     ps_monitor_cpu = pt_monitor_cpu t,
     ps_updated_at = sys, ps_freshness_at = steady\<rparr>\<rparr>"

section \<open>Queries\<close>

definition runtime_guard_active :: "telemetry_state \<Rightarrow> bool" where
  "runtime_guard_active st = (ps_mode (ts_perf st) \<noteq> 0 \<or> fs_running (ts_fusion st))"

definition perf_mode :: "telemetry_state \<Rightarrow> int" where
  "perf_mode st = ps_mode (ts_perf st)"

definition perf_hardware_fresh :: "int \<Rightarrow> int \<Rightarrow> telemetry_state \<Rightarrow> bool" where
  "perf_hardware_fresh steady max_age st =
     (if ps_mode (ts_perf st) \<noteq> 1 \<or> \<not> ps_counters_healthy (ts_perf st) \<or> ps_freshness_at (ts_perf st) = 0
      then False
      else steady \<ge> ps_freshness_at (ts_perf st) \<and> steady - ps_freshness_at (ts_perf st) \<le> max_age)"

definition raw_temperature :: "int \<Rightarrow> int \<Rightarrow> telemetry_state \<Rightarrow> dbl option" where
  "raw_temperature steady max_age st =
     (if \<not> fs_raw_temp_available (ts_fusion st) \<or> fs_raw_temp_freshness_at (ts_fusion st) = 0 then None
      else if steady < fs_raw_temp_freshness_at (ts_fusion st) \<or>
              steady - fs_raw_temp_freshness_at (ts_fusion st) > max_age then None
      else Some (fs_raw_package_temp_c (ts_fusion st)))"

section \<open>The C queries\<close>

text \<open>
  \<open>throws\<close>: the lock of \<^verbatim>\<open>mutex_\<close> throws and the \<^verbatim>\<open>catch (...)\<close> of the C function answers.
\<close>

definition tsd_observability_runtime_guard_active :: "bool \<Rightarrow> telemetry_state \<Rightarrow> bool" where
  "tsd_observability_runtime_guard_active throws st = (if throws then True else runtime_guard_active st)"

definition tsd_observability_perf_mode :: "bool \<Rightarrow> telemetry_state \<Rightarrow> int" where
  "tsd_observability_perf_mode throws st = (if throws then 0 else perf_mode st)"

text \<open>Five seconds, and milliseconds, in nanoseconds.\<close>

definition tsd_observability_perf_hardware_fresh :: "bool \<Rightarrow> int \<Rightarrow> telemetry_state \<Rightarrow> bool" where
  "tsd_observability_perf_hardware_fresh throws steady st =
     (if throws then False else perf_hardware_fresh steady (5 * 1000000000) st)"

definition tsd_observability_raw_temperature_c ::
    "bool \<Rightarrow> int \<Rightarrow> int \<Rightarrow> telemetry_state \<Rightarrow> dbl option" where
  "tsd_observability_raw_temperature_c throws steady max_age_ms st =
     (if max_age_ms < 0 then None
      else if throws then None
      else raw_temperature steady (max_age_ms * 1000000) st)"

section \<open>Lemmas\<close>

lemmas observability_queries =
  tsd_observability_runtime_guard_active_def tsd_observability_perf_mode_def
  tsd_observability_perf_hardware_fresh_def tsd_observability_raw_temperature_c_def
  runtime_guard_active_def perf_mode_def perf_hardware_fresh_def raw_temperature_def

lemma assign_frame [simp, tsd_frame]:
  "ts_perf (fusion_assign sys steady ft st) = ts_perf st"
  "ts_perf (temperature_channels_assign sys steady tc st) = ts_perf st"
  "ts_fusion (perf_assign sys steady pt st) = ts_fusion st"
  "ts_fusion (controller_assign sys steady ct st) = ts_fusion st"
  "ts_perf (controller_assign sys steady ct st) = ts_perf st"
  by (simp_all add: fusion_assign_def temperature_channels_assign_def perf_assign_def
    controller_assign_def Let_def)

text \<open>The fusion update leaves the raw channel, the temperature channels leave the run state.\<close>

lemma fusion_assign_raw [simp, tsd_frame]:
  "fs_raw_temp_available (ts_fusion (fusion_assign sys steady ft st)) = fs_raw_temp_available (ts_fusion st)"
  "fs_raw_package_temp_c (ts_fusion (fusion_assign sys steady ft st)) = fs_raw_package_temp_c (ts_fusion st)"
  "fs_raw_temp_freshness_at (ts_fusion (fusion_assign sys steady ft st)) = fs_raw_temp_freshness_at (ts_fusion st)"
  "fs_running (ts_fusion (temperature_channels_assign sys steady tc st)) = fs_running (ts_fusion st)"
  by (simp_all add: fusion_assign_def temperature_channels_assign_def Let_def)

text \<open>A stored raw reading is returned exactly within its window, and no older one ever is.\<close>

lemma raw_temperature_after_channels:
  "raw_temperature now age (temperature_channels_assign sys steady t st) =
     (if tc_raw_available t \<noteq> 0 \<and> steady \<noteq> 0 \<and> steady \<le> now \<and> now - steady \<le> age
      then Some (tc_raw_package_temp_c t) else None)"
  by (auto simp: raw_temperature_def temperature_channels_assign_def Let_def)

end
