(* ===== verification/Runtime_Guard.thy ===== *)
theory Runtime_Guard
  imports Observability
begin

text \<open>
  \<^verbatim>\<open>src/runtime_guard.c\<close> with the queries of \<^verbatim>\<open>src/config/runtime_flags.c\<close> and
  \<^verbatim>\<open>src/telemetry/fusion_bridge.cpp\<close> it reads: which width a call may use, the admission of
  wide executions, the safety-write bracket and the immutable configuration of a runtime
  generation. The operations here are atomic; their interleaving is in \<open>Admission\<close>.
\<close>

section \<open>State\<close>

record tsd_safety_config_snapshot_t =
  sc_telemetry_max_skew_ms :: int
  sc_predictive_temp_ceiling_c :: int
  sc_predictive_safety_margin_c :: int
  sc_predictive_emergency_margin_c :: int

text \<open>
  The process-wide variables of the sources named in the comments, and below them the
  environment: the clocks, whether the lock of the telemetry mutex throws, and the results the
  calls on the guard and drain mutexes whose result the code reads will give (\<^term>\<open>None\<close> is
  success; an exhausted list succeeds).
  \<open>wide_execution_depth\<close> is thread-local, so it is indexed by the thread id;
  \<open>drain_broadcasts\<close> counts the wake-ups of shutdown waiters.
\<close>

record proc =
  active_wide_executions :: u64
  wide_admission_open :: bool
  runtime_stopping :: bool
  runtime_owner_tid :: int
  wide_execution_depth :: "int \<Rightarrow> u32"
  runtime_config_snapshot_state :: nat
  runtime_config_snapshot :: tsd_runtime_config
  safety_config_snapshot_state :: nat
  safety_config_snapshot_value :: tsd_safety_config_snapshot_t
  global_config :: tsd_runtime_config
  degraded_active :: bool
  sandbox_complete :: bool
  sandbox_success :: bool
  sandbox_only :: bool
  sandbox_message :: string
  fusion_running :: bool
  temperature_upgrade_allowed :: bool
  telemetry :: telemetry_state
  steady_now :: int
  system_now :: int
  telemetry_throws :: bool
  guard_lock_rcs :: "errno option list"
  drain_lock_rcs :: "errno option list"
  drain_broadcasts :: nat

text \<open>The process before any call: every static object has its initial value.\<close>

definition zero_runtime_config :: tsd_runtime_config where
  "zero_runtime_config = \<lparr>
     check_interval_us = 0, down_count = 0, up_count = 0, down_ratio = Fin 0, down_ratio_milli = 0,
     cooldown_down_ms = 0, cooldown_up_ms = 0, allow_avx512 = 0, min_dwell_ms = 0,
     memory_guard_divisor = 0, memory_guard_offset_milli = 0, demo_duration_sec = 0, run_forever = 0,
     work_iters = 0, cooldown_down_ticks = 0, cooldown_up_ticks = 0, min_dwell_ticks = 0,
     thermal_temp_weight_milli = 0, thermal_ratio_weight_milli = 0, degraded_timeout_sec = 0,
     degraded_policy_active = 0, health_check_mode = 0, metrics_enabled = 0, metrics_port = 0,
     metrics_bind_host = [], metrics_tls_cert_path = [], metrics_tls_key_path = [],
     metrics_tls_ca_path = [], metrics_tls_require_client_auth = 0, metrics_basic_auth_user = [],
     metrics_basic_auth_pass = [], statsd_host = [], statsd_port = 0, telemetry_interval_ms = 0,
     telemetry_max_skew_ms = 0, telemetry_ewma_alpha = Fin 0, telemetry_profile_path = [],
     predictive_temp_ceiling_c = 0, predictive_safety_margin_c = 0, predictive_emergency_margin_c = 0,
     predictive_alpha = Fin 0, predictive_coeff_path = [], log_level = TSD_LOG_LEVEL_ERROR,
     policy = zero_policy_config\<rparr>"

definition proc_init :: proc where
  "proc_init = \<lparr>
     active_wide_executions = 0, wide_admission_open = False, runtime_stopping = False,
     runtime_owner_tid = 0, wide_execution_depth = (\<lambda>_. 0),
     runtime_config_snapshot_state = 0, runtime_config_snapshot = zero_runtime_config,
     safety_config_snapshot_state = 0,
     safety_config_snapshot_value = \<lparr>sc_telemetry_max_skew_ms = 0, sc_predictive_temp_ceiling_c = 0,
       sc_predictive_safety_margin_c = 0, sc_predictive_emergency_margin_c = 0\<rparr>,
     global_config = zero_runtime_config, degraded_active = False,
     sandbox_complete = False, sandbox_success = False, sandbox_only = False,
     sandbox_message = ''sandbox pending'',
     fusion_running = False, temperature_upgrade_allowed = True,
     telemetry = telemetry_state_init, steady_now = 0, system_now = 0, telemetry_throws = False,
     guard_lock_rcs = [], drain_lock_rcs = [], drain_broadcasts = 0\<rparr>"

section \<open>Configuration generations\<close>

definition tsd_runtime_config_activate_snapshot ::
    "tsd_runtime_config option \<Rightarrow> 'a proc_scheme \<Rightarrow> rc \<times> 'a proc_scheme" where
  "tsd_runtime_config_activate_snapshot config p =
     (case config of
        None \<Rightarrow> (Inl EINVAL, p)
      | Some c \<Rightarrow>
          (case validate_generation_config c of
             (Inl e, _) \<Rightarrow> (Inl e, p)
           | (Inr _, snapshot) \<Rightarrow>
               if runtime_config_snapshot_state p \<noteq> 0 then (Inl EBUSY, p)
               else (ok, p\<lparr>runtime_config_snapshot := snapshot,
                          runtime_config_snapshot_state := 2,
                          safety_config_snapshot_state := 0\<rparr>)))"

definition tsd_runtime_config_deactivate_snapshot :: "'a proc_scheme \<Rightarrow> 'a proc_scheme" where
  "tsd_runtime_config_deactivate_snapshot p =
     p\<lparr>safety_config_snapshot_state := 0, runtime_config_snapshot_state := 0\<rparr>"

definition tsd_runtime_config_snapshot_is_active :: "'a proc_scheme \<Rightarrow> bool" where
  "tsd_runtime_config_snapshot_is_active p = (runtime_config_snapshot_state p = 2)"

definition tsd_runtime_config_active_snapshot :: "'a proc_scheme \<Rightarrow> tsd_runtime_config" where
  "tsd_runtime_config_active_snapshot p =
     (if runtime_config_snapshot_state p = 2 then runtime_config_snapshot p else global_config p)"

text \<open>
  The lazily captured safety limits: the first reader publishes them; a reader that meets
  another publisher (state 1) fails closed.
\<close>

definition safety_config_snapshot ::
    "'a proc_scheme \<Rightarrow> tsd_safety_config_snapshot_t option \<times> 'a proc_scheme" where
  "safety_config_snapshot p =
     (if safety_config_snapshot_state p = 0 then
        (let cfg = tsd_runtime_config_active_snapshot p;
             snapshot = \<lparr>sc_telemetry_max_skew_ms = telemetry_max_skew_ms cfg,
               sc_predictive_temp_ceiling_c = predictive_temp_ceiling_c cfg,
               sc_predictive_safety_margin_c = predictive_safety_margin_c cfg,
               sc_predictive_emergency_margin_c = predictive_emergency_margin_c cfg\<rparr>
         in (Some snapshot, p\<lparr>safety_config_snapshot_value := snapshot, safety_config_snapshot_state := 2\<rparr>))
      else if safety_config_snapshot_state p = 2 then (Some (safety_config_snapshot_value p), p)
      else (None, p))"

section \<open>Admission flag, ownership, stopping\<close>

definition tsd_runtime_wide_admission_close :: "'a proc_scheme \<Rightarrow> 'a proc_scheme" where
  "tsd_runtime_wide_admission_close p = p\<lparr>wide_admission_open := False\<rparr>"

definition tsd_runtime_set_owner_tid_locked :: "int \<Rightarrow> 'a proc_scheme \<Rightarrow> 'a proc_scheme" where
  "tsd_runtime_set_owner_tid_locked tid p = p\<lparr>runtime_owner_tid := (if tid > 0 then tid else 0)\<rparr>"

definition tsd_runtime_current_thread_is_owner :: "int \<Rightarrow> 'a proc_scheme \<Rightarrow> bool" where
  "tsd_runtime_current_thread_is_owner tid p = (runtime_owner_tid p \<le> 0 \<or> tid = runtime_owner_tid p)"

definition tsd_runtime_work_accounting_allowed :: "int \<Rightarrow> 'a proc_scheme \<Rightarrow> bool" where
  "tsd_runtime_work_accounting_allowed tid p =
     (if \<not> tsd_observability_runtime_guard_active (telemetry_throws p) (telemetry p) then True
      else tsd_runtime_current_thread_is_owner tid p)"

definition tsd_runtime_current_thread_in_wide_execution :: "int \<Rightarrow> 'a proc_scheme \<Rightarrow> bool" where
  "tsd_runtime_current_thread_in_wide_execution tid p = (wide_execution_depth p tid \<noteq> 0)"

definition tsd_runtime_set_stopping_locked :: "bool \<Rightarrow> 'a proc_scheme \<Rightarrow> 'a proc_scheme" where
  "tsd_runtime_set_stopping_locked stopping p =
     (let p = p\<lparr>runtime_stopping := stopping\<rparr>
      in if stopping
         then (tsd_runtime_wide_admission_close p)\<lparr>safety_config_snapshot_state := 0\<rparr>
         else p)"

section \<open>Authorization of a width\<close>

text \<open>\<^verbatim>\<open>tsd_telemetry_temperature_upgrade_allowed\<close> of \<^verbatim>\<open>src/telemetry/fusion_bridge.cpp\<close>.\<close>

definition tsd_telemetry_temperature_upgrade_allowed :: "'a proc_scheme \<Rightarrow> bool" where
  "tsd_telemetry_temperature_upgrade_allowed p =
     (if \<not> fusion_running p then True else temperature_upgrade_allowed p)"

definition tsd_runtime_flags_allow_transitions :: "'a proc_scheme \<Rightarrow> bool" where
  "tsd_runtime_flags_allow_transitions p =
     (if \<not> sandbox_complete p \<or> \<not> sandbox_success p then False
      else tsd_telemetry_temperature_upgrade_allowed p)"

definition runtime_temperature_limits_valid :: "tsd_safety_config_snapshot_t \<Rightarrow> bool" where
  "runtime_temperature_limits_valid cfg =
     (sc_predictive_temp_ceiling_c cfg \<ge> 20 \<and> sc_predictive_temp_ceiling_c cfg \<le> 125 \<and>
      sc_predictive_safety_margin_c cfg \<ge> 0 \<and> sc_predictive_safety_margin_c cfg \<le> 60 \<and>
      sc_predictive_emergency_margin_c cfg \<ge> 0 \<and> sc_predictive_emergency_margin_c cfg \<le> 60)"

definition raw_temperature_upgrade_allowed :: "'a proc_scheme \<Rightarrow> bool \<times> 'a proc_scheme" where
  "raw_temperature_upgrade_allowed p =
     (if \<not> tsd_telemetry_temperature_upgrade_allowed p then (False, p)
      else (case safety_config_snapshot p of
          (None, p) \<Rightarrow> (False, p)
        | (Some cfg, p) \<Rightarrow>
            if \<not> runtime_temperature_limits_valid cfg then (False, p)
            else let freshness_ms = (if sc_telemetry_max_skew_ms cfg < 0 then 150
                                     else sc_telemetry_max_skew_ms cfg)
                 in (case tsd_observability_raw_temperature_c (telemetry_throws p) (steady_now p)
                            freshness_ms (telemetry p) of
                       None \<Rightarrow> (False, p)
                     | Some raw_temp_c \<Rightarrow>
                         if \<not> isfinite raw_temp_c then (False, p)
                         else (dbl_le raw_temp_c (dbl_of_int (sc_predictive_temp_ceiling_c cfg -
                                 sc_predictive_safety_margin_c cfg)), p))))"

abbreviation (input) TSD_PERF_MODE_HARDWARE :: int where "TSD_PERF_MODE_HARDWARE \<equiv> 1"

definition tsd_runtime_width_authorized :: "simd_width_t \<Rightarrow> 'a proc_scheme \<Rightarrow> bool \<times> 'a proc_scheme" where
  "tsd_runtime_width_authorized width p =
     (if \<not> width_valid width then (False, p)
      else if width = SIMD_SSE41 then (True, p)
      else if runtime_stopping p then (False, p)
      else if \<not> tsd_runtime_flags_allow_transitions p then (False, p)
      else if \<not> tsd_observability_runtime_guard_active (telemetry_throws p) (telemetry p) then (True, p)
      else if tsd_observability_perf_mode (telemetry_throws p) (telemetry p) \<noteq> TSD_PERF_MODE_HARDWARE \<or>
              \<not> tsd_observability_perf_hardware_fresh (telemetry_throws p) (steady_now p) (telemetry p)
      then (False, p)
      else raw_temperature_upgrade_allowed p)"

section \<open>Wide executions\<close>

definition wide_execution_release :: "int \<Rightarrow> 'a proc_scheme \<Rightarrow> 'a proc_scheme" where
  "wide_execution_release tid p =
     (let p = (if wide_execution_depth p tid > 0
               then p\<lparr>wide_execution_depth := (wide_execution_depth p)(tid := wide_execution_depth p tid - 1)\<rparr>
               else p);
          previous = active_wide_executions p;
          p = p\<lparr>active_wide_executions := previous - 1\<rparr>
      in if previous = 0 then p\<lparr>active_wide_executions := 0\<rparr>
         else if previous = 1 then
           (let (r, rcs) = next_of None (drain_lock_rcs p); p = p\<lparr>drain_lock_rcs := rcs\<rparr>
            in if r = None then p\<lparr>drain_broadcasts := Suc (drain_broadcasts p)\<rparr> else p)
         else p)"

definition tsd_runtime_execution_enter ::
    "int \<Rightarrow> simd_width_t \<Rightarrow> 'a proc_scheme \<Rightarrow> rc \<times> 'a proc_scheme" where
  "tsd_runtime_execution_enter tid width p =
     (if \<not> width_valid width then (Inl EINVAL, p)
      else if width = SIMD_SSE41 then (ok, p)
      else if \<not> tsd_runtime_current_thread_is_owner tid p \<or> \<not> wide_admission_open p then (Inl EAGAIN, p)
      else (case tsd_runtime_width_authorized width p of
          (False, p) \<Rightarrow> (Inl EAGAIN, p)
        | (True, p) \<Rightarrow>
            let p = p\<lparr>active_wide_executions := active_wide_executions p + 1,
                      wide_execution_depth := (wide_execution_depth p)(tid := wide_execution_depth p tid + 1)\<rparr>
            in if \<not> wide_admission_open p \<or> \<not> tsd_runtime_current_thread_is_owner tid p
               then (Inl EAGAIN, wide_execution_release tid p)
               else (case tsd_runtime_width_authorized width p of
                   (False, p) \<Rightarrow> (Inl EAGAIN, wide_execution_release tid p)
                 | (True, p) \<Rightarrow> (ok, p))))"

definition tsd_runtime_execution_leave :: "int \<Rightarrow> simd_width_t \<Rightarrow> 'a proc_scheme \<Rightarrow> 'a proc_scheme" where
  "tsd_runtime_execution_leave tid width p =
     (if width > SIMD_SSE41 \<and> width \<le> SIMD_AVX512 then wide_execution_release tid p else p)"

text \<open>
  The drain loop. A wait on the condition ends with a return code, at which time other threads
  have left the counter at some value: \<open>wakes\<close> lists these. An exhausted list is a wait that
  does not end, so the call does not return.
\<close>

fun drain_loop :: "(errno option \<times> u64) list \<Rightarrow> 'a proc_scheme \<Rightarrow> (rc \<times> 'a proc_scheme) option" where
  "drain_loop wakes p =
     (if active_wide_executions p = 0 then
        (let (r, rcs) = next_of None (drain_lock_rcs p); p = p\<lparr>drain_lock_rcs := rcs\<rparr>
         in Some (case r of Some e \<Rightarrow> (Inl e, p) | None \<Rightarrow> (ok, p)))
      else case wakes of
        [] \<Rightarrow> None
      | (r, n) # wakes' \<Rightarrow>
          let p = p\<lparr>active_wide_executions := n\<rparr>
          in (case r of Some e \<Rightarrow> Some (Inl e, p)
              | None \<Rightarrow> drain_loop wakes' p))"

declare drain_loop.simps [simp del]

definition tsd_runtime_wait_for_wide_quiescence ::
    "int \<Rightarrow> (errno option \<times> u64) list \<Rightarrow> 'a proc_scheme \<Rightarrow> (rc \<times> 'a proc_scheme) option" where
  "tsd_runtime_wait_for_wide_quiescence tid wakes p =
     (if tsd_runtime_current_thread_in_wide_execution tid p then Some (Inl EDEADLK, p)
      else let (r, rcs) = next_of None (drain_lock_rcs p); p = p\<lparr>drain_lock_rcs := rcs\<rparr>
           in (case r of Some e \<Rightarrow> Some (Inl e, p) | None \<Rightarrow> drain_loop wakes p))"

section \<open>The safety-write bracket\<close>

definition tsd_runtime_safety_write_enter :: "'a proc_scheme \<Rightarrow> rc \<times> 'a proc_scheme" where
  "tsd_runtime_safety_write_enter p =
     (let (r, rcs) = next_of None (guard_lock_rcs p); p = p\<lparr>guard_lock_rcs := rcs\<rparr>
      in (case r of Some e \<Rightarrow> (Inl e, p)
          | None \<Rightarrow> (ok, tsd_runtime_wide_admission_close p)))"

definition tsd_runtime_safety_write_leave :: "'a proc_scheme \<Rightarrow> 'a proc_scheme" where
  "tsd_runtime_safety_write_leave p =
     (if runtime_stopping p then p\<lparr>wide_admission_open := False\<rparr>
      else (case tsd_runtime_width_authorized SIMD_AVX2 p of
          (reopen, p) \<Rightarrow> p\<lparr>wide_admission_open := reopen\<rparr>))"

section \<open>Authorization: characterization and frame\<close>

text \<open>
  What the guard promises before a wide width may be used, written without the program's control
  flow: no shutdown, a sandbox that completed and passed, the temperature gate when fusion runs
  and, while a runtime is live, fresh healthy hardware counters and a fresh finite raw package
  temperature at or below the ceiling minus the safety margin.
\<close>

definition safety_limits :: "'a proc_scheme \<Rightarrow> tsd_safety_config_snapshot_t option" where
  "safety_limits p = fst (safety_config_snapshot p)"

definition perf_trusted :: "'a proc_scheme \<Rightarrow> bool" where
  "perf_trusted p = (let s = ts_perf (telemetry p) in
     ps_mode s = 1 \<and> ps_counters_healthy s \<and> ps_freshness_at s \<noteq> 0 \<and>
     ps_freshness_at s \<le> steady_now p \<and> steady_now p \<le> ps_freshness_at s + 5000000000)"

definition temperature_safe :: "'a proc_scheme \<Rightarrow> bool" where
  "temperature_safe p = (case safety_limits p of
     None \<Rightarrow> False
   | Some l \<Rightarrow> let s = ts_fusion (telemetry p);
                  window = (if sc_telemetry_max_skew_ms l < 0 then 150 else sc_telemetry_max_skew_ms l) * 1000000
              in runtime_temperature_limits_valid l \<and>
                 fs_raw_temp_available s \<and> fs_raw_temp_freshness_at s \<noteq> 0 \<and>
                 fs_raw_temp_freshness_at s \<le> steady_now p \<and>
                 steady_now p \<le> fs_raw_temp_freshness_at s + window \<and>
                 (\<exists>t. fs_raw_package_temp_c s = Fin t \<and>
                   t \<le> of_int (sc_predictive_temp_ceiling_c l - sc_predictive_safety_margin_c l)))"

definition guard_live :: "'a proc_scheme \<Rightarrow> bool" where
  "guard_live p = (telemetry_throws p \<or> ps_mode (ts_perf (telemetry p)) \<noteq> 0 \<or> fs_running (ts_fusion (telemetry p)))"

definition wide_conditions :: "'a proc_scheme \<Rightarrow> bool" where
  "wide_conditions p =
     (\<not> runtime_stopping p \<and> sandbox_complete p \<and> sandbox_success p \<and>
      (fusion_running p \<longrightarrow> temperature_upgrade_allowed p) \<and>
      (guard_live p \<longrightarrow> \<not> telemetry_throws p \<and> perf_trusted p \<and> temperature_safe p))"

lemma limits_exact:
  "runtime_temperature_limits_valid l \<Longrightarrow>
   dbl_of_int (sc_predictive_temp_ceiling_c l - sc_predictive_safety_margin_c l) =
     Fin (of_int (sc_predictive_temp_ceiling_c l - sc_predictive_safety_margin_c l))"
  by (rule dbl_of_int_exact) (auto simp: runtime_temperature_limits_valid_def)

text \<open>The only effect of a query on the state: the first one captures the limits.\<close>

definition capture_limits :: "'a proc_scheme \<Rightarrow> 'a proc_scheme" where
  "capture_limits p = snd (safety_config_snapshot p)"

lemma safety_config_snapshot_pair: "safety_config_snapshot p = (safety_limits p, capture_limits p)"
  by (simp add: safety_limits_def capture_limits_def)

lemma capture_limits_frame [simp, tsd_frame]:
  "active_wide_executions (capture_limits p) = active_wide_executions p"
  "wide_admission_open (capture_limits p) = wide_admission_open p"
  "runtime_stopping (capture_limits p) = runtime_stopping p"
  "runtime_owner_tid (capture_limits p) = runtime_owner_tid p"
  "wide_execution_depth (capture_limits p) = wide_execution_depth p"
  "runtime_config_snapshot_state (capture_limits p) = runtime_config_snapshot_state p"
  "runtime_config_snapshot (capture_limits p) = runtime_config_snapshot p"
  "global_config (capture_limits p) = global_config p"
  "degraded_active (capture_limits p) = degraded_active p"
  "sandbox_complete (capture_limits p) = sandbox_complete p"
  "sandbox_success (capture_limits p) = sandbox_success p"
  "sandbox_only (capture_limits p) = sandbox_only p"
  "sandbox_message (capture_limits p) = sandbox_message p"
  "fusion_running (capture_limits p) = fusion_running p"
  "temperature_upgrade_allowed (capture_limits p) = temperature_upgrade_allowed p"
  "telemetry (capture_limits p) = telemetry p"
  "steady_now (capture_limits p) = steady_now p"
  "system_now (capture_limits p) = system_now p"
  "telemetry_throws (capture_limits p) = telemetry_throws p"
  "guard_lock_rcs (capture_limits p) = guard_lock_rcs p"
  "drain_lock_rcs (capture_limits p) = drain_lock_rcs p"
  "drain_broadcasts (capture_limits p) = drain_broadcasts p"
  "proc.more (capture_limits p) = proc.more p"
  by (simp_all add: capture_limits_def safety_config_snapshot_def Let_def)

lemma capture_limits_idem [simp]:
  "capture_limits (capture_limits p) = capture_limits p"
  "safety_limits (capture_limits p) = safety_limits p"
  by (simp_all add: capture_limits_def safety_limits_def safety_config_snapshot_def Let_def)

lemma raw_temperature_c_iff:
  "(case tsd_observability_raw_temperature_c throws steady ms st of None \<Rightarrow> False | Some t \<Rightarrow> P t) \<longleftrightarrow>
     0 \<le> ms \<and> \<not> throws \<and> fs_raw_temp_available (ts_fusion st) \<and> fs_raw_temp_freshness_at (ts_fusion st) \<noteq> 0 \<and>
     fs_raw_temp_freshness_at (ts_fusion st) \<le> steady \<and>
     steady \<le> fs_raw_temp_freshness_at (ts_fusion st) + ms * 1000000 \<and> P (fs_raw_package_temp_c (ts_fusion st))"
  by (auto simp: tsd_observability_raw_temperature_c_def raw_temperature_def)

lemma guard_active_live:
  "tsd_observability_runtime_guard_active (telemetry_throws p) (telemetry p) = guard_live p"
  by (simp add: tsd_observability_runtime_guard_active_def runtime_guard_active_def guard_live_def)

lemma perf_query_trusted:
  "tsd_observability_perf_mode (telemetry_throws p) (telemetry p) = 1 \<and>
   tsd_observability_perf_hardware_fresh (telemetry_throws p) (steady_now p) (telemetry p) \<longleftrightarrow>
   \<not> telemetry_throws p \<and> perf_trusted p"
  by (auto simp: tsd_observability_perf_mode_def perf_mode_def perf_trusted_def Let_def
    tsd_observability_perf_hardware_fresh_def perf_hardware_fresh_def)

lemma transitions_iff:
  "tsd_runtime_flags_allow_transitions p \<longleftrightarrow>
     sandbox_complete p \<and> sandbox_success p \<and> tsd_telemetry_temperature_upgrade_allowed p"
  "tsd_telemetry_temperature_upgrade_allowed p \<longleftrightarrow> (fusion_running p \<longrightarrow> temperature_upgrade_allowed p)"
  by (auto simp: tsd_runtime_flags_allow_transitions_def tsd_telemetry_temperature_upgrade_allowed_def)

lemma finite_below_limit:
  assumes "runtime_temperature_limits_valid l"
  shows "isfinite d \<and> dbl_le d (dbl_of_int (sc_predictive_temp_ceiling_c l - sc_predictive_safety_margin_c l)) \<longleftrightarrow>
    (\<exists>t. d = Fin t \<and> t \<le> of_int (sc_predictive_temp_ceiling_c l - sc_predictive_safety_margin_c l))"
  unfolding limits_exact [OF assms] by (cases d) auto

text \<open>The answer and the effect of the temperature check, separately.\<close>

lemma raw_temperature_upgrade_allowed_pair:
  "raw_temperature_upgrade_allowed p =
    (tsd_telemetry_temperature_upgrade_allowed p \<and> \<not> telemetry_throws p \<and> temperature_safe p,
     if tsd_telemetry_temperature_upgrade_allowed p then capture_limits p else p)"
proof (cases "safety_limits p")
  case None
  then show ?thesis
    by (simp add: raw_temperature_upgrade_allowed_def temperature_safe_def safety_config_snapshot_pair)
next
  case (Some l)
  let ?ms = "if sc_telemetry_max_skew_ms l < 0 then 150 else sc_telemetry_max_skew_ms l"
  let ?t = "tsd_observability_raw_temperature_c (telemetry_throws p) (steady_now p) ?ms (telemetry p)"
  let ?lim = "dbl_of_int (sc_predictive_temp_ceiling_c l - sc_predictive_safety_margin_c l)"
  have "raw_temperature_upgrade_allowed p =
    (tsd_telemetry_temperature_upgrade_allowed p \<and> runtime_temperature_limits_valid l \<and>
      (case ?t of None \<Rightarrow> False | Some t \<Rightarrow> isfinite t \<and> dbl_le t ?lim),
     if tsd_telemetry_temperature_upgrade_allowed p then capture_limits p else p)"
    using Some by (simp add: raw_temperature_upgrade_allowed_def safety_config_snapshot_pair Let_def
      split: option.splits)
  moreover have "0 \<le> ?ms" by simp
  ultimately show ?thesis using Some finite_below_limit [of l]
    unfolding raw_temperature_c_iff temperature_safe_def by (auto simp: Let_def)
qed

text \<open>Whether the answer on a wide width reads the limits.\<close>

definition reads_limits :: "'a proc_scheme \<Rightarrow> bool" where
  "reads_limits p = (\<not> runtime_stopping p \<and> tsd_runtime_flags_allow_transitions p \<and>
     guard_live p \<and> \<not> telemetry_throws p \<and> perf_trusted p)"

lemma width_authorized_wide:
  assumes "width_valid w" "w \<noteq> SIMD_SSE41"
  shows "tsd_runtime_width_authorized w p =
    (wide_conditions p, if reads_limits p then capture_limits p else p)"
proof -
  have "tsd_runtime_width_authorized w p =
    (if runtime_stopping p \<or> \<not> tsd_runtime_flags_allow_transitions p then (False, p)
     else if \<not> guard_live p then (True, p)
     else if telemetry_throws p \<or> \<not> perf_trusted p then (False, p)
     else raw_temperature_upgrade_allowed p)"
    using assms perf_query_trusted [of p]
    by (auto simp: tsd_runtime_width_authorized_def guard_active_live)
  then show ?thesis
    by (auto simp: wide_conditions_def reads_limits_def raw_temperature_upgrade_allowed_pair transitions_iff)
qed

lemma width_authorized_pair:
  "tsd_runtime_width_authorized w p =
    (w = SIMD_SSE41 \<or> width_valid w \<and> wide_conditions p,
     if width_valid w \<and> w \<noteq> SIMD_SSE41 \<and> reads_limits p then capture_limits p else p)"
proof (cases "width_valid w \<and> w \<noteq> SIMD_SSE41")
  case True
  then show ?thesis by (simp add: width_authorized_wide)
next
  case False
  then show ?thesis by (auto simp: tsd_runtime_width_authorized_def)
qed

text \<open>What authorization depends on: the state without counters, admission flag and oracles.\<close>

lemma safety_limits_frame [simp, tsd_frame]:
  "safety_limits (p\<lparr>active_wide_executions := n\<rparr>) = safety_limits p"
  "safety_limits (p\<lparr>wide_admission_open := b\<rparr>) = safety_limits p"
  "safety_limits (p\<lparr>wide_execution_depth := d\<rparr>) = safety_limits p"
  "safety_limits (p\<lparr>guard_lock_rcs := rcs\<rparr>) = safety_limits p"
  "safety_limits (p\<lparr>drain_lock_rcs := rcs\<rparr>) = safety_limits p"
  "safety_limits (p\<lparr>drain_broadcasts := k\<rparr>) = safety_limits p"
  by (simp_all add: safety_limits_def safety_config_snapshot_def tsd_runtime_config_active_snapshot_def Let_def)

lemmas wide_condition_defs = wide_conditions_def guard_live_def perf_trusted_def temperature_safe_def Let_def

lemma wide_conditions_frame [simp, tsd_frame]:
  "wide_conditions (p\<lparr>active_wide_executions := n\<rparr>) = wide_conditions p"
  "wide_conditions (p\<lparr>wide_admission_open := b\<rparr>) = wide_conditions p"
  "wide_conditions (p\<lparr>wide_execution_depth := d\<rparr>) = wide_conditions p"
  "wide_conditions (p\<lparr>guard_lock_rcs := rcs\<rparr>) = wide_conditions p"
  "wide_conditions (p\<lparr>drain_lock_rcs := rcs\<rparr>) = wide_conditions p"
  "wide_conditions (p\<lparr>drain_broadcasts := k\<rparr>) = wide_conditions p"
  "wide_conditions (capture_limits p) = wide_conditions p"
  by (simp_all add: wide_condition_defs cong: option.case_cong)

lemma owner_frame [simp, tsd_frame]:
  "tsd_runtime_current_thread_is_owner tid (p\<lparr>active_wide_executions := n\<rparr>) =
     tsd_runtime_current_thread_is_owner tid p"
  "tsd_runtime_current_thread_is_owner tid (p\<lparr>wide_execution_depth := d\<rparr>) =
     tsd_runtime_current_thread_is_owner tid p"
  "tsd_runtime_current_thread_is_owner tid (capture_limits p) = tsd_runtime_current_thread_is_owner tid p"
  by (simp_all add: tsd_runtime_current_thread_is_owner_def)

section \<open>Wide executions: entry and exit\<close>

text \<open>The state after a successful wide entry.\<close>

definition admitted :: "int \<Rightarrow> 'a proc_scheme \<Rightarrow> 'a proc_scheme" where
  "admitted tid p = p\<lparr>active_wide_executions := active_wide_executions p + 1,
     wide_execution_depth := (wide_execution_depth p)(tid := wide_execution_depth p tid + 1)\<rparr>"

lemma capture_limits_fixed: "safety_config_snapshot_state p \<noteq> 0 \<Longrightarrow> capture_limits p = p"
  by (simp add: capture_limits_def safety_config_snapshot_def)

lemma capture_limits_state: "safety_config_snapshot_state (capture_limits p) \<noteq> 0"
  by (simp add: capture_limits_def safety_config_snapshot_def Let_def)

lemma reads_limits_frame [simp, tsd_frame]:
  "reads_limits (capture_limits p) = reads_limits p"
  "reads_limits (admitted tid p) = reads_limits p"
  by (simp_all add: reads_limits_def transitions_iff guard_live_def perf_trusted_def admitted_def)

lemma admitted_frame [simp, tsd_frame]:
  "wide_conditions (admitted tid p) = wide_conditions p"
  "wide_admission_open (admitted tid p) = wide_admission_open p"
  "tsd_runtime_current_thread_is_owner tid' (admitted tid p) = tsd_runtime_current_thread_is_owner tid' p"
  "safety_config_snapshot_state (admitted tid p) = safety_config_snapshot_state p"
  "active_wide_executions (admitted tid p) = active_wide_executions p + 1"
  "wide_execution_depth (admitted tid p) = (wide_execution_depth p)(tid := wide_execution_depth p tid + 1)"
  by (simp_all add: admitted_def tsd_runtime_current_thread_is_owner_def)

definition captured_for :: "int \<Rightarrow> 'a proc_scheme \<Rightarrow> 'a proc_scheme" where
  "captured_for tid p = (if tsd_runtime_current_thread_is_owner tid p \<and> wide_admission_open p \<and> reads_limits p
     then capture_limits p else p)"

lemma captured_for_frame [simp, tsd_frame]:
  "active_wide_executions (captured_for tid p) = active_wide_executions p"
  "wide_execution_depth (captured_for tid p) = wide_execution_depth p"
  "wide_admission_open (captured_for tid p) = wide_admission_open p"
  "wide_conditions (captured_for tid p) = wide_conditions p"
  "reads_limits (captured_for tid p) = reads_limits p"
  by (simp_all add: captured_for_def)

lemma execution_enter_wide:
  assumes "width_valid w" "w \<noteq> SIMD_SSE41"
  shows "tsd_runtime_execution_enter tid w p =
    (if tsd_runtime_current_thread_is_owner tid p \<and> wide_admission_open p \<and> wide_conditions p
     then (ok, admitted tid (captured_for tid p)) else (Inl EAGAIN, captured_for tid p))"
proof (cases "tsd_runtime_current_thread_is_owner tid p \<and> wide_admission_open p")
  case False
  then show ?thesis using assms by (auto simp: tsd_runtime_execution_enter_def captured_for_def)
next
  case True
  let ?q = "captured_for tid p"
  have q: "(if reads_limits p then capture_limits p else p) = ?q" using True by (simp add: captured_for_def)
  have fixed: "reads_limits p \<Longrightarrow> capture_limits (admitted tid ?q) = admitted tid ?q"
    using True capture_limits_state [of p] by (simp add: captured_for_def capture_limits_fixed)
  have "?q\<lparr>active_wide_executions := active_wide_executions ?q + 1,
    wide_execution_depth := (wide_execution_depth ?q)(tid := wide_execution_depth ?q tid + 1)\<rparr> = admitted tid ?q"
    by (simp add: admitted_def)
  moreover have "tsd_runtime_current_thread_is_owner tid (admitted tid ?q)"
    using True by (simp add: captured_for_def)
  ultimately show ?thesis using True assms
    by (simp add: tsd_runtime_execution_enter_def width_authorized_wide q fixed Let_def split: if_splits)
qed

lemma release_counts:
  assumes "active_wide_executions p \<noteq> 0" "wide_execution_depth p tid \<noteq> 0"
  shows "active_wide_executions (wide_execution_release tid p) = active_wide_executions p - 1"
    and "wide_execution_depth (wide_execution_release tid p) =
      (wide_execution_depth p)(tid := wide_execution_depth p tid - 1)"
    and "wide_admission_open (wide_execution_release tid p) = wide_admission_open p"
    and "wide_conditions (wide_execution_release tid p) = wide_conditions p"
  using assms by (simp_all add: wide_execution_release_def Let_def word_neq_0_conv split: prod.splits)

lemma release_wakes:
  assumes "active_wide_executions p = 1" "guard = drain_lock_rcs p" "fst (next_of None guard) = None"
  shows "drain_broadcasts (wide_execution_release tid p) = Suc (drain_broadcasts p)"
  using assms by (cases "next_of None guard") (simp add: wide_execution_release_def Let_def)

section \<open>The drain loop\<close>

lemma drain_loop_quiescent:
  "drain_loop wakes p = Some (Inr u, q) \<Longrightarrow> active_wide_executions q = 0"
proof (induction wakes arbitrary: p)
  case Nil
  then show ?case by (auto simp: drain_loop.simps [of "[]"] Let_def split: if_splits option.splits prod.splits)
next
  case (Cons w wakes)
  obtain r n where "w = (r, n)" by (cases w)
  with Cons show ?case
    by (auto simp: drain_loop.simps [of "(r, n) # wakes"] Let_def split: if_splits option.splits prod.splits)
qed

text \<open>Waits that succeed until the counter reads zero make the loop return.\<close>

lemma drain_loop_returns:
  "\<lbrakk>\<forall>(r, n) \<in> set wakes. r = None; n = 0\<rbrakk> \<Longrightarrow>
   \<exists>rc q. drain_loop (wakes @ [(None, n)]) p = Some (rc, q)"
proof (induction wakes arbitrary: p)
  case Nil
  then show ?case by (simp add: drain_loop.simps [of "[(None, 0)]"] drain_loop.simps [of "[]"] Let_def split: prod.splits)
next
  case (Cons w wakes)
  then obtain m where "w = (None, m)" by (cases w) auto
  moreover have "\<exists>rc q. drain_loop (wakes @ [(None, n)]) q' = Some (rc, q)" for q' :: "'a proc_scheme"
    using Cons by auto
  ultimately show ?case using Cons.prems(2)
    by (auto simp: drain_loop.simps [of "(None, m) # wakes @ [(None, 0)]"] Let_def split: prod.splits)
qed

section \<open>The safety-write bracket\<close>

lemma safety_write_leave_open:
  "wide_admission_open (tsd_runtime_safety_write_leave p) = wide_conditions p"
  by (auto simp: tsd_runtime_safety_write_leave_def width_authorized_pair wide_conditions_def)

lemma safety_write_leave_frame [simp, tsd_frame]:
  "wide_conditions (tsd_runtime_safety_write_leave p) = wide_conditions p"
  "active_wide_executions (tsd_runtime_safety_write_leave p) = active_wide_executions p"
  "wide_execution_depth (tsd_runtime_safety_write_leave p) = wide_execution_depth p"
  "runtime_stopping (tsd_runtime_safety_write_leave p) = runtime_stopping p"
  "runtime_owner_tid (tsd_runtime_safety_write_leave p) = runtime_owner_tid p"
  "runtime_config_snapshot_state (tsd_runtime_safety_write_leave p) = runtime_config_snapshot_state p"
  "runtime_config_snapshot (tsd_runtime_safety_write_leave p) = runtime_config_snapshot p"
  "global_config (tsd_runtime_safety_write_leave p) = global_config p"
  "degraded_active (tsd_runtime_safety_write_leave p) = degraded_active p"
  "sandbox_complete (tsd_runtime_safety_write_leave p) = sandbox_complete p"
  "sandbox_success (tsd_runtime_safety_write_leave p) = sandbox_success p"
  "sandbox_only (tsd_runtime_safety_write_leave p) = sandbox_only p"
  "sandbox_message (tsd_runtime_safety_write_leave p) = sandbox_message p"
  "fusion_running (tsd_runtime_safety_write_leave p) = fusion_running p"
  "temperature_upgrade_allowed (tsd_runtime_safety_write_leave p) = temperature_upgrade_allowed p"
  "telemetry (tsd_runtime_safety_write_leave p) = telemetry p"
  "telemetry_throws (tsd_runtime_safety_write_leave p) = telemetry_throws p"
  "steady_now (tsd_runtime_safety_write_leave p) = steady_now p"
  "system_now (tsd_runtime_safety_write_leave p) = system_now p"
  "guard_lock_rcs (tsd_runtime_safety_write_leave p) = guard_lock_rcs p"
  "proc.more (tsd_runtime_safety_write_leave p) = proc.more p"
  by (simp_all add: tsd_runtime_safety_write_leave_def width_authorized_pair)

lemma safety_write_enter_cases:
  obtains (locked) rcs where "next_of None (guard_lock_rcs p) = (None, rcs)"
    "tsd_runtime_safety_write_enter p = (ok, p\<lparr>guard_lock_rcs := rcs, wide_admission_open := False\<rparr>)"
  | (failed) e rcs where "next_of None (guard_lock_rcs p) = (Some e, rcs)"
    "tsd_runtime_safety_write_enter p = (Inl e, p\<lparr>guard_lock_rcs := rcs\<rparr>)"
proof (cases "next_of None (guard_lock_rcs p)")
  case (Pair r rcs)
  then show ?thesis using that
    by (cases r) (simp_all add: tsd_runtime_safety_write_enter_def tsd_runtime_wide_admission_close_def)
qed

section \<open>Properties\<close>

text \<open>
  C1. Authorization: SSE4.1 is always authorized, a number outside the enumeration never is, and
  AVX2 or AVX-512 is authorized exactly when no shutdown is in progress, the sandbox completed and
  passed, the temperature gate is open when telemetry fusion runs, and - while a runtime is live -
  the hardware counters are healthy and at most five seconds old and a finite raw package
  temperature within the configured window is at or below the ceiling minus the safety margin.
  The query changes nothing but the lazily captured limits.
\<close>
theorem width_authorized_correct:
  "fst (tsd_runtime_width_authorized w p) = (w = SIMD_SSE41 \<or> w \<in> {SIMD_AVX2, SIMD_AVX512} \<and> wide_conditions p) \<and>
   snd (tsd_runtime_width_authorized w p) \<in> {p, snd (safety_config_snapshot p)}"
  by (cases w) (simp_all add: width_authorized_pair capture_limits_def)

text \<open>
  C12. Entering a wide execution succeeds exactly for the owner thread while admission is open and
  the width is authorized; success counts the execution once, process-wide and for the thread,
  and every refusal leaves both counters as they were. SSE4.1 is admitted without counting, and a
  number outside the enumeration is refused with \<^verbatim>\<open>EINVAL\<close>.
\<close>
theorem execution_enter_correct:
  "case tsd_runtime_execution_enter tid w p of (r, q) \<Rightarrow>
     r = (if \<not> width_valid w then Inl EINVAL
          else if w = SIMD_SSE41 \<or> (tsd_runtime_current_thread_is_owner tid p \<and> wide_admission_open p \<and> wide_conditions p)
          then ok else Inl EAGAIN) \<and>
     active_wide_executions q = (if r = ok \<and> w \<noteq> SIMD_SSE41 then active_wide_executions p + 1 else active_wide_executions p) \<and>
     wide_execution_depth q = (if r = ok \<and> w \<noteq> SIMD_SSE41
       then (wide_execution_depth p)(tid := wide_execution_depth p tid + 1) else wide_execution_depth p)"
proof (cases "width_valid w \<and> w \<noteq> SIMD_SSE41")
  case True
  then show ?thesis by (simp add: execution_enter_wide)
next
  case False
  then show ?thesis by (auto simp: tsd_runtime_execution_enter_def)
qed

text \<open>
  Leaving undoes entering: after an admitted execution of any width leaves, the process-wide
  and the per-thread counters are back at their values, provided neither was at its maximum.
\<close>
theorem execution_leave_undoes_enter:
  assumes "tsd_runtime_execution_enter tid w p = (ok, q)"
    "active_wide_executions p \<noteq> - 1" "wide_execution_depth p tid \<noteq> - 1"
  shows "active_wide_executions (tsd_runtime_execution_leave tid w q) = active_wide_executions p \<and>
    wide_execution_depth (tsd_runtime_execution_leave tid w q) = wide_execution_depth p"
proof (cases "width_valid w \<and> w \<noteq> SIMD_SSE41")
  case True
  then have q: "q = admitted tid (captured_for tid p)"
    using assms(1) by (simp add: execution_enter_wide split: if_splits)
  have "w > SIMD_SSE41 \<and> w \<le> SIMD_AVX512" using True by (auto simp: width_valid_iff)
  moreover have "active_wide_executions q \<noteq> 0" "wide_execution_depth q tid \<noteq> 0"
    using assms(2,3) q by (simp_all add: eq_neg_iff_add_eq_0 [symmetric])
  ultimately show ?thesis using q release_counts [of q tid]
    by (simp add: tsd_runtime_execution_leave_def)
next
  case False
  then show ?thesis using assms(1)
    by (auto simp: tsd_runtime_execution_enter_def tsd_runtime_execution_leave_def)
qed

theorem execution_leave_undoes_enter_witness:
  "let p = proc_init\<lparr>sandbox_complete := True, sandbox_success := True, wide_admission_open := True\<rparr>;
       q = snd (tsd_runtime_execution_enter 7 SIMD_AVX2 p)
   in active_wide_executions q = 1 \<and>
      active_wide_executions (tsd_runtime_execution_leave 7 SIMD_AVX2 q) = active_wide_executions p \<and>
      wide_execution_depth (tsd_runtime_execution_leave 7 SIMD_AVX2 q) = wide_execution_depth p"
proof -
  let ?p = "proc_init\<lparr>sandbox_complete := True, sandbox_success := True, wide_admission_open := True\<rparr>"
  have "wide_conditions ?p" "tsd_runtime_current_thread_is_owner 7 ?p" "wide_admission_open ?p"
    by (simp_all add: wide_condition_defs proc_init_def telemetry_state_init_def
      tsd_runtime_current_thread_is_owner_def)
  then have e: "tsd_runtime_execution_enter 7 SIMD_AVX2 ?p = (ok, admitted 7 (captured_for 7 ?p))"
    by (simp add: execution_enter_wide)
  have c: "active_wide_executions ?p = 0" "wide_execution_depth ?p 7 = 0" by (simp_all add: proc_init_def)
  show ?thesis using execution_leave_undoes_enter [OF e] c by (simp add: e)
qed

text \<open>
  C13. The wait for quiescence refuses a caller that is itself inside a wide execution, when it
  reports success no wide execution is counted any more, and it returns once its waits succeed and
  the counter has drained.
\<close>
theorem wait_for_quiescence_sound:
  "(case tsd_runtime_wait_for_wide_quiescence tid wakes p of
      None \<Rightarrow> True
    | Some (r, q) \<Rightarrow> (wide_execution_depth p tid \<noteq> 0 \<longrightarrow> r = Inl EDEADLK \<and> q = p) \<and>
        (r = ok \<longrightarrow> active_wide_executions q = 0)) \<and>
   ((\<forall>(r, n) \<in> set wakes. r = None) \<longrightarrow> tsd_runtime_wait_for_wide_quiescence tid (wakes @ [(None, 0)]) p \<noteq> None)"
proof
  show "case tsd_runtime_wait_for_wide_quiescence tid wakes p of
      None \<Rightarrow> True
    | Some (r, q) \<Rightarrow> (wide_execution_depth p tid \<noteq> 0 \<longrightarrow> r = Inl EDEADLK \<and> q = p) \<and>
        (r = ok \<longrightarrow> active_wide_executions q = 0)"
    using drain_loop_quiescent
    by (auto simp: tsd_runtime_wait_for_wide_quiescence_def tsd_runtime_current_thread_in_wide_execution_def
      Let_def split: if_splits prod.splits option.splits)
  show "(\<forall>(r, n) \<in> set wakes. r = None) \<longrightarrow> tsd_runtime_wait_for_wide_quiescence tid (wakes @ [(None, 0)]) p \<noteq> None"
    using drain_loop_returns [of wakes 0]
    by (fastforce simp: tsd_runtime_wait_for_wide_quiescence_def Let_def split: prod.splits option.splits)
qed

theorem wait_for_quiescence_sound_witness:
  "\<exists>q. tsd_runtime_wait_for_wide_quiescence 1 [(None, 1), (None, 0)] (proc_init\<lparr>active_wide_executions := 2\<rparr>)
     = Some (ok, q) \<and> active_wide_executions q = 0"
proof -
  let ?p = "proc_init\<lparr>active_wide_executions := 2\<rparr>"
  have "\<exists>q. tsd_runtime_wait_for_wide_quiescence 1 [(None, 1), (None, 0)] ?p = Some (ok, q)"
    by (simp add: tsd_runtime_wait_for_wide_quiescence_def tsd_runtime_current_thread_in_wide_execution_def
      drain_loop.simps proc_init_def)
  then show ?thesis using wait_for_quiescence_sound [where tid = 1 and wakes = "[(None, 1), (None, 0)]" and p = ?p] by auto
qed

text \<open>
  A safety write closes admission on entry and, on exit, leaves it open exactly when the
  published state authorizes a wide width; a failed lock leaves the admission flag as it was.
\<close>
theorem safety_write_bracket:
  "(case tsd_runtime_safety_write_enter p of
      (Inr _, q) \<Rightarrow> \<not> wide_admission_open q \<and> wide_conditions q = wide_conditions p
    | (Inl _, q) \<Rightarrow> wide_admission_open q = wide_admission_open p) \<and>
   wide_admission_open (tsd_runtime_safety_write_leave p) = fst (tsd_runtime_width_authorized SIMD_AVX2 p)"
  by (rule safety_write_enter_cases [of p]) (simp_all add: safety_write_leave_open width_authorized_pair)

end
