(* ===== verification/Admission.thy ===== *)
theory Admission
  imports Runtime_Guard
begin

text \<open>
  The admission protocol of \<^verbatim>\<open>src/runtime_guard.c\<close> under interleaving. Each thread walks through
  \<^verbatim>\<open>tsd_runtime_execution_enter\<close> and \<^verbatim>\<open>tsd_runtime_execution_leave\<close> one atomic access at a time,
  while writers of the guard state bracket their publications and the environment changes
  whatever else it likes. The accesses are sequentially consistent, as the fences of the
  protocol require of them.
\<close>

section \<open>Steps\<close>

text \<open>
  Where a thread is inside the entry: after the first checks, after the increment, after it saw
  the admission flag open again, running the kernel, or about to back out.
\<close>

datatype pc = Idle | Checked simd_width_t | Counted simd_width_t | Passed simd_width_t
  | Running simd_width_t | Backing

record adm = proc +
  pcs :: "int \<Rightarrow> pc"
  writer :: "int option"

definition set_pc :: "int \<Rightarrow> pc \<Rightarrow> adm \<Rightarrow> adm" where
  "set_pc t c s = s\<lparr>pcs := (pcs s)(t := c)\<rparr>"

text \<open>What an environment step or a publication leaves alone.\<close>

definition same_execution :: "adm \<Rightarrow> adm \<Rightarrow> bool" where
  "same_execution s s' = (active_wide_executions s' = active_wide_executions s \<and>
     wide_execution_depth s' = wide_execution_depth s \<and> wide_admission_open s' = wide_admission_open s \<and>
     pcs s' = pcs s \<and> writer s' = writer s)"

definition wide :: "simd_width_t \<Rightarrow> bool" where
  "wide w = (width_valid w \<and> w \<noteq> SIMD_SSE41)"

inductive adm_step :: "adm \<Rightarrow> adm \<Rightarrow> bool" where
  enter_check: "\<lbrakk>pcs s t = Idle; 0 < t; t \<le> INT_MAX; wide w; tsd_runtime_current_thread_is_owner t s;
    wide_admission_open s; tsd_runtime_width_authorized w s = (True, s')\<rbrakk>
    \<Longrightarrow> adm_step s (set_pc t (Checked w) s')"
| enter_count: "\<lbrakk>pcs s t = Checked w;
    s' = s\<lparr>active_wide_executions := active_wide_executions s + 1,
           wide_execution_depth := (wide_execution_depth s)(t := wide_execution_depth s t + 1)\<rparr>\<rbrakk>
    \<Longrightarrow> adm_step s (set_pc t (Counted w) s')"
| recheck_open: "\<lbrakk>pcs s t = Counted w; wide_admission_open s\<rbrakk> \<Longrightarrow> adm_step s (set_pc t (Passed w) s)"
| recheck_closed: "\<lbrakk>pcs s t = Counted w; \<not> wide_admission_open s\<rbrakk> \<Longrightarrow> adm_step s (set_pc t Backing s)"
| recheck_auth: "\<lbrakk>pcs s t = Passed w; tsd_runtime_current_thread_is_owner t s;
    tsd_runtime_width_authorized w s = (True, s')\<rbrakk> \<Longrightarrow> adm_step s (set_pc t (Running w) s')"
| recheck_deny: "\<lbrakk>pcs s t = Passed w;
    \<not> tsd_runtime_current_thread_is_owner t s \<or> \<not> fst (tsd_runtime_width_authorized w s)\<rbrakk>
    \<Longrightarrow> adm_step s (set_pc t Backing s)"
| back_out: "pcs s t = Backing \<Longrightarrow> adm_step s (set_pc t Idle (wide_execution_release t s))"
| leave: "pcs s t = Running w \<Longrightarrow> adm_step s (set_pc t Idle (tsd_runtime_execution_leave t w s))"
| write_enter: "\<lbrakk>writer s = None; tsd_runtime_safety_write_enter s = (ok, s')\<rbrakk>
    \<Longrightarrow> adm_step s (s'\<lparr>writer := Some t\<rparr>)"
| write_publish: "\<lbrakk>writer s = Some t; same_execution s s'\<rbrakk> \<Longrightarrow> adm_step s s'"
| write_leave: "writer s = Some t \<Longrightarrow> adm_step s ((tsd_runtime_safety_write_leave s)\<lparr>writer := None\<rparr>)"
| close_admission: "adm_step s (tsd_runtime_wide_admission_close s)"
| environment: "same_execution s s' \<Longrightarrow> adm_step s s'"

inductive_cases adm_stepE: "adm_step s s'"

definition adm_init :: "adm \<Rightarrow> bool" where
  "adm_init s = (active_wide_executions s = 0 \<and> (\<forall>t. wide_execution_depth s t = 0) \<and>
     (\<forall>t. pcs s t = Idle) \<and> writer s = None)"

abbreviation adm_reachable :: "adm \<Rightarrow> bool" where
  "adm_reachable \<equiv> reachable adm_init adm_step"

abbreviation closed_run :: "adm \<Rightarrow> adm \<Rightarrow> bool" where
  "closed_run \<equiv> run_while adm_step (\<lambda>s. \<not> wide_admission_open s)"

section \<open>Counting invariant\<close>

text \<open>The program points at which a thread is counted, and those past the admission recheck.\<close>

fun counted :: "pc \<Rightarrow> bool" where
  "counted (Counted _) = True"
| "counted (Passed _) = True"
| "counted (Running _) = True"
| "counted Backing = True"
| "counted _ = False"

fun past_recheck :: "pc \<Rightarrow> bool" where
  "past_recheck (Passed _) = True"
| "past_recheck (Running _) = True"
| "past_recheck _ = False"

definition in_flight :: "adm \<Rightarrow> int set" where
  "in_flight s = {t. counted (pcs s t)}"

definition adm_inv :: "adm \<Rightarrow> bool" where
  "adm_inv s = ((\<forall>t. pcs s t \<noteq> Idle \<longrightarrow> 0 < t \<and> t \<le> INT_MAX) \<and>
     (\<forall>t w. pcs s t \<in> {Checked w, Counted w, Passed w, Running w} \<longrightarrow> wide w) \<and>
     unat (active_wide_executions s) = card (in_flight s) \<and>
     (\<forall>t. wide_execution_depth s t = (if counted (pcs s t) then 1 else 0)))"

text \<open>The execution part of a state: what the invariant is about.\<close>

lemma authorized_execution:
  assumes "tsd_runtime_width_authorized w s = (b, s')"
  shows "same_execution s s'"
proof -
  have "pcs (capture_limits s) = pcs s" "writer (capture_limits s) = writer s"
    by (simp_all add: capture_limits_def safety_config_snapshot_def Let_def)
  then show ?thesis using assms
    by (auto simp: width_authorized_pair same_execution_def split: if_splits)
qed

lemma release_execution:
  "pcs (wide_execution_release t s) = pcs s" "writer (wide_execution_release t s) = writer s"
  "wide_admission_open (wide_execution_release t s) = wide_admission_open s"
  by (simp_all add: wide_execution_release_def Let_def split: prod.splits)

lemma write_leave_execution:
  "pcs (tsd_runtime_safety_write_leave s) = pcs s"
proof -
  have "pcs (capture_limits s) = pcs s"
    by (simp add: capture_limits_def safety_config_snapshot_def Let_def)
  then show ?thesis by (simp add: tsd_runtime_safety_write_leave_def width_authorized_pair)
qed

lemma write_enter_execution:
  "tsd_runtime_safety_write_enter s = (r, s') \<Longrightarrow> pcs s' = pcs s \<and>
     active_wide_executions s' = active_wide_executions s \<and> wide_execution_depth s' = wide_execution_depth s \<and>
     (r = ok \<longrightarrow> \<not> wide_admission_open s')"
  by (auto simp: tsd_runtime_safety_write_enter_def tsd_runtime_wide_admission_close_def Let_def
    split: prod.splits option.splits)

lemma in_flight_finite: "adm_inv s \<Longrightarrow> finite (in_flight s) \<and> card (in_flight s) < 2147483648"
proof -
  assume "adm_inv s"
  then have "t \<in> {1..INT_MAX}" if "counted (pcs s t)" for t
    using that by (cases "pcs s t") (auto simp: adm_inv_def int_one_le_iff_zero_less)
  then have "in_flight s \<subseteq> {1..INT_MAX}" by (auto simp: in_flight_def)
  then show ?thesis using finite_subset [of "in_flight s" "{1..INT_MAX}"]
      card_mono [of "{1..INT_MAX}" "in_flight s"] by simp
qed

text \<open>A step keeps the invariant when the counters move with the thread it moves.\<close>

lemma inv_same:
  assumes "adm_inv s" "pcs s' = (pcs s)(t := c)" "counted c = counted (pcs s t)"
    "active_wide_executions s' = active_wide_executions s" "wide_execution_depth s' = wide_execution_depth s"
    "c \<noteq> Idle \<Longrightarrow> 0 < t \<and> t \<le> INT_MAX" "\<And>w. c \<in> {Checked w, Counted w, Passed w, Running w} \<Longrightarrow> wide w"
  shows "adm_inv s'"
proof -
  have "in_flight s' = in_flight s" using assms(2,3) by (auto simp: in_flight_def)
  then show ?thesis using assms by (simp add: adm_inv_def)
qed

lemma inv_inc:
  assumes "adm_inv s" "pcs s' = (pcs s)(t := c)" "counted c" "\<not> counted (pcs s t)" "pcs s t \<noteq> Idle"
    "active_wide_executions s' = active_wide_executions s + 1"
    "wide_execution_depth s' = (wide_execution_depth s)(t := wide_execution_depth s t + 1)"
    "\<And>w. c \<in> {Checked w, Counted w, Passed w, Running w} \<Longrightarrow> wide w"
  shows "adm_inv s'"
proof -
  have f: "in_flight s' = insert t (in_flight s)" "t \<notin> in_flight s"
    using assms(2-4) by (auto simp: in_flight_def)
  have "unat (active_wide_executions s) + 1 < 2 ^ 64"
    using assms(1) in_flight_finite [OF assms(1)] by (simp add: adm_inv_def)
  then have "unat (active_wide_executions s') = Suc (unat (active_wide_executions s))"
    using assms(6) unat_plus_simple_le [of "active_wide_executions s" 1] by simp
  then show ?thesis using assms f in_flight_finite [OF assms(1)] by (simp add: adm_inv_def)
qed

lemma inv_dec:
  assumes "adm_inv s" "counted (pcs s t)" "pcs s' = (pcs s)(t := Idle)"
    "active_wide_executions s' = active_wide_executions s - 1"
    "wide_execution_depth s' = (wide_execution_depth s)(t := wide_execution_depth s t - 1)"
  shows "adm_inv s'"
proof -
  have f: "in_flight s' = in_flight s - {t}" "t \<in> in_flight s"
    using assms(2,3) by (auto simp: in_flight_def)
  then have "0 < card (in_flight s)" using in_flight_finite [OF assms(1)] by (auto simp: card_gt_0_iff)
  then have "unat (active_wide_executions s) \<noteq> 0" using assms(1) by (simp add: adm_inv_def)
  then have "unat (active_wide_executions s') = unat (active_wide_executions s) - 1"
    unfolding assms(4) by (intro unat_minus_one) auto
  then show ?thesis using assms f in_flight_finite [OF assms(1)] by (simp add: adm_inv_def)
qed

lemma inv_release:
  assumes "adm_inv s" "counted (pcs s t)"
  shows "adm_inv (set_pc t Idle (wide_execution_release t s))"
proof -
  have "t \<in> in_flight s" using assms(2) by (simp add: in_flight_def)
  then have "card (in_flight s) \<noteq> 0" using in_flight_finite [OF assms(1)] by auto
  then have a: "active_wide_executions s \<noteq> 0" using assms(1) by (auto simp: adm_inv_def)
  have d: "wide_execution_depth s t \<noteq> 0" using assms by (simp add: adm_inv_def)
  note r = release_counts(1,2) [OF a d] release_execution [of t s]
  show ?thesis
    using assms by (rule inv_dec) (simp_all add: set_pc_def r)
qed

lemma inv_same_execution: "adm_inv s \<Longrightarrow> same_execution s s' \<Longrightarrow> adm_inv s'"
  by (simp add: adm_inv_def same_execution_def in_flight_def)

lemma inv_authorized:
  assumes "adm_inv s" "tsd_runtime_width_authorized w s = (b, s')" "counted c = counted (pcs s t)"
    "c \<noteq> Idle \<Longrightarrow> 0 < t \<and> t \<le> INT_MAX" "\<And>w. c \<in> {Checked w, Counted w, Passed w, Running w} \<Longrightarrow> wide w"
  shows "adm_inv (set_pc t c s')"
proof (rule inv_same [OF assms(1) _ assms(3) _ _ assms(4,5)])
qed (use authorized_execution [OF assms(2)] in \<open>simp_all add: same_execution_def set_pc_def\<close>)

lemma inv_threads:
  assumes "adm_inv s"
  shows "pcs s t \<noteq> Idle \<Longrightarrow> 0 < t \<and> t \<le> INT_MAX"
    and "pcs s t \<in> {Checked w, Counted w, Passed w, Running w} \<Longrightarrow> wide w"
  using assms by (auto simp: adm_inv_def)

lemma adm_step_inv:
  assumes "adm_step s s'" "adm_inv s" shows "adm_inv s'"
  using assms
proof (cases rule: adm_step.cases)
  case (enter_check t w q)
  then show ?thesis using assms(2) by (auto intro: inv_authorized)
next
  case (enter_count t w q)
  then show ?thesis using inv_threads(1) [OF assms(2), of t] inv_threads(2) [OF assms(2), of t w]
    by (intro inv_inc [OF assms(2), where t = t and c = "Counted w"]) (auto simp: set_pc_def)
next
  case (recheck_open t w)
  then show ?thesis using inv_threads(1) [OF assms(2), of t] inv_threads(2) [OF assms(2), of t w]
    by (intro inv_same [OF assms(2), where t = t and c = "Passed w"]) (auto simp: set_pc_def)
next
  case (recheck_closed t w)
  then show ?thesis using inv_threads(1) [OF assms(2), of t] inv_threads(2) [OF assms(2), of t w]
    by (intro inv_same [OF assms(2), where t = t and c = "Backing"]) (auto simp: set_pc_def)
next
  case (recheck_auth t w q)
  then show ?thesis using assms(2) inv_threads(1) [OF assms(2), of t] inv_threads(2) [OF assms(2), of t w] by (auto intro: inv_authorized)
next
  case (recheck_deny t w)
  then show ?thesis using inv_threads(1) [OF assms(2), of t] inv_threads(2) [OF assms(2), of t w]
    by (intro inv_same [OF assms(2), where t = t and c = "Backing"]) (auto simp: set_pc_def)
next
  case (back_out t)
  then show ?thesis using inv_release [OF assms(2), of t] by simp
next
  case (leave t w)
  then have "w > SIMD_SSE41 \<and> w \<le> SIMD_AVX512"
    using inv_threads(2) [OF assms(2), of t w] by (auto simp: wide_def width_valid_iff)
  then show ?thesis using leave inv_release [OF assms(2), of t]
    by (simp add: tsd_runtime_execution_leave_def)
next
  case (write_enter q t)
  then show ?thesis using assms(2) write_enter_execution [of s ok q]
    by (simp add: adm_inv_def in_flight_def)
next
  case (write_publish t)
  then show ?thesis using assms(2) inv_same_execution by blast
next
  case (write_leave t)
  then show ?thesis using assms(2) by (simp add: adm_inv_def in_flight_def write_leave_execution)
next
  case close_admission
  then show ?thesis using assms(2)
    by (simp add: adm_inv_def in_flight_def tsd_runtime_wide_admission_close_def)
next
  case environment
  then show ?thesis using assms(2) inv_same_execution by blast
qed

lemma adm_init_inv: "adm_init s \<Longrightarrow> adm_inv s"
  by (simp add: adm_init_def adm_inv_def in_flight_def)

interpretation adm_counting: inductive_invariant adm_init adm_step adm_inv
  by unfold_locales (fact adm_init_inv, rule adm_step_inv)

section \<open>Closed admission\<close>

lemma step_past_recheck:
  assumes "adm_step s s'" "past_recheck (pcs s' t)" "\<not> wide_admission_open s"
  shows "past_recheck (pcs s t)"
  using assms
  by (cases rule: adm_step.cases)
    (auto simp: set_pc_def same_execution_def release_execution write_leave_execution
      tsd_runtime_wide_admission_close_def tsd_runtime_execution_leave_def
      dest!: authorized_execution write_enter_execution split: if_splits)

lemma closed_run_past_recheck:
  "\<lbrakk>closed_run s s'; \<not> wide_admission_open s\<rbrakk> \<Longrightarrow>
   \<not> wide_admission_open s' \<and> (past_recheck (pcs s' t) \<longrightarrow> past_recheck (pcs s t))"
  by (induction rule: run_while.induct) (auto dest: step_past_recheck)

lemma quiescent_none_past:
  assumes "adm_inv s" "active_wide_executions s = 0"
  shows "\<not> past_recheck (pcs s t)"
proof -
  have "in_flight s = {}" using assms in_flight_finite [OF assms(1)] by (simp add: adm_inv_def)
  then have "\<not> counted (pcs s t)" by (auto simp: in_flight_def)
  then show ?thesis by (cases "pcs s t") simp_all
qed

section \<open>An undisturbed entry is the sequential one\<close>

lemma set_pc_guard [simp]:
  "wide_conditions (set_pc t c s) = wide_conditions s"
  "reads_limits (set_pc t c s) = reads_limits s"
  "wide_admission_open (set_pc t c s) = wide_admission_open s"
  "tsd_runtime_current_thread_is_owner t' (set_pc t c s) = tsd_runtime_current_thread_is_owner t' s"
  "safety_config_snapshot_state (set_pc t c s) = safety_config_snapshot_state s"
  "pcs (set_pc t c s) = (pcs s)(t := c)"
  "set_pc t c (set_pc t c' s) = set_pc t c s"
  by (simp_all add: set_pc_def wide_conditions_def reads_limits_def guard_live_def perf_trusted_def
    temperature_safe_def safety_limits_def safety_config_snapshot_def transitions_iff
    tsd_runtime_config_active_snapshot_def tsd_runtime_current_thread_is_owner_def Let_def)

lemma count_step:
  "pcs s t = Checked w \<Longrightarrow> adm_step s (set_pc t (Counted w) (admitted t s))"
  by (rule enter_count [of _ _ w]) (simp_all add: admitted_def)

lemma admitted_pcs [simp]: "pcs (admitted t s) = pcs s"
  by (simp add: admitted_def)

lemma admitted_set_pc: "admitted t (set_pc t c s) = set_pc t c (admitted t s)"
  by (simp add: admitted_def set_pc_def)

lemma captured_for_pcs [simp]: "pcs (captured_for t s) = pcs s"
  by (simp add: captured_for_def capture_limits_def safety_config_snapshot_def Let_def)

lemma captured_for_fixed:
  assumes "tsd_runtime_current_thread_is_owner t s" "wide_admission_open s"
  shows "reads_limits s \<Longrightarrow> capture_limits (set_pc t' c (admitted t (captured_for t s))) = set_pc t' c (admitted t (captured_for t s))"
  using assms capture_limits_state [of s] by (intro capture_limits_fixed) (simp add: captured_for_def)

lemma solo_entry:
  assumes "tsd_runtime_execution_enter t w s = (ok, q)" "wide w" "pcs s t = Idle" "0 < t" "t \<le> INT_MAX"
  shows "run_while adm_step (\<lambda>_. True) s (set_pc t (Running w) q)"
proof -
  let ?c = "captured_for t s"
  have w: "width_valid w" "w \<noteq> SIMD_SSE41" using assms(2) by (simp_all add: wide_def)
  then have g: "tsd_runtime_current_thread_is_owner t s" "wide_admission_open s" "wide_conditions s"
    and q: "q = admitted t ?c"
    using assms(1) by (simp_all add: execution_enter_wide split: if_splits)
  have "tsd_runtime_width_authorized w s = (True, ?c)"
    using w g by (simp add: width_authorized_wide captured_for_def)
  then have 1: "adm_step s (set_pc t (Checked w) ?c)"
    using assms g by (intro enter_check)
  have 2: "adm_step (set_pc t (Checked w) ?c) (set_pc t (Counted w) q)"
    using count_step [of "set_pc t (Checked w) ?c" t w] by (simp add: admitted_set_pc q)
  have 3: "adm_step (set_pc t (Counted w) q) (set_pc t (Passed w) q)"
    using recheck_open [of "set_pc t (Counted w) q" t w] g by (simp add: q)
  have "tsd_runtime_current_thread_is_owner t ?c" using g by (simp add: captured_for_def)
  moreover have "tsd_runtime_width_authorized w (set_pc t (Passed w) q) = (True, set_pc t (Passed w) q)"
    using w g captured_for_fixed [OF g(1,2)] by (simp add: width_authorized_wide q)
  ultimately have 4: "adm_step (set_pc t (Passed w) q) (set_pc t (Running w) q)"
    using recheck_auth [of "set_pc t (Passed w) q" t w "set_pc t (Passed w) q"] by (simp add: q)
  have "run_while adm_step (\<lambda>_. True) a c" if "run_while adm_step (\<lambda>_. True) a b" "adm_step b c" for a b c
    using that by (rule run_step) simp
  from this [OF this [OF this [OF this [OF run_refl 1] 2] 3] 4] show ?thesis .
qed

section \<open>Properties\<close>


text \<open>The process before any call, with every thread outside.\<close>

definition adm_start :: adm where
  "adm_start = proc.extend proc_init (adm.fields (\<lambda>_. Idle) None)"

lemma adm_start_simps [simp]:
  "active_wide_executions adm_start = 0" "wide_admission_open adm_start = False"
  "pcs adm_start = (\<lambda>_. Idle)" "writer adm_start = None" "wide_execution_depth adm_start = (\<lambda>_. 0)"
  by (simp_all add: adm_start_def proc.defs adm.defs proc_init_def)

lemma adm_start_init: "adm_init adm_start"
  by (simp add: adm_init_def)




text \<open>
  Revocation: while admission stays closed no wide execution begins. A thread found running a
  wide kernel later was already running it, or had passed the second admission check, when
  admission was closed.
\<close>
theorem closed_admission_blocks_entry:
  assumes "\<not> wide_admission_open s" "closed_run s s'" "pcs s' t = Running w"
  shows "\<exists>w'. pcs s t = Passed w' \<or> pcs s t = Running w'"
  using closed_run_past_recheck [OF assms(2,1), of t] assms(3)
  by (cases "pcs s t") auto

theorem closed_admission_blocks_entry_witness:
  "\<exists>w'. pcs (set_pc 5 (Running SIMD_AVX2) adm_start) 5 = Passed w' \<or>
        pcs (set_pc 5 (Running SIMD_AVX2) adm_start) 5 = Running w'"
  by (rule closed_admission_blocks_entry [OF _ run_refl, where w = SIMD_AVX2]) simp_all



end
