(* ===== verification/Trampoline_State.thy ===== *)
theory Trampoline_State
  imports TSD_Prelude
begin

text \<open>
  \<^verbatim>\<open>src/patcher/trampoline_state.c\<close>: the published selection of a code slot. The authority is one
  machine word that holds the slot address with the width in its two low bits; the other
  variables are diagnostic mirrors. Addresses are 64-bit words, 0 being \<^verbatim>\<open>NULL\<close>.
\<close>

unbundle bit_operations_syntax

record trampoline_state =
  selection_word :: u64
  current_width :: simd_width_t
  current_width_byte :: u8
  trampoline_initialized :: bool
  active_trampoline :: u64
  last_patch_attempt :: u8
  last_patched_width :: u8
  page_a_effective_writable :: bool
  page_b_effective_writable :: bool

definition trampoline_state_init :: trampoline_state where
  "trampoline_state_init = \<lparr>selection_word = 0, current_width = SIMD_SSE41, current_width_byte = 0,
     trampoline_initialized = False, active_trampoline = 0, last_patch_attempt = 0,
     last_patched_width = 0, page_a_effective_writable = False, page_b_effective_writable = False\<rparr>"

definition width_byte :: "simd_width_t \<Rightarrow> u8" where
  "width_byte w = of_nat (width_rank w)"

definition TSD_SELECTION_WIDTH_MASK :: u64 where
  "TSD_SELECTION_WIDTH_MASK = 0x3"

definition encode_selection :: "simd_width_t \<Rightarrow> u64 \<Rightarrow> u64" where
  "encode_selection width active =
     (if active = 0 \<or> active AND TSD_SELECTION_WIDTH_MASK \<noteq> 0 \<or> \<not> width_valid width then 0
      else active OR of_nat (width_rank width))"

text \<open>The result and what it leaves in \<^verbatim>\<open>*out\<close>.\<close>

definition tsd_trampoline_state_snapshot :: "trampoline_state \<Rightarrow> rc \<times> simd_width_t \<times> u64" where
  "tsd_trampoline_state_snapshot s =
     (let word = selection_word s in
      if word = 0 then (Inl ENODEV, SIMD_SSE41, 0)
      else let width = width_of_nat (unat (word AND TSD_SELECTION_WIDTH_MASK));
               active = word AND NOT TSD_SELECTION_WIDTH_MASK
           in if \<not> width_valid width \<or> active = 0 then (Inl EIO, SIMD_SSE41, 0)
              else (ok, width, active))"

definition tsd_trampoline_state_current_width :: "trampoline_state \<Rightarrow> simd_width_t" where
  "tsd_trampoline_state_current_width s =
     (case tsd_trampoline_state_snapshot s of (Inr _, w, _) \<Rightarrow> w | _ \<Rightarrow> current_width s)"

definition tsd_trampoline_state_current_width_byte :: "trampoline_state \<Rightarrow> u8" where
  "tsd_trampoline_state_current_width_byte s = width_byte (tsd_trampoline_state_current_width s)"

definition tsd_trampoline_state_active :: "trampoline_state \<Rightarrow> u64" where
  "tsd_trampoline_state_active s =
     (case tsd_trampoline_state_snapshot s of (Inr _, _, a) \<Rightarrow> a | _ \<Rightarrow> active_trampoline s)"

definition tsd_trampoline_state_reset :: "u64 \<Rightarrow> trampoline_state \<Rightarrow> trampoline_state" where
  "tsd_trampoline_state_reset active s = s\<lparr>
     selection_word := encode_selection SIMD_SSE41 active,
     current_width := SIMD_SSE41, current_width_byte := width_byte SIMD_SSE41,
     active_trampoline := active, trampoline_initialized := False,
     last_patch_attempt := width_byte SIMD_SSE41, last_patched_width := width_byte SIMD_SSE41\<rparr>"

definition tsd_trampoline_state_set_initialized :: "bool \<Rightarrow> trampoline_state \<Rightarrow> trampoline_state" where
  "tsd_trampoline_state_set_initialized b s = s\<lparr>trampoline_initialized := b\<rparr>"

definition tsd_trampoline_state_set_last_patch_attempt :: "simd_width_t \<Rightarrow> trampoline_state \<Rightarrow> trampoline_state" where
  "tsd_trampoline_state_set_last_patch_attempt w s = s\<lparr>last_patch_attempt := width_byte w\<rparr>"

definition tsd_trampoline_state_publish_selection ::
    "simd_width_t \<Rightarrow> u64 \<Rightarrow> trampoline_state \<Rightarrow> trampoline_state" where
  "tsd_trampoline_state_publish_selection width active s =
     (let word = encode_selection width active
      in if word = 0 then s
         else s\<lparr>selection_word := word, current_width := width, current_width_byte := width_byte width,
                active_trampoline := active, trampoline_initialized := True,
                last_patched_width := width_byte width\<rparr>)"

definition tsd_trampoline_state_set_page_a_writable :: "bool \<Rightarrow> trampoline_state \<Rightarrow> trampoline_state" where
  "tsd_trampoline_state_set_page_a_writable b s = s\<lparr>page_a_effective_writable := b\<rparr>"

definition tsd_trampoline_state_set_page_b_writable :: "bool \<Rightarrow> trampoline_state \<Rightarrow> trampoline_state" where
  "tsd_trampoline_state_set_page_b_writable b s = s\<lparr>page_b_effective_writable := b\<rparr>"

section \<open>The selection word\<close>

lemma width_word_cases:
  assumes "width_valid w"
  shows "of_nat (width_rank w) \<in> {0, 1, 2 :: u64}"
  using assms by (cases w) auto

lemma low_bits_decode:
  fixes a w :: u64
  assumes "a AND 3 = 0" "w \<in> {0, 1, 2}"
  shows "(a OR w) AND 3 = w" "(a OR w) AND NOT 3 = a"
proof -
  have w: "w AND 3 = w" "w AND NOT 3 = 0" using assms(2) by auto
  have "(a OR w) AND 3 = (a AND 3) OR (w AND 3)" by (simp add: bit.conj_disj_distrib2)
  then show "(a OR w) AND 3 = w" using assms(1) w by simp
  have "(a OR w) AND NOT 3 = (a AND NOT 3) OR (w AND NOT 3)" by (simp only: bit.conj_disj_distrib2)
  moreover have "a AND NOT 3 = a"
  proof -
    have "a = (a AND 3) OR (a AND NOT 3)"
      by (simp only: bit.conj_disj_distrib [symmetric] bit.disj_cancel_right and.right_neutral)
    then show ?thesis using assms(1) by simp
  qed
  ultimately show "(a OR w) AND NOT 3 = a" using w by simp
qed

lemma snapshot_of_word:
  assumes "a \<noteq> 0" "a AND 3 = 0" "width_valid w"
  shows "encode_selection w a \<noteq> 0"
    and "tsd_trampoline_state_snapshot (s\<lparr>selection_word := encode_selection w a\<rparr>) = (ok, w, a)"
proof -
  let ?v = "of_nat (width_rank w) :: u64"
  note d = low_bits_decode [OF assms(2) width_word_cases [OF assms(3)]]
  have e: "encode_selection w a = a OR ?v"
    using assms by (simp add: encode_selection_def TSD_SELECTION_WIDTH_MASK_def)
  have nz: "a OR ?v \<noteq> 0" using assms(1) d(2) by auto
  then show "encode_selection w a \<noteq> 0" by (simp add: e)
  have "width_of_nat (unat ?v) = w" using assms(3) by (cases w) (simp_all add: width_of_nat_def)
  then show "tsd_trampoline_state_snapshot (s\<lparr>selection_word := encode_selection w a\<rparr>) = (ok, w, a)"
    using assms nz d by (simp add: e tsd_trampoline_state_snapshot_def TSD_SELECTION_WIDTH_MASK_def Let_def)
qed

lemma snapshot_cong: "selection_word s = selection_word s' \<Longrightarrow>
  tsd_trampoline_state_snapshot s = tsd_trampoline_state_snapshot s'"
  by (simp add: tsd_trampoline_state_snapshot_def)

lemma snapshot_after_publish:
  assumes "a \<noteq> 0" "a AND 3 = 0" "width_valid w"
  shows "tsd_trampoline_state_snapshot (tsd_trampoline_state_publish_selection w a s) = (ok, w, a)"
proof -
  have "selection_word (tsd_trampoline_state_publish_selection w a s) = encode_selection w a"
    using snapshot_of_word(1) [OF assms] by (simp add: tsd_trampoline_state_publish_selection_def Let_def)
  then have "tsd_trampoline_state_snapshot (tsd_trampoline_state_publish_selection w a s) =
    tsd_trampoline_state_snapshot (s\<lparr>selection_word := encode_selection w a\<rparr>)"
    by (intro snapshot_cong) simp
  then show ?thesis using snapshot_of_word(2) [OF assms, of s] by simp
qed

lemma snapshot_after_reset:
  assumes "a \<noteq> 0" "a AND 3 = 0"
  shows "tsd_trampoline_state_snapshot (tsd_trampoline_state_reset a s) = (ok, SIMD_SSE41, a)"
proof -
  have "tsd_trampoline_state_snapshot (tsd_trampoline_state_reset a s) =
    tsd_trampoline_state_snapshot (s\<lparr>selection_word := encode_selection SIMD_SSE41 a\<rparr>)"
    by (intro snapshot_cong) (simp add: tsd_trampoline_state_reset_def)
  then show ?thesis using snapshot_of_word(2) [OF assms, of SIMD_SSE41 s] by simp
qed

section \<open>Properties\<close>

text \<open>
  Publishing a selection and reading it back is lossless: for every aligned slot address and
  every width of the enumeration one load of the published word yields both, and the current
  width and active slot agree with it; an unaligned or null slot or an invalid width publishes
  nothing.
\<close>
theorem selection_roundtrip:
  "if a \<noteq> 0 \<and> a AND 3 = 0 \<and> width_valid w
   then tsd_trampoline_state_snapshot (tsd_trampoline_state_publish_selection w a s) = (ok, w, a) \<and>
        tsd_trampoline_state_current_width (tsd_trampoline_state_publish_selection w a s) = w \<and>
        tsd_trampoline_state_active (tsd_trampoline_state_publish_selection w a s) = a
   else tsd_trampoline_state_publish_selection w a s = s"
  using snapshot_after_publish [of a w s]
  by (auto simp: tsd_trampoline_state_current_width_def tsd_trampoline_state_active_def
    tsd_trampoline_state_publish_selection_def encode_selection_def TSD_SELECTION_WIDTH_MASK_def Let_def)

end
