(* ===== verification/Cpu.thy ===== *)
theory Cpu
  imports Runtime_Config
begin

text \<open>
  \<^verbatim>\<open>src/thermal_cpu.c\<close>: which SIMD width the host and the static AVX-512 policy allow. The
  answers of \<^verbatim>\<open>cpuid\<close> and \<^verbatim>\<open>xgetbv\<close> are a property of the host: the register the code reads of
  leaf 1 and of leaf 7 (\<^term>\<open>None\<close>: the leaf is not supported) and XCR0.
\<close>

unbundle bit_operations_syntax

record cpu_host =
  leaf1_ecx :: "u32 option"
  leaf7_ebx :: "u32 option"
  xcr0 :: u64

definition flag :: "u32 \<Rightarrow> nat \<Rightarrow> bool" where
  "flag r n = (r AND push_bit n 1 \<noteq> 0)"

definition tsd_cpu_has_sse41 :: "cpu_host \<Rightarrow> bool" where
  "tsd_cpu_has_sse41 h = (case leaf1_ecx h of None \<Rightarrow> False | Some ecx \<Rightarrow> flag ecx 19)"

definition cpu_has_avx_bit :: "cpu_host \<Rightarrow> bool" where
  "cpu_has_avx_bit h = (case leaf1_ecx h of None \<Rightarrow> False | Some ecx \<Rightarrow> flag ecx 28)"

definition check_xsave_support :: "cpu_host \<Rightarrow> bool" where
  "check_xsave_support h = (case leaf1_ecx h of None \<Rightarrow> False
     | Some ecx \<Rightarrow> if \<not> flag ecx 27 then False else xcr0 h AND 0x6 = 0x6)"

text \<open>The flag \<^verbatim>\<open>g_tsd_avx_available\<close> is the second argument and result.\<close>

definition detect_impl :: "cpu_host \<Rightarrow> tsd_runtime_config option \<Rightarrow> bool \<Rightarrow> simd_width_t \<times> bool" where
  "detect_impl h cfg avx =
     (if \<not> tsd_cpu_has_sse41 h then (SIMD_SSE41, avx)
      else if \<not> check_xsave_support h then (SIMD_SSE41, avx)
      else let avx = (if cpu_has_avx_bit h then True else avx)
           in (case leaf7_ebx h of
                 Some ebx \<Rightarrow>
                   if (case cfg of None \<Rightarrow> False | Some c \<Rightarrow> allow_avx512 c \<noteq> 0)
                   then (if flag ebx 16 \<and> cpu_has_avx_bit h \<and> xcr0 h AND 0xE6 = 0xE6 then (SIMD_AVX512, avx)
                         else if flag ebx 5 \<and> cpu_has_avx_bit h then (SIMD_AVX2, avx)
                         else (SIMD_SSE41, avx))
                   else (if flag ebx 5 \<and> cpu_has_avx_bit h then (SIMD_AVX2, avx) else (SIMD_SSE41, avx))
               | None \<Rightarrow> (SIMD_SSE41, avx)))"

definition tsd_detect_max_simd :: "cpu_host \<Rightarrow> tsd_runtime_config option \<Rightarrow> simd_width_t" where
  "tsd_detect_max_simd h cfg = fst (detect_impl h cfg False)"

section \<open>Lemmas\<close>

lemma detect_valid: "width_valid (tsd_detect_max_simd h cfg)"
  by (auto simp: tsd_detect_max_simd_def detect_impl_def Let_def split: option.splits)

lemma detect_flag_irrelevant: "fst (detect_impl h cfg avx) = tsd_detect_max_simd h cfg"
  by (auto simp: tsd_detect_max_simd_def detect_impl_def Let_def split: option.splits)

lemma detect_cases:
  "tsd_detect_max_simd h cfg = SIMD_AVX2 \<Longrightarrow>
     tsd_cpu_has_sse41 h \<and> check_xsave_support h \<and> cpu_has_avx_bit h \<and> (\<exists>ebx. leaf7_ebx h = Some ebx \<and> flag ebx 5)"
  "tsd_detect_max_simd h cfg = SIMD_AVX512 \<Longrightarrow>
     tsd_cpu_has_sse41 h \<and> check_xsave_support h \<and> cpu_has_avx_bit h \<and> (\<exists>ebx. leaf7_ebx h = Some ebx \<and> flag ebx 16) \<and>
     xcr0 h AND 0xE6 = 0xE6 \<and> (\<exists>c. cfg = Some c \<and> allow_avx512 c \<noteq> 0)"
  by (auto simp: tsd_detect_max_simd_def detect_impl_def Let_def split: option.splits if_splits)

text \<open>
  A width is usable when the CPU has the instructions and the operating system saves its registers
  (XCR0: SSE and AVX state, and for AVX-512 the opmask and both ZMM states).
\<close>

definition width_usable :: "cpu_host \<Rightarrow> simd_width_t \<Rightarrow> bool" where
  "width_usable h w = (case w of
     SIMD_SSE41 \<Rightarrow> True
   | SIMD_AVX2 \<Rightarrow> check_xsave_support h \<and> cpu_has_avx_bit h \<and> (\<exists>ebx. leaf7_ebx h = Some ebx \<and> flag ebx 5)
   | SIMD_AVX512 \<Rightarrow> check_xsave_support h \<and> cpu_has_avx_bit h \<and> xcr0 h AND 0xE6 = 0xE6 \<and>
       (\<exists>ebx. leaf7_ebx h = Some ebx \<and> flag ebx 16)
   | _ \<Rightarrow> False)"

section \<open>Properties\<close>

text \<open>
  Detection never names a width the host cannot run: the instruction set bits and the saved
  register state are there, AVX-512 is named only when the configuration allows it, and a host
  without SSE4.1 gets the baseline.
\<close>
theorem detect_max_simd_sound:
  "width_usable h (tsd_detect_max_simd h cfg) \<and>
   (tsd_detect_max_simd h cfg = SIMD_AVX512 \<longrightarrow> (\<exists>c. cfg = Some c \<and> allow_avx512 c \<noteq> 0)) \<and>
   (\<not> tsd_cpu_has_sse41 h \<longrightarrow> tsd_detect_max_simd h cfg = SIMD_SSE41)"
proof -
  have "width_usable h (tsd_detect_max_simd h cfg)"
    using detect_cases [of h cfg] detect_valid [of h cfg]
    by (cases "tsd_detect_max_simd h cfg") (auto simp: width_usable_def)
  moreover have "\<not> tsd_cpu_has_sse41 h \<Longrightarrow> tsd_detect_max_simd h cfg = SIMD_SSE41"
    by (simp add: tsd_detect_max_simd_def detect_impl_def)
  ultimately show ?thesis using detect_cases(2) [of h cfg] by blast
qed

text \<open>A host with AVX-512 (leaf 1 bits 19, 27, 28; leaf 7 bits 5, 16; XCR0 0xE7).\<close>

definition avx512_host :: cpu_host where
  "avx512_host = \<lparr>leaf1_ecx = Some 0x18080000, leaf7_ebx = Some 0x10020, xcr0 = 0xE7\<rparr>"

theorem detect_max_simd_sound_witness:
  "tsd_detect_max_simd avx512_host (Some (k_default_config\<lparr>allow_avx512 := 1\<rparr>)) = SIMD_AVX512 \<and>
   width_usable avx512_host SIMD_AVX512 \<and>
   tsd_detect_max_simd avx512_host (Some k_default_config) = SIMD_AVX2"
proof -
  have d: "tsd_detect_max_simd avx512_host (Some (k_default_config\<lparr>allow_avx512 := 1\<rparr>)) = SIMD_AVX512"
    "tsd_detect_max_simd avx512_host (Some k_default_config) = SIMD_AVX2"
    by code_simp+
  with detect_max_simd_sound [of avx512_host "Some (k_default_config\<lparr>allow_avx512 := 1\<rparr>)"]
  show ?thesis by simp
qed

end
