(* ===== verification/Metrics.thy ===== *)
theory Metrics
  imports TSD_Prelude
begin

text \<open>
  \<^verbatim>\<open>src/runtime_metrics.c\<close> and \<^verbatim>\<open>src/workload_counter.c\<close>: the process-wide counters. The exporter
  the transition record is forwarded to is not modelled.
\<close>

datatype tsd_metric_counter_t =
    TSD_METRIC_PERF_FALLBACKS | TSD_METRIC_PERF_RECOVERIES
  | TSD_METRIC_TELEMETRY_TEMP_DROPS | TSD_METRIC_TELEMETRY_TEMP_RECOVERIES
  | TSD_METRIC_TELEMETRY_FREQ_DROPS | TSD_METRIC_TELEMETRY_FREQ_RECOVERIES
  | TSD_METRIC_TELEMETRY_MSR_DROPS | TSD_METRIC_TELEMETRY_MSR_RECOVERIES
  | TSD_METRIC_PATCH_TRANSITIONS | TSD_METRIC_PATCH_FAILURES
  | TSD_METRIC_HEALTH_CHECK_FAILURES | TSD_METRIC_SOFTWARE_TIMEOUT_ESCALATIONS
  | TSD_METRIC_PREDICTIVE_FORECASTS | TSD_METRIC_PREDICTIVE_STALE_SAMPLES
  | TSD_METRIC_PREDICTIVE_RELOADS | TSD_METRIC_PREDICTIVE_RELOAD_ERRORS
  | TSD_METRIC_PREDICTIVE_ABS_ERROR_MILLIC | TSD_METRIC_PREDICTIVE_DECISIONS
  | TSD_METRIC_COUNT

type_synonym metric_counters = "tsd_metric_counter_t \<Rightarrow> u64"

definition tsd_metrics_increment :: "tsd_metric_counter_t \<Rightarrow> metric_counters \<Rightarrow> metric_counters" where
  "tsd_metrics_increment i m = (if i = TSD_METRIC_COUNT then m else m(i := m i + 1))"

definition tsd_metrics_add :: "tsd_metric_counter_t \<Rightarrow> u64 \<Rightarrow> metric_counters \<Rightarrow> metric_counters" where
  "tsd_metrics_add i v m = (if i = TSD_METRIC_COUNT then m else m(i := m i + v))"

definition tsd_metrics_counter_name :: "tsd_metric_counter_t \<Rightarrow> string" where
  "tsd_metrics_counter_name i = (case i of
     TSD_METRIC_PERF_FALLBACKS \<Rightarrow> ''perf_fallbacks''
   | TSD_METRIC_PERF_RECOVERIES \<Rightarrow> ''perf_recoveries''
   | TSD_METRIC_TELEMETRY_TEMP_DROPS \<Rightarrow> ''telemetry_temp_drops''
   | TSD_METRIC_TELEMETRY_TEMP_RECOVERIES \<Rightarrow> ''telemetry_temp_recoveries''
   | TSD_METRIC_TELEMETRY_FREQ_DROPS \<Rightarrow> ''telemetry_freq_drops''
   | TSD_METRIC_TELEMETRY_FREQ_RECOVERIES \<Rightarrow> ''telemetry_freq_recoveries''
   | TSD_METRIC_TELEMETRY_MSR_DROPS \<Rightarrow> ''telemetry_msr_drops''
   | TSD_METRIC_TELEMETRY_MSR_RECOVERIES \<Rightarrow> ''telemetry_msr_recoveries''
   | TSD_METRIC_PATCH_TRANSITIONS \<Rightarrow> ''patch_transitions''
   | TSD_METRIC_PATCH_FAILURES \<Rightarrow> ''patch_failures''
   | TSD_METRIC_HEALTH_CHECK_FAILURES \<Rightarrow> ''health_check_failures''
   | TSD_METRIC_SOFTWARE_TIMEOUT_ESCALATIONS \<Rightarrow> ''software_timeout_escalations''
   | TSD_METRIC_PREDICTIVE_FORECASTS \<Rightarrow> ''predictive_forecasts_total''
   | TSD_METRIC_PREDICTIVE_STALE_SAMPLES \<Rightarrow> ''predictive_stale_samples_total''
   | TSD_METRIC_PREDICTIVE_RELOADS \<Rightarrow> ''predictive_coeff_reload_total''
   | TSD_METRIC_PREDICTIVE_RELOAD_ERRORS \<Rightarrow> ''predictive_coeff_reload_errors_total''
   | TSD_METRIC_PREDICTIVE_ABS_ERROR_MILLIC \<Rightarrow> ''predictive_abs_error_millic_total''
   | TSD_METRIC_PREDICTIVE_DECISIONS \<Rightarrow> ''predictive_decisions_total''
   | TSD_METRIC_COUNT \<Rightarrow> ''invalid'')"

definition tsd_metrics_record_width_transition ::
    "simd_width_t \<Rightarrow> simd_width_t \<Rightarrow> bool \<Rightarrow> metric_counters \<Rightarrow> metric_counters" where
  "tsd_metrics_record_width_transition from to success m =
     (if success then tsd_metrics_increment TSD_METRIC_PATCH_TRANSITIONS m
      else tsd_metrics_increment TSD_METRIC_PATCH_FAILURES m)"

definition tsd_workload_iterations_add :: "u64 \<Rightarrow> u64 \<Rightarrow> u64" where
  "tsd_workload_iterations_add n iterations = (if n = 0 then iterations else iterations + n)"

end
