(* ===== verification/Trampoline.thy ===== *)
theory Trampoline
  imports Runtime_Guard Trampoline_State Cpu Metrics
begin

text \<open>
  \<^verbatim>\<open>src/patcher/trampoline.cpp\<close> and \<^verbatim>\<open>src/patcher/trampoline_guard.c\<close>: the page of immutable code
  slots, the selection of one of them with its attestation hash, and the authorization around
  it. The state extends the process of the guard by the trampoline's own variables, the part of
  the address space it maps, and the results the operating system will give. SHA-256 comes from
  OpenSSL and is the argument \<open>sha256\<close> (\<^term>\<open>None\<close>: the call fails).
\<close>

unbundle bit_operations_syntax

section \<open>Code payloads\<close>

definition kPatchSse41 :: "u8 list" where
  "kPatchSse41 = [0xF3, 0x0F, 0x1E, 0xFA,
     0x66, 0x0F, 0x70, 0xC0, 0x00,
     0x66, 0x0F, 0x70, 0xC9, 0x00,
     0x66, 0x0F, 0x38, 0x40, 0xC1,
     0xC3,
     0x90, 0x90, 0x90, 0x90, 0x90, 0x90,
     0x90, 0x90, 0x90, 0x90, 0x90, 0x90]"

definition kPatchAvx2 :: "u8 list" where
  "kPatchAvx2 = [0xF3, 0x0F, 0x1E, 0xFA,
     0xC4, 0xE2, 0x7D, 0x58, 0xC0,
     0xC4, 0xE2, 0x7D, 0x58, 0xC9,
     0xC4, 0xE2, 0x7D, 0x40, 0xC1,
     0xC5, 0xF8, 0x77,
     0xC3,
     0x90, 0x90, 0x90, 0x90, 0x90, 0x90, 0x90, 0x90, 0x90]"

definition kPatchAvx512 :: "u8 list" where
  "kPatchAvx512 = [0xF3, 0x0F, 0x1E, 0xFA,
     0x62, 0xF2, 0x7D, 0x48, 0x58, 0xC0,
     0x62, 0xF2, 0x7D, 0x48, 0x58, 0xC9,
     0x62, 0xF2, 0x7D, 0x48, 0x40, 0xC1,
     0xC5, 0xF8, 0x77,
     0xC3,
     0x90, 0x90, 0x90, 0x90, 0x90, 0x90]"

definition canonical_patch :: "simd_width_t \<Rightarrow> u8 list option" where
  "canonical_patch w = (case w of
     SIMD_SSE41 \<Rightarrow> Some kPatchSse41 | SIMD_AVX2 \<Rightarrow> Some kPatchAvx2 | SIMD_AVX512 \<Rightarrow> Some kPatchAvx512
   | SIMD_OTHER _ \<Rightarrow> None)"

definition kEnbr64 :: u32 where "kEnbr64 = 0xFA1E0FF3"

definition has_enbr64_prefix :: "u8 list \<Rightarrow> bool" where
  "has_enbr64_prefix bytes =
     (if length bytes < 4 then False
      else (ucast (bytes ! 0) OR push_bit 8 (ucast (bytes ! 1)) OR push_bit 16 (ucast (bytes ! 2)) OR
            push_bit 24 (ucast (bytes ! 3)) :: u32) = kEnbr64)"

abbreviation (input) kWidthCount :: nat where "kWidthCount \<equiv> 3"
abbreviation (input) slot_stride :: nat where "slot_stride \<equiv> 64"
abbreviation TSD_TRAMPOLINE_SLOT_SIZE :: nat where "TSD_TRAMPOLINE_SLOT_SIZE \<equiv> 32"
abbreviation TSD_ATTESTATION_HASH_SIZE :: nat where "TSD_ATTESTATION_HASH_SIZE \<equiv> 32"

section \<open>State\<close>

text \<open>
  A mapping of the address space: where it lies, its protection, and the code bytes of the slots
  written into it. The kernel lists these in \<^verbatim>\<open>/proc/self/maps\<close>.
\<close>

record vm_area =
  vm_start :: u64
  vm_size :: nat
  vm_read :: bool
  vm_write :: bool
  vm_exec :: bool
  vm_slots :: "u8 list list"

abbreviation (input) PROT_NONE :: int where "PROT_NONE \<equiv> 0"
abbreviation (input) PROT_RW :: int where "PROT_RW \<equiv> 3"
abbreviation (input) PROT_RX :: int where "PROT_RX \<equiv> 5"

record tproc = proc +
  tstate :: trampoline_state
  ctx_active :: u64
  ctx_inactive :: u64
  page_a :: u64
  page_b :: u64
  page_size :: nat
  page_a_prot :: int
  page_b_prot :: int
  has_pku :: bool
  pkey :: int
  pkru_write_mask :: u32
  pkru_disable_mask :: u32
  slots :: "u64 list"
  active_hash :: "u8 list"
  active_hash_valid :: bool
  attestation_last_error :: string
  avx_available :: bool
  metrics :: metric_counters
  vm :: "vm_area list"
  host :: cpu_host
  sysconf_pagesize :: "errno option + nat"
  patch_lock_rcs :: "errno option list"
  attestation_lock_rcs :: "errno option list"
  mmap_results :: "(errno + u64) list"
  mprotect_rcs :: "errno option list"
  maps_readable :: "bool list"

section \<open>Memory\<close>

definition in_area :: "u64 \<Rightarrow> vm_area \<Rightarrow> bool" where
  "in_area a m = (unat (vm_start m) \<le> unat a \<and> unat a < unat (vm_start m) + vm_size m)"

text \<open>\<^verbatim>\<open>mapping_is_rx_not_writable\<close>: the first line of \<^verbatim>\<open>/proc/self/maps\<close> that covers the address.\<close>

definition mapping_is_rx_not_writable :: "u64 \<Rightarrow> 'a tproc_scheme \<Rightarrow> bool \<times> 'a tproc_scheme" where
  "mapping_is_rx_not_writable a p =
     (if a = 0 then (False, p)
      else let (readable, rest) = next_of True (maps_readable p); p = p\<lparr>maps_readable := rest\<rparr>
           in if \<not> readable then (False, p)
              else (case find (in_area a) (vm p) of
                      None \<Rightarrow> (False, p)
                    | Some m \<Rightarrow> (vm_read m \<and> \<not> vm_write m \<and> vm_exec m, p)))"

text \<open>The 32 code bytes at a slot address.\<close>

definition slot_code :: "u64 \<Rightarrow> 'a tproc_scheme \<Rightarrow> u8 list" where
  "slot_code a p = (case find (in_area a) (vm p) of
     None \<Rightarrow> []
   | Some m \<Rightarrow> let i = (unat a - unat (vm_start m)) div slot_stride
               in if i < length (vm_slots m) then vm_slots m ! i else [])"

definition write_slot :: "u64 \<Rightarrow> u8 list \<Rightarrow> 'a tproc_scheme \<Rightarrow> 'a tproc_scheme" where
  "write_slot a code p = p\<lparr>vm := map (\<lambda>m. if in_area a m \<and> vm_write m
      then m\<lparr>vm_slots := (vm_slots m)[(unat a - unat (vm_start m)) div slot_stride := code]\<rparr> else m) (vm p)\<rparr>"

definition protect_rx :: "u64 \<Rightarrow> 'a tproc_scheme \<Rightarrow> 'a tproc_scheme" where
  "protect_rx page p = p\<lparr>vm := map (\<lambda>m. if vm_start m = page
      then m\<lparr>vm_read := True, vm_write := False, vm_exec := True\<rparr> else m) (vm p)\<rparr>"

definition discard_code_page :: "u64 \<Rightarrow> 'a tproc_scheme \<Rightarrow> 'a tproc_scheme" where
  "discard_code_page page p = p\<lparr>
     vm := filter (\<lambda>m. vm_start m \<noteq> page) (vm p),
     page_a := 0, page_b := 0, page_size := 0, page_a_prot := PROT_NONE, page_b_prot := PROT_NONE,
     ctx_active := 0, ctx_inactive := 0, slots := [0, 0, 0],
     tstate := tsd_trampoline_state_set_page_b_writable False
       (tsd_trampoline_state_set_page_a_writable False (tstate p))\<rparr>"

section \<open>Building the code page\<close>

text \<open>One round of the copy loop; \<^term>\<open>None\<close> is an invalid payload.\<close>

definition install_slot :: "u64 \<Rightarrow> nat \<Rightarrow> 'a tproc_scheme \<Rightarrow> 'a tproc_scheme option" where
  "install_slot page i p =
     (case canonical_patch (width_of_nat i) of
        None \<Rightarrow> None
      | Some patch \<Rightarrow>
          if \<not> has_enbr64_prefix patch then None
          else let a = page + of_nat (slot_stride * i)
               in Some (write_slot a (take TSD_TRAMPOLINE_SLOT_SIZE patch) (p\<lparr>slots := (slots p)[i := a]\<rparr>)))"

fun install_slots :: "u64 \<Rightarrow> nat list \<Rightarrow> 'a tproc_scheme \<Rightarrow> 'a tproc_scheme option" where
  "install_slots page [] p = Some p"
| "install_slots page (i # is) p = (case install_slot page i p of None \<Rightarrow> None | Some q \<Rightarrow> install_slots page is q)"

text \<open>The state after \<^verbatim>\<open>mmap\<close> gave a writable page, and the sealing of the page once it is filled.\<close>

definition fresh_code_page :: "u64 \<Rightarrow> nat \<Rightarrow> 'a tproc_scheme \<Rightarrow> 'a tproc_scheme" where
  "fresh_code_page page pagesize p = p\<lparr>
     vm := \<lparr>vm_start = page, vm_size = pagesize, vm_read = True, vm_write = True, vm_exec = False,
            vm_slots = replicate (pagesize div slot_stride) []\<rparr> # vm p,
     page_a := page, page_b := 0, page_size := pagesize, page_a_prot := PROT_RW, page_b_prot := PROT_NONE,
     has_pku := False, pkey := - 1, pkru_write_mask := 0, pkru_disable_mask := 0,
     tstate := tsd_trampoline_state_set_page_b_writable False
       (tsd_trampoline_state_set_page_a_writable True (tstate p))\<rparr>"

definition seal_code_page :: "u64 \<Rightarrow> 'a tproc_scheme \<Rightarrow> rc \<times> 'a tproc_scheme" where
  "seal_code_page page p =
     (let (r, rest) = next_of None (mprotect_rcs p); p = p\<lparr>mprotect_rcs := rest\<rparr>
      in (case r of
          Some e \<Rightarrow> (Inl e, discard_code_page page p)
        | None \<Rightarrow>
            let p = (protect_rx page p)\<lparr>page_a_prot := PROT_RX,
                      tstate := tsd_trampoline_state_set_page_a_writable False (tstate p)\<rparr>
            in (case mapping_is_rx_not_writable page p of
                (False, p) \<Rightarrow> (Inl EPERM, discard_code_page page p)
              | (True, p) \<Rightarrow> (ok, p))))"

definition build_canonical_code_page :: "'a tproc_scheme \<Rightarrow> rc \<times> 'a tproc_scheme" where
  "build_canonical_code_page p =
     (case sysconf_pagesize p of
        Inl e \<Rightarrow> (Inl (case e of Some e \<Rightarrow> e | None \<Rightarrow> EINVAL), p)
      | Inr pagesize \<Rightarrow>
          if pagesize = 0 then (Inl EINVAL, p)
          else if kWidthCount * slot_stride > pagesize then (Inl E2BIG, p)
          else let (r, rest) = next_of (Inl ENOMEM) (mmap_results p); p = p\<lparr>mmap_results := rest\<rparr>
          in (case r of
              Inl e \<Rightarrow> (Inl e, p)
            | Inr page \<Rightarrow>
                let p = fresh_code_page page pagesize p
                in (case install_slots page [0..<kWidthCount] p of
                    None \<Rightarrow> (Inl EINVAL, discard_code_page page p)
                  | Some p \<Rightarrow> seal_code_page page p)))"

section \<open>Selecting a slot\<close>

definition commit_selection_and_attestation ::
    "(u8 list \<Rightarrow> u8 list option) \<Rightarrow> simd_width_t \<Rightarrow> u64 \<Rightarrow> 'a tproc_scheme \<Rightarrow> rc \<times> 'a tproc_scheme" where
  "commit_selection_and_attestation sha256 width target p =
     (if target = 0 then (Inl EINVAL, p)
      else (case sha256 (slot_code target p) of
          None \<Rightarrow> (Inl EIO, p)
        | Some new_hash \<Rightarrow>
            let (r, rest) = next_of None (attestation_lock_rcs p); p = p\<lparr>attestation_lock_rcs := rest\<rparr>
            in (case r of
                Some e \<Rightarrow> (Inl e, p)
              | None \<Rightarrow>
                  let p = p\<lparr>active_hash_valid := False\<rparr>;
                      old_active = tsd_trampoline_state_active (tstate p)
                  in (ok, p\<lparr>ctx_active := target, ctx_inactive := old_active,
                           tstate := tsd_trampoline_state_publish_selection width target (tstate p),
                           active_hash := new_hash, active_hash_valid := True\<rparr>))))"

definition tsd_trampoline_init :: "'a tproc_scheme \<Rightarrow> rc \<times> 'a tproc_scheme" where
  "tsd_trampoline_init p =
     (let (r, rest) = next_of None (patch_lock_rcs p); p = p\<lparr>patch_lock_rcs := rest\<rparr>
      in (case r of
          Some e \<Rightarrow> (Inl e, p)
        | None \<Rightarrow>
            (case (if page_a p = 0 then build_canonical_code_page p else (ok, p)) of
               (Inl e, p) \<Rightarrow> (Inl e, p)
             | (Inr _, p) \<Rightarrow>
                 let (r, rest) = next_of None (attestation_lock_rcs p); p = p\<lparr>attestation_lock_rcs := rest\<rparr>
                 in (case r of
                     Some e \<Rightarrow> (Inl e, p)
                   | None \<Rightarrow>
                       (ok, p\<lparr>ctx_active := slots p ! 0, ctx_inactive := slots p ! 1,
                             tstate := tsd_trampoline_state_reset (slots p ! 0) (tstate p),
                             active_hash_valid := False\<rparr>)))))"

text \<open>The body of the \<^verbatim>\<open>do ... while (0)\<close> of the selector.\<close>

definition select_target ::
    "(u8 list \<Rightarrow> u8 list option) \<Rightarrow> simd_width_t \<Rightarrow> 'a tproc_scheme \<Rightarrow> rc \<times> 'a tproc_scheme" where
  "select_target sha256 new_width p =
     (if \<not> width_valid new_width then (Inl EINVAL, p)
      else if \<not> tsd_cpu_has_sse41 (host p) then (Inl ENOTSUP, p)
      else let (allowed, avx) = detect_impl (host p) (Some (tsd_runtime_config_active_snapshot p)) (avx_available p);
               p = p\<lparr>avx_available := avx\<rparr>
           in if new_width > allowed then (Inl ENOTSUP, p)
              else (case (if page_a p = 0 then build_canonical_code_page p else (ok, p)) of
                  (Inl e, p) \<Rightarrow> (Inl e, p)
                | (Inr _, p) \<Rightarrow>
                    if (case canonical_patch new_width of None \<Rightarrow> True | Some patch \<Rightarrow> \<not> has_enbr64_prefix patch)
                    then (Inl EINVAL, p)
                    else let target = slots p ! width_rank new_width
                         in (case mapping_is_rx_not_writable target p of
                             (False, p) \<Rightarrow> (Inl EPERM, p)
                           | (True, p) \<Rightarrow> commit_selection_and_attestation sha256 new_width target p)))"

definition tsd_trampoline_patch_impl ::
    "(u8 list \<Rightarrow> u8 list option) \<Rightarrow> simd_width_t \<Rightarrow> 'a tproc_scheme \<Rightarrow> rc \<times> 'a tproc_scheme" where
  "tsd_trampoline_patch_impl sha256 new_width p =
     (let (r, rest) = next_of None (patch_lock_rcs p); p = p\<lparr>patch_lock_rcs := rest\<rparr>
      in (case r of
          Some e \<Rightarrow> (Inl e, p)
        | None \<Rightarrow>
            let previous_width = tsd_trampoline_state_current_width (tstate p);
                p = p\<lparr>tstate := tsd_trampoline_state_set_last_patch_attempt new_width (tstate p)\<rparr>;
                (rc, p) = select_target sha256 new_width p
            in (rc, p\<lparr>metrics := tsd_metrics_record_width_transition previous_width new_width (rc = ok) (metrics p)\<rparr>)))"

text \<open>The production \<^verbatim>\<open>tsd_trampoline_patch\<close> of \<^verbatim>\<open>trampoline_guard.c\<close>.\<close>

definition tsd_trampoline_patch ::
    "(u8 list \<Rightarrow> u8 list option) \<Rightarrow> simd_width_t \<Rightarrow> 'a tproc_scheme \<Rightarrow> rc \<times> 'a tproc_scheme" where
  "tsd_trampoline_patch sha256 new_width p =
     (case tsd_runtime_safety_write_enter p of
        (Inl e, p) \<Rightarrow> (Inl e, p)
      | (Inr _, p) \<Rightarrow>
          (case tsd_runtime_width_authorized new_width p of
             (False, p) \<Rightarrow> (Inl EAGAIN, tsd_runtime_safety_write_leave p)
           | (True, p) \<Rightarrow>
               (case tsd_trampoline_patch_impl sha256 new_width p of
                  (rc, p) \<Rightarrow> (rc, tsd_runtime_safety_write_leave p))))"

section \<open>Self-validation and attestation\<close>

text \<open>The reason of a failure, \<^term>\<open>None\<close> for success.\<close>

definition tsd_trampoline_self_validate :: "'a tproc_scheme \<Rightarrow> string option \<times> 'a tproc_scheme" where
  "tsd_trampoline_self_validate p =
     (let (r, rest) = next_of None (patch_lock_rcs p); p = p\<lparr>patch_lock_rcs := rest\<rparr>
      in if r \<noteq> None then (Some ''patch lock unavailable'', p)
         else if \<not> trampoline_initialized (tstate p) then (Some ''trampoline not initialised'', p)
         else let width = tsd_trampoline_state_current_width (tstate p);
                  active = tsd_trampoline_state_active (tstate p)
         in (case canonical_patch width of
             None \<Rightarrow> (Some ''active trampoline unavailable'', p)
           | Some expected \<Rightarrow>
               if active = 0 then (Some ''active trampoline unavailable'', p)
               else if slot_code active p \<noteq> expected then (Some ''active slot checksum mismatch'', p)
               else if \<not> has_enbr64_prefix (slot_code active p) then (Some ''active slot missing ENDBR64'', p)
               else (case mapping_is_rx_not_writable active p of
                   (False, p) \<Rightarrow> (Some ''active trampoline is not RX-only'', p)
                 | (True, p) \<Rightarrow>
                     if page_a_effective_writable (tstate p) \<or> page_b_effective_writable (tstate p)
                     then (Some ''trampoline page writable'', p)
                     else (None, p))))"

text \<open>The two locks a reader of the hash takes, and the validity check behind them.\<close>

definition locked_hash :: "'a tproc_scheme \<Rightarrow> (errno + u8 list) \<times> 'a tproc_scheme" where
  "locked_hash p =
     (let (r, rest) = next_of None (patch_lock_rcs p); p = p\<lparr>patch_lock_rcs := rest\<rparr>
      in (case r of
          Some e \<Rightarrow> (Inl e, p)
        | None \<Rightarrow>
            let (r, rest) = next_of None (attestation_lock_rcs p); p = p\<lparr>attestation_lock_rcs := rest\<rparr>
            in (case r of
                Some e \<Rightarrow> (Inl e, p)
              | None \<Rightarrow>
                  if \<not> active_hash_valid p
                  then (Inl ENODATA, p\<lparr>attestation_last_error := ''hash unavailable''\<rparr>)
                  else (Inr (active_hash p), p))))"

definition tsd_attestation_get_active_hash :: "nat option \<Rightarrow> 'a tproc_scheme \<Rightarrow> (errno + u8 list) \<times> 'a tproc_scheme" where
  "tsd_attestation_get_active_hash buffer_len p =
     (case buffer_len of
        None \<Rightarrow> (Inl EINVAL, p\<lparr>attestation_last_error := ''buffer too small''\<rparr>)
      | Some len \<Rightarrow>
          if len < TSD_ATTESTATION_HASH_SIZE
          then (Inl EINVAL, p\<lparr>attestation_last_error := ''buffer too small''\<rparr>)
          else (case locked_hash p of
              (Inl e, p) \<Rightarrow> (Inl e, p)
            | (Inr h, p) \<Rightarrow> (Inr (take TSD_ATTESTATION_HASH_SIZE h), p)))"

definition hex_digit :: "nat \<Rightarrow> char" where
  "hex_digit n = (if n < 10 then char_of (48 + n) else char_of (87 + n))"

definition hex_string :: "u8 list \<Rightarrow> string" where
  "hex_string bs = concat (map (\<lambda>b. [hex_digit (unat b div 16), hex_digit (unat b mod 16)]) bs)"

definition tsd_attestation_get_active_hash_hex :: "nat option \<Rightarrow> 'a tproc_scheme \<Rightarrow> (errno + string) \<times> 'a tproc_scheme" where
  "tsd_attestation_get_active_hash_hex buffer_len p =
     (case buffer_len of
        None \<Rightarrow> (Inl EINVAL, p\<lparr>attestation_last_error := ''hex buffer too small''\<rparr>)
      | Some len \<Rightarrow>
          if len < TSD_ATTESTATION_HASH_SIZE * 2 + 1
          then (Inl EINVAL, p\<lparr>attestation_last_error := ''hex buffer too small''\<rparr>)
          else (case locked_hash p of
              (Inl e, p) \<Rightarrow> (Inl e, p)
            | (Inr h, p) \<Rightarrow> (Inr (hex_string h), p)))"

text \<open>The mismatch message fits its buffer: 30 + 64 + 8 + 64 characters of 191.\<close>

definition tsd_attestation_expect_active_hash :: "u8 list option \<Rightarrow> 'a tproc_scheme \<Rightarrow> rc \<times> 'a tproc_scheme" where
  "tsd_attestation_expect_active_hash expected p =
     (case expected of
        None \<Rightarrow> (Inl EINVAL, p\<lparr>attestation_last_error := ''expected hash invalid''\<rparr>)
      | Some ex \<Rightarrow>
          if length ex < TSD_ATTESTATION_HASH_SIZE
          then (Inl EINVAL, p\<lparr>attestation_last_error := ''expected hash invalid''\<rparr>)
          else (case locked_hash p of
              (Inl e, p) \<Rightarrow> (Inl e, p)
            | (Inr h, p) \<Rightarrow>
                if take TSD_ATTESTATION_HASH_SIZE ex \<noteq> take TSD_ATTESTATION_HASH_SIZE h
                then (Inl EKEYREJECTED, p\<lparr>attestation_last_error :=
                       ''attestation mismatch expected='' @ hex_string (take TSD_ATTESTATION_HASH_SIZE ex) @
                       '' actual='' @ hex_string h\<rparr>)
                else (ok, p\<lparr>attestation_last_error := []\<rparr>)))"

section \<open>What the guard sees\<close>

text \<open>The trampoline writes only its own variables: the process underneath is the same.\<close>

lemma truncate_upd [simp, tsd_frame]:
  "proc.truncate (p\<lparr>tstate := a1\<rparr>) = proc.truncate p" "proc.truncate (p\<lparr>ctx_active := a2\<rparr>) = proc.truncate p"
  "proc.truncate (p\<lparr>ctx_inactive := a2\<rparr>) = proc.truncate p" "proc.truncate (p\<lparr>page_a := a2\<rparr>) = proc.truncate p"
  "proc.truncate (p\<lparr>page_b := a2\<rparr>) = proc.truncate p" "proc.truncate (p\<lparr>page_size := n\<rparr>) = proc.truncate p"
  "proc.truncate (p\<lparr>page_a_prot := i\<rparr>) = proc.truncate p" "proc.truncate (p\<lparr>page_b_prot := i\<rparr>) = proc.truncate p"
  "proc.truncate (p\<lparr>has_pku := b\<rparr>) = proc.truncate p" "proc.truncate (p\<lparr>pkey := i\<rparr>) = proc.truncate p"
  "proc.truncate (p\<lparr>pkru_write_mask := w\<rparr>) = proc.truncate p" "proc.truncate (p\<lparr>pkru_disable_mask := w\<rparr>) = proc.truncate p"
  "proc.truncate (p\<lparr>slots := ss\<rparr>) = proc.truncate p" "proc.truncate (p\<lparr>active_hash := h\<rparr>) = proc.truncate p"
  "proc.truncate (p\<lparr>active_hash_valid := b\<rparr>) = proc.truncate p"
  "proc.truncate (p\<lparr>attestation_last_error := s\<rparr>) = proc.truncate p"
  "proc.truncate (p\<lparr>avx_available := b\<rparr>) = proc.truncate p" "proc.truncate (p\<lparr>metrics := m\<rparr>) = proc.truncate p"
  "proc.truncate (p\<lparr>vm := v\<rparr>) = proc.truncate p" "proc.truncate (p\<lparr>patch_lock_rcs := l\<rparr>) = proc.truncate p"
  "proc.truncate (p\<lparr>attestation_lock_rcs := l\<rparr>) = proc.truncate p"
  "proc.truncate (p\<lparr>mmap_results := mm\<rparr>) = proc.truncate p" "proc.truncate (p\<lparr>mprotect_rcs := l\<rparr>) = proc.truncate p"
  "proc.truncate (p\<lparr>maps_readable := bs\<rparr>) = proc.truncate p"
  by (simp_all add: proc.truncate_def)

lemma guard_reads_truncate:
  "wide_conditions (proc.truncate p) = wide_conditions p"
  "tsd_runtime_config_active_snapshot (proc.truncate p) = tsd_runtime_config_active_snapshot p"
  "wide_admission_open (proc.truncate p) = wide_admission_open p"
  by (simp_all add: proc.truncate_def wide_condition_defs safety_limits_def safety_config_snapshot_def
    tsd_runtime_config_active_snapshot_def)

lemma same_truncate:
  assumes "proc.truncate q = proc.truncate p"
  shows "wide_conditions q = wide_conditions p"
    "tsd_runtime_config_active_snapshot q = tsd_runtime_config_active_snapshot p"
    "wide_admission_open q = wide_admission_open p"
  using assms guard_reads_truncate [of p] guard_reads_truncate [of q] by auto

definition area_rx :: "u64 \<Rightarrow> vm_area list \<Rightarrow> bool" where
  "area_rx a v = (case find (in_area a) v of None \<Rightarrow> False
     | Some m \<Rightarrow> vm_read m \<and> \<not> vm_write m \<and> vm_exec m)"

lemma mapping_check_pair:
  "mapping_is_rx_not_writable a p =
    (a \<noteq> 0 \<and> fst (next_of True (maps_readable p)) \<and> area_rx a (vm p),
     if a = 0 then p else p\<lparr>maps_readable := snd (next_of True (maps_readable p))\<rparr>)"
  by (auto simp: mapping_is_rx_not_writable_def area_rx_def Let_def split: prod.splits option.splits)

lemma step_frames [simp, tsd_frame]:
  "proc.truncate (write_slot a c p) = proc.truncate p"
  "proc.truncate (protect_rx page p) = proc.truncate p"
  "proc.truncate (discard_code_page page p) = proc.truncate p"
  "proc.truncate (fresh_code_page page n p) = proc.truncate p"
  "proc.truncate (snd (mapping_is_rx_not_writable a p)) = proc.truncate p"
  by (simp_all add: write_slot_def protect_rx_def discard_code_page_def fresh_code_page_def mapping_check_pair)

text \<open>The payloads: all three exist, have the size of a slot and start with ENDBR64.\<close>

definition payload :: "nat \<Rightarrow> u8 list" where
  "payload i = [kPatchSse41, kPatchAvx2, kPatchAvx512] ! i"

lemma payload_ok:
  assumes "i < kWidthCount"
  shows "canonical_patch (width_of_nat i) = Some (payload i)" "has_enbr64_prefix (payload i)"
    "length (payload i) = TSD_TRAMPOLINE_SLOT_SIZE"
proof -
  have "i = 0 \<or> i = 1 \<or> i = 2" using assms by auto
  then show "canonical_patch (width_of_nat i) = Some (payload i)" "has_enbr64_prefix (payload i)"
    "length (payload i) = TSD_TRAMPOLINE_SLOT_SIZE"
    by (auto simp: canonical_patch_def width_of_nat_def payload_def has_enbr64_prefix_def kEnbr64_def
      kPatchSse41_def kPatchAvx2_def kPatchAvx512_def)
qed

definition slot_addr :: "u64 \<Rightarrow> nat \<Rightarrow> u64" where
  "slot_addr page i = page + of_nat (slot_stride * i)"

lemma install_slot_eq:
  "i < kWidthCount \<Longrightarrow> install_slot page i p =
     Some (write_slot (slot_addr page i) (payload i) (p\<lparr>slots := (slots p)[i := slot_addr page i]\<rparr>))"
  by (simp add: install_slot_def payload_ok slot_addr_def Let_def)

section \<open>The code page\<close>

text \<open>What the development relies on of \<^verbatim>\<open>mmap\<close>: a page lies in the address space and is aligned.\<close>

definition page_sane :: "u64 \<Rightarrow> nat \<Rightarrow> bool" where
  "page_sane a n = (a \<noteq> 0 \<and> unat a mod slot_stride = 0 \<and> unat a + n \<le> 2 ^ 64)"

definition mmap_sane :: "'a tproc_scheme \<Rightarrow> bool" where
  "mmap_sane p = (\<forall>a n. Inr a \<in> set (mmap_results p) \<and> sysconf_pagesize p = Inr n \<longrightarrow> page_sane a n)"

definition sealed_area :: "u64 \<Rightarrow> nat \<Rightarrow> vm_area" where
  "sealed_area page n = \<lparr>vm_start = page, vm_size = n, vm_read = True, vm_write = False, vm_exec = True,
     vm_slots = (replicate (n div slot_stride) [])[0 := payload 0, 1 := payload 1, 2 := payload 2]\<rparr>"

lemma unat_slot_addr:
  assumes "page_sane page n" "kWidthCount * slot_stride \<le> n" "i < kWidthCount"
  shows "unat (slot_addr page i) = unat page + slot_stride * i"
proof -
  have "unat (of_nat (slot_stride * i) :: u64) = slot_stride * i" using assms(3) by (intro unat_of_nat_lt) simp
  then show ?thesis using assms unfolding slot_addr_def page_sane_def
    by (subst unat_plus_simple_le) auto
qed

lemma and3_iff: "x AND 3 = 0 \<longleftrightarrow> unat x mod 4 = 0" for x :: u64
proof -
  have "x AND 3 = take_bit 2 x" by (simp add: take_bit_eq_mask mask_eq_exp_minus_1)
  then have "unat (x AND 3) = unat x mod 4" by (simp add: take_bit_eq_mod unat_mod)
  then show ?thesis by (metis unat_eq_zero)
qed

lemma slot_addr_aligned:
  assumes "page_sane page n" "kWidthCount * slot_stride \<le> n" "i < kWidthCount"
  shows "slot_addr page i \<noteq> 0" "slot_addr page i AND 3 = 0"
proof -
  have u: "unat (slot_addr page i) = unat page + slot_stride * i" using assms by (rule unat_slot_addr)
  have "unat page \<noteq> 0" using assms(1) by (simp add: page_sane_def unat_eq_zero)
  then show "slot_addr page i \<noteq> 0" using u by (metis add_is_0 unat_0)
  have "unat page mod 64 = 0" using assms(1) by (simp add: page_sane_def)
  then have "(unat page + slot_stride * i) mod 4 = 0" by presburger
  then show "slot_addr page i AND 3 = 0" by (simp add: and3_iff u)
qed

lemma write_slot_single:
  assumes "vm p = [m]" "vm_write m" "vm_start m = page" "vm_size m = n" "page_sane page n"
    "kWidthCount * slot_stride \<le> n" "i < kWidthCount"
  shows "write_slot (slot_addr page i) c p = p\<lparr>vm := [m\<lparr>vm_slots := (vm_slots m)[i := c]\<rparr>]\<rparr>"
proof -
  have u: "unat (slot_addr page i) = unat page + slot_stride * i" using assms(5-7) by (rule unat_slot_addr)
  then have "in_area (slot_addr page i) m" using assms by (auto simp: in_area_def)
  then show ?thesis using assms(1-3) u by (simp add: write_slot_def)
qed

lemma upto3: "[0..<kWidthCount] = [0, 1, 2]"
  by (simp add: upt_rec)

lemma install_all:
  assumes "vm p = [m]" "vm_write m" "vm_start m = page" "vm_size m = n" "page_sane page n"
    "kWidthCount * slot_stride \<le> n" "length (slots p) = kWidthCount"
  shows "install_slots page [0..<kWidthCount] p = Some (p\<lparr>slots := map (slot_addr page) [0..<kWidthCount],
    vm := [m\<lparr>vm_slots := (vm_slots m)[0 := payload 0, 1 := payload 1, 2 := payload 2]\<rparr>]\<rparr>)"
proof -
  note ws = write_slot_single [where page = page and n = n]
  obtain a b c where "slots p = [a, b, c]" using assms(7) by (auto simp: length_Suc_conv numeral_3_eq_3)
  then show ?thesis using assms unfolding upto3
    by (simp add: install_slot_eq ws)
qed

lemma find_sealed:
  assumes "page_sane page n" "kWidthCount * slot_stride \<le> n" "i < kWidthCount"
  shows "find (in_area (slot_addr page i)) [sealed_area page n] = Some (sealed_area page n)"
  using assms unat_slot_addr [OF assms] by (auto simp: in_area_def sealed_area_def)

lemma sealed_rx:
  assumes "page_sane page n" "kWidthCount * slot_stride \<le> n" "i < kWidthCount"
  shows "area_rx (slot_addr page i) [sealed_area page n]"
  unfolding area_rx_def find_sealed [OF assms] by (simp add: sealed_area_def)

lemma sealed_code:
  assumes "page_sane page n" "kWidthCount * slot_stride \<le> n" "i < kWidthCount" "vm p = [sealed_area page n]"
  shows "slot_code (slot_addr page i) p = payload i"
proof -
  have "n div slot_stride \<ge> kWidthCount" using assms(2) by simp
  then have "i < length (vm_slots (sealed_area page n))" "vm_slots (sealed_area page n) ! i = payload i"
    using assms(3) by (auto simp: sealed_area_def nth_list_update numeral_3_eq_3 less_Suc_eq)
  then show ?thesis unfolding slot_code_def assms(4) find_sealed [OF assms(1-3)]
    using unat_slot_addr [OF assms(1-3)] by (simp add: Let_def) (simp add: sealed_area_def)
qed

section \<open>Invariant\<close>

text \<open>
  Either there is no code page, or there is exactly one: sealed, aligned, holding the three
  payloads at the slot addresses.
\<close>

definition code_page_ok :: "u64 \<Rightarrow> nat \<Rightarrow> vm_area list \<Rightarrow> u64 list \<Rightarrow> bool \<Rightarrow> bool" where
  "code_page_ok page n v ss writable = (if page = 0 then v = [] \<and> ss = [0, 0, 0]
     else page_sane page n \<and> kWidthCount * slot_stride \<le> n \<and>
       v = [sealed_area page n] \<and> ss = map (slot_addr page) [0..<kWidthCount] \<and> \<not> writable)"

definition code_page_inv :: "'a tproc_scheme \<Rightarrow> bool" where
  "code_page_inv p = code_page_ok (page_a p) (page_size p) (vm p) (slots p)
     (page_a_effective_writable (tstate p) \<or> page_b_effective_writable (tstate p))"

lemma code_page_cases:
  "page_a p = 0 \<Longrightarrow> code_page_inv p \<longleftrightarrow> vm p = [] \<and> slots p = [0, 0, 0]"
  "page_a p \<noteq> 0 \<Longrightarrow> code_page_inv p \<longleftrightarrow> page_sane (page_a p) (page_size p) \<and> kWidthCount * slot_stride \<le> page_size p \<and>
       vm p = [sealed_area (page_a p) (page_size p)] \<and> slots p = map (slot_addr (page_a p)) [0..<kWidthCount] \<and>
       \<not> page_a_effective_writable (tstate p) \<and> \<not> page_b_effective_writable (tstate p)"
  by (simp_all add: code_page_inv_def code_page_ok_def)

text \<open>A published selection names a slot of the page, and the attested hash is the one of its payload.\<close>

fun selection_ok :: "(u8 list \<Rightarrow> u8 list option) \<Rightarrow> u64 \<Rightarrow> bool \<Rightarrow> u8 list \<Rightarrow> rc \<times> simd_width_t \<times> u64 \<Rightarrow> bool" where
  "selection_ok sha256 page valid h (Inl _, _) = (\<not> valid)"
| "selection_ok sha256 page valid h (Inr _, w, a) = (page \<noteq> 0 \<and> width_valid w \<and> a = slot_addr page (width_rank w) \<and>
     (valid \<longrightarrow> sha256 (payload (width_rank w)) = Some h))"

definition selection_inv :: "(u8 list \<Rightarrow> u8 list option) \<Rightarrow> 'a tproc_scheme \<Rightarrow> bool" where
  "selection_inv sha256 p = selection_ok sha256 (page_a p) (active_hash_valid p) (active_hash p)
     (tsd_trampoline_state_snapshot (tstate p))"

definition tramp_inv :: "(u8 list \<Rightarrow> u8 list option) \<Rightarrow> 'a tproc_scheme \<Rightarrow> bool" where
  "tramp_inv sha256 p = (code_page_inv p \<and> selection_inv sha256 p \<and> mmap_sane p)"

text \<open>What building the page leaves alone.\<close>

definition build_same :: "'a tproc_scheme \<Rightarrow> 'a tproc_scheme \<Rightarrow> bool" where
  "build_same p q = (proc.truncate q = proc.truncate p \<and>
     selection_word (tstate q) = selection_word (tstate p) \<and> current_width (tstate q) = current_width (tstate p) \<and>
     active_trampoline (tstate q) = active_trampoline (tstate p) \<and>
     trampoline_initialized (tstate q) = trampoline_initialized (tstate p) \<and>
     last_patch_attempt (tstate q) = last_patch_attempt (tstate p) \<and>
     active_hash q = active_hash p \<and> active_hash_valid q = active_hash_valid p \<and>
     host q = host p \<and> metrics q = metrics p \<and> sysconf_pagesize q = sysconf_pagesize p)"

lemmas page_flag_defs = tsd_trampoline_state_set_page_a_writable_def tsd_trampoline_state_set_page_b_writable_def

lemma build_same_refl [simp]: "build_same p p"
  by (simp add: build_same_def)

lemma build_same_trans: "build_same p q \<Longrightarrow> build_same q r \<Longrightarrow> build_same p r"
  by (simp add: build_same_def)

lemma discard_empty:
  assumes "vm p = [m]" "vm_start m = page"
  shows "code_page_inv (discard_code_page page p)" "build_same p (discard_code_page page p)"
    "mmap_results (discard_code_page page p) = mmap_results p"
  using assms by (simp_all add: code_page_cases build_same_def discard_code_page_def page_flag_defs)

lemma seal_result:
  assumes "vm p = [m]" "vm_start m = page" "vm_size m = n" "page_sane page n" "kWidthCount * slot_stride \<le> n"
    "vm_slots m = (replicate (n div slot_stride) [])[0 := payload 0, 1 := payload 1, 2 := payload 2]"
    "page_a p = page" "page_size p = n" "slots p = map (slot_addr page) [0..<kWidthCount]"
    "\<not> page_b_effective_writable (tstate p)" "seal_code_page page p = (r, q)"
  shows "code_page_inv q \<and> build_same p q \<and> mmap_results q = mmap_results p \<and> (r = ok \<longrightarrow> page_a q \<noteq> 0)"
proof -
  obtain e rest where e: "next_of None (mprotect_rcs p) = (e, rest)" by fastforce
  let ?p = "p\<lparr>mprotect_rcs := rest\<rparr>"
  have p0: "build_same p ?p" "vm ?p = [m]" "mmap_results ?p = mmap_results p"
    using assms(1) by (simp_all add: build_same_def)
  note dis = discard_empty [OF p0(2) assms(2)]
  show ?thesis
  proof (cases e)
    case (Some err)
    then have "q = discard_code_page page ?p" "r = Inl err"
      using assms(11) e by (simp_all add: seal_code_page_def Let_def)
    then show ?thesis using dis p0 build_same_trans [OF p0(1) dis(2)] by simp
  next
    case None
    define s where "s = (protect_rx page ?p)\<lparr>page_a_prot := PROT_RX,
      tstate := tsd_trampoline_state_set_page_a_writable False (tstate ?p)\<rparr>"
    have m: "m\<lparr>vm_read := True, vm_write := False, vm_exec := True\<rparr> = sealed_area page n"
      using assms(2,3,6) by (simp add: sealed_area_def)
    have s: "vm s = [sealed_area page n]" "build_same p s" "mmap_results s = mmap_results p"
      using assms(1,2) m by (simp_all add: s_def protect_rx_def build_same_def page_flag_defs)
    have inv: "code_page_inv (s\<lparr>maps_readable := l\<rparr>)" for l
      using assms(4,5,7-10) s(1) by (subst code_page_cases(2)) (simp_all add: s_def protect_rx_def page_flag_defs page_sane_def)
    define b where "b = fst (next_of True (maps_readable s))"
    define s' where "s' = s\<lparr>maps_readable := snd (next_of True (maps_readable s))\<rparr>"
    have nz: "page \<noteq> 0" using assms(4) by (simp add: page_sane_def)
    have rx: "area_rx page [sealed_area page n]" using sealed_rx [OF assms(4,5), of 0] by (simp add: slot_addr_def)
    have "mapping_is_rx_not_writable page s = (b, s')"
      using nz rx s(1) by (simp add: mapping_check_pair b_def s'_def)
    then have rq: "(r, q) = (if b then (ok, s') else (Inl EPERM, discard_code_page page s'))"
      using assms(11) e None by (simp add: seal_code_page_def Let_def s_def split: bool.splits)
    have s': "vm s' = [sealed_area page n]" "build_same p s'" "mmap_results s' = mmap_results p" "code_page_inv s'"
      "page_a s' = page"
      using s inv assms(7) by (simp_all add: s'_def build_same_def) (simp add: s_def protect_rx_def)
    have "vm_start (sealed_area page n) = page" by (simp add: sealed_area_def)
    note dis' = discard_empty [OF s'(1) this]
    show ?thesis using rq s' dis' build_same_trans [OF s'(2) dis'(2)] nz by (cases b) auto
  qed
qed

lemma build_result:
  assumes "code_page_inv p" "page_a p = 0" "mmap_sane p" "build_canonical_code_page p = (r, q)"
  shows "code_page_inv q \<and> build_same p q \<and> mmap_sane q \<and> (r = ok \<longrightarrow> page_a q \<noteq> 0)"
proof (cases "\<exists>n page rest. sysconf_pagesize p = Inr n \<and> n \<noteq> 0 \<and> kWidthCount * slot_stride \<le> n \<and>
    next_of (Inl ENOMEM) (mmap_results p) = (Inr page, rest)")
  case True
  then obtain n page rest where n: "sysconf_pagesize p = Inr n" "n \<noteq> 0" "kWidthCount * slot_stride \<le> n"
    and mm: "next_of (Inl ENOMEM) (mmap_results p) = (Inr page, rest)" by blast
  from mm have rest: "mmap_results p = Inr page # rest" by (cases "mmap_results p") auto
  then have sane: "page_sane page n" and ms: "mmap_sane (p\<lparr>mmap_results := rest\<rparr>)"
    using assms(3) n(1) by (auto simp: mmap_sane_def)
  define f where "f = fresh_code_page page n (p\<lparr>mmap_results := rest\<rparr>)"
  define m where "m = \<lparr>vm_start = page, vm_size = n, vm_read = True, vm_write = True, vm_exec = False,
    vm_slots = replicate (n div slot_stride) []\<rparr>"
  define g where "g = f\<lparr>slots := map (slot_addr page) [0..<kWidthCount],
    vm := [m\<lparr>vm_slots := (vm_slots m)[0 := payload 0, 1 := payload 1, 2 := payload 2]\<rparr>]\<rparr>"
  have f: "vm f = [m]" "length (slots f) = kWidthCount" "build_same p f"
    using assms(1,2) by (simp_all add: f_def m_def fresh_code_page_def code_page_cases build_same_def page_flag_defs)
  have "install_slots page [0..<kWidthCount] f = Some g"
    unfolding g_def using f(1,2) sane n(3) by (intro install_all) (simp_all add: m_def)
  then have sq: "seal_code_page page g = (r, q)"
    using assms(4) n mm by (simp add: build_canonical_code_page_def f_def Let_def)
  have g: "page_a g = page" "page_size g = n" "\<not> page_b_effective_writable (tstate g)" "mmap_results g = rest"
    by (simp_all add: g_def f_def fresh_code_page_def page_flag_defs)
  have "code_page_inv q \<and> build_same g q \<and> mmap_results q = mmap_results g \<and> (r = ok \<longrightarrow> page_a q \<noteq> 0)"
    by (rule seal_result [where m = "m\<lparr>vm_slots := (vm_slots m)[0 := payload 0, 1 := payload 1, 2 := payload 2]\<rparr>"
        and n = n, OF _ _ _ sane n(3) _ g(1,2) _ g(3) sq]) (simp_all add: g_def m_def)
  moreover have "build_same f g" by (simp add: g_def build_same_def)
  ultimately have "code_page_inv q" "build_same p q" "mmap_results q = rest" "r = ok \<longrightarrow> page_a q \<noteq> 0"
    using build_same_trans [OF build_same_trans [OF f(3)]] g(4) by auto
  moreover from this(2,3) have "mmap_sane q" using ms by (simp add: mmap_sane_def build_same_def)
  ultimately show ?thesis by simp
next
  case False
  obtain x rest where x: "next_of (Inl ENOMEM) (mmap_results p) = (x, rest)" by fastforce
  consider (size) e where "sysconf_pagesize p = Inl e" | (small) n where "sysconf_pagesize p = Inr n" "n < kWidthCount * slot_stride"
    | (mmap) n e where "sysconf_pagesize p = Inr n" "kWidthCount * slot_stride \<le> n" "x = Inl e"
  proof (cases "sysconf_pagesize p")
    case (Inr n)
    then show ?thesis using that(2,3) False x by (cases x; cases "n < kWidthCount * slot_stride") auto
  qed (rule that(1))
  then have q: "q \<in> {p, p\<lparr>mmap_results := rest\<rparr>} \<and> r \<noteq> ok"
  proof cases
    case size
    then show ?thesis using assms(4) by (auto simp: build_canonical_code_page_def)
  next
    case small
    then have "build_canonical_code_page p = (Inl (if n = 0 then EINVAL else E2BIG), p)"
      by (simp add: build_canonical_code_page_def)
    then show ?thesis using assms(4) by auto
  next
    case mmap
    then have "build_canonical_code_page p = (Inl e, p\<lparr>mmap_results := rest\<rparr>)"
      using x by (simp add: build_canonical_code_page_def Let_def)
    then show ?thesis using assms(4) by auto
  qed
  have "set rest \<subseteq> set (mmap_results p)" using next_of_rest [of "Inl ENOMEM" "mmap_results p"] x by simp
  then have "mmap_sane (p\<lparr>mmap_results := rest\<rparr>)" using assms(3) unfolding mmap_sane_def by auto
  then show ?thesis using q assms(1-3) by (auto simp: code_page_cases build_same_def)
qed

text \<open>The guard of both callers: build the page unless it is there.\<close>

lemma ensure_page:
  assumes "code_page_inv p" "mmap_sane p"
    "(if page_a p = 0 then build_canonical_code_page p else (ok, p)) = (r, q)"
  shows "code_page_inv q \<and> build_same p q \<and> mmap_sane q \<and> (r = ok \<longrightarrow> page_a q \<noteq> 0) \<and> (page_a p \<noteq> 0 \<longrightarrow> q = p)"
  using assms build_result [of p r q] by (auto split: if_splits)

lemma page_slots:
  assumes "code_page_inv p" "page_a p \<noteq> 0" "width_valid w"
  shows "slots p ! width_rank w = slot_addr (page_a p) (width_rank w)" "width_rank w < kWidthCount"
    "slot_addr (page_a p) (width_rank w) \<noteq> 0" "slot_addr (page_a p) (width_rank w) AND 3 = 0"
    "slot_code (slot_addr (page_a p) (width_rank w)) p = payload (width_rank w)"
    "area_rx (slot_addr (page_a p) (width_rank w)) (vm p)"
proof -
  show r: "width_rank w < kWidthCount" using assms(3) by (cases w) auto
  have i: "page_sane (page_a p) (page_size p)" "kWidthCount * slot_stride \<le> page_size p"
    "vm p = [sealed_area (page_a p) (page_size p)]" "slots p = map (slot_addr (page_a p)) [0..<kWidthCount]"
    using assms(1,2) by (simp_all add: code_page_cases)
  show "slots p ! width_rank w = slot_addr (page_a p) (width_rank w)" using i(4) r by simp
  show "slot_addr (page_a p) (width_rank w) \<noteq> 0" "slot_addr (page_a p) (width_rank w) AND 3 = 0"
    using slot_addr_aligned [OF i(1,2) r] by simp_all
  show "slot_code (slot_addr (page_a p) (width_rank w)) p = payload (width_rank w)"
    using i(1,2) r i(3) by (rule sealed_code)
  show "area_rx (slot_addr (page_a p) (width_rank w)) (vm p)"
    unfolding i(3) using i(1,2) r by (rule sealed_rx)
qed

section \<open>Selection\<close>

lemma rank_valid: "width_valid w \<Longrightarrow> width_rank w < kWidthCount"
  by (cases w) simp_all

lemma tramp_inv_frame [simp, tsd_frame]:
  "code_page_inv (p\<lparr>attestation_lock_rcs := l\<rparr>) = code_page_inv p"
  "selection_inv sha256 (p\<lparr>attestation_lock_rcs := l\<rparr>) = selection_inv sha256 p"
  "code_page_inv (p\<lparr>patch_lock_rcs := l\<rparr>) = code_page_inv p"
  "selection_inv sha256 (p\<lparr>patch_lock_rcs := l\<rparr>) = selection_inv sha256 p"
  "mmap_sane (p\<lparr>patch_lock_rcs := l\<rparr>) = mmap_sane p"
  "code_page_inv (p\<lparr>maps_readable := bs\<rparr>) = code_page_inv p"
  "selection_inv sha256 (p\<lparr>maps_readable := bs\<rparr>) = selection_inv sha256 p"
  "code_page_inv (p\<lparr>metrics := m\<rparr>) = code_page_inv p"
  "selection_inv sha256 (p\<lparr>metrics := m\<rparr>) = selection_inv sha256 p"
  "mmap_sane (p\<lparr>metrics := m\<rparr>) = mmap_sane p"
  "code_page_inv (p\<lparr>avx_available := b\<rparr>) = code_page_inv p"
  "selection_inv sha256 (p\<lparr>avx_available := b\<rparr>) = selection_inv sha256 p"
  "mmap_sane (p\<lparr>avx_available := b\<rparr>) = mmap_sane p"
  by (simp_all add: code_page_inv_def selection_inv_def mmap_sane_def)

lemma commit_result:
  assumes "code_page_inv p" "page_a p \<noteq> 0" "width_valid w" "selection_inv sha256 p"
    "commit_selection_and_attestation sha256 w (slot_addr (page_a p) (width_rank w)) p = (r, q)"
  shows "code_page_inv q \<and> selection_inv sha256 q \<and> proc.truncate q = proc.truncate p \<and>
    mmap_results q = mmap_results p \<and> sysconf_pagesize q = sysconf_pagesize p \<and> host q = host p \<and>
    (if r = ok then page_a q = page_a p \<and> active_hash_valid q \<and> trampoline_initialized (tstate q) \<and>
       tsd_trampoline_state_snapshot (tstate q) = (ok, w, slot_addr (page_a p) (width_rank w))
     else tstate q = tstate p \<and> active_hash q = active_hash p \<and> active_hash_valid q = active_hash_valid p)"
proof -
  let ?a = "slot_addr (page_a p) (width_rank w)"
  note s = page_slots [OF assms(1-3)]
  have snap: "tsd_trampoline_state_snapshot (tsd_trampoline_state_publish_selection w ?a t) = (ok, w, ?a)" for t
    using s(3,4) assms(3) by (rule snapshot_after_publish)
  have init: "trampoline_initialized (tsd_trampoline_state_publish_selection w ?a t)" for t
    using snapshot_of_word(1) [OF s(3,4) assms(3)] by (simp add: tsd_trampoline_state_publish_selection_def Let_def)
  have flags: "page_a_effective_writable (tsd_trampoline_state_publish_selection w ?a t) = page_a_effective_writable t"
    "page_b_effective_writable (tsd_trampoline_state_publish_selection w ?a t) = page_b_effective_writable t" for t
    by (simp_all add: tsd_trampoline_state_publish_selection_def Let_def)
  obtain e rest where e: "next_of None (attestation_lock_rcs p) = (e, rest)" by fastforce
  show ?thesis
  proof (cases "sha256 (payload (width_rank w))")
    case None
    then show ?thesis using assms s by (auto simp: commit_selection_and_attestation_def)
  next
    case (Some h)
    show ?thesis
    proof (cases e)
      case None
      then have rq: "r = ok" "q = p\<lparr>attestation_lock_rcs := rest, ctx_active := ?a,
        ctx_inactive := tsd_trampoline_state_active (tstate p),
        tstate := tsd_trampoline_state_publish_selection w ?a (tstate p),
        active_hash := h, active_hash_valid := True\<rparr>"
        using assms(5) s(3,5) e Some by (simp_all add: commit_selection_and_attestation_def Let_def)
      then show ?thesis using assms(1-3) Some
        by (simp add: snap flags init selection_inv_def code_page_inv_def)
    next
      case (Some err)
      then have "r = Inl err" "q = p\<lparr>attestation_lock_rcs := rest\<rparr>"
        using assms(5) s(3,5) e \<open>sha256 (payload (width_rank w)) = Some h\<close>
        by (simp_all add: commit_selection_and_attestation_def Let_def)
      then show ?thesis using assms(1,4) by simp
    qed
  qed
qed

lemma selection_inv_same:
  assumes "selection_inv sha256 p" "build_same p q" "page_a p \<noteq> 0 \<longrightarrow> page_a q = page_a p"
  shows "selection_inv sha256 q"
proof -
  have "tsd_trampoline_state_snapshot (tstate q) = tsd_trampoline_state_snapshot (tstate p)"
    using assms(2) by (intro snapshot_cong) (simp add: build_same_def)
  then show ?thesis using assms
    by (cases "tsd_trampoline_state_snapshot (tstate p)"; cases "fst (tsd_trampoline_state_snapshot (tstate p))")
      (auto simp: selection_inv_def build_same_def)
qed

text \<open>The outcome of a selection: the new slot with its hash, or everything as it was.\<close>

definition selected :: "simd_width_t \<Rightarrow> 'a tproc_scheme \<Rightarrow> bool" where
  "selected w q = (width_valid w \<and> page_a q \<noteq> 0 \<and> active_hash_valid q \<and> trampoline_initialized (tstate q) \<and>
     tsd_trampoline_state_snapshot (tstate q) = (ok, w, slot_addr (page_a q) (width_rank w)))"

definition selection_same :: "'a tproc_scheme \<Rightarrow> 'a tproc_scheme \<Rightarrow> bool" where
  "selection_same p q = (tsd_trampoline_state_snapshot (tstate q) = tsd_trampoline_state_snapshot (tstate p) \<and>
     active_hash q = active_hash p \<and> active_hash_valid q = active_hash_valid p)"

definition select_outcome ::
    "(u8 list \<Rightarrow> u8 list option) \<Rightarrow> simd_width_t \<Rightarrow> 'a tproc_scheme \<Rightarrow> rc \<Rightarrow> 'a tproc_scheme \<Rightarrow> bool" where
  "select_outcome sha256 w p r q = (tramp_inv sha256 q \<and> proc.truncate q = proc.truncate p \<and> host q = host p \<and>
     (if r = ok
      then selected w q \<and> w \<le> tsd_detect_max_simd (host p) (Some (tsd_runtime_config_active_snapshot p))
      else selection_same p q))"

lemma build_same_selection: "build_same p q \<Longrightarrow> selection_same p q"
  by (auto simp: build_same_def selection_same_def intro: snapshot_cong)

lemma select_target_result:
  assumes "tramp_inv sha256 p" "select_target sha256 w p = (r, q)"
  shows "select_outcome sha256 w p r q"
proof (cases "width_valid w \<and> tsd_cpu_has_sse41 (host p) \<and>
    w \<le> tsd_detect_max_simd (host p) (Some (tsd_runtime_config_active_snapshot p))")
  case False
  obtain avx where "detect_impl (host p) (Some (tsd_runtime_config_active_snapshot p)) (avx_available p) =
    (tsd_detect_max_simd (host p) (Some (tsd_runtime_config_active_snapshot p)), avx)"
    by (metis detect_flag_irrelevant prod.collapse)
  with False have "select_target sha256 w p = (if \<not> width_valid w then (Inl EINVAL, p)
    else if \<not> tsd_cpu_has_sse41 (host p) then (Inl ENOTSUP, p) else (Inl ENOTSUP, p\<lparr>avx_available := avx\<rparr>))"
    by (simp add: select_target_def not_le)
  then have "q \<in> {p, p\<lparr>avx_available := avx\<rparr>} \<and> r \<noteq> ok"
    using assms(2) by (simp split: if_splits)
  then show ?thesis using assms(1) by (auto simp: select_outcome_def selection_same_def tramp_inv_def)
next
  case True
  obtain avx where d: "detect_impl (host p) (Some (tsd_runtime_config_active_snapshot p)) (avx_available p) =
    (tsd_detect_max_simd (host p) (Some (tsd_runtime_config_active_snapshot p)), avx)"
    by (metis detect_flag_irrelevant prod.collapse)
  define p0 where "p0 = p\<lparr>avx_available := avx\<rparr>"
  obtain r1 p1 where p1: "(if page_a p0 = 0 then build_canonical_code_page p0 else (ok, p0)) = (r1, p1)"
    by (cases "if page_a p0 = 0 then build_canonical_code_page p0 else (ok, p0)")
  have i0: "code_page_inv p0" "mmap_sane p0" "selection_inv sha256 p0" "page_a p0 = page_a p"
    using assms(1) by (simp_all add: p0_def tramp_inv_def)
  note e = ensure_page [OF i0(1,2) p1]
  have si: "selection_inv sha256 p1" using i0(3) e by (auto intro: selection_inv_same)
  have pp: "proc.truncate p1 = proc.truncate p" "host p1 = host p" "selection_same p p1"
    using e build_same_selection [of p0 p1] by (simp_all add: p0_def build_same_def selection_same_def)
  have w: "width_valid w" using True by simp
  have patch: "canonical_patch w = Some (payload (width_rank w))" "has_enbr64_prefix (payload (width_rank w))"
    using payload_ok(1,2) [of "width_rank w"] rank_valid [OF w] by simp_all
  let ?t = "slots p1 ! width_rank w" and ?m = "snd (next_of True (maps_readable p1))"
  have sel: "select_target sha256 w p = (case r1 of Inl x \<Rightarrow> (Inl x, p1) | Inr _ \<Rightarrow>
     (case mapping_is_rx_not_writable ?t p1 of (False, p') \<Rightarrow> (Inl EPERM, p')
      | (True, p') \<Rightarrow> commit_selection_and_attestation sha256 w ?t p'))"
    using True patch unfolding select_target_def Let_def d prod.case p0_def [symmetric] p1
    by (simp add: leD split: sum.splits)
  show ?thesis
  proof (cases r1)
    case (Inl x)
    then show ?thesis using sel assms(2) e si pp by (simp add: select_outcome_def tramp_inv_def)
  next
    case (Inr u)
    then have nz: "page_a p1 \<noteq> 0" using e by simp
    note s = page_slots [OF _ nz w]
    have t: "?t = slot_addr (page_a p1) (width_rank w)" "?t \<noteq> 0" using s(1,3) e by auto
    show ?thesis
    proof (cases "fst (next_of True (maps_readable p1)) \<and> area_rx ?t (vm p1)")
      case False
      then have "r = Inl EPERM" "q = p1\<lparr>maps_readable := ?m\<rparr>"
        using sel assms(2) Inr t(2) by (auto simp: mapping_check_pair)
      then show ?thesis using e si pp by (simp add: select_outcome_def tramp_inv_def selection_same_def mmap_sane_def)
    next
      case True2: True
      have c: "commit_selection_and_attestation sha256 w (slot_addr (page_a p1) (width_rank w)) (p1\<lparr>maps_readable := ?m\<rparr>) = (r, q)"
        using sel assms(2) Inr t True2 by (simp add: mapping_check_pair)
      have "mmap_sane p1" using e by simp
      then show ?thesis
        using commit_result [of "p1\<lparr>maps_readable := ?m\<rparr>" w sha256 r q] c e si nz w pp True
        by (simp add: select_outcome_def tramp_inv_def selected_def selection_same_def mmap_sane_def split: if_splits)
    qed
  qed
qed

lemma patch_impl_result:
  assumes "tramp_inv sha256 p" "tsd_trampoline_patch_impl sha256 w p = (r, q)"
  shows "select_outcome sha256 w p r q"
proof -
  obtain e rest where e: "next_of None (patch_lock_rcs p) = (e, rest)" by fastforce
  show ?thesis
  proof (cases e)
    case (Some err)
    then have "r = Inl err" "q = p\<lparr>patch_lock_rcs := rest\<rparr>"
      using assms(2) e by (simp_all add: tsd_trampoline_patch_impl_def)
    then show ?thesis using assms(1) by (simp add: select_outcome_def tramp_inv_def selection_same_def)
  next
    case None
    define p1 where "p1 = p\<lparr>patch_lock_rcs := rest,
      tstate := tsd_trampoline_state_set_last_patch_attempt w (tstate p)\<rparr>"
    obtain q1 where q1: "select_target sha256 w p1 = (r, q1)"
      and q: "q = q1\<lparr>metrics := tsd_metrics_record_width_transition
        (tsd_trampoline_state_current_width (tstate p)) w (r = ok) (metrics q1)\<rparr>"
      using assms(2) e None by (auto simp: tsd_trampoline_patch_impl_def p1_def split: prod.splits)
    have snap: "tsd_trampoline_state_snapshot (tstate p1) = tsd_trampoline_state_snapshot (tstate p)"
      by (intro snapshot_cong) (simp add: p1_def tsd_trampoline_state_set_last_patch_attempt_def)
    have "code_page_inv p1" "mmap_sane p1" "active_hash p1 = active_hash p" "active_hash_valid p1 = active_hash_valid p"
      "page_a p1 = page_a p" "host p1 = host p" "proc.truncate p1 = proc.truncate p"
      using assms(1) by (simp_all add: p1_def tramp_inv_def code_page_inv_def mmap_sane_def
        tsd_trampoline_state_set_last_patch_attempt_def)
    moreover from this have "tramp_inv sha256 p1"
      using assms(1) by (simp add: tramp_inv_def selection_inv_def snap)
    ultimately have "select_outcome sha256 w p1 r q1" "select_outcome sha256 w p1 r q1 \<Longrightarrow> select_outcome sha256 w p r q"
      using select_target_result [OF _ q1] same_truncate(2) [of p1 p]
      by (auto simp: select_outcome_def tramp_inv_def selected_def selection_same_def q snap)
    then show ?thesis by simp
  qed
qed

text \<open>The guard's operations do not touch the trampoline.\<close>

lemma guard_frame [simp, tsd_frame]:
  "tramp_inv sha256 (capture_limits p) = tramp_inv sha256 p"
  "selected w (capture_limits p) = selected w p"
  "selection_same p' (capture_limits p) = selection_same p' p"
  "selection_same (capture_limits p) q = selection_same p q"
  "host (capture_limits p) = host p"
  "tramp_inv sha256 (p\<lparr>wide_admission_open := b\<rparr>) = tramp_inv sha256 p"
  "selected w (p\<lparr>wide_admission_open := b\<rparr>) = selected w p"
  "selection_same p' (p\<lparr>wide_admission_open := b\<rparr>) = selection_same p' p"
  "selection_same (p\<lparr>wide_admission_open := b\<rparr>) q = selection_same p q"
  "tramp_inv sha256 (p\<lparr>guard_lock_rcs := l\<rparr>) = tramp_inv sha256 p"
  "selection_same p' (p\<lparr>guard_lock_rcs := l\<rparr>) = selection_same p' p"
  "selection_same (p\<lparr>guard_lock_rcs := l\<rparr>) q = selection_same p q"
  by (simp_all add: capture_limits_def safety_config_snapshot_def tramp_inv_def code_page_inv_def
    selection_inv_def mmap_sane_def selected_def selection_same_def Let_def)

lemma write_leave_tramp [simp, tsd_frame]:
  "tramp_inv sha256 (tsd_runtime_safety_write_leave p) = tramp_inv sha256 p"
  "selected w (tsd_runtime_safety_write_leave p) = selected w p"
  "selection_same p' (tsd_runtime_safety_write_leave p) = selection_same p' p"
  "host (tsd_runtime_safety_write_leave p) = host p"
  by (simp_all add: tsd_runtime_safety_write_leave_def width_authorized_pair)

lemma active_snapshot_frame [simp, tsd_frame]:
  "tsd_runtime_config_active_snapshot (capture_limits p) = tsd_runtime_config_active_snapshot p"
  "tsd_runtime_config_active_snapshot (p\<lparr>wide_admission_open := b\<rparr>) = tsd_runtime_config_active_snapshot p"
  "tsd_runtime_config_active_snapshot (p\<lparr>guard_lock_rcs := l\<rparr>) = tsd_runtime_config_active_snapshot p"
  by (simp_all add: tsd_runtime_config_active_snapshot_def)

definition patch_outcome ::
    "(u8 list \<Rightarrow> u8 list option) \<Rightarrow> simd_width_t \<Rightarrow> 'a tproc_scheme \<Rightarrow> rc \<Rightarrow> 'a tproc_scheme \<Rightarrow> bool" where
  "patch_outcome sha256 w p r q = (tramp_inv sha256 q \<and> host q = host p \<and> wide_conditions q = wide_conditions p \<and>
     wide_admission_open q = (if fst (tsd_runtime_safety_write_enter p) = ok then wide_conditions p else wide_admission_open p) \<and>
     (if r = ok
      then selected w q \<and> fst (tsd_runtime_width_authorized w p) \<and>
           w \<le> tsd_detect_max_simd (host p) (Some (tsd_runtime_config_active_snapshot p))
      else selection_same p q))"

lemma patch_result:
  assumes "tramp_inv sha256 p" "tsd_trampoline_patch sha256 w p = (r, q)"
  shows "patch_outcome sha256 w p r q"
proof (rule safety_write_enter_cases [of p])
  fix e rcs assume "tsd_runtime_safety_write_enter p = (Inl e, p\<lparr>guard_lock_rcs := rcs\<rparr>)"
  then show ?thesis using assms by (auto simp: tsd_trampoline_patch_def patch_outcome_def selection_same_def)
next
  fix rcs assume we: "tsd_runtime_safety_write_enter p = (ok, p\<lparr>guard_lock_rcs := rcs, wide_admission_open := False\<rparr>)"
  define p1 where "p1 = p\<lparr>guard_lock_rcs := rcs, wide_admission_open := False\<rparr>"
  obtain b p2 where a: "tsd_runtime_width_authorized w p1 = (b, p2)" by fastforce
  have b: "b = fst (tsd_runtime_width_authorized w p)" "p2 = p1 \<or> p2 = capture_limits p1"
    using a by (auto simp: width_authorized_pair p1_def split: if_splits)
  have i: "tramp_inv sha256 p2" "wide_conditions p2 = wide_conditions p" "host p2 = host p"
    "tsd_runtime_config_active_snapshot p2 = tsd_runtime_config_active_snapshot p"
    "selection_same p2 q' = selection_same p q'" "selection_same p p2" for q'
    using b(2) assms(1) by (auto simp: p1_def) (simp_all add: selection_same_def)
  show ?thesis
  proof (cases b)
    case False
    then have "r = Inl EAGAIN" "q = tsd_runtime_safety_write_leave p2"
      using assms(2) a we by (simp_all add: tsd_trampoline_patch_def p1_def)
    then show ?thesis using i we by (simp add: patch_outcome_def safety_write_leave_open)
  next
    case True
    then obtain q1 where q1: "tsd_trampoline_patch_impl sha256 w p2 = (r, q1)" and q: "q = tsd_runtime_safety_write_leave q1"
      using assms(2) a we by (auto simp: tsd_trampoline_patch_def p1_def split: prod.splits)
    have o: "select_outcome sha256 w p2 r q1" using i(1) q1 by (rule patch_impl_result)
    then have wc: "wide_conditions q1 = wide_conditions p"
      using i(2) same_truncate(1) [of q1 p2] by (simp add: select_outcome_def)
    show ?thesis
    proof (cases "r = ok")
      case True2: True
      then show ?thesis using o i(3,4) wc True b(1) we
        by (simp add: patch_outcome_def select_outcome_def q safety_write_leave_open)
    next
      case False
      then show ?thesis using o i(3,5) wc we
        by (simp add: patch_outcome_def select_outcome_def q safety_write_leave_open)
    qed
  qed
qed

section \<open>Initialisation and readers\<close>

lemma init_result:
  assumes "tramp_inv sha256 p" "tsd_trampoline_init p = (r, q)"
  shows "tramp_inv sha256 q \<and> host q = host p \<and> proc.truncate q = proc.truncate p \<and>
    (if r = ok then page_a q \<noteq> 0 \<and> \<not> active_hash_valid q \<and>
       tsd_trampoline_state_snapshot (tstate q) = (ok, SIMD_SSE41, slot_addr (page_a q) 0)
     else selection_same p q)"
proof -
  obtain e rest where e: "next_of None (patch_lock_rcs p) = (e, rest)" by fastforce
  define p0 where "p0 = p\<lparr>patch_lock_rcs := rest\<rparr>"
  have i0: "code_page_inv p0" "mmap_sane p0" "selection_inv sha256 p0" "page_a p0 = page_a p"
    "selection_same p p0" "host p0 = host p" "proc.truncate p0 = proc.truncate p"
    using assms(1) by (simp_all add: p0_def tramp_inv_def selection_same_def)
  obtain r1 p1 where p1: "(if page_a p0 = 0 then build_canonical_code_page p0 else (ok, p0)) = (r1, p1)"
    by (cases "if page_a p0 = 0 then build_canonical_code_page p0 else (ok, p0)")
  note b = ensure_page [OF i0(1,2) p1]
  have si: "selection_inv sha256 p1" using i0(3) b by (auto intro: selection_inv_same)
  have pp: "proc.truncate p1 = proc.truncate p" "host p1 = host p" "selection_same p p1"
    using b i0(5-7) build_same_selection [of p0 p1] by (simp_all add: build_same_def selection_same_def)
  obtain e2 rest2 where e2: "next_of None (attestation_lock_rcs p1) = (e2, rest2)" by fastforce
  have "tsd_trampoline_init p = (case e of Some x \<Rightarrow> (Inl x, p0) | None \<Rightarrow>
    (case r1 of Inl x \<Rightarrow> (Inl x, p1) | Inr _ \<Rightarrow>
     (case e2 of Some x \<Rightarrow> (Inl x, p1\<lparr>attestation_lock_rcs := rest2\<rparr>)
      | None \<Rightarrow> (ok, p1\<lparr>attestation_lock_rcs := rest2, ctx_active := slots p1 ! 0, ctx_inactive := slots p1 ! 1,
          tstate := tsd_trampoline_state_reset (slots p1 ! 0) (tstate p1), active_hash_valid := False\<rparr>))))"
    unfolding tsd_trampoline_init_def Let_def e prod.case p0_def [symmetric] p1
    using e2 by (simp split: sum.splits option.splits)
  moreover have "tsd_trampoline_state_snapshot (tsd_trampoline_state_reset (slots p1 ! 0) t) = (ok, SIMD_SSE41, slot_addr (page_a p1) 0)"
    "code_page_inv (p1\<lparr>tstate := tsd_trampoline_state_reset (slots p1 ! 0) (tstate p1)\<rparr>)" if "page_a p1 \<noteq> 0" for t
    using page_slots [OF _ that, of SIMD_SSE41] b snapshot_after_reset that
    by (simp_all add: code_page_cases tsd_trampoline_state_reset_def)
  ultimately show ?thesis
    using assms(2) b si pp i0
    by (cases e; cases r1; cases e2) (auto simp: tramp_inv_def selection_same_def selection_inv_def code_page_inv_def mmap_sane_def)
qed

text \<open>
  Everything that can happen to the trampoline: its own operations, and any change of the rest of
  the process that leaves its variables alone.
\<close>

definition tramp_untouched :: "tproc \<Rightarrow> tproc \<Rightarrow> bool" where
  "tramp_untouched p q = (page_a q = page_a p \<and> page_size q = page_size p \<and> vm q = vm p \<and> slots q = slots p \<and>
     tstate q = tstate p \<and> active_hash q = active_hash p \<and> active_hash_valid q = active_hash_valid p \<and> mmap_sane q)"

inductive tramp_step :: "(u8 list \<Rightarrow> u8 list option) \<Rightarrow> tproc \<Rightarrow> tproc \<Rightarrow> bool" for sha256 where
  step_init: "tramp_step sha256 p (snd (tsd_trampoline_init p))"
| step_patch: "tramp_step sha256 p (snd (tsd_trampoline_patch sha256 w p))"
| step_validate: "tramp_step sha256 p (snd (tsd_trampoline_self_validate p))"
| step_hash: "tramp_step sha256 p (snd (tsd_attestation_get_active_hash n p))"
| step_expect: "tramp_step sha256 p (snd (tsd_attestation_expect_active_hash h p))"
| step_other: "tramp_untouched p q \<Longrightarrow> tramp_step sha256 p q"

definition tramp_start :: "tproc \<Rightarrow> bool" where
  "tramp_start p = (page_a p = 0 \<and> vm p = [] \<and> slots p = [0, 0, 0] \<and> tstate p = trampoline_state_init \<and>
     \<not> active_hash_valid p \<and> mmap_sane p)"

lemma untouched_inv: "tramp_inv sha256 p \<Longrightarrow> tramp_untouched p q \<Longrightarrow> tramp_inv sha256 q"
  by (simp add: tramp_inv_def tramp_untouched_def code_page_inv_def selection_inv_def)

lemma reader_frame [simp, tsd_frame]:
  "mmap_sane (p\<lparr>maps_readable := a\<rparr>) = mmap_sane p"
  "mmap_sane (p\<lparr>attestation_lock_rcs := b\<rparr>) = mmap_sane p"
  "mmap_sane (p\<lparr>attestation_last_error := s\<rparr>) = mmap_sane p"
  "code_page_inv (p\<lparr>attestation_last_error := s\<rparr>) = code_page_inv p"
  "selection_inv sha256 (p\<lparr>attestation_last_error := s\<rparr>) = selection_inv sha256 p"
  by (simp_all add: mmap_sane_def code_page_inv_def selection_inv_def)

lemma readers_inv:
  "tramp_inv sha256 p \<Longrightarrow> tramp_inv sha256 (snd (tsd_trampoline_self_validate p))"
  "tramp_inv sha256 p \<Longrightarrow> tramp_inv sha256 (snd (locked_hash p))"
  "tramp_inv sha256 p \<Longrightarrow> tramp_inv sha256 (p\<lparr>attestation_last_error := s\<rparr>)"
  by (simp_all add: tsd_trampoline_self_validate_def locked_hash_def mapping_check_pair tramp_inv_def Let_def
      split: prod.splits option.splits bool.splits)

lemma attestation_inv:
  assumes "tramp_inv sha256 p"
  shows "tramp_inv sha256 (snd (tsd_attestation_get_active_hash n p))"
    "tramp_inv sha256 (snd (tsd_attestation_expect_active_hash h p))"
  using assms readers_inv(2) [OF assms] readers_inv(3)
  by (auto simp: tsd_attestation_get_active_hash_def tsd_attestation_expect_active_hash_def
    split: option.splits prod.splits sum.splits)

lemma trampoline_init_inv: "tramp_inv sha256 p \<Longrightarrow> tramp_inv sha256 (snd (tsd_trampoline_init p))"
  using init_result [of sha256 p "fst (tsd_trampoline_init p)" "snd (tsd_trampoline_init p)"]
  unfolding prod.collapse by blast

lemma trampoline_patch_inv: "tramp_inv sha256 p \<Longrightarrow> tramp_inv sha256 (snd (tsd_trampoline_patch sha256 w p))"
  using patch_result [of sha256 p w "fst (tsd_trampoline_patch sha256 w p)" "snd (tsd_trampoline_patch sha256 w p)"]
  unfolding prod.collapse patch_outcome_def by blast

lemma tramp_step_inv:
  assumes "tramp_inv sha256 p" "tramp_step sha256 p q"
  shows "tramp_inv sha256 q"
  using assms(2,1)
  by (cases rule: tramp_step.cases) (blast intro: trampoline_init_inv trampoline_patch_inv readers_inv attestation_inv untouched_inv)+

lemma tramp_start_inv: "tramp_start p \<Longrightarrow> tramp_inv sha256 p"
  by (simp add: tramp_start_def tramp_inv_def code_page_cases selection_inv_def
    tsd_trampoline_state_snapshot_def trampoline_state_init_def)

interpretation tramp_system: inductive_invariant tramp_start "tramp_step sha256" "tramp_inv sha256" for sha256
  by unfold_locales (fact tramp_start_inv, rule tramp_step_inv)

section \<open>Selections that must succeed\<close>

text \<open>An operating system that grants what the trampoline asks for.\<close>

definition os_grants :: "'a tproc_scheme \<Rightarrow> bool" where
  "os_grants p = (guard_lock_rcs p = [] \<and> patch_lock_rcs p = [] \<and> attestation_lock_rcs p = [] \<and>
     mprotect_rcs p = [] \<and> maps_readable p = [] \<and>
     (page_a p = 0 \<longrightarrow> (\<exists>n page rest. sysconf_pagesize p = Inr n \<and> kWidthCount * slot_stride \<le> n \<and>
        mmap_results p = Inr page # rest)))"

lemma build_live:
  assumes "code_page_inv p" "page_a p = 0" "mmap_sane p" "mprotect_rcs p = []" "maps_readable p = []"
    "sysconf_pagesize p = Inr n" "kWidthCount * slot_stride \<le> n" "mmap_results p = Inr page # rest"
  shows "\<exists>q. build_canonical_code_page p = (ok, q) \<and> maps_readable q = [] \<and>
    attestation_lock_rcs q = attestation_lock_rcs p"
proof -
  have sane: "page_sane page n" using assms(3,6,8) by (auto simp: mmap_sane_def)
  define f where "f = fresh_code_page page n (p\<lparr>mmap_results := rest\<rparr>)"
  define m where "m = \<lparr>vm_start = page, vm_size = n, vm_read = True, vm_write = True, vm_exec = False,
    vm_slots = replicate (n div slot_stride) []\<rparr>"
  define m' where "m' = m\<lparr>vm_slots := (vm_slots m)[0 := payload 0, 1 := payload 1, 2 := payload 2]\<rparr>"
  define g where "g = f\<lparr>slots := map (slot_addr page) [0..<kWidthCount], vm := [m']\<rparr>"
  have f: "vm f = [m]" "length (slots f) = kWidthCount"
    using assms(1,2) by (simp_all add: f_def m_def fresh_code_page_def code_page_cases)
  have "install_slots page [0..<kWidthCount] f = Some g"
    unfolding g_def m'_def using f sane assms(7) by (intro install_all) (simp_all add: m_def)
  then have "build_canonical_code_page p = seal_code_page page g"
    using assms(6-8) by (simp add: build_canonical_code_page_def f_def Let_def)
  moreover have g: "vm g = [m']" "mprotect_rcs g = []" "maps_readable g = []" "attestation_lock_rcs g = attestation_lock_rcs p"
    using assms(4,5) by (simp_all add: g_def f_def fresh_code_page_def)
  have "m'\<lparr>vm_read := True, vm_write := False, vm_exec := True\<rparr> = sealed_area page n" "vm_start m' = page"
    by (simp_all add: m'_def m_def sealed_area_def)
  moreover have "page \<noteq> 0" "area_rx page [sealed_area page n]"
    using sane sealed_rx [OF sane assms(7), of 0] by (simp_all add: page_sane_def slot_addr_def)
  ultimately show ?thesis using g
    by (simp add: seal_code_page_def protect_rx_def mapping_check_pair Let_def)
qed

lemma select_live:
  assumes "tramp_inv sha256 p" "os_grants p" "width_valid w" "tsd_cpu_has_sse41 (host p)"
    "w \<le> tsd_detect_max_simd (host p) (Some (tsd_runtime_config_active_snapshot p))" "\<forall>c. sha256 c \<noteq> None"
  shows "fst (select_target sha256 w p) = ok"
proof -
  obtain avx where d: "detect_impl (host p) (Some (tsd_runtime_config_active_snapshot p)) (avx_available p) =
    (tsd_detect_max_simd (host p) (Some (tsd_runtime_config_active_snapshot p)), avx)"
    by (metis detect_flag_irrelevant prod.collapse)
  define p0 where "p0 = p\<lparr>avx_available := avx\<rparr>"
  have i0: "code_page_inv p0" "mmap_sane p0" using assms(1) by (simp_all add: p0_def tramp_inv_def)
  have "\<exists>q. (if page_a p0 = 0 then build_canonical_code_page p0 else (ok, p0)) = (ok, q) \<and>
    maps_readable q = [] \<and> attestation_lock_rcs q = []"
    using assms(2) build_live [OF i0(1) _ i0(2)] by (auto simp: os_grants_def p0_def)
  then obtain p1 where p1: "(if page_a p0 = 0 then build_canonical_code_page p0 else (ok, p0)) = (ok, p1)"
    and r: "maps_readable p1 = []" "attestation_lock_rcs p1 = []" by blast
  note e = ensure_page [OF i0 p1]
  have s: "slots p1 ! width_rank w \<noteq> 0" "area_rx (slots p1 ! width_rank w) (vm p1)"
    using page_slots [of p1 w] e assms(3) by auto
  have patch: "canonical_patch w = Some (payload (width_rank w))" "has_enbr64_prefix (payload (width_rank w))"
    using payload_ok(1,2) [of "width_rank w"] rank_valid [OF assms(3)] by simp_all
  obtain h where h: "sha256 (slot_code (slots p1 ! width_rank w) (p1\<lparr>maps_readable := []\<rparr>)) = Some h"
    using assms(6) by blast
  show ?thesis
    using assms(3-5) patch s r h unfolding select_target_def Let_def d prod.case p0_def [symmetric] p1
    by (simp add: leD mapping_check_pair commit_selection_and_attestation_def)
qed

lemma capture_limits_os [simp, tsd_frame]: "os_grants (capture_limits p) = os_grants p"
  by (simp add: capture_limits_def safety_config_snapshot_def os_grants_def Let_def)

lemma patch_live:
  assumes "tramp_inv sha256 p" "os_grants p" "fst (tsd_runtime_width_authorized w p)" "tsd_cpu_has_sse41 (host p)"
    "w \<le> tsd_detect_max_simd (host p) (Some (tsd_runtime_config_active_snapshot p))" "\<forall>c. sha256 c \<noteq> None"
  shows "fst (tsd_trampoline_patch sha256 w p) = ok"
proof -
  define p1 where "p1 = p\<lparr>guard_lock_rcs := [], wide_admission_open := False\<rparr>"
  have we: "tsd_runtime_safety_write_enter p = (ok, p1)"
    using assms(2) by (simp add: tsd_runtime_safety_write_enter_def tsd_runtime_wide_admission_close_def p1_def os_grants_def)
  obtain p2 where p2: "p2 = snd (tsd_runtime_width_authorized w p1)" by simp
  have a: "tsd_runtime_width_authorized w p1 = (True, p2)"
    using assms(3) by (simp add: p2 width_authorized_pair p1_def)
  have p2: "p2 = p1 \<or> p2 = capture_limits p1"
    unfolding p2 by (simp add: width_authorized_pair)
  define p3 where "p3 = p2\<lparr>patch_lock_rcs := [], tstate := tsd_trampoline_state_set_last_patch_attempt w (tstate p2)\<rparr>"
  have w: "width_valid w" using assms(3) by (auto simp: width_authorized_pair)
  have i2: "tramp_inv sha256 p2" "os_grants p2" "host p2 = host p"
    "tsd_runtime_config_active_snapshot p2 = tsd_runtime_config_active_snapshot p"
  proof -
    have "tramp_inv sha256 p1" "os_grants p1" "host p1 = host p"
      "tsd_runtime_config_active_snapshot p1 = tsd_runtime_config_active_snapshot p"
      using assms(1,2) by (simp_all add: p1_def) (simp add: os_grants_def)
    with p2 show "tramp_inv sha256 p2" "os_grants p2" "host p2 = host p"
      "tsd_runtime_config_active_snapshot p2 = tsd_runtime_config_active_snapshot p" by auto
  qed
  have "tsd_trampoline_state_snapshot (tstate p3) = tsd_trampoline_state_snapshot (tstate p2)"
    by (intro snapshot_cong) (simp add: p3_def tsd_trampoline_state_set_last_patch_attempt_def)
  then have "tramp_inv sha256 p3" "os_grants p3" "host p3 = host p"
    "tsd_runtime_config_active_snapshot p3 = tsd_runtime_config_active_snapshot p"
    using i2 same_truncate(2) [of p3 p2]
    by (simp_all add: p3_def tramp_inv_def code_page_inv_def selection_inv_def mmap_sane_def os_grants_def
      tsd_trampoline_state_set_last_patch_attempt_def)
  with select_live [of sha256 p3 w] assms(4-6) w have "fst (select_target sha256 w p3) = ok" by simp
  moreover have "patch_lock_rcs p2 = []" using i2(2) by (simp add: os_grants_def)
  ultimately show ?thesis using we a
    by (cases "select_target sha256 w p3") (simp add: tsd_trampoline_patch_def tsd_trampoline_patch_impl_def p3_def)
qed

text \<open>A process whose sandbox passed, on a host with AVX-512 and one page to map.\<close>

definition example_tproc :: tproc where
  "example_tproc = proc.extend (proc_init\<lparr>sandbox_complete := True, sandbox_success := True\<rparr>)
     (tproc.fields trampoline_state_init 0 0 0 0 0 0 0 False (- 1) 0 0 [0, 0, 0] [] False [] False (\<lambda>_. 0) []
       avx512_host (Inr 4096) [] [] [Inr 0x10000] [] [])"

lemma example_start: "tramp_start example_tproc"
  by (simp add: tramp_start_def example_tproc_def proc.defs tproc.defs mmap_sane_def page_sane_def)

lemma example_inv: "tramp_inv sha256 example_tproc"
  using example_start by (rule tramp_start_inv)

lemma example_detect: "tsd_detect_max_simd avx512_host (Some zero_runtime_config) = SIMD_AVX2" "tsd_cpu_has_sse41 avx512_host"
  by code_simp+

lemma example_avx2:
  "os_grants example_tproc" "fst (tsd_runtime_width_authorized SIMD_AVX2 example_tproc)" "host example_tproc = avx512_host"
  "tsd_runtime_config_active_snapshot example_tproc = zero_runtime_config"
  by (simp_all add: os_grants_def width_authorized_pair wide_condition_defs example_tproc_def proc.defs tproc.defs
    proc_init_def telemetry_state_init_def tsd_runtime_config_active_snapshot_def)

lemma example_patch: "fst (tsd_trampoline_patch Some SIMD_AVX2 example_tproc) = ok"
  using example_avx2 example_detect by (intro patch_live [OF example_inv]) simp_all

section \<open>Properties\<close>

text \<open>
  C2. Selecting a width: on success the width was authorized by the guard and allowed by the host
  and the configuration, one read of the selection yields that width and a slot whose bytes are
  exactly its canonical payload, mapped readable and executable but not writable, and the
  attested hash is the one of these bytes; on failure selection and attestation are unchanged.
\<close>
theorem trampoline_patch_correct:
  assumes "tramp_inv sha256 p" "tsd_trampoline_patch sha256 w p = (r, q)"
  shows "if r = ok
    then fst (tsd_runtime_width_authorized w p) \<and>
      w \<le> tsd_detect_max_simd (host p) (Some (tsd_runtime_config_active_snapshot p)) \<and>
      (\<exists>a. tsd_trampoline_state_snapshot (tstate q) = (ok, w, a) \<and> canonical_patch w = Some (slot_code a q) \<and>
           area_rx a (vm q) \<and> active_hash_valid q \<and> sha256 (slot_code a q) = Some (active_hash q))
    else tsd_trampoline_state_snapshot (tstate q) = tsd_trampoline_state_snapshot (tstate p) \<and>
      active_hash q = active_hash p \<and> active_hash_valid q = active_hash_valid p"
proof (cases "r = ok")
  case False
  then show ?thesis using patch_result [OF assms] by (simp add: patch_outcome_def selection_same_def)
next
  case True
  then have o: "tramp_inv sha256 q" "selected w q" "fst (tsd_runtime_width_authorized w p)"
    "w \<le> tsd_detect_max_simd (host p) (Some (tsd_runtime_config_active_snapshot p))"
    using patch_result [OF assms] by (simp_all add: patch_outcome_def)
  then have w: "width_valid w" "page_a q \<noteq> 0" by (simp_all add: selected_def)
  note s = page_slots [OF _ w(2,1)]
  have "canonical_patch w = Some (payload (width_rank w))" using payload_ok(1) [OF rank_valid [OF w(1)]] by simp
  then show ?thesis using True o s by (auto simp: tramp_inv_def selected_def selection_inv_def)
qed

theorem trampoline_patch_correct_witness:
  "fst (tsd_trampoline_patch Some SIMD_AVX2 example_tproc) = ok \<and>
   (let q = snd (tsd_trampoline_patch Some SIMD_AVX2 example_tproc) in
    \<exists>a. tsd_trampoline_state_snapshot (tstate q) = (ok, SIMD_AVX2, a) \<and> canonical_patch SIMD_AVX2 = Some (slot_code a q) \<and>
        area_rx a (vm q))"
  using trampoline_patch_correct [OF example_inv prod.collapse [symmetric], of Some SIMD_AVX2] example_patch
  by (auto simp: Let_def)

text \<open>
  C6. Executable memory is never writable: in every state the trampoline can reach, no mapping is
  both writable and executable, and a published selection always names a slot that holds the
  canonical payload of its width.
\<close>
theorem trampoline_wx_invariant:
  assumes "reachable tramp_start (tramp_step sha256) p"
  shows "(\<forall>m \<in> set (vm p). \<not> (vm_write m \<and> vm_exec m)) \<and>
    (\<forall>w a. tsd_trampoline_state_snapshot (tstate p) = (ok, w, a) \<longrightarrow>
       canonical_patch w = Some (slot_code a p) \<and> area_rx a (vm p))"
proof -
  have i: "tramp_inv sha256 p" using assms by (rule tramp_system.reachable_inv)
  then have "\<forall>m \<in> set (vm p). \<not> (vm_write m \<and> vm_exec m)"
    by (cases "page_a p = 0") (auto simp: tramp_inv_def code_page_cases sealed_area_def)
  moreover have "canonical_patch w = Some (slot_code a p) \<and> area_rx a (vm p)"
    if "tsd_trampoline_state_snapshot (tstate p) = (ok, w, a)" for w a
  proof -
    have w: "width_valid w" "page_a p \<noteq> 0" "a = slot_addr (page_a p) (width_rank w)" "code_page_inv p"
      using i that by (simp_all add: tramp_inv_def selection_inv_def)
    show ?thesis using page_slots(5,6) [OF w(4,2,1)] payload_ok(1) [OF rank_valid [OF w(1)]] w(3) by simp
  qed
  ultimately show ?thesis by blast
qed

theorem trampoline_wx_invariant_witness:
  "filter (\<lambda>m. vm_write m \<and> vm_exec m) (vm (snd (tsd_trampoline_patch Some SIMD_AVX2 example_tproc))) = []"
proof -
  have "reachable tramp_start (tramp_step Some) example_tproc" using example_start by (rule reachable_init)
  then have "reachable tramp_start (tramp_step Some) (snd (tsd_trampoline_patch Some SIMD_AVX2 example_tproc))"
    using step_patch by (rule reachable_step)
  then show ?thesis using trampoline_wx_invariant [of Some] by (simp add: filter_empty_conv)
qed

text \<open>
  C15. A selection the guard authorizes and the host supports succeeds whenever the operating
  system grants the locks, the page and its protection and the hash can be computed.
\<close>
theorem authorized_patch_succeeds:
  assumes "tramp_inv sha256 p" "os_grants p" "fst (tsd_runtime_width_authorized w p)" "tsd_cpu_has_sse41 (host p)"
    "w \<le> tsd_detect_max_simd (host p) (Some (tsd_runtime_config_active_snapshot p))" "\<forall>c. sha256 c \<noteq> None"
  shows "fst (tsd_trampoline_patch sha256 w p) = ok"
  using assms by (rule patch_live)

theorem authorized_patch_succeeds_witness: "fst (tsd_trampoline_patch Some SIMD_SSE41 example_tproc) = ok"
  using example_avx2 example_detect
  by (intro authorized_patch_succeeds [OF example_inv]) (simp_all add: width_authorized_pair)

text \<open>
  After a successful selection the self-validation passes and the attested hash is the one of
  the selected payload, at any time the locks and \<^verbatim>\<open>/proc/self/maps\<close> are available.
\<close>
theorem patched_trampoline_validates:
  assumes "tramp_inv sha256 p" "tsd_trampoline_patch sha256 w p = (ok, q)"
  shows "let q = q\<lparr>patch_lock_rcs := [], attestation_lock_rcs := [], maps_readable := []\<rparr> in
    fst (tsd_trampoline_self_validate q) = None \<and>
    fst (tsd_attestation_get_active_hash (Some 32) q) = Inr (take 32 (active_hash q)) \<and>
    (\<exists>code. canonical_patch w = Some code \<and> sha256 code = Some (active_hash q))"
proof -
  define s where "s = q\<lparr>patch_lock_rcs := [], attestation_lock_rcs := [], maps_readable := []\<rparr>"
  have "tramp_inv sha256 q" "selected w q" using patch_result [OF assms(1,2)] by (simp_all add: patch_outcome_def)
  then have o: "tramp_inv sha256 s" "selected w s" by (simp_all add: s_def tramp_inv_def selected_def)
  then have w: "width_valid w" "page_a s \<noteq> 0" "code_page_inv s" by (simp_all add: selected_def tramp_inv_def)
  note p = page_slots [OF w(3,2,1)] and c = payload_ok [OF rank_valid [OF w(1)]]
  have sn: "tsd_trampoline_state_current_width (tstate s) = w" "trampoline_initialized (tstate s)"
    "tsd_trampoline_state_active (tstate s) = slot_addr (page_a s) (width_rank w)"
    using o(2) by (simp_all add: selected_def tsd_trampoline_state_current_width_def tsd_trampoline_state_active_def)
  have l: "patch_lock_rcs s = []" "attestation_lock_rcs s = []" "maps_readable s = []" by (simp_all add: s_def)
  have "fst (tsd_trampoline_self_validate s) = None"
    using l sn p c w by (simp add: tsd_trampoline_self_validate_def mapping_check_pair code_page_cases slot_code_def Let_def)
  moreover have "fst (tsd_attestation_get_active_hash (Some 32) s) = Inr (take 32 (active_hash s))"
    using l o(2) by (simp add: tsd_attestation_get_active_hash_def locked_hash_def selected_def)
  ultimately show ?thesis using o c unfolding s_def [symmetric] Let_def
    by (simp add: tramp_inv_def selection_inv_def selected_def)
qed

theorem patched_trampoline_validates_witness:
  "let q = (snd (tsd_trampoline_patch Some SIMD_AVX2 example_tproc))
       \<lparr>patch_lock_rcs := [], attestation_lock_rcs := [], maps_readable := []\<rparr>
   in fst (tsd_trampoline_self_validate q) = None"
proof -
  have "tsd_trampoline_patch Some SIMD_AVX2 example_tproc = (ok, snd (tsd_trampoline_patch Some SIMD_AVX2 example_tproc))"
    using example_patch by (metis prod.collapse)
  from patched_trampoline_validates [OF example_inv this] show ?thesis by (simp add: Let_def)
qed

end
