(* ===== verification/Guarded_Updates.thy ===== *)
theory Guarded_Updates
  imports Trampoline
begin

text \<open>
  The writers of the guard state, each with the safety-write bracket around its assignments: the
  \<^verbatim>\<open>update_*\<close> methods of \<^verbatim>\<open>src/observability/telemetry_state.cpp\<close>, the sandbox flags of
  \<^verbatim>\<open>src/config/runtime_flags.c\<close> and the temperature gate of \<^verbatim>\<open>src/telemetry/fusion_bridge.cpp\<close>.
  The locale \<open>guarded_update\<close> is their common contract.
\<close>

section \<open>Telemetry updates\<close>

text \<open>
  The constructor of \<^verbatim>\<open>SafetyUpdateGuard\<close> enters the bracket, its destructor leaves it: also when
  the lock of \<^verbatim>\<open>mutex_\<close> throws in between, and then the C wrapper closes admission.
\<close>

definition tsd_observability_update_controller ::
    "tsd_controller_telemetry_t option \<Rightarrow> 'a proc_scheme \<Rightarrow> 'a proc_scheme" where
  "tsd_observability_update_controller t p =
     (case t of None \<Rightarrow> p
      | Some t \<Rightarrow> if telemetry_throws p then p
                  else p\<lparr>telemetry := controller_assign (system_now p) (steady_now p) t (telemetry p)\<rparr>)"

definition tsd_observability_update_fusion ::
    "tsd_fusion_telemetry_t option \<Rightarrow> 'a proc_scheme \<Rightarrow> 'a proc_scheme" where
  "tsd_observability_update_fusion t p =
     (case t of None \<Rightarrow> p
      | Some t \<Rightarrow>
          (case tsd_runtime_safety_write_enter p of
             (Inl _, p) \<Rightarrow> p
           | (Inr _, p) \<Rightarrow>
               if telemetry_throws p
               then tsd_runtime_wide_admission_close (tsd_runtime_safety_write_leave p)
               else tsd_runtime_safety_write_leave
                 (p\<lparr>telemetry := fusion_assign (system_now p) (steady_now p) t (telemetry p)\<rparr>)))"

definition tsd_observability_update_temperature_channels ::
    "tsd_temperature_channels_t option \<Rightarrow> 'a proc_scheme \<Rightarrow> 'a proc_scheme" where
  "tsd_observability_update_temperature_channels t p =
     (case t of None \<Rightarrow> p
      | Some t \<Rightarrow>
          (case tsd_runtime_safety_write_enter p of
             (Inl _, p) \<Rightarrow> p
           | (Inr _, p) \<Rightarrow>
               if telemetry_throws p
               then tsd_runtime_wide_admission_close (tsd_runtime_safety_write_leave p)
               else tsd_runtime_safety_write_leave
                 (p\<lparr>telemetry := temperature_channels_assign (system_now p) (steady_now p) t (telemetry p)\<rparr>)))"

definition tsd_observability_update_perf ::
    "tsd_perf_telemetry_t option \<Rightarrow> 'a proc_scheme \<Rightarrow> 'a proc_scheme" where
  "tsd_observability_update_perf t p =
     (case t of None \<Rightarrow> p
      | Some t \<Rightarrow>
          (case tsd_runtime_safety_write_enter p of
             (Inl _, p) \<Rightarrow> p
           | (Inr _, p) \<Rightarrow>
               if telemetry_throws p
               then tsd_runtime_wide_admission_close (tsd_runtime_safety_write_leave p)
               else tsd_runtime_safety_write_leave
                 (p\<lparr>telemetry := perf_assign (system_now p) (steady_now p) t (telemetry p)\<rparr>)))"

section \<open>Sandbox flags\<close>

text \<open>\<^verbatim>\<open>snprintf\<close> into 256 bytes keeps 255 characters.\<close>

definition set_message_locked :: "string option \<Rightarrow> 'a proc_scheme \<Rightarrow> 'a proc_scheme" where
  "set_message_locked msg p = p\<lparr>sandbox_message := take 255
     (case msg of None \<Rightarrow> ''sandbox failed'' | Some m \<Rightarrow> if m = [] then ''sandbox failed'' else m)\<rparr>"

definition tsd_runtime_flags_init :: "'a proc_scheme \<Rightarrow> 'a proc_scheme" where
  "tsd_runtime_flags_init p =
     (case tsd_runtime_safety_write_enter p of
        (Inl _, p) \<Rightarrow> p
      | (Inr _, p) \<Rightarrow>
          (tsd_runtime_safety_write_leave
            ((set_message_locked (Some ''sandbox pending'') p)\<lparr>sandbox_success := False, sandbox_complete := False\<rparr>))
          \<lparr>sandbox_only := False\<rparr>)"

definition tsd_runtime_flags_record_sandbox_success :: "'a proc_scheme \<Rightarrow> 'a proc_scheme" where
  "tsd_runtime_flags_record_sandbox_success p =
     (case tsd_runtime_safety_write_enter p of
        (Inl _, p) \<Rightarrow> p
      | (Inr _, p) \<Rightarrow>
          tsd_runtime_safety_write_leave
            ((set_message_locked (Some ''sandbox passed'') p)\<lparr>sandbox_success := True, sandbox_complete := True\<rparr>))"

definition tsd_runtime_flags_record_sandbox_failure :: "string option \<Rightarrow> 'a proc_scheme \<Rightarrow> 'a proc_scheme" where
  "tsd_runtime_flags_record_sandbox_failure msg p =
     (case tsd_runtime_safety_write_enter p of
        (Inl _, p) \<Rightarrow> p
      | (Inr _, p) \<Rightarrow>
          tsd_runtime_safety_write_leave
            ((set_message_locked msg p)\<lparr>sandbox_success := False, sandbox_complete := True\<rparr>))"

definition tsd_runtime_flags_set_sandbox_only :: "bool \<Rightarrow> 'a proc_scheme \<Rightarrow> 'a proc_scheme" where
  "tsd_runtime_flags_set_sandbox_only b p = p\<lparr>sandbox_only := b\<rparr>"

definition tsd_runtime_flags_status_message :: "'a proc_scheme \<Rightarrow> string" where
  "tsd_runtime_flags_status_message p = take 255 (sandbox_message p)"

section \<open>Temperature gate\<close>

text \<open>
  \<^verbatim>\<open>update_temperature_gate_unlocked\<close>: publish the bit, and without a temperature drive the
  selection back to SSE4.1.
\<close>

definition update_temperature_gate_unlocked ::
    "(u8 list \<Rightarrow> u8 list option) \<Rightarrow> bool \<Rightarrow> 'a tproc_scheme \<Rightarrow> 'a tproc_scheme" where
  "update_temperature_gate_unlocked sha256 raw_available p =
     (let (avail, p) = (case tsd_runtime_safety_write_enter p of
            (Inr _, p) \<Rightarrow> (raw_available,
              tsd_runtime_safety_write_leave (p\<lparr>temperature_upgrade_allowed := raw_available\<rparr>))
          | (Inl _, p) \<Rightarrow> (False, p\<lparr>temperature_upgrade_allowed := False\<rparr>))
      in if \<not> avail \<and> trampoline_initialized (tstate p) \<and>
            tsd_trampoline_state_current_width (tstate p) \<noteq> SIMD_SSE41
         then snd (tsd_trampoline_patch sha256 SIMD_SSE41 p)
         else p)"

section \<open>The contract of a guarded update\<close>

text \<open>
  A guarded update takes the safety-write bracket; with the lock it runs its assignment, which may
  only touch state the admission protocol does not count with, and then either leaves the
  bracket or leaves it and closes admission; without the lock it changes nothing.
\<close>

definition counters_same :: "'a proc_scheme \<Rightarrow> 'a proc_scheme \<Rightarrow> bool" where
  "counters_same p q = (active_wide_executions q = active_wide_executions p \<and>
     wide_execution_depth q = wide_execution_depth p \<and> runtime_stopping q = runtime_stopping p \<and>
     runtime_owner_tid q = runtime_owner_tid p)"

locale guarded_update =
  fixes update :: "'t \<Rightarrow> 'a proc_scheme \<Rightarrow> 'a proc_scheme"
    and assign :: "'t \<Rightarrow> 'a proc_scheme \<Rightarrow> 'a proc_scheme"
  assumes assign_counters: "counters_same p (assign t p)"
    and update_locked: "tsd_runtime_safety_write_enter p = (Inr u, p') \<Longrightarrow>
      update t p = tsd_runtime_safety_write_leave (assign t p') \<or> telemetry_throws p' \<and>
      update t p = tsd_runtime_wide_admission_close (tsd_runtime_safety_write_leave p')"
    and update_failed: "tsd_runtime_safety_write_enter p = (Inl e, p') \<Longrightarrow> update t p = p'"
begin

text \<open>Whatever is published, afterwards admission is open exactly when a wide width is authorized.\<close>

lemma admission_exact:
  assumes "fst (tsd_runtime_safety_write_enter p) = ok"
  shows "wide_admission_open (update t p) = wide_conditions (update t p)"
proof -
  obtain p' where "tsd_runtime_safety_write_enter p = (ok, p')" using assms by (metis prod.collapse)
  from update_locked [OF this, of t] show ?thesis
    by (auto simp: safety_write_leave_open tsd_runtime_wide_admission_close_def)
      (simp add: wide_conditions_def guard_live_def)
qed

lemma keeps_counters: "counters_same p (update t p)"
proof (rule safety_write_enter_cases [of p])
  fix rcs assume e: "tsd_runtime_safety_write_enter p = (ok, p\<lparr>guard_lock_rcs := rcs, wide_admission_open := False\<rparr>)"
  show ?thesis using update_locked [OF e, of t] assign_counters [of "p\<lparr>guard_lock_rcs := rcs, wide_admission_open := False\<rparr>" t]
    by (auto simp: counters_same_def tsd_runtime_wide_admission_close_def)
next
  fix e rcs assume e: "tsd_runtime_safety_write_enter p = (Inl e, p\<lparr>guard_lock_rcs := rcs\<rparr>)"
  show ?thesis using update_failed [OF e, of t] by (simp add: counters_same_def)
qed

lemma failed_lock_keeps:
  assumes "fst (tsd_runtime_safety_write_enter p) \<noteq> ok"
  shows "wide_admission_open (update t p) = wide_admission_open p \<and> wide_conditions (update t p) = wide_conditions p"
proof (rule safety_write_enter_cases [of p])
  fix rcs assume "tsd_runtime_safety_write_enter p = (ok, p\<lparr>guard_lock_rcs := rcs, wide_admission_open := False\<rparr>)"
  then show ?thesis using assms by simp
next
  fix e rcs assume "tsd_runtime_safety_write_enter p = (Inl e, p\<lparr>guard_lock_rcs := rcs\<rparr>)"
  from update_failed [OF this, of t] show ?thesis by simp
qed

end

lemma write_leave_sandbox_only:
  "tsd_runtime_safety_write_leave (p\<lparr>sandbox_only := b\<rparr>) = (tsd_runtime_safety_write_leave p)\<lparr>sandbox_only := b\<rparr>"
proof -
  have "wide_conditions (p\<lparr>sandbox_only := b\<rparr>) = wide_conditions p" "reads_limits (p\<lparr>sandbox_only := b\<rparr>) = reads_limits p"
    by (simp_all add: wide_condition_defs reads_limits_def transitions_iff safety_limits_def safety_config_snapshot_def
      tsd_runtime_config_active_snapshot_def cong: option.case_cong)
  moreover have "capture_limits (p\<lparr>sandbox_only := b\<rparr>) = (capture_limits p)\<lparr>sandbox_only := b\<rparr>"
    by (simp add: capture_limits_def safety_config_snapshot_def tsd_runtime_config_active_snapshot_def Let_def)
  ultimately show ?thesis
    by (simp add: tsd_runtime_safety_write_leave_def width_authorized_pair)
qed

lemmas update_defs = tsd_observability_update_fusion_def tsd_observability_update_temperature_channels_def
  tsd_observability_update_perf_def tsd_runtime_flags_init_def tsd_runtime_flags_record_sandbox_success_def
  tsd_runtime_flags_record_sandbox_failure_def

interpretation fusion_update: guarded_update "\<lambda>t. tsd_observability_update_fusion (Some t)"
    "\<lambda>t p. p\<lparr>telemetry := fusion_assign (system_now p) (steady_now p) t (telemetry p)\<rparr>"
  by unfold_locales (simp_all add: counters_same_def update_defs)

interpretation channels_update: guarded_update "\<lambda>t. tsd_observability_update_temperature_channels (Some t)"
    "\<lambda>t p. p\<lparr>telemetry := temperature_channels_assign (system_now p) (steady_now p) t (telemetry p)\<rparr>"
  by unfold_locales (simp_all add: counters_same_def update_defs)

interpretation perf_update: guarded_update "\<lambda>t. tsd_observability_update_perf (Some t)"
    "\<lambda>t p. p\<lparr>telemetry := perf_assign (system_now p) (steady_now p) t (telemetry p)\<rparr>"
  by unfold_locales (simp_all add: counters_same_def update_defs)

interpretation flags_init: guarded_update "\<lambda>_::unit. tsd_runtime_flags_init"
    "\<lambda>_ p. (set_message_locked (Some ''sandbox pending'') p)
       \<lparr>sandbox_success := False, sandbox_complete := False, sandbox_only := False\<rparr>"
  by unfold_locales (simp_all add: counters_same_def update_defs set_message_locked_def write_leave_sandbox_only)

interpretation sandbox_success_update: guarded_update "\<lambda>_::unit. tsd_runtime_flags_record_sandbox_success"
    "\<lambda>_ p. (set_message_locked (Some ''sandbox passed'') p)\<lparr>sandbox_success := True, sandbox_complete := True\<rparr>"
  by unfold_locales (simp_all add: counters_same_def update_defs set_message_locked_def)

interpretation sandbox_failure_update: guarded_update tsd_runtime_flags_record_sandbox_failure
    "\<lambda>msg p. (set_message_locked msg p)\<lparr>sandbox_success := False, sandbox_complete := True\<rparr>"
  by unfold_locales (simp_all add: counters_same_def update_defs set_message_locked_def)

section \<open>The temperature gate\<close>

text \<open>The state before the selection is driven back.\<close>

definition gate_published :: "bool \<Rightarrow> 'a proc_scheme \<Rightarrow> 'a proc_scheme" where
  "gate_published b p = (case tsd_runtime_safety_write_enter p of
     (Inr _, p) \<Rightarrow> tsd_runtime_safety_write_leave (p\<lparr>temperature_upgrade_allowed := b\<rparr>)
   | (Inl _, p) \<Rightarrow> p\<lparr>temperature_upgrade_allowed := False\<rparr>)"

lemma gate_upd_frame [simp, tsd_frame]:
  "tramp_inv sha256 (p\<lparr>temperature_upgrade_allowed := b\<rparr>) = tramp_inv sha256 p"
  "os_grants (p\<lparr>temperature_upgrade_allowed := b\<rparr>) = os_grants p"
  "os_grants (p\<lparr>wide_admission_open := a\<rparr>) = os_grants p"
  by (simp_all add: tramp_inv_def code_page_inv_def selection_inv_def mmap_sane_def os_grants_def)

lemma capture_limits_tramp [simp, tsd_frame]: "tstate (capture_limits p) = tstate p"
  by (simp add: capture_limits_def safety_config_snapshot_def Let_def)

lemma write_leave_gate [simp, tsd_frame]:
  "os_grants (tsd_runtime_safety_write_leave p) = os_grants p"
  "tstate (tsd_runtime_safety_write_leave p) = tstate p"
  by (simp_all add: tsd_runtime_safety_write_leave_def width_authorized_pair)

lemma os_grants_locked: "os_grants p \<Longrightarrow> os_grants (p\<lparr>guard_lock_rcs := []\<rparr>)"
  by (simp add: os_grants_def)

lemma gate_published_frame [simp, tsd_frame]:
  "tramp_inv sha256 (gate_published b p) = tramp_inv sha256 p"
  "tstate (gate_published b p) = tstate p"
  "host (gate_published b p) = host p"
  by (rule safety_write_enter_cases [of p]; simp add: gate_published_def)+

lemma gate_published_bit:
  "fusion_running (gate_published b p) = fusion_running p"
  "temperature_upgrade_allowed (gate_published b p) \<Longrightarrow> b"
  by (rule safety_write_enter_cases [of p]; simp add: gate_published_def)+

lemma gate_published_os: "os_grants p \<Longrightarrow> os_grants (gate_published b p)"
  using os_grants_locked [of p]
  by (simp add: gate_published_def tsd_runtime_safety_write_enter_def tsd_runtime_wide_admission_close_def
    os_grants_def [of p])

lemma gate_closed_conditions: "fusion_running p \<Longrightarrow> \<not> wide_conditions (gate_published False p)"
  using gate_published_bit [of False p] by (auto simp: wide_conditions_def)

lemma update_temperature_gate_closed:
  "update_temperature_gate_unlocked sha256 False p =
     (let q = gate_published False p in
      if trampoline_initialized (tstate q) \<and> tsd_trampoline_state_current_width (tstate q) \<noteq> SIMD_SSE41
      then snd (tsd_trampoline_patch sha256 SIMD_SSE41 q) else q)"
  by (rule safety_write_enter_cases [of p]) (simp_all add: update_temperature_gate_unlocked_def gate_published_def Let_def)

section \<open>Properties\<close>

text \<open>
  C7. Every publication into the guard state - fusion, temperature channels, counters, a sandbox
  reset, pass or failure - that gets the lock leaves wide admission open exactly when the state it
  published authorizes a wide width, also when the telemetry lock throws halfway; it never touches
  the execution counters, the owner or the stop flag.
\<close>
theorem publication_admission_exact:
  assumes "fst (tsd_runtime_safety_write_enter p) = ok"
    "f \<in> {tsd_observability_update_fusion (Some t), tsd_observability_update_temperature_channels (Some ch),
      tsd_observability_update_perf (Some pf), tsd_runtime_flags_init, tsd_runtime_flags_record_sandbox_success,
      tsd_runtime_flags_record_sandbox_failure msg}"
  shows "wide_admission_open (f p) = fst (tsd_runtime_width_authorized SIMD_AVX2 (f p)) \<and> counters_same p (f p)"
  using assms(2) fusion_update.admission_exact [OF assms(1)] channels_update.admission_exact [OF assms(1)]
    perf_update.admission_exact [OF assms(1)] flags_init.admission_exact [OF assms(1)]
    sandbox_success_update.admission_exact [OF assms(1)] sandbox_failure_update.admission_exact [OF assms(1)]
    fusion_update.keeps_counters channels_update.keeps_counters perf_update.keeps_counters flags_init.keeps_counters
    sandbox_success_update.keeps_counters sandbox_failure_update.keeps_counters
  by (auto simp: width_authorized_pair)

theorem publication_admission_exact_witness:
  "wide_admission_open (tsd_runtime_flags_record_sandbox_success proc_init) =
     fst (tsd_runtime_width_authorized SIMD_AVX2 (tsd_runtime_flags_record_sandbox_success proc_init)) \<and>
   sandbox_message (tsd_runtime_flags_record_sandbox_success proc_init) = ''sandbox passed''"
proof -
  have "fst (tsd_runtime_safety_write_enter proc_init) = ok"
    by (simp add: tsd_runtime_safety_write_enter_def proc_init_def)
  then show ?thesis using publication_admission_exact [of proc_init tsd_runtime_flags_record_sandbox_success]
    by (simp add: tsd_runtime_flags_record_sandbox_success_def set_message_locked_def tsd_runtime_safety_write_enter_def proc_init_def)
qed

text \<open>
  C8. Losing the temperature fails closed: while telemetry fusion runs, a gate update without a raw
  temperature leaves no wide width authorized and every wide entry refused, whether or not the lock
  was obtained; the selection is the old one or SSE4.1, and it is SSE4.1 if the trampoline is
  initialised and the operating system grants what the selector asks for.
\<close>
theorem temperature_loss_fails_closed:
  assumes "tramp_inv sha256 p" "fusion_running p" "w \<noteq> SIMD_SSE41"
  shows "let q = update_temperature_gate_unlocked sha256 False p in
    \<not> fst (tsd_runtime_width_authorized w q) \<and> fst (tsd_runtime_execution_enter tid w q) \<noteq> ok \<and>
    (tsd_trampoline_state_snapshot (tstate q) = tsd_trampoline_state_snapshot (tstate p) \<or>
     tsd_trampoline_state_current_width (tstate q) = SIMD_SSE41) \<and>
    (trampoline_initialized (tstate p) \<and> os_grants p \<and> tsd_cpu_has_sse41 (host p) \<and> (\<forall>c. sha256 c \<noteq> None) \<longrightarrow>
     tsd_trampoline_state_current_width (tstate q) = SIMD_SSE41)"
proof -
  define g where "g = gate_published False p"
  have g: "tramp_inv sha256 g" "\<not> wide_conditions g" "tstate g = tstate p" "host g = host p"
    using assms gate_closed_conditions by (simp_all add: g_def)
  obtain r q where q: "tsd_trampoline_patch sha256 SIMD_SSE41 g = (r, q)" by fastforce
  have o: "patch_outcome sha256 SIMD_SSE41 g r q" using g(1) q by (rule patch_result)
  have refused: "\<not> wide_conditions s \<Longrightarrow> \<not> fst (tsd_runtime_width_authorized w s) \<and>
    fst (tsd_runtime_execution_enter tid w s) \<noteq> ok" for s :: "'a tproc_scheme"
    using assms(3) by (cases "width_valid w")
      (simp_all add: width_authorized_pair execution_enter_wide tsd_runtime_execution_enter_def)
  have sel: "if r = ok then tsd_trampoline_state_current_width (tstate q) = SIMD_SSE41
      else tsd_trampoline_state_snapshot (tstate q) = tsd_trampoline_state_snapshot (tstate p)"
    using o g(3) by (cases "r = ok")
      (simp_all add: patch_outcome_def selected_def selection_same_def tsd_trampoline_state_current_width_def)
  have live: "r = ok" if "os_grants p" "tsd_cpu_has_sse41 (host p)" "\<forall>c. sha256 c \<noteq> None"
    using patch_live [of sha256 g SIMD_SSE41] that g gate_published_os [of p False] q
    by (simp add: g_def width_authorized_pair)
  show ?thesis using g(2,3) refused [of g] refused [of q] sel live q o
    by (cases "r = ok") (auto simp: update_temperature_gate_closed Let_def g_def [symmetric] patch_outcome_def)
qed

theorem temperature_loss_fails_closed_witness:
  "fst (tsd_runtime_execution_enter 1 SIMD_AVX2
     (update_temperature_gate_unlocked Some False (example_tproc\<lparr>fusion_running := True\<rparr>))) \<noteq> ok"
proof -
  have "tramp_inv Some (example_tproc\<lparr>fusion_running := True\<rparr>)"
    using example_inv [of Some] by (simp add: tramp_inv_def code_page_inv_def selection_inv_def mmap_sane_def)
  from temperature_loss_fails_closed [OF this, of SIMD_AVX2 1] show ?thesis by (simp add: Let_def)
qed

text \<open>
  The sandbox verdict decides: after a recorded failure no wide width is authorized and the
  status message is the reported one, cut to 255 characters, or a fixed text when it is empty;
  after a recorded pass transitions are allowed exactly when the temperature gate allows them.
\<close>
theorem sandbox_verdict_decides:
  assumes "fst (tsd_runtime_safety_write_enter p) = ok" "w \<noteq> SIMD_SSE41"
  shows "let q = tsd_runtime_flags_record_sandbox_failure msg p in
     \<not> fst (tsd_runtime_width_authorized w q) \<and> \<not> tsd_runtime_flags_allow_transitions q \<and>
     tsd_runtime_flags_status_message q =
       (if msg = None \<or> msg = Some [] then ''sandbox failed'' else take 255 (the msg)) \<and>
     tsd_runtime_flags_allow_transitions (tsd_runtime_flags_record_sandbox_success p) =
       tsd_telemetry_temperature_upgrade_allowed p"
proof (rule safety_write_enter_cases [of p])
  fix rcs assume "tsd_runtime_safety_write_enter p = (ok, p\<lparr>guard_lock_rcs := rcs, wide_admission_open := False\<rparr>)"
  then show ?thesis using assms(2)
    by (auto simp: Let_def width_authorized_pair wide_conditions_def transitions_iff set_message_locked_def
      tsd_runtime_flags_record_sandbox_failure_def tsd_runtime_flags_record_sandbox_success_def
      tsd_runtime_flags_status_message_def split: option.splits)
qed (use assms(1) in simp)

theorem sandbox_verdict_decides_witness:
  "tsd_runtime_flags_status_message (tsd_runtime_flags_record_sandbox_failure (Some ''bad maps'') proc_init) = ''bad maps''"
proof -
  have "fst (tsd_runtime_safety_write_enter proc_init) = ok"
    by (simp add: tsd_runtime_safety_write_enter_def proc_init_def)
  from sandbox_verdict_decides [OF this, of SIMD_AVX2 "Some ''bad maps''"] show ?thesis by (simp add: Let_def)
qed

end
