(* ===== verification/Adaptive_Dispatch.thy ===== *)
theory Adaptive_Dispatch
  imports Guarded_Updates
begin

text \<open>
  The application-facing dispatch of \<^verbatim>\<open>src/dispatch/adaptive_dispatch.c\<close>: registration of kernel
  variants, resolution of the width, admission with a local fallback, the cancellation-safe call of
  the kernel, accounting, and the chunked loops, for the legacy and the offset-aware interface.
  A kernel is application code: the functions that call one take what it does to the state as an
  argument.
\<close>

section \<open>State and types\<close>

text \<open>
  What \<^verbatim>\<open>pthread_setcancelstate\<close> does: succeed, fail with a code, or let a cancellation act on the
  thread at that point. A kernel returns a code or ends the thread (\<^verbatim>\<open>pthread_exit\<close>, cancellation).
\<close>

datatype cancel_result = Cancel_ok | Cancel_errno errno | Cancel_acted

datatype callback_exit = Callback_returns int | Callback_exits

text \<open>\<open>Fails e\<close> is the return value -1 with \<^verbatim>\<open>errno\<close> set; \<open>Thread_gone\<close> a call that does not return.\<close>

datatype dispatch_result = Returns int | Fails errno | Thread_gone

record 'f tsd_kernel_variants_t =
  v_sse41 :: "'f option"
  v_avx2 :: "'f option"
  v_avx512 :: "'f option"

record 'f tsd_kernel_dispatch_t =
  variants :: "'f tsd_kernel_variants_t"
  host_max :: simd_width_t

record dproc = tproc +
  workload_iterations :: u64
  cancel_results :: "cancel_result list"
  calloc_ok :: "bool list"

definition setcancelstate :: "'a dproc_scheme \<Rightarrow> cancel_result \<times> 'a dproc_scheme" where
  "setcancelstate s = (let (r, rest) = next_of Cancel_ok (cancel_results s) in (r, s\<lparr>cancel_results := rest\<rparr>))"

section \<open>Resolution\<close>

definition detect_host_max :: "'a dproc_scheme \<Rightarrow> simd_width_t" where
  "detect_host_max s = tsd_detect_max_simd (host s) (Some (zero_runtime_config\<lparr>allow_avx512 := 1\<rparr>))"

definition selected_width_snapshot :: "int \<Rightarrow> 'a dproc_scheme \<Rightarrow> simd_width_t \<times> 'a dproc_scheme" where
  "selected_width_snapshot tid s =
     (let sel = tsd_trampoline_state_current_width (tstate s)
      in if \<not> width_valid sel then (SIMD_SSE41, s)
         else if sel > SIMD_SSE41 then
           (if \<not> wide_admission_open s \<or> \<not> tsd_runtime_current_thread_is_owner tid s then (SIMD_SSE41, s)
            else (case tsd_runtime_width_authorized sel s of
                (False, s) \<Rightarrow> (SIMD_SSE41, s)
              | (True, s) \<Rightarrow> (sel, s)))
         else (sel, s))"

definition resolve_internal ::
    "int \<Rightarrow> 'f tsd_kernel_dispatch_t option \<Rightarrow> 'a dproc_scheme \<Rightarrow> (errno + simd_width_t \<times> 'f) \<times> 'a dproc_scheme" where
  "resolve_internal tid dispatch s =
     (case dispatch of
        None \<Rightarrow> (Inl EINVAL, s)
      | Some d \<Rightarrow>
          (case v_sse41 (variants d) of
             None \<Rightarrow> (Inl EINVAL, s)
           | Some sse41 \<Rightarrow>
               (case selected_width_snapshot tid s of
                  (sel, s) \<Rightarrow>
                    let sel = (if sel > host_max d then host_max d else sel)
                    in if sel \<ge> SIMD_AVX512 \<and> host_max d \<ge> SIMD_AVX512 \<and> v_avx512 (variants d) \<noteq> None
                       then (Inr (SIMD_AVX512, the (v_avx512 (variants d))), s)
                       else if sel \<ge> SIMD_AVX2 \<and> host_max d \<ge> SIMD_AVX2 \<and> v_avx2 (variants d) \<noteq> None
                       then (Inr (SIMD_AVX2, the (v_avx2 (variants d))), s)
                       else (Inr (SIMD_SSE41, sse41), s))))"

definition resolve_v2_internal ::
    "int \<Rightarrow> 'f tsd_kernel_dispatch_t option \<Rightarrow> 'a dproc_scheme \<Rightarrow> (errno + simd_width_t \<times> 'f) \<times> 'a dproc_scheme" where
  "resolve_v2_internal tid dispatch s =
     (case dispatch of
        None \<Rightarrow> (Inl EINVAL, s)
      | Some d \<Rightarrow>
          (case v_sse41 (variants d) of
             None \<Rightarrow> (Inl EINVAL, s)
           | Some sse41 \<Rightarrow>
               (case selected_width_snapshot tid s of
                  (sel, s) \<Rightarrow>
                    let sel = (if sel > host_max d then host_max d else sel)
                    in if sel \<ge> SIMD_AVX512 \<and> host_max d \<ge> SIMD_AVX512 \<and> v_avx512 (variants d) \<noteq> None
                       then (Inr (SIMD_AVX512, the (v_avx512 (variants d))), s)
                       else if sel \<ge> SIMD_AVX2 \<and> host_max d \<ge> SIMD_AVX2 \<and> v_avx2 (variants d) \<noteq> None
                       then (Inr (SIMD_AVX2, the (v_avx2 (variants d))), s)
                       else (Inr (SIMD_SSE41, sse41), s))))"

section \<open>Admission, accounting, registration\<close>

definition enter_or_fallback_v1 ::
    "int \<Rightarrow> 'f tsd_kernel_dispatch_t \<Rightarrow> simd_width_t \<times> 'f \<Rightarrow> 'a dproc_scheme \<Rightarrow> (errno + simd_width_t \<times> 'f) \<times> 'a dproc_scheme" where
  "enter_or_fallback_v1 tid d chosen s =
     (let (actual, fn) = chosen
      in (case tsd_runtime_execution_enter tid actual s of
          (Inr _, s) \<Rightarrow> (Inr (actual, fn), s)
        | (Inl e, s) \<Rightarrow>
            if actual \<le> SIMD_SSE41 \<or> e \<noteq> EAGAIN then (Inl e, s)
            else (case tsd_runtime_execution_enter tid SIMD_SSE41 s of
                (Inl e, s) \<Rightarrow> (Inl e, s)
              | (Inr _, s) \<Rightarrow> (Inr (SIMD_SSE41, the (v_sse41 (variants d))), s))))"

definition enter_or_fallback_v2 ::
    "int \<Rightarrow> 'f tsd_kernel_dispatch_t \<Rightarrow> simd_width_t \<times> 'f \<Rightarrow> 'a dproc_scheme \<Rightarrow> (errno + simd_width_t \<times> 'f) \<times> 'a dproc_scheme" where
  "enter_or_fallback_v2 tid d chosen s =
     (let (actual, fn) = chosen
      in (case tsd_runtime_execution_enter tid actual s of
          (Inr _, s) \<Rightarrow> (Inr (actual, fn), s)
        | (Inl e, s) \<Rightarrow>
            if actual \<le> SIMD_SSE41 \<or> e \<noteq> EAGAIN then (Inl e, s)
            else (case tsd_runtime_execution_enter tid SIMD_SSE41 s of
                (Inl e, s) \<Rightarrow> (Inl e, s)
              | (Inr _, s) \<Rightarrow> (Inr (SIMD_SSE41, the (v_sse41 (variants d))), s))))"

definition account_completed_work :: "int \<Rightarrow> u64 \<Rightarrow> 'a dproc_scheme \<Rightarrow> 'a dproc_scheme" where
  "account_completed_work tid work_items s =
     (if work_items > 0 \<and> tsd_runtime_work_accounting_allowed tid s
      then s\<lparr>workload_iterations := workload_iterations s + work_items\<rparr> else s)"

text \<open>
  Creation: the second argument says whether the caller passed a place for the result, the second
  component of the result is what that place holds afterwards.
\<close>

definition tsd_kernel_dispatch_create ::
    "'f tsd_kernel_variants_t option \<Rightarrow> bool \<Rightarrow> 'a dproc_scheme \<Rightarrow>
     rc \<times> 'f tsd_kernel_dispatch_t option \<times> 'a dproc_scheme" where
  "tsd_kernel_dispatch_create vs out s =
     (if vs = None \<or> \<not> out \<or> v_sse41 (the vs) = None then (Inl EINVAL, None, s)
      else if \<not> tsd_cpu_has_sse41 (host s) then (Inl ENOTSUP, None, s)
      else let (allocated, rest) = next_of True (calloc_ok s); s = s\<lparr>calloc_ok := rest\<rparr>
           in if \<not> allocated then (Inl ENOMEM, None, s)
              else let m = detect_host_max s
                   in (ok, Some \<lparr>variants = the vs, host_max = (if \<not> width_valid m then SIMD_SSE41 else m)\<rparr>, s))"

definition tsd_kernel_dispatch_v2_create ::
    "'f tsd_kernel_variants_t option \<Rightarrow> bool \<Rightarrow> 'a dproc_scheme \<Rightarrow>
     rc \<times> 'f tsd_kernel_dispatch_t option \<times> 'a dproc_scheme" where
  "tsd_kernel_dispatch_v2_create vs out s =
     (if vs = None \<or> \<not> out \<or> v_sse41 (the vs) = None then (Inl EINVAL, None, s)
      else if \<not> tsd_cpu_has_sse41 (host s) then (Inl ENOTSUP, None, s)
      else let (allocated, rest) = next_of True (calloc_ok s); s = s\<lparr>calloc_ok := rest\<rparr>
           in if \<not> allocated then (Inl ENOMEM, None, s)
              else let m = detect_host_max s
                   in (ok, Some \<lparr>variants = the vs, host_max = (if \<not> width_valid m then SIMD_SSE41 else m)\<rparr>, s))"

text \<open>\<open>out\<close> says whether the caller passed a place for the width.\<close>

definition tsd_kernel_dispatch_resolve ::
    "int \<Rightarrow> 'f tsd_kernel_dispatch_t option \<Rightarrow> bool \<Rightarrow> 'a dproc_scheme \<Rightarrow> (errno + simd_width_t) \<times> 'a dproc_scheme" where
  "tsd_kernel_dispatch_resolve tid dispatch out s =
     (if \<not> out then (Inl EINVAL, s)
      else (case resolve_internal tid dispatch s of
          (Inl e, s) \<Rightarrow> (Inl e, s) | (Inr (w, _), s) \<Rightarrow> (Inr w, s)))"

definition tsd_kernel_dispatch_v2_resolve ::
    "int \<Rightarrow> 'f tsd_kernel_dispatch_t option \<Rightarrow> bool \<Rightarrow> 'a dproc_scheme \<Rightarrow> (errno + simd_width_t) \<times> 'a dproc_scheme" where
  "tsd_kernel_dispatch_v2_resolve tid dispatch out s =
     (if \<not> out then (Inl EINVAL, s)
      else (case resolve_v2_internal tid dispatch s of
          (Inl e, s) \<Rightarrow> (Inl e, s) | (Inr (w, _), s) \<Rightarrow> (Inr w, s)))"

section \<open>Execution\<close>

text \<open>
  \<open>execution_cleanup_handler\<close> runs when the thread ends inside the bracket and at its normal end,
  so every path through the bracket goes through it.
\<close>

definition execution_cleanup_handler :: "int \<Rightarrow> simd_width_t \<Rightarrow> 'a dproc_scheme \<Rightarrow> 'a dproc_scheme" where
  "execution_cleanup_handler tid width s = tsd_runtime_execution_leave tid width s"

text \<open>The error paths: the cancellation state is restored, its result ignored, the error reported.\<close>

definition restore_and_fail :: "errno \<Rightarrow> simd_width_t option \<Rightarrow> 'a dproc_scheme \<Rightarrow>
    dispatch_result \<times> simd_width_t option \<times> 'a dproc_scheme" where
  "restore_and_fail e used s =
     (case setcancelstate s of (Cancel_acted, s) \<Rightarrow> (Thread_gone, used, s) | (_, s) \<Rightarrow> (Fails e, used, s))"

text \<open>From \<^verbatim>\<open>pthread_cleanup_push\<close> to \<^verbatim>\<open>pthread_cleanup_pop(1)\<close>: \<open>Fails\<close> is a callback not completed.\<close>

definition callback_bracket_v1 ::
    "int \<Rightarrow> ('f \<Rightarrow> u64 \<Rightarrow> 'a dproc_scheme \<Rightarrow> callback_exit \<times> 'a dproc_scheme) \<Rightarrow> simd_width_t \<Rightarrow> 'f \<Rightarrow> u64 \<Rightarrow>
     'a dproc_scheme \<Rightarrow> dispatch_result \<times> simd_width_t option \<times> 'a dproc_scheme" where
  "callback_bracket_v1 tid run actual fn work_items s =
     (case setcancelstate s of
        (Cancel_acted, s) \<Rightarrow> (Thread_gone, None, execution_cleanup_handler tid actual s)
      | (Cancel_errno e, s) \<Rightarrow> (Fails e, None, execution_cleanup_handler tid actual s)
      | (Cancel_ok, s) \<Rightarrow>
          (case run fn work_items s of
             (Callback_exits, s) \<Rightarrow> (Thread_gone, None, execution_cleanup_handler tid actual s)
           | (Callback_returns _, s) \<Rightarrow>
               (case setcancelstate s of
                  (Cancel_acted, s) \<Rightarrow> (Thread_gone, None, execution_cleanup_handler tid actual s)
                | (Cancel_errno e, s) \<Rightarrow> (Fails e, None, execution_cleanup_handler tid actual s)
                | (Cancel_ok, s) \<Rightarrow>
                    (Returns 0, Some actual, execution_cleanup_handler tid actual
                      (account_completed_work tid work_items s)))))"

definition callback_bracket_v2 ::
    "int \<Rightarrow> ('f \<Rightarrow> u64 \<Rightarrow> u64 \<Rightarrow> 'a dproc_scheme \<Rightarrow> callback_exit \<times> 'a dproc_scheme) \<Rightarrow> simd_width_t \<Rightarrow> 'f \<Rightarrow> u64 \<Rightarrow> u64 \<Rightarrow>
     'a dproc_scheme \<Rightarrow> dispatch_result \<times> simd_width_t option \<times> 'a dproc_scheme" where
  "callback_bracket_v2 tid run actual fn offset work_items s =
     (case setcancelstate s of
        (Cancel_acted, s) \<Rightarrow> (Thread_gone, None, execution_cleanup_handler tid actual s)
      | (Cancel_errno e, s) \<Rightarrow> (Fails e, None, execution_cleanup_handler tid actual s)
      | (Cancel_ok, s) \<Rightarrow>
          (case run fn offset work_items s of
             (Callback_exits, s) \<Rightarrow> (Thread_gone, None, execution_cleanup_handler tid actual s)
           | (Callback_returns rc, s) \<Rightarrow>
               (case setcancelstate s of
                  (Cancel_acted, s) \<Rightarrow> (Thread_gone, None, execution_cleanup_handler tid actual s)
                | (Cancel_errno e, s) \<Rightarrow> (Fails e, None, execution_cleanup_handler tid actual s)
                | (Cancel_ok, s) \<Rightarrow>
                    if rc = 0
                    then (Returns rc, Some actual, execution_cleanup_handler tid actual
                           (account_completed_work tid work_items s))
                    else (Returns rc, None, execution_cleanup_handler tid actual s))))"

text \<open>After the pop: restore the cancellation state and report.\<close>

definition finish_execute :: "dispatch_result \<times> simd_width_t option \<times> 'a dproc_scheme \<Rightarrow>
    dispatch_result \<times> simd_width_t option \<times> 'a dproc_scheme" where
  "finish_execute r =
     (case r of
        (Thread_gone, used, s) \<Rightarrow> (Thread_gone, used, s)
      | (Fails e, used, s) \<Rightarrow> restore_and_fail e used s
      | (Returns rc, used, s) \<Rightarrow>
          (case setcancelstate s of
             (Cancel_ok, s) \<Rightarrow> (Returns rc, used, s)
           | (Cancel_errno e, s) \<Rightarrow> (Fails e, used, s)
           | (Cancel_acted, s) \<Rightarrow> (Thread_gone, used, s)))"

definition tsd_kernel_dispatch_execute ::
    "int \<Rightarrow> ('f \<Rightarrow> u64 \<Rightarrow> 'a dproc_scheme \<Rightarrow> callback_exit \<times> 'a dproc_scheme) \<Rightarrow> 'f tsd_kernel_dispatch_t option \<Rightarrow> u64 \<Rightarrow>
     'a dproc_scheme \<Rightarrow> dispatch_result \<times> simd_width_t option \<times> 'a dproc_scheme" where
  "tsd_kernel_dispatch_execute tid run dispatch work_items s =
     (case setcancelstate s of
        (Cancel_acted, s) \<Rightarrow> (Thread_gone, None, s)
      | (Cancel_errno e, s) \<Rightarrow> (Fails e, None, s)
      | (Cancel_ok, s) \<Rightarrow>
          (case resolve_internal tid dispatch s of
             (Inl e, s) \<Rightarrow> restore_and_fail e None s
           | (Inr chosen, s) \<Rightarrow>
               (case enter_or_fallback_v1 tid (the dispatch) chosen s of
                  (Inl e, s) \<Rightarrow> restore_and_fail e None s
                | (Inr (actual, fn), s) \<Rightarrow>
                    finish_execute (callback_bracket_v1 tid run actual fn work_items s))))"

definition tsd_kernel_dispatch_v2_execute ::
    "int \<Rightarrow> ('f \<Rightarrow> u64 \<Rightarrow> u64 \<Rightarrow> 'a dproc_scheme \<Rightarrow> callback_exit \<times> 'a dproc_scheme) \<Rightarrow> 'f tsd_kernel_dispatch_t option \<Rightarrow>
     u64 \<Rightarrow> u64 \<Rightarrow> 'a dproc_scheme \<Rightarrow> dispatch_result \<times> simd_width_t option \<times> 'a dproc_scheme" where
  "tsd_kernel_dispatch_v2_execute tid run dispatch offset work_items s =
     (case setcancelstate s of
        (Cancel_acted, s) \<Rightarrow> (Thread_gone, None, s)
      | (Cancel_errno e, s) \<Rightarrow> (Fails e, None, s)
      | (Cancel_ok, s) \<Rightarrow>
          (case resolve_v2_internal tid dispatch s of
             (Inl e, s) \<Rightarrow> restore_and_fail e None s
           | (Inr chosen, s) \<Rightarrow>
               (case enter_or_fallback_v2 tid (the dispatch) chosen s of
                  (Inl e, s) \<Rightarrow> restore_and_fail e None s
                | (Inr (actual, fn), s) \<Rightarrow>
                    finish_execute (callback_bracket_v2 tid run actual fn offset work_items s))))"

section \<open>Chunked execution\<close>

text \<open>
  The loops. \<open>exec\<close> is the execution of one chunk; \<^term>\<open>None\<close> would be a loop that never ends.
\<close>

partial_function (option) chunk_loop_v1 ::
    "(u64 \<Rightarrow> 's \<Rightarrow> dispatch_result \<times> simd_width_t option \<times> 's) \<Rightarrow> u64 \<Rightarrow> u64 \<Rightarrow> simd_width_t \<Rightarrow> 's \<Rightarrow>
     (dispatch_result \<times> simd_width_t option \<times> 's) option" where
  "chunk_loop_v1 exec max_chunk_items remaining last_w s =
     (if remaining > 0
      then let chunk = (if remaining < max_chunk_items then remaining else max_chunk_items);
               (r, used, s) = exec chunk s
           in if r \<noteq> Returns 0 then Some (r, None, s)
              else chunk_loop_v1 exec max_chunk_items (remaining - chunk) (case used of None \<Rightarrow> last_w | Some w \<Rightarrow> w) s
      else Some (Returns 0, Some last_w, s))"

definition tsd_kernel_dispatch_execute_chunked ::
    "int \<Rightarrow> ('f \<Rightarrow> u64 \<Rightarrow> 'a dproc_scheme \<Rightarrow> callback_exit \<times> 'a dproc_scheme) \<Rightarrow> 'f tsd_kernel_dispatch_t option \<Rightarrow> u64 \<Rightarrow> u64 \<Rightarrow>
     bool \<Rightarrow> 'a dproc_scheme \<Rightarrow> (dispatch_result \<times> simd_width_t option \<times> 'a dproc_scheme) option" where
  "tsd_kernel_dispatch_execute_chunked tid run dispatch total_work_items max_chunk_items out s =
     (if dispatch = None \<or> max_chunk_items = 0 then Some (Fails EINVAL, None, s)
      else if total_work_items = 0 then
        (if out then (case tsd_kernel_dispatch_resolve tid dispatch True s of
             (Inl e, s) \<Rightarrow> Some (Fails e, None, s) | (Inr w, s) \<Rightarrow> Some (Returns 0, Some w, s))
         else Some (Returns 0, None, s))
      else chunk_loop_v1 (tsd_kernel_dispatch_execute tid run dispatch) max_chunk_items total_work_items SIMD_SSE41 s)"

partial_function (option) chunk_loop_v2 ::
    "(u64 \<Rightarrow> u64 \<Rightarrow> 's \<Rightarrow> dispatch_result \<times> simd_width_t option \<times> 's) \<Rightarrow> u64 \<Rightarrow> u64 \<Rightarrow> u64 \<Rightarrow> simd_width_t \<Rightarrow> 's \<Rightarrow>
     (dispatch_result \<times> simd_width_t option \<times> 's) option" where
  "chunk_loop_v2 exec max_chunk_items offset remaining last_w s =
     (if remaining > 0
      then let chunk = (if remaining < max_chunk_items then remaining else max_chunk_items);
               (r, used, s) = exec offset chunk s
           in if r \<noteq> Returns 0 then Some (r, None, s)
              else chunk_loop_v2 exec max_chunk_items (offset + chunk) (remaining - chunk)
                     (case used of None \<Rightarrow> last_w | Some w \<Rightarrow> w) s
      else Some (Returns 0, Some last_w, s))"

definition tsd_kernel_dispatch_v2_execute_chunked ::
    "int \<Rightarrow> ('f \<Rightarrow> u64 \<Rightarrow> u64 \<Rightarrow> 'a dproc_scheme \<Rightarrow> callback_exit \<times> 'a dproc_scheme) \<Rightarrow> 'f tsd_kernel_dispatch_t option \<Rightarrow>
     u64 \<Rightarrow> u64 \<Rightarrow> u64 \<Rightarrow> bool \<Rightarrow> 'a dproc_scheme \<Rightarrow> (dispatch_result \<times> simd_width_t option \<times> 'a dproc_scheme) option" where
  "tsd_kernel_dispatch_v2_execute_chunked tid run dispatch initial_offset total_work_items max_chunk_items out s =
     (if dispatch = None \<or> max_chunk_items = 0 \<or> initial_offset > - 1 - total_work_items
      then Some (Fails EINVAL, None, s)
      else if total_work_items = 0 then
        (if out then (case tsd_kernel_dispatch_v2_resolve tid dispatch True s of
             (Inl e, s) \<Rightarrow> Some (Fails e, None, s) | (Inr w, s) \<Rightarrow> Some (Returns 0, Some w, s))
         else Some (Returns 0, None, s))
      else chunk_loop_v2 (tsd_kernel_dispatch_v2_execute tid run dispatch) max_chunk_items initial_offset
             total_work_items SIMD_SSE41 s)"

section \<open>Both interfaces agree\<close>

lemma v2_agrees:
  "resolve_v2_internal = resolve_internal" "enter_or_fallback_v2 = enter_or_fallback_v1"
  "tsd_kernel_dispatch_v2_create = tsd_kernel_dispatch_create"
  "tsd_kernel_dispatch_v2_resolve = tsd_kernel_dispatch_resolve"
  by (simp_all add: fun_eq_iff resolve_v2_internal_def resolve_internal_def enter_or_fallback_v2_def
    enter_or_fallback_v1_def tsd_kernel_dispatch_v2_create_def tsd_kernel_dispatch_create_def
    tsd_kernel_dispatch_v2_resolve_def tsd_kernel_dispatch_resolve_def)

section \<open>Resolution\<close>

text \<open>The width the selection allows this thread, and the variant registered for a width.\<close>

definition selection_limit :: "int \<Rightarrow> 'a dproc_scheme \<Rightarrow> simd_width_t" where
  "selection_limit tid s = (let w = tsd_trampoline_state_current_width (tstate s) in
     if width_valid w \<and> wide_admission_open s \<and> tsd_runtime_current_thread_is_owner tid s \<and> wide_conditions s
     then w else SIMD_SSE41)"

definition variant_for :: "'f tsd_kernel_variants_t \<Rightarrow> simd_width_t \<Rightarrow> 'f option" where
  "variant_for vs w = (case w of SIMD_SSE41 \<Rightarrow> v_sse41 vs | SIMD_AVX2 \<Rightarrow> v_avx2 vs
     | SIMD_AVX512 \<Rightarrow> v_avx512 vs | SIMD_OTHER _ \<Rightarrow> None)"

text \<open>A state that differs from another only in the captured limits.\<close>

definition captured :: "'a proc_scheme \<Rightarrow> 'a proc_scheme \<Rightarrow> bool" where
  "captured s s' = (s' = s \<or> s' = capture_limits s)"

lemma captured_same:
  assumes "captured s s'"
  shows "active_wide_executions s' = active_wide_executions s" "wide_execution_depth s' = wide_execution_depth s"
    "wide_admission_open s' = wide_admission_open s" "wide_conditions s' = wide_conditions s"
    "tsd_runtime_current_thread_is_owner tid s' = tsd_runtime_current_thread_is_owner tid s"
    "telemetry s' = telemetry s" "telemetry_throws s' = telemetry_throws s" "proc.more s' = proc.more s"
  using assms by (auto simp: captured_def)

lemma captured_dproc:
  assumes "captured s s'"
  shows "tstate s' = tstate s" "cancel_results s' = cancel_results s" "workload_iterations s' = workload_iterations s"
    "dproc.more s' = dproc.more s" "host s' = host s"
  using captured_same(8) [OF assms] by (cases s; cases s'; simp)+

lemma snapshot_result:
  assumes "selected_width_snapshot tid s = (w, s')"
  shows "w = selection_limit tid s" "captured s s'"
proof -
  let ?c = "tsd_trampoline_state_current_width (tstate s)"
  have "w = selection_limit tid s \<and> captured s s'"
    using assms by (cases "width_valid ?c \<and> ?c \<noteq> SIMD_SSE41")
      (auto simp: selected_width_snapshot_def selection_limit_def captured_def width_authorized_wide Let_def
        split: if_splits)
  then show "w = selection_limit tid s" "captured s s'" by simp_all
qed

lemma selection_limit_valid: "width_valid (selection_limit tid s)"
  by (simp add: selection_limit_def Let_def)

text \<open>The widest registered variant at or below a bound.\<close>

definition widest :: "'f tsd_kernel_variants_t \<Rightarrow> simd_width_t \<Rightarrow> simd_width_t" where
  "widest vs b = (if b \<ge> SIMD_AVX512 \<and> v_avx512 vs \<noteq> None then SIMD_AVX512
     else if b \<ge> SIMD_AVX2 \<and> v_avx2 vs \<noteq> None then SIMD_AVX2 else SIMD_SSE41)"

lemma widest_correct:
  assumes "v_sse41 vs \<noteq> None" "width_valid b"
  shows "widest vs b \<le> b" "variant_for vs (widest vs b) \<noteq> None" "width_valid (widest vs b)"
    "v \<le> b \<Longrightarrow> variant_for vs v \<noteq> None \<Longrightarrow> v \<le> widest vs b"
  using assms by (auto simp: widest_def variant_for_def split: simd_width_t.splits)

lemma resolve_result:
  assumes "v_sse41 (variants d) \<noteq> None"
  shows "\<exists>s'. captured s s' \<and> resolve_internal tid (Some d) s =
    (let w = widest (variants d) (min (selection_limit tid s) (host_max d)) in
     (Inr (w, the (variant_for (variants d) w)), s'))"
proof -
  obtain w s' where s': "selected_width_snapshot tid s = (w, s')" by fastforce
  obtain f where "v_sse41 (variants d) = Some f" using assms by auto
  then show ?thesis using snapshot_result [OF s'] s'
    by (auto simp: resolve_internal_def widest_def variant_for_def Let_def min_def intro!: exI [of _ s'])
qed

section \<open>Admission with fallback\<close>

definition may_enter :: "int \<Rightarrow> simd_width_t \<Rightarrow> 'a proc_scheme \<Rightarrow> bool" where
  "may_enter tid w s = (w = SIMD_SSE41 \<or>
     tsd_runtime_current_thread_is_owner tid s \<and> wide_admission_open s \<and> wide_conditions s)"

text \<open>The counters with one more execution of the width.\<close>

definition entered :: "int \<Rightarrow> simd_width_t \<Rightarrow> 'a proc_scheme \<Rightarrow> 'a proc_scheme \<Rightarrow> bool" where
  "entered tid w s s' = (width_valid w \<and>
     (if w = SIMD_SSE41
      then active_wide_executions s' = active_wide_executions s \<and> wide_execution_depth s' = wide_execution_depth s
      else active_wide_executions s' = active_wide_executions s + 1 \<and>
        wide_execution_depth s' = (wide_execution_depth s)(tid := wide_execution_depth s tid + 1)))"

lemma enter_or_fallback_result:
  assumes "width_valid w" "v_sse41 (variants d) \<noteq> None"
  shows "\<exists>s'. enter_or_fallback_v1 tid d (w, f) s =
      (Inr (if may_enter tid w s then (w, f) else (SIMD_SSE41, the (v_sse41 (variants d)))), s') \<and>
    entered tid (if may_enter tid w s then w else SIMD_SSE41) s s'"
proof (cases "w = SIMD_SSE41")
  case True
  then show ?thesis by (simp add: enter_or_fallback_v1_def tsd_runtime_execution_enter_def may_enter_def entered_def)
next
  case False
  then show ?thesis using assms
    by (simp add: enter_or_fallback_v1_def execution_enter_wide may_enter_def entered_def)
      (simp add: tsd_runtime_execution_enter_def)
qed

section \<open>What an execution leaves alone\<close>

definition counts_same :: "'a proc_scheme \<Rightarrow> 'a proc_scheme \<Rightarrow> bool" where
  "counts_same s s' = (active_wide_executions s' = active_wide_executions s \<and>
     wide_execution_depth s' = wide_execution_depth s)"

text \<open>Everything resolution, admission and accounting read of the guard.\<close>

definition guard_same :: "'a proc_scheme \<Rightarrow> 'a proc_scheme \<Rightarrow> bool" where
  "guard_same s s' = (wide_admission_open s' = wide_admission_open s \<and> wide_conditions s' = wide_conditions s \<and>
     runtime_owner_tid s' = runtime_owner_tid s \<and> telemetry s' = telemetry s \<and> telemetry_throws s' = telemetry_throws s)"

lemma counts_same_trans: "counts_same s s' \<Longrightarrow> counts_same s' s'' \<Longrightarrow> counts_same s s''"
  by (simp add: counts_same_def)

lemma guard_same_trans: "guard_same s s' \<Longrightarrow> guard_same s' s'' \<Longrightarrow> guard_same s s''"
  by (simp add: guard_same_def)

lemma captured_guard_same: "captured s s' \<Longrightarrow> guard_same s s'" "captured s s' \<Longrightarrow> counts_same s s'"
  by (auto simp: captured_def guard_same_def counts_same_def)

lemma enter_guard_same:
  assumes "tsd_runtime_execution_enter tid w s = (r, s')"
  shows "guard_same s s'" "proc.more s' = proc.more s"
proof -
  have "guard_same s s' \<and> proc.more s' = proc.more s"
  proof (cases "width_valid w \<and> w \<noteq> SIMD_SSE41")
    case True
    then have "s' = captured_for tid s \<or> s' = admitted tid (captured_for tid s)"
      using assms by (auto simp: execution_enter_wide split: if_splits)
    moreover have "captured s (captured_for tid s)" by (simp add: captured_def captured_for_def)
    ultimately show ?thesis using captured_guard_same(1) captured_same(8)
      by (auto simp: admitted_def guard_same_def)
  next
    case False
    then have "s' = s" using assms by (auto simp: tsd_runtime_execution_enter_def split: if_splits)
    then show ?thesis by (simp add: guard_same_def)
  qed
  then show "guard_same s s'" "proc.more s' = proc.more s" by simp_all
qed

lemma release_guard_same: "guard_same s (wide_execution_release tid s)" "proc.more (wide_execution_release tid s) = proc.more s"
  by (simp_all add: wide_execution_release_def guard_same_def Let_def split: prod.splits)

lemma leave_guard_same:
  "guard_same s (execution_cleanup_handler tid w s)" "proc.more (execution_cleanup_handler tid w s) = proc.more s"
  by (simp_all add: execution_cleanup_handler_def tsd_runtime_execution_leave_def release_guard_same)
    (simp add: guard_same_def)

lemma enter_or_fallback_guard_same:
  assumes "enter_or_fallback_v1 tid d (w, f) s = (r, s')"
  shows "guard_same s s'" "proc.more s' = proc.more s"
proof -
  obtain r1 s1 where s1: "tsd_runtime_execution_enter tid w s = (r1, s1)" by fastforce
  obtain r2 s2 where s2: "tsd_runtime_execution_enter tid SIMD_SSE41 s1 = (r2, s2)" by fastforce
  have "s' = s1 \<or> s' = s2"
    using assms s1 s2 by (auto simp: enter_or_fallback_v1_def split: sum.splits if_splits)
  then show "guard_same s s'" "proc.more s' = proc.more s"
    using enter_guard_same [OF s1] enter_guard_same [OF s2] guard_same_trans by auto
qed

text \<open>The cleanup handler takes back exactly what the admission counted.\<close>

lemma cleanup_restores:
  assumes "entered tid w s s1" "counts_same s1 s2" "active_wide_executions s \<noteq> - 1" "wide_execution_depth s tid \<noteq> - 1"
  shows "counts_same s (execution_cleanup_handler tid w s2)"
proof (cases "w = SIMD_SSE41")
  case True
  then show ?thesis using assms by (simp add: execution_cleanup_handler_def tsd_runtime_execution_leave_def entered_def counts_same_def)
next
  case False
  have "w > SIMD_SSE41 \<and> w \<le> SIMD_AVX512" using assms(1) False by (auto simp: entered_def width_valid_iff)
  moreover have "active_wide_executions s2 = active_wide_executions s + 1"
    "wide_execution_depth s2 = (wide_execution_depth s)(tid := wide_execution_depth s tid + 1)"
    using assms(1,2) False by (simp_all add: entered_def counts_same_def)
  moreover from this have "active_wide_executions s2 \<noteq> 0" "wide_execution_depth s2 tid \<noteq> 0"
    using assms(3,4) by (simp_all add: eq_neg_iff_add_eq_0 [symmetric])
  ultimately show ?thesis using release_counts [of s2 tid]
    by (simp add: execution_cleanup_handler_def tsd_runtime_execution_leave_def counts_same_def)
qed

lemma setcancelstate_same:
  assumes "setcancelstate s = (r, s')"
  shows "counts_same s s'" "guard_same s s'" "s' = s\<lparr>cancel_results := snd (next_of Cancel_ok (cancel_results s))\<rparr>"
proof -
  show s': "s' = s\<lparr>cancel_results := snd (next_of Cancel_ok (cancel_results s))\<rparr>"
    using assms by (auto simp: setcancelstate_def split: prod.splits)
  show "counts_same s s'" by (simp add: s' counts_same_def)
  have "wide_conditions s' = wide_conditions s" unfolding s'
    by (simp add: wide_condition_defs safety_limits_def safety_config_snapshot_def tsd_runtime_config_active_snapshot_def
      cong: option.case_cong)
  then show "guard_same s s'" by (simp add: s' guard_same_def)
qed

lemma account_same: "counts_same s (account_completed_work tid n s)"
  by (simp add: account_completed_work_def counts_same_def)

section \<open>Executions are balanced\<close>

text \<open>An application kernel that has no net effect on the execution counters.\<close>

definition kernel_balanced :: "('f \<Rightarrow> u64 \<Rightarrow> u64 \<Rightarrow> 'a dproc_scheme \<Rightarrow> callback_exit \<times> 'a dproc_scheme) \<Rightarrow> bool" where
  "kernel_balanced run = (\<forall>f off n s. counts_same s (snd (run f off n s)))"

text \<open>The legacy interface is the offset-aware one with the kernel's code ignored.\<close>

definition ignore_code :: "callback_exit \<times> 's \<Rightarrow> callback_exit \<times> 's" where
  "ignore_code r = (case r of (Callback_returns _, s) \<Rightarrow> (Callback_returns 0, s) | (Callback_exits, s) \<Rightarrow> (Callback_exits, s))"

lemma ignore_code_snd [simp]: "snd (ignore_code r) = snd r"
  by (auto simp: ignore_code_def split: prod.splits callback_exit.splits)

lemma execute_v1_as_v2:
  "tsd_kernel_dispatch_execute tid run d n s =
   tsd_kernel_dispatch_v2_execute tid (\<lambda>f _ n s. ignore_code (run f n s)) d off n s"
proof -
  have b: "callback_bracket_v1 tid run w f n s = callback_bracket_v2 tid (\<lambda>f _ n s. ignore_code (run f n s)) w f off n s"
    for w f s
    by (auto simp: callback_bracket_v1_def callback_bracket_v2_def ignore_code_def
      split: prod.splits cancel_result.splits callback_exit.splits)
  show ?thesis
    unfolding tsd_kernel_dispatch_execute_def tsd_kernel_dispatch_v2_execute_def v2_agrees b by (rule refl)
qed

lemma bracket_balanced:
  assumes "kernel_balanced run" "entered tid w s s1" "active_wide_executions s \<noteq> - 1" "wide_execution_depth s tid \<noteq> - 1"
  shows "counts_same s (snd (snd (callback_bracket_v2 tid run w f off n s1)))"
proof -
  have c: "counts_same s (execution_cleanup_handler tid w s2)" if "counts_same s1 s2" for s2
    using cleanup_restores [OF assms(2) that assms(3,4)] .
  obtain r2 s2 where s2: "setcancelstate s1 = (r2, s2)" by fastforce
  obtain r3 s3 where s3: "run f off n s2 = (r3, s3)" by fastforce
  obtain r4 s4 where s4: "setcancelstate s3 = (r4, s4)" by fastforce
  have "counts_same s1 s2" using setcancelstate_same(1) [OF s2] .
  moreover from this have "counts_same s1 s3"
    using assms(1) s3 counts_same_trans unfolding kernel_balanced_def by (metis snd_conv)
  moreover from this have "counts_same s1 s4" using setcancelstate_same(1) [OF s4] counts_same_trans by blast
  moreover from this have "counts_same s1 (account_completed_work tid n s4)" using account_same counts_same_trans by blast
  ultimately show ?thesis using c s2 s3 s4
    by (auto simp: callback_bracket_v2_def split: cancel_result.splits callback_exit.splits)
qed

lemma restore_counts: "counts_same s (snd (snd (restore_and_fail e u s)))"
  using setcancelstate_same(1) [of s] by (auto simp: restore_and_fail_def split: prod.splits cancel_result.splits)

lemma finish_counts: "counts_same (snd (snd r)) (snd (snd (finish_execute r)))"
  using setcancelstate_same(1) restore_counts
  by (auto simp: finish_execute_def counts_same_def [of s s for s] split: prod.splits cancel_result.splits dispatch_result.splits)

lemma execute_balanced:
  assumes "kernel_balanced run" "active_wide_executions s \<noteq> - 1" "wide_execution_depth s tid \<noteq> - 1"
    and "\<forall>d'. d = Some d' \<longrightarrow> width_valid (host_max d')"
  shows "counts_same s (snd (snd (tsd_kernel_dispatch_v2_execute tid run d off n s)))"
proof -
  obtain r1 s1 where s1: "setcancelstate s = (r1, s1)" by fastforce
  have c1: "counts_same s s1" using setcancelstate_same(1) [OF s1] .
  obtain r2 s2 where s2: "resolve_internal tid d s1 = (r2, s2)" by fastforce
  show ?thesis
  proof (cases "\<exists>d' f. d = Some d' \<and> v_sse41 (variants d') = Some f")
    case False
    then have "r2 = Inl EINVAL" "s2 = s1" using s2 by (auto simp: resolve_internal_def split: option.splits)
    then show ?thesis using s1 s2 c1 restore_counts [of s1 EINVAL None] counts_same_trans
      by (auto simp: tsd_kernel_dispatch_v2_execute_def v2_agrees split: cancel_result.splits)
  next
    case True
    then obtain d' where d: "d = Some d'" "v_sse41 (variants d') \<noteq> None" by auto
    let ?b = "min (selection_limit tid s1) (host_max d')"
    have b: "width_valid ?b" using assms(4) d(1) selection_limit_valid [of tid s1] by (simp add: min_def)
    obtain w f where r2: "r2 = Inr (w, f)" "captured s1 s2" "width_valid w"
      using resolve_result [OF d(2), of s1 tid] s2 d(1) widest_correct(3) [OF d(2) b] by (auto simp: Let_def)
    obtain w' f' s3 where s3: "enter_or_fallback_v1 tid d' (w, f) s2 = (Inr (w', f'), s3)" "entered tid w' s2 s3"
      using enter_or_fallback_result [OF r2(3) d(2), of tid f s2] by (cases "may_enter tid w s2") auto
    have c2: "counts_same s s2" using c1 captured_guard_same(2) [OF r2(2)] counts_same_trans by blast
    then have "entered tid w' s s3" using s3(2) by (simp add: entered_def counts_same_def)
    from bracket_balanced [OF assms(1) this assms(2,3), of f' off n]
    have "counts_same s (snd (snd (finish_execute (callback_bracket_v2 tid run w' f' off n s3))))"
      using finish_counts counts_same_trans by blast
    then show ?thesis using s1 s2 s3(1) r2(1) d(1) c1
      by (auto simp: tsd_kernel_dispatch_v2_execute_def v2_agrees split: cancel_result.splits)
  qed
qed

section \<open>Chunked loops\<close>

text \<open>
  The chunks a loop should process: contiguous, of the maximal size except the last. The client
  lemmas hold for any loop with the unfolding of the two in the source.
\<close>

fun chunk_list :: "nat \<Rightarrow> nat \<Rightarrow> nat \<Rightarrow> (nat \<times> nat) list" where
  "chunk_list mx off n = (if n = 0 \<or> mx = 0 then []
     else (off, min n mx) # chunk_list mx (off + min n mx) (n - min n mx))"

declare chunk_list.simps [simp del]

lemma chunk_list_0 [simp]: "chunk_list mx off 0 = []"
  by (simp add: chunk_list.simps)

text \<open>Processing a list of chunks one after another, up to the first that does not succeed.\<close>

fun run_chunks :: "(u64 \<Rightarrow> u64 \<Rightarrow> 's \<Rightarrow> dispatch_result \<times> simd_width_t option \<times> 's) \<Rightarrow> (nat \<times> nat) list \<Rightarrow>
    simd_width_t \<Rightarrow> 's \<Rightarrow> dispatch_result \<times> simd_width_t option \<times> 's" where
  "run_chunks exec [] w s = (Returns 0, Some w, s)"
| "run_chunks exec ((off, n) # cs) w s =
     (let (r, used, s') = exec (of_nat off) (of_nat n) s
      in if r \<noteq> Returns 0 then (r, None, s')
         else run_chunks exec cs (case used of None \<Rightarrow> w | Some v \<Rightarrow> v) s')"

lemma chunk_list_sum: "0 < mx \<Longrightarrow> sum_list (map snd (chunk_list mx off n)) = n"
proof (induction mx off n rule: chunk_list.induct)
  case (1 mx off n)
  then show ?case by (cases "n = 0") (simp_all add: chunk_list.simps [of mx off n])
qed

lemma chunk_list_bounds: "(o', k) \<in> set (chunk_list mx off n) \<Longrightarrow> 0 < k \<and> k \<le> mx \<and> off \<le> o' \<and> o' + k \<le> off + n"
proof (induction mx off n rule: chunk_list.induct)
  case (1 mx off n)
  show ?case
  proof (cases "n = 0 \<or> mx = 0")
    case False
    then show ?thesis using 1 by (auto simp: chunk_list.simps [of mx off n])
  qed (use 1 in \<open>simp add: chunk_list.simps [of mx off n]\<close>)
qed

text \<open>Each chunk starts where the previous one ended.\<close>

fun contiguous :: "nat \<Rightarrow> (nat \<times> nat) list \<Rightarrow> bool" where
  "contiguous off [] = True"
| "contiguous off ((o', k) # cs) = (o' = off \<and> contiguous (off + k) cs)"

lemma chunk_list_contiguous: "contiguous off (chunk_list mx off n)"
proof (induction mx off n rule: chunk_list.induct)
  case (1 mx off n)
  then show ?case by (cases "n = 0 \<or> mx = 0") (simp_all add: chunk_list.simps [of mx off n])
qed

locale chunked_loop =
  fixes exec :: "u64 \<Rightarrow> u64 \<Rightarrow> 's \<Rightarrow> dispatch_result \<times> simd_width_t option \<times> 's"
    and loop :: "u64 \<Rightarrow> u64 \<Rightarrow> u64 \<Rightarrow> simd_width_t \<Rightarrow> 's \<Rightarrow> (dispatch_result \<times> simd_width_t option \<times> 's) option"
  assumes loop_unfold: "loop mx off remaining w s =
     (if remaining > 0
      then let chunk = (if remaining < mx then remaining else mx); (r, used, s) = exec off chunk s
           in if r \<noteq> Returns 0 then Some (r, None, s)
              else loop mx (off + chunk) (remaining - chunk) (case used of None \<Rightarrow> w | Some v \<Rightarrow> v) s
      else Some (Returns 0, Some w, s))"
begin

lemma loop_chunks:
  "0 < mx \<Longrightarrow> off + n < 2 ^ 64 \<Longrightarrow> mx < 2 ^ 64 \<Longrightarrow>
   loop (of_nat mx) (of_nat off) (of_nat n) w s = Some (run_chunks exec (chunk_list mx off n) w s)"
proof (induction mx off n arbitrary: w s rule: chunk_list.induct)
  case (1 mx off n)
  show ?case
  proof (cases "n = 0")
    case True
    then show ?thesis by (simp add: loop_unfold [of "of_nat mx"])
  next
    case False
    let ?k = "min n mx"
    have u: "unat (of_nat n :: u64) = n" "unat (of_nat mx :: u64) = mx"
      using "1.prems" by (simp_all add: unat_of_nat_lt)
    have pos: "(of_nat n :: u64) > 0" using False u(1) by (metis of_nat_0 unat_0 word_neq_0_conv)
    have chunk: "(if (of_nat n :: u64) < of_nat mx then of_nat n else of_nat mx) = (of_nat ?k :: u64)"
      using u by (simp add: word_less_nat_alt min_def)
    have rest: "of_nat n - of_nat ?k = (of_nat (n - ?k) :: u64)" by (simp add: of_nat_diff)
    obtain r used s' where e: "exec (of_nat off) (of_nat ?k) s = (r, used, s')" by (cases "exec (of_nat off) (of_nat ?k) s")
    have "loop (of_nat mx) (of_nat off) (of_nat n) w s =
      (if r \<noteq> Returns 0 then Some (r, None, s')
       else loop (of_nat mx) (of_nat (off + ?k)) (of_nat (n - ?k)) (case used of None \<Rightarrow> w | Some v \<Rightarrow> v) s')"
      using pos unfolding loop_unfold [of "of_nat mx" "of_nat off" "of_nat n"] Let_def chunk rest e by simp
    moreover have "loop (of_nat mx) (of_nat (off + ?k)) (of_nat (n - ?k)) v s' =
      Some (run_chunks exec (chunk_list mx (off + ?k) (n - ?k)) v s')" for v
      using "1.IH" "1.prems" False by simp
    ultimately show ?thesis using False "1.prems"(1) e by (simp add: chunk_list.simps [of mx off n])
  qed
qed

end

interpretation loop_v2: chunked_loop exec "chunk_loop_v2 exec" for exec
  by unfold_locales (subst chunk_loop_v2.simps, rule refl)

interpretation loop_v1: chunked_loop "\<lambda>_. exec" "\<lambda>mx _. chunk_loop_v1 exec mx" for exec
  by unfold_locales (subst chunk_loop_v1.simps, rule refl)

section \<open>Executions in a quiet environment\<close>

text \<open>
  A kernel that works on application data only, here the extension of the process record. While
  the guard, the selection and the cancellation calls stay quiet, an execution is one call of the
  kernel of the resolved width.
\<close>

definition pure_kernel :: "('f \<Rightarrow> u64 \<Rightarrow> u64 \<Rightarrow> 'a \<Rightarrow> int \<times> 'a) \<Rightarrow>
    'f \<Rightarrow> u64 \<Rightarrow> u64 \<Rightarrow> 'a dproc_scheme \<Rightarrow> callback_exit \<times> 'a dproc_scheme" where
  "pure_kernel app f off n s = (let (rc, a) = app f off n (dproc.more s) in (Callback_returns rc, s\<lparr>dproc.more := a\<rparr>))"

definition steady :: "'a dproc_scheme \<Rightarrow> 'a dproc_scheme \<Rightarrow> bool" where
  "steady s s' = (guard_same s s' \<and> counts_same s s' \<and> tstate s' = tstate s \<and> cancel_results s' = cancel_results s)"

definition resolved_width :: "int \<Rightarrow> 'f tsd_kernel_dispatch_t \<Rightarrow> 'a dproc_scheme \<Rightarrow> simd_width_t" where
  "resolved_width tid d s = widest (variants d) (min (selection_limit tid s) (host_max d))"

definition dispatch_wf :: "'f tsd_kernel_dispatch_t \<Rightarrow> bool" where
  "dispatch_wf d = (v_sse41 (variants d) \<noteq> None \<and> width_valid (host_max d))"

lemma steady_trans: "steady s s' \<Longrightarrow> steady s' s'' \<Longrightarrow> steady s s''"
  by (simp add: steady_def guard_same_def counts_same_def)

lemma steady_reads:
  assumes "steady s s'"
  shows "selection_limit tid s' = selection_limit tid s" "resolved_width tid d s' = resolved_width tid d s"
    "tsd_runtime_work_accounting_allowed tid s' = tsd_runtime_work_accounting_allowed tid s"
proof -
  show l: "selection_limit tid s' = selection_limit tid s"
    using assms by (simp add: steady_def guard_same_def selection_limit_def tsd_runtime_current_thread_is_owner_def)
  then show "resolved_width tid d s' = resolved_width tid d s" by (simp add: resolved_width_def)
  show "tsd_runtime_work_accounting_allowed tid s' = tsd_runtime_work_accounting_allowed tid s"
    using assms by (simp add: steady_def guard_same_def tsd_runtime_work_accounting_allowed_def
      tsd_runtime_current_thread_is_owner_def)
qed

lemma more_same:
  assumes "proc.more s' = proc.more s"
  shows "tstate s' = tstate s" "cancel_results s' = cancel_results s" "workload_iterations s' = workload_iterations s"
    "dproc.more s' = dproc.more s"
  using assms by (cases s; cases s'; simp)+

lemma guard_same_upd [simp]:
  "guard_same s (s'\<lparr>dproc.more := a\<rparr>) = guard_same s s'"
  "guard_same s (s'\<lparr>workload_iterations := k\<rparr>) = guard_same s s'"
  by (simp_all add: guard_same_def wide_condition_defs safety_limits_def safety_config_snapshot_def
    tsd_runtime_config_active_snapshot_def cong: option.case_cong)

lemma accounting_upd [simp]:
  "tsd_runtime_work_accounting_allowed tid (s\<lparr>dproc.more := a\<rparr>) = tsd_runtime_work_accounting_allowed tid s"
  by (simp add: tsd_runtime_work_accounting_allowed_def tsd_runtime_current_thread_is_owner_def)

lemma setcancelstate_quiet: "cancel_results s = [] \<Longrightarrow> setcancelstate s = (Cancel_ok, s)"
  by (simp add: setcancelstate_def)

lemma resolved_width_enters:
  assumes "dispatch_wf d"
  shows "may_enter tid (resolved_width tid d s) s" "width_valid (resolved_width tid d s)"
    "variant_for (variants d) (resolved_width tid d s) \<noteq> None" "resolved_width tid d s \<le> host_max d"
proof -
  let ?b = "min (selection_limit tid s) (host_max d)"
  have "width_valid ?b" using assms selection_limit_valid [of tid s] by (simp add: min_def dispatch_wf_def)
  then have w: "resolved_width tid d s \<le> ?b" "width_valid (resolved_width tid d s)"
    "variant_for (variants d) (resolved_width tid d s) \<noteq> None"
    using widest_correct [of "variants d" ?b] assms by (simp_all add: resolved_width_def dispatch_wf_def)
  then show "width_valid (resolved_width tid d s)" "variant_for (variants d) (resolved_width tid d s) \<noteq> None"
    "resolved_width tid d s \<le> host_max d" by simp_all
  have "resolved_width tid d s \<le> selection_limit tid s" using w(1) by simp
  then show "may_enter tid (resolved_width tid d s) s"
    by (auto simp: may_enter_def selection_limit_def Let_def split: if_splits)
qed

text \<open>Resolution and admission together, when nothing intervenes.\<close>

lemma resolve_and_enter:
  assumes "dispatch_wf d"
  obtains s1 s2 f where "resolve_internal tid (Some d) s = (Inr (resolved_width tid d s, f), s1)"
    "enter_or_fallback_v1 tid d (resolved_width tid d s, f) s1 = (Inr (resolved_width tid d s, f), s2)"
    "variant_for (variants d) (resolved_width tid d s) = Some f" "entered tid (resolved_width tid d s) s s2"
    "guard_same s s2" "proc.more s2 = proc.more s"
proof -
  let ?w = "resolved_width tid d s"
  note wf = resolved_width_enters [OF assms, of tid s]
  have sse: "v_sse41 (variants d) \<noteq> None" using assms by (simp add: dispatch_wf_def)
  obtain f where f: "variant_for (variants d) ?w = Some f" using wf(3) by auto
  obtain s1 where s1: "captured s s1" "resolve_internal tid (Some d) s = (Inr (?w, f), s1)"
    using resolve_result [OF sse, of s tid] f by (auto simp: resolved_width_def Let_def)
  have "may_enter tid ?w s1" using wf(1) captured_same [OF s1(1)] by (simp add: may_enter_def)
  then obtain s2 where s2: "enter_or_fallback_v1 tid d (?w, f) s1 = (Inr (?w, f), s2)" "entered tid ?w s1 s2"
    using enter_or_fallback_result [OF wf(2) sse, of tid f s1] by auto
  have "entered tid ?w s s2" using s2(2) captured_same(1,2) [OF s1(1)] by (simp add: entered_def)
  moreover have "guard_same s s2" "proc.more s2 = proc.more s"
    using enter_or_fallback_guard_same [OF s2(1)] captured_guard_same(1) [OF s1(1)] captured_same(8) [OF s1(1)]
      guard_same_trans by auto
  ultimately show ?thesis using that s1(2) s2(1) f by blast
qed

text \<open>The state an execution leaves: the application's data and the accounted work.\<close>

definition completed :: "'a dproc_scheme \<Rightarrow> 'a \<Rightarrow> u64 \<Rightarrow> 'a dproc_scheme \<Rightarrow> bool" where
  "completed s a n s' = (steady s s' \<and> dproc.more s' = a \<and> workload_iterations s' = workload_iterations s + n)"

lemma account_workload:
  "workload_iterations (account_completed_work tid n s) =
     workload_iterations s + (if tsd_runtime_work_accounting_allowed tid s then n else 0)"
  "dproc.more (account_completed_work tid n s) = dproc.more s"
  "guard_same s (account_completed_work tid n s)" "tstate (account_completed_work tid n s) = tstate s"
  "cancel_results (account_completed_work tid n s) = cancel_results s"
proof -
  have refl: "guard_same s s" by (simp add: guard_same_def)
  show "workload_iterations (account_completed_work tid n s) =
     workload_iterations s + (if tsd_runtime_work_accounting_allowed tid s then n else 0)"
    by (cases "n = 0") (simp_all add: account_completed_work_def word_gt_0)
  show "guard_same s (account_completed_work tid n s)" using refl by (simp add: account_completed_work_def)
qed (simp_all add: account_completed_work_def)

lemma execute_quiet:
  assumes "dispatch_wf d" "cancel_results s = []" "active_wide_executions s \<noteq> - 1" "wide_execution_depth s tid \<noteq> - 1"
    and app: "app (the (variant_for (variants d) (resolved_width tid d s))) off n (dproc.more s) = (rc, a)"
  shows "\<exists>s'. tsd_kernel_dispatch_v2_execute tid (pure_kernel app) (Some d) off n s =
      (Returns rc, if rc = 0 then Some (resolved_width tid d s) else None, s') \<and>
    completed s a (if rc = 0 \<and> tsd_runtime_work_accounting_allowed tid s then n else 0) s'"
proof (rule resolve_and_enter [OF assms(1), of tid s])
  fix s1 s2 f
  let ?w = "resolved_width tid d s"
  assume r: "resolve_internal tid (Some d) s = (Inr (?w, f), s1)"
    and e: "enter_or_fallback_v1 tid d (?w, f) s1 = (Inr (?w, f), s2)"
    and f: "variant_for (variants d) ?w = Some f" and ent: "entered tid ?w s s2"
    and gs: "guard_same s s2" "proc.more s2 = proc.more s"
  note m2 = more_same [OF gs(2)]
  define s3 where "s3 = s2\<lparr>dproc.more := a\<rparr>"
  define s4 where "s4 = (if rc = 0 then account_completed_work tid n s3 else s3)"
  define s5 where "s5 = execution_cleanup_handler tid ?w s4"
  have k: "pure_kernel app f off n s2 = (Callback_returns rc, s3)"
    using app f m2(4) by (simp add: pure_kernel_def s3_def)
  have g3: "guard_same s s3" "counts_same s2 s3" "cancel_results s3 = []" "tstate s3 = tstate s"
    using gs m2 assms(2) by (simp_all add: s3_def counts_same_def)
  have allowed: "tsd_runtime_work_accounting_allowed tid s3 = tsd_runtime_work_accounting_allowed tid s"
    using g3(1) by (simp add: guard_same_def tsd_runtime_work_accounting_allowed_def tsd_runtime_current_thread_is_owner_def)
  have g4: "guard_same s s4" "counts_same s2 s4" "cancel_results s4 = []" "tstate s4 = tstate s" "dproc.more s4 = a"
    "workload_iterations s4 = workload_iterations s +
      (if rc = 0 \<and> tsd_runtime_work_accounting_allowed tid s then n else 0)"
    using g3 m2(3) account_workload [where tid = tid and n = n and s = s3] account_same [of s3 tid n] counts_same_trans [OF g3(2)]
      guard_same_trans [OF g3(1)] allowed by (simp_all add: s4_def) (simp_all add: s3_def)
  note m5 = more_same [OF leave_guard_same(2) [of tid ?w s4]]
  have q: "setcancelstate s2 = (Cancel_ok, s2)" "setcancelstate s3 = (Cancel_ok, s3)" "setcancelstate s = (Cancel_ok, s)"
    "setcancelstate s5 = (Cancel_ok, s5)"
    using assms(2) g3(3) g4(3) m2(2) m5(2) by (simp_all add: setcancelstate_quiet s5_def)
  have b: "callback_bracket_v2 tid (pure_kernel app) ?w f off n s2 = (Returns rc, if rc = 0 then Some ?w else None, s5)"
    using q k by (simp add: callback_bracket_v2_def s5_def s4_def)
  have "tsd_kernel_dispatch_v2_execute tid (pure_kernel app) (Some d) off n s =
      (Returns rc, if rc = 0 then Some ?w else None, s5)"
    using q r e b by (simp add: tsd_kernel_dispatch_v2_execute_def v2_agrees finish_execute_def)
  moreover have "counts_same s s5"
    using cleanup_restores [OF ent g4(2) assms(3,4)] by (simp add: s5_def)
  moreover have "guard_same s s5" using g4(1) leave_guard_same(1) [of s4 tid ?w] guard_same_trans by (auto simp: s5_def)
  ultimately show ?thesis using g4 m5 assms(2) by (auto simp: completed_def steady_def s5_def)
qed

text \<open>The application's view of a chunked execution: result, data and number of items accounted.\<close>

fun app_chunks :: "('f \<Rightarrow> u64 \<Rightarrow> u64 \<Rightarrow> 'a \<Rightarrow> int \<times> 'a) \<Rightarrow> 'f \<Rightarrow> (nat \<times> nat) list \<Rightarrow> 'a \<Rightarrow> int \<times> 'a \<times> nat" where
  "app_chunks app f [] a = (0, a, 0)"
| "app_chunks app f ((off, n) # cs) a =
     (let (rc, a) = app f (of_nat off) (of_nat n) a
      in if rc \<noteq> 0 then (rc, a, 0)
         else let (rc, a, m) = app_chunks app f cs a in (rc, a, n + m))"

lemma run_chunks_quiet:
  assumes "dispatch_wf d" "cancel_results s = []" "active_wide_executions s \<noteq> - 1" "wide_execution_depth s tid \<noteq> - 1"
    and "app_chunks app (the (variant_for (variants d) (resolved_width tid d s))) cs (dproc.more s) = (rc, a, m)"
  shows "\<exists>u s'. run_chunks (tsd_kernel_dispatch_v2_execute tid (pure_kernel app) (Some d)) cs w s = (Returns rc, u, s') \<and>
    completed s a (if tsd_runtime_work_accounting_allowed tid s then of_nat m else 0) s'"
  using assms
proof (induction cs arbitrary: s w rc a m)
  case Nil
  then show ?case by (simp add: completed_def steady_def guard_same_def counts_same_def)
next
  case (Cons c cs)
  obtain off n where c: "c = (off, n)" by (cases c)
  let ?f = "the (variant_for (variants d) (resolved_width tid d s))"
  obtain rc1 a1 where app1: "app ?f (of_nat off) (of_nat n) (dproc.more s) = (rc1, a1)" by fastforce
  obtain s1 where s1: "tsd_kernel_dispatch_v2_execute tid (pure_kernel app) (Some d) (of_nat off) (of_nat n) s =
      (Returns rc1, if rc1 = 0 then Some (resolved_width tid d s) else None, s1)"
    "completed s a1 (if rc1 = 0 \<and> tsd_runtime_work_accounting_allowed tid s then of_nat n else 0) s1"
    using execute_quiet [where app = app, OF Cons.prems(1-4) app1] by blast
  show ?case
  proof (cases "rc1 = 0")
    case False
    then show ?thesis using s1 app1 Cons.prems(5) by (simp add: c completed_def)
  next
    case True
    obtain r2 a2 m2 where app2: "app_chunks app ?f cs a1 = (r2, a2, m2)" by (cases "app_chunks app ?f cs a1")
    have st: "steady s s1" "dproc.more s1 = a1" using s1(2) by (simp_all add: completed_def)
    have pre: "cancel_results s1 = []" "active_wide_executions s1 \<noteq> - 1" "wide_execution_depth s1 tid \<noteq> - 1"
      using st(1) Cons.prems(2-4) by (simp_all add: steady_def counts_same_def)
    obtain u s2 where s2: "run_chunks (tsd_kernel_dispatch_v2_execute tid (pure_kernel app) (Some d)) cs
        (resolved_width tid d s) s1 = (Returns r2, u, s2)"
      "completed s1 a2 (if tsd_runtime_work_accounting_allowed tid s then of_nat m2 else 0) s2"
      using Cons.IH [OF Cons.prems(1) pre, of r2 a2 m2 "resolved_width tid d s"] app2 st
        steady_reads(2) [OF st(1), of tid d] steady_reads(3) [OF st(1), of tid] by auto
    have "rc = r2" "a = a2" "m = n + m2" using Cons.prems(5) app1 app2 True by (simp_all add: c)
    then show ?thesis using s1 s2 True st steady_trans [OF st(1)] by (auto simp: c completed_def)
  qed
qed

lemma size_max_check: "off > - 1 - n \<longleftrightarrow> unat off + unat n \<ge> 2 ^ 64" for off n :: u64
proof -
  have m: "unat (- 1 :: u64) = 2 ^ 64 - 1" by (simp add: unsigned_minus_1_eq_mask mask_eq_exp_minus_1)
  have "unat n \<le> unat (- 1 :: u64)" using unat_lt_pow [of n] unfolding m by simp
  then have "unat (- 1 - n) = unat (- 1 :: u64) - unat n" by (simp add: unat_sub word_le_nat_alt)
  then have "unat (- 1 - n) = 2 ^ 64 - 1 - unat n" unfolding m .
  then show ?thesis using unat_lt_pow [of n] by (simp add: word_less_nat_alt) linarith
qed

section \<open>An example\<close>

text \<open>A process with a passed sandbox, a dispatch with two variants and a kernel that logs its calls.\<close>

definition example_dproc :: "(u64 \<times> u64) list dproc_scheme" where
  "example_dproc = proc.extend (proc_init\<lparr>sandbox_complete := True, sandbox_success := True\<rparr>)
     (tproc_ext trampoline_state_init 0 0 0 0 0 0 0 False (- 1) 0 0 [0, 0, 0] [] False [] False (\<lambda>_. 0) []
       avx512_host (Inr 4096) [] [] [Inr 0x10000] [] [] (dproc_ext 7 [] [] []))"

definition example_dispatch :: "nat tsd_kernel_dispatch_t" where
  "example_dispatch = \<lparr>variants = \<lparr>v_sse41 = Some 1, v_avx2 = Some 2, v_avx512 = None\<rparr>, host_max = SIMD_AVX512\<rparr>"

definition logging_kernel :: "nat \<Rightarrow> u64 \<Rightarrow> u64 \<Rightarrow> (u64 \<times> u64) list \<Rightarrow> int \<times> (u64 \<times> u64) list" where
  "logging_kernel f off n l = (0, l @ [(off, n)])"

lemma example_dispatch_facts:
  "dispatch_wf example_dispatch" "cancel_results example_dproc = []" "active_wide_executions example_dproc = 0"
  "wide_execution_depth example_dproc tid = 0" "dproc.more example_dproc = []" "workload_iterations example_dproc = 7"
  "tsd_runtime_work_accounting_allowed tid example_dproc"
  by (simp_all add: example_dispatch_def dispatch_wf_def example_dproc_def proc.defs proc_init_def
    tsd_runtime_work_accounting_allowed_def tsd_runtime_current_thread_is_owner_def)

section \<open>Properties\<close>

text \<open>
  C11. Resolution: it succeeds exactly on a dispatch with an SSE4.1 variant; the resolved width is
  the widest registered one that neither exceeds the host nor the selection, and the selection
  counts only while admission is open, the thread owns the runtime and the guard authorizes wide
  widths; otherwise it is SSE4.1. The kernel is the one registered for that width.
\<close>
theorem resolve_correct:
  assumes "v_sse41 (variants d) \<noteq> None" "width_valid (host_max d)"
  shows "\<exists>w f s'. resolve_internal tid (Some d) s = (Inr (w, f), s') \<and> variant_for (variants d) w = Some f \<and>
    w \<le> host_max d \<and> w \<le> selection_limit tid s \<and>
    (\<forall>v f'. variant_for (variants d) v = Some f' \<and> v \<le> host_max d \<and> v \<le> selection_limit tid s \<longrightarrow> v \<le> w)"
proof -
  let ?b = "min (selection_limit tid s) (host_max d)" and ?w = "resolved_width tid d s"
  have wf: "dispatch_wf d" using assms by (simp add: dispatch_wf_def)
  have b: "width_valid ?b" using assms(2) selection_limit_valid [of tid s] by (simp add: min_def)
  note w = widest_correct [OF assms(1) b]
  obtain s1 s2 f where "resolve_internal tid (Some d) s = (Inr (?w, f), s1)" "variant_for (variants d) ?w = Some f"
    using resolve_and_enter [OF wf] by metis
  moreover have "?w \<le> ?b" using w(1) by (simp add: resolved_width_def)
  moreover have "v \<le> ?w" if "variant_for (variants d) v = Some f'" "v \<le> host_max d" "v \<le> selection_limit tid s" for v f'
    using w(4) [of v] that by (simp add: resolved_width_def)
  ultimately show ?thesis by auto
qed

theorem resolve_correct_witness:
  "\<exists>w f s'. resolve_internal 1 (Some example_dispatch) example_dproc = (Inr (w, f), s') \<and>
     variant_for (variants example_dispatch) w = Some f \<and> w \<le> SIMD_AVX512"
  using resolve_correct [of example_dispatch 1 example_dproc] by (auto simp: example_dispatch_def)

text \<open>
  A race between resolution and admission never fails a call: in any state, entering the resolved
  width succeeds if the guard still admits it, and otherwise falls back to the SSE4.1 kernel; the
  counters grow by one exactly when the width entered is a wide one.
\<close>
theorem admission_falls_back:
  assumes "width_valid w" "v_sse41 (variants d) = Some g"
  shows "\<exists>w' f' s'. enter_or_fallback_v1 tid d (w, f) s = (Inr (w', f'), s') \<and>
    (w', f') = (if w = SIMD_SSE41 \<or> tsd_runtime_current_thread_is_owner tid s \<and> wide_admission_open s \<and>
        fst (tsd_runtime_width_authorized w s) then (w, f) else (SIMD_SSE41, g)) \<and>
    active_wide_executions s' = active_wide_executions s + (if w' = SIMD_SSE41 then 0 else 1) \<and>
    wide_execution_depth s' tid = wide_execution_depth s tid + (if w' = SIMD_SSE41 then 0 else 1)"
proof -
  have m: "may_enter tid w s = (w = SIMD_SSE41 \<or> tsd_runtime_current_thread_is_owner tid s \<and> wide_admission_open s \<and>
      fst (tsd_runtime_width_authorized w s))"
    using assms(1) by (auto simp: may_enter_def width_authorized_pair)
  obtain s' where s': "enter_or_fallback_v1 tid d (w, f) s = (Inr (if may_enter tid w s then (w, f) else (SIMD_SSE41, g)), s')"
    "entered tid (if may_enter tid w s then w else SIMD_SSE41) s s'"
    using enter_or_fallback_result [OF assms(1), of d tid f s] assms(2) by auto
  show ?thesis using s' unfolding m [symmetric]
    by (cases "may_enter tid w s"; cases "w = SIMD_SSE41") (simp_all add: entered_def)
qed

theorem admission_falls_back_witness:
  "\<exists>s'. enter_or_fallback_v1 1 example_dispatch (SIMD_AVX2, 2) example_dproc = (Inr (SIMD_SSE41, 1), s')"
proof -
  have "\<not> wide_admission_open example_dproc" by (simp add: example_dproc_def proc.defs proc_init_def)
  then show ?thesis using admission_falls_back [of SIMD_AVX2 example_dispatch 1 1 2 example_dproc]
    by (auto simp: example_dispatch_def)
qed

text \<open>
  C3. Every execution gives back what it took: whatever the kernel does and however the call ends -
  success, kernel error, failed cancellation call, cancellation or exit of the thread inside the
  kernel - the wide-execution counters are afterwards what they were, for both interfaces.
\<close>
theorem execution_releases_admission:
  assumes "kernel_balanced run" "\<And>f n s. counts_same s (snd (run1 f n s))"
    "active_wide_executions s \<noteq> - 1" "wide_execution_depth s tid \<noteq> - 1" "width_valid (host_max d)"
  shows "counts_same s (snd (snd (tsd_kernel_dispatch_v2_execute tid run (Some d) off n s))) \<and>
    counts_same s (snd (snd (tsd_kernel_dispatch_execute tid run1 (Some d) n s)))"
proof -
  have "kernel_balanced (\<lambda>f _ n s. ignore_code (run1 f n s))" using assms(2) by (simp add: kernel_balanced_def)
  from execute_balanced [OF this assms(3,4), of "Some d" off n] execute_balanced [OF assms(1,3,4), of "Some d" off n] assms(5)
  show ?thesis by (simp add: execute_v1_as_v2 [of tid run1 "Some d" n s off])
qed

theorem execution_releases_admission_witness:
  "counts_same example_dproc (snd (snd (tsd_kernel_dispatch_v2_execute 1 (\<lambda>f off n s. (Callback_exits, s))
     (Some example_dispatch) 0 5 example_dproc)))"
proof -
  have refl: "counts_same s s" for s :: "(u64 \<times> u64) list dproc_scheme" by (simp add: counts_same_def)
  have kb: "kernel_balanced (\<lambda>(f::nat) off n (s::(u64 \<times> u64) list dproc_scheme). (Callback_exits, s))"
    by (simp add: kernel_balanced_def refl)
  show ?thesis
    using execution_releases_admission [OF kb, of "\<lambda>f n s. (Callback_exits, s)" example_dproc 1 example_dispatch 0 5]
      example_dispatch_facts refl by (simp add: dispatch_wf_def)
qed

text \<open>
  C10. The chunked loops end, and cut the work into the chunks of a partition: with a positive chunk
  size and an offset range that does not wrap, they run the chunks of a list that is contiguous
  from the initial offset, covers the total, and whose members are non-empty and at most the
  maximal size, in order, up to the first that fails; a zero chunk size, and for the offset-aware
  interface a range beyond \<^verbatim>\<open>SIZE_MAX\<close>, is refused with \<^verbatim>\<open>EINVAL\<close>.
\<close>
theorem chunked_execution_partitions:
  assumes "tot > 0"
  shows "let cs = chunk_list (unat mx) (unat off) (unat tot); cs1 = chunk_list (unat mx) 0 (unat tot) in
    tsd_kernel_dispatch_v2_execute_chunked tid run (Some d) off tot mx out s =
      (if mx = 0 \<or> unat off + unat tot \<ge> 2 ^ 64 then Some (Fails EINVAL, None, s)
       else Some (run_chunks (tsd_kernel_dispatch_v2_execute tid run (Some d)) cs SIMD_SSE41 s)) \<and>
    tsd_kernel_dispatch_execute_chunked tid run1 (Some d) tot mx out s =
      (if mx = 0 then Some (Fails EINVAL, None, s)
       else Some (run_chunks (\<lambda>_. tsd_kernel_dispatch_execute tid run1 (Some d)) cs1 SIMD_SSE41 s)) \<and>
    contiguous (unat off) cs \<and> (mx \<noteq> 0 \<longrightarrow> sum_list (map snd cs) = unat tot) \<and>
    (\<forall>(o', k) \<in> set cs. 0 < k \<and> k \<le> unat mx)"
proof -
  have pos: "0 < unat mx" if "mx \<noteq> 0" using that by (simp add: unat_gt_0)
  have v2: "chunk_loop_v2 (tsd_kernel_dispatch_v2_execute tid run (Some d)) mx off tot SIMD_SSE41 s =
      Some (run_chunks (tsd_kernel_dispatch_v2_execute tid run (Some d)) (chunk_list (unat mx) (unat off) (unat tot)) SIMD_SSE41 s)"
    if "mx \<noteq> 0" "unat off + unat tot < 2 ^ 64"
    using loop_v2.loop_chunks [OF pos [OF that(1)] that(2)] unat_lt_pow [of mx] by simp
  have v1: "chunk_loop_v1 (tsd_kernel_dispatch_execute tid run1 (Some d)) mx tot SIMD_SSE41 s =
      Some (run_chunks (\<lambda>_. tsd_kernel_dispatch_execute tid run1 (Some d)) (chunk_list (unat mx) 0 (unat tot)) SIMD_SSE41 s)"
    if "mx \<noteq> 0"
    using loop_v1.loop_chunks [OF pos [OF that], of 0 "unat tot"] unat_lt_pow [of tot] unat_lt_pow [of mx] by simp
  show ?thesis using assms v1 v2 pos chunk_list_bounds [of _ _ "unat mx" "unat off" "unat tot"]
    by (auto simp: Let_def tsd_kernel_dispatch_v2_execute_chunked_def tsd_kernel_dispatch_execute_chunked_def
      size_max_check chunk_list_contiguous chunk_list_sum not_le)
qed

theorem chunked_execution_partitions_witness:
  "chunk_list 4 100 10 = [(100, 4), (104, 4), (108, 2)] \<and>
   tsd_kernel_dispatch_v2_execute_chunked 1 (pure_kernel logging_kernel) (Some example_dispatch) 100 10 4 True example_dproc =
     Some (run_chunks (tsd_kernel_dispatch_v2_execute 1 (pure_kernel logging_kernel) (Some example_dispatch)) [(100, 4), (104, 4), (108, 2)]
       SIMD_SSE41 example_dproc)"
proof -
  have "chunk_list 4 100 10 = [(100, 4), (104, 4), (108, 2)]" by (simp add: chunk_list.simps)
  then show ?thesis
    using chunked_execution_partitions [of 10 4 100 1 "pure_kernel logging_kernel" example_dispatch True example_dproc]
    by (simp add: Let_def)
qed

text \<open>
  C9. A chunked execution in a quiet environment does exactly the application's work: the kernel of
  the resolved width runs on each chunk in order, the first non-zero code stops the loop and is
  returned, and the workload counter grows by the items of the chunks that succeeded, or not at all
  if this thread's work is not accounted.
\<close>
theorem chunked_execution_quiet:
  assumes "dispatch_wf d" "cancel_results s = []" "active_wide_executions s \<noteq> - 1" "wide_execution_depth s tid \<noteq> - 1"
    "mx \<noteq> 0" "tot > 0" "unat off + unat tot < 2 ^ 64"
    "app_chunks app (the (variant_for (variants d) (resolved_width tid d s)))
       (chunk_list (unat mx) (unat off) (unat tot)) (dproc.more s) = (rc, a, m)"
  shows "\<exists>u q. tsd_kernel_dispatch_v2_execute_chunked tid (pure_kernel app) (Some d) off tot mx out s = Some (Returns rc, u, q) \<and>
    dproc.more q = a \<and> counts_same s q \<and>
    workload_iterations q = workload_iterations s + (if tsd_runtime_work_accounting_allowed tid s then of_nat m else 0)"
proof -
  have "chunk_loop_v2 (tsd_kernel_dispatch_v2_execute tid (pure_kernel app) (Some d)) mx off tot SIMD_SSE41 s =
      Some (run_chunks (tsd_kernel_dispatch_v2_execute tid (pure_kernel app) (Some d))
        (chunk_list (unat mx) (unat off) (unat tot)) SIMD_SSE41 s)"
    using loop_v2.loop_chunks [of "unat mx" "unat off" "unat tot"] assms(5,7) unat_lt_pow [of mx] by (simp add: unat_gt_0)
  then show ?thesis using assms(5-7) run_chunks_quiet [OF assms(1-4,8), of SIMD_SSE41]
    by (auto simp: tsd_kernel_dispatch_v2_execute_chunked_def size_max_check completed_def steady_def)
qed

theorem chunked_execution_quiet_witness:
  "\<exists>u q. tsd_kernel_dispatch_v2_execute_chunked 1 (pure_kernel logging_kernel) (Some example_dispatch) 100 10 4 True
       example_dproc = Some (Returns 0, u, q) \<and>
     dproc.more q = [(100, 4), (104, 4), (108, 2)] \<and> workload_iterations q = 17"
proof -
  have "app_chunks logging_kernel f (chunk_list (unat (4 :: u64)) (unat (100 :: u64)) (unat (10 :: u64))) [] =
      (0, [(100, 4), (104, 4), (108, 2)], 10)" for f
    by (simp add: chunk_list.simps logging_kernel_def)
  then show ?thesis
    using chunked_execution_quiet [of example_dispatch example_dproc 1 4 10 100 logging_kernel 0 _ _ True] example_dispatch_facts by auto
qed

end
