(* ===== verification/Jsmn.thy ===== *)
theory Jsmn
  imports C_Library
begin

text \<open>
  The JSON tokenizer of \<^verbatim>\<open>src/third_party/jsmn.c\<close>, built with parent links. The text is the list of
  its \<^verbatim>\<open>len\<close> bytes and the token array a list of its capacity; positions are natural numbers, so the
  model is that of the code for texts below 2 GiB, where the \<^verbatim>\<open>int\<close> fields of a token are exact.
\<close>

section \<open>Types\<close>

datatype jsmntype_t = JSMN_UNDEFINED | JSMN_OBJECT | JSMN_ARRAY | JSMN_STRING | JSMN_PRIMITIVE

datatype jsmnerr_t = JSMN_ERROR_NOMEM | JSMN_ERROR_INVAL | JSMN_ERROR_PART

record jsmntok_t =
  tok_type :: jsmntype_t
  tok_start :: int
  tok_end :: int
  tok_size :: int
  tok_parent :: int

record jsmn_parser =
  jp_pos :: nat
  jp_toknext :: nat
  jp_toksuper :: int

text \<open>A token of a freshly \<^verbatim>\<open>calloc\<close>ed array.\<close>

definition zero_tok :: jsmntok_t where
  "zero_tok = \<lparr>tok_type = JSMN_UNDEFINED, tok_start = 0, tok_end = 0, tok_size = 0, tok_parent = 0\<rparr>"

section \<open>Operations\<close>

definition jsmn_alloc_token :: "jsmn_parser \<Rightarrow> jsmntok_t list \<Rightarrow> (nat \<times> jsmn_parser \<times> jsmntok_t list) option" where
  "jsmn_alloc_token p ts =
     (if jp_toknext p \<ge> length ts then None
      else let i = jp_toknext p
           in Some (i, p\<lparr>jp_toknext := Suc i\<rparr>,
                ts[i := (ts ! i)\<lparr>tok_start := - 1, tok_end := - 1, tok_size := 0, tok_parent := - 1\<rparr>]))"

definition jsmn_fill_token :: "jsmntype_t \<Rightarrow> nat \<Rightarrow> nat \<Rightarrow> jsmntok_t \<Rightarrow> jsmntok_t" where
  "jsmn_fill_token type start fin t = t\<lparr>tok_type := type, tok_start := int start, tok_end := int fin, tok_size := 0\<rparr>"

definition prim_delim :: "char \<Rightarrow> bool" where
  "prim_delim c = (char_code c \<in> {9, 13, 10, 32, 44, 93, 125})"

text \<open>The scan of a primitive; a byte from 128 on is a negative \<^verbatim>\<open>char\<close>, so it is refused as well.\<close>

function prim_end :: "string \<Rightarrow> nat \<Rightarrow> jsmnerr_t + nat" where
  "prim_end js pos =
     (if pos < length js then
        (if prim_delim (js ! pos) then Inr pos
         else if char_code (js ! pos) < 32 \<or> char_code (js ! pos) \<ge> 127 then Inl JSMN_ERROR_INVAL
         else prim_end js (Suc pos))
      else Inl JSMN_ERROR_PART)"
  by pat_completeness auto
termination
  by (relation "measure (\<lambda>(js, pos). length js - pos)") auto

declare prim_end.simps [simp del]

definition jsmn_parse_primitive ::
    "string \<Rightarrow> jsmn_parser \<Rightarrow> jsmntok_t list \<Rightarrow> jsmnerr_t + jsmn_parser \<times> jsmntok_t list" where
  "jsmn_parse_primitive js p ts =
     (case prim_end js (jp_pos p) of
        Inl e \<Rightarrow> Inl e
      | Inr fin \<Rightarrow>
          (case jsmn_alloc_token p ts of
             None \<Rightarrow> Inl JSMN_ERROR_NOMEM
           | Some (i, q, ts) \<Rightarrow>
               Inr (q\<lparr>jp_pos := fin - 1\<rparr>,
                 ts[i := (jsmn_fill_token JSMN_PRIMITIVE (jp_pos p) fin (ts ! i))\<lparr>tok_parent := jp_toksuper p\<rparr>])))"

text \<open>The scan of a string, from behind its opening quote: \<open>34\<close> is the quote, \<open>92\<close> the backslash.\<close>

definition simple_escape :: "char \<Rightarrow> bool" where
  "simple_escape esc = (char_code esc \<in> {34, 47, 92} \<or> esc \<in> set ''bfrnt'')"

function string_end :: "string \<Rightarrow> nat \<Rightarrow> jsmnerr_t + nat" where
  "string_end js pos =
     (if pos < length js then
        (if char_code (js ! pos) = 34 then Inr pos
         else if char_code (js ! pos) = 92 \<and> pos + 1 < length js then
           (let esc = js ! (pos + 1)
            in if simple_escape esc then string_end js (pos + 2)
               else if esc = CHR ''u'' \<and> pos + 1 + 4 < length js then string_end js (pos + 6)
               else Inl JSMN_ERROR_INVAL)
         else string_end js (Suc pos))
      else Inl JSMN_ERROR_PART)"
  by pat_completeness auto
termination
  by (relation "measure (\<lambda>(js, pos). length js - pos)") auto

declare string_end.simps [simp del]

definition jsmn_parse_string ::
    "string \<Rightarrow> jsmn_parser \<Rightarrow> jsmntok_t list \<Rightarrow> jsmnerr_t + jsmn_parser \<times> jsmntok_t list" where
  "jsmn_parse_string js p ts =
     (case string_end js (Suc (jp_pos p)) of
        Inl e \<Rightarrow> Inl e
      | Inr fin \<Rightarrow>
          (case jsmn_alloc_token p ts of
             None \<Rightarrow> Inl JSMN_ERROR_NOMEM
           | Some (i, q, ts) \<Rightarrow>
               Inr (q\<lparr>jp_pos := fin\<rparr>,
                 ts[i := (jsmn_fill_token JSMN_STRING (Suc (jp_pos p)) fin (ts ! i))\<lparr>tok_parent := jp_toksuper p\<rparr>])))"

definition jsmn_init :: jsmn_parser where
  "jsmn_init = \<lparr>jp_pos = 0, jp_toknext = 0, jp_toksuper = - 1\<rparr>"

text \<open>The search for the innermost open token at a closing bracket, downwards from an index.\<close>

fun jsmn_close :: "jsmntype_t \<Rightarrow> nat \<Rightarrow> nat \<Rightarrow> jsmntok_t list \<Rightarrow> int \<Rightarrow> jsmnerr_t + jsmntok_t list \<times> int" where
  "jsmn_close type pos 0 ts super = Inr (ts, super)"
| "jsmn_close type pos (Suc i) ts super =
     (if tok_start (ts ! i) \<noteq> - 1 \<and> tok_end (ts ! i) = - 1 then
        (if tok_type (ts ! i) \<noteq> type then Inl JSMN_ERROR_INVAL
         else Inr (ts[i := (ts ! i)\<lparr>tok_end := int pos + 1\<rparr>], tok_parent (ts ! i)))
      else jsmn_close type pos i ts super)"

definition bump_super :: "jsmn_parser \<Rightarrow> jsmntok_t list \<Rightarrow> jsmntok_t list" where
  "bump_super p ts =
     (if jp_toksuper p \<noteq> - 1
      then ts[nat (jp_toksuper p) := (ts ! nat (jp_toksuper p))\<lparr>tok_size := tok_size (ts ! nat (jp_toksuper p)) + 1\<rparr>]
      else ts)"

text \<open>One round of the main loop, up to the increment of the position.\<close>

definition jsmn_step ::
    "string \<Rightarrow> nat \<Rightarrow> jsmn_parser \<Rightarrow> jsmntok_t list \<Rightarrow> jsmnerr_t + nat \<times> jsmn_parser \<times> jsmntok_t list" where
  "jsmn_step js count p ts =
     (let c = char_code (js ! jp_pos p)
      in if c = 123 \<or> c = 91 then
           (case jsmn_alloc_token p ts of
              None \<Rightarrow> Inl JSMN_ERROR_NOMEM
            | Some (i, q, ts) \<Rightarrow>
                Inr (Suc count, q\<lparr>jp_toksuper := int (jp_toknext q) - 1\<rparr>,
                  ts[i := (ts ! i)\<lparr>tok_type := (if c = 123 then JSMN_OBJECT else JSMN_ARRAY),
                                  tok_start := int (jp_pos p), tok_parent := jp_toksuper p\<rparr>]))
         else if c = 125 \<or> c = 93 then
           (case jsmn_close (if c = 125 then JSMN_OBJECT else JSMN_ARRAY) (jp_pos p) (jp_toknext p) ts (jp_toksuper p) of
              Inl e \<Rightarrow> Inl e
            | Inr (ts, super) \<Rightarrow> Inr (count, p\<lparr>jp_toksuper := super\<rparr>, ts))
         else if c = 34 then
           (case jsmn_parse_string js p ts of
              Inl e \<Rightarrow> Inl e
            | Inr (p, ts) \<Rightarrow> Inr (Suc count, p, bump_super p ts))
         else if c \<in> {9, 13, 10, 32, 58, 44} then Inr (count, p, ts)
         else
           (case jsmn_parse_primitive js p ts of
              Inl e \<Rightarrow> Inl e
            | Inr (p, ts) \<Rightarrow> Inr (Suc count, p, bump_super p ts)))"

section \<open>Progress\<close>

lemma prim_end_ge: "prim_end js pos = Inr fin \<Longrightarrow> pos \<le> fin \<and> fin < length js \<and> (\<not> prim_delim (js ! pos) \<longrightarrow> pos < fin)"
proof (induction js pos rule: prim_end.induct)
  case (1 js pos)
  then show ?case by (subst (asm) prim_end.simps) (fastforce split: if_splits)
qed

lemma string_end_ge: "string_end js pos = Inr fin \<Longrightarrow> pos \<le> fin \<and> fin < length js"
proof (induction js pos rule: string_end.induct)
  case (1 js pos)
  let ?esc = "js ! (pos + 1)"
  have pos: "pos < length js" using "1.prems" by (subst (asm) string_end.simps) (auto split: if_splits)
  show ?case
  proof (cases "char_code (js ! pos) = 34")
    case True
    then show ?thesis using "1.prems" pos by (simp add: string_end.simps [of js pos])
  next
    case quote: False
    show ?thesis
    proof (cases "char_code (js ! pos) = 92 \<and> pos + 1 < length js")
      case False
      then have "string_end js (Suc pos) = Inr fin" using "1.prems" pos quote
        by (auto simp: string_end.simps [of js pos])
      then show ?thesis using "1.IH"(3) [OF pos quote] False by (simp add: Suc_le_eq)
    next
      case True
      then consider "string_end js (pos + 2) = Inr fin" "simple_escape ?esc"
        | "string_end js (pos + 6) = Inr fin" "\<not> simple_escape ?esc" "?esc = CHR ''u'' \<and> pos + 1 + 4 < length js"
        using "1.prems" pos quote by (auto simp: string_end.simps [of js pos] Let_def split: if_splits)
      then show ?thesis using "1.IH"(1,2) [OF pos quote True refl] by cases simp_all
    qed
  qed
qed



text \<open>What a successful scan adds, and what a round of the loop does for each kind of character.\<close>

definition new_token :: "jsmntype_t \<Rightarrow> nat \<Rightarrow> int \<Rightarrow> jsmn_parser \<Rightarrow> jsmntok_t \<Rightarrow> jsmntok_t" where
  "new_token type start fin p t = t\<lparr>tok_type := type, tok_start := int start, tok_end := fin, tok_size := 0,
     tok_parent := jp_toksuper p\<rparr>"

lemma open_token:
  "t\<lparr>tok_end := - 1, tok_size := 0, tok_type := type, tok_start := int s, tok_parent := jp_toksuper p\<rparr> =
   new_token type s (- 1) p t"
  by (cases t) (simp add: new_token_def)

lemma parse_primitive_result:
  assumes "jsmn_parse_primitive js p ts = Inr (q, ts')"
  obtains fin where "prim_end js (jp_pos p) = Inr fin" "jp_toknext p < length ts"
    "q = p\<lparr>jp_toknext := Suc (jp_toknext p), jp_pos := fin - 1\<rparr>"
    "ts' = ts[jp_toknext p := new_token JSMN_PRIMITIVE (jp_pos p) (int fin) p (ts ! jp_toknext p)]"
  using assms by (auto simp: jsmn_parse_primitive_def jsmn_alloc_token_def jsmn_fill_token_def new_token_def Let_def
    split: sum.splits if_splits)

lemma parse_string_result:
  assumes "jsmn_parse_string js p ts = Inr (q, ts')"
  obtains fin where "string_end js (Suc (jp_pos p)) = Inr fin" "jp_toknext p < length ts"
    "q = p\<lparr>jp_toknext := Suc (jp_toknext p), jp_pos := fin\<rparr>"
    "ts' = ts[jp_toknext p := new_token JSMN_STRING (Suc (jp_pos p)) (int fin) p (ts ! jp_toknext p)]"
  using assms by (auto simp: jsmn_parse_string_def jsmn_alloc_token_def jsmn_fill_token_def new_token_def Let_def
    split: sum.splits if_splits)

lemma step_cases:
  assumes "jsmn_step js count p ts = Inr (count', p', ts')"
  obtains (open_br) type where "type = JSMN_OBJECT \<or> type = JSMN_ARRAY" "jp_toknext p < length ts" "count' = Suc count"
      "p' = p\<lparr>jp_toknext := Suc (jp_toknext p), jp_toksuper := int (jp_toknext p)\<rparr>"
      "ts' = ts[jp_toknext p := new_token type (jp_pos p) (- 1) p (ts ! jp_toknext p)]"
  | (close_br) type super where "jsmn_close type (jp_pos p) (jp_toknext p) ts (jp_toksuper p) = Inr (ts', super)"
      "p' = p\<lparr>jp_toksuper := super\<rparr>" "count' = count"
  | (str) fin where "string_end js (Suc (jp_pos p)) = Inr fin" "jp_toknext p < length ts" "count' = Suc count"
      "p' = p\<lparr>jp_toknext := Suc (jp_toknext p), jp_pos := fin\<rparr>"
      "ts' = bump_super p (ts[jp_toknext p := new_token JSMN_STRING (Suc (jp_pos p)) (int fin) p (ts ! jp_toknext p)])"
  | (separator) "count' = count" "p' = p" "ts' = ts"
  | (prim) fin where "prim_end js (jp_pos p) = Inr fin" "\<not> prim_delim (js ! jp_pos p)" "jp_toknext p < length ts"
      "p' = p\<lparr>jp_toknext := Suc (jp_toknext p), jp_pos := fin - 1\<rparr>" "count' = Suc count"
      "ts' = bump_super p (ts[jp_toknext p := new_token JSMN_PRIMITIVE (jp_pos p) (int fin) p (ts ! jp_toknext p)])"
proof -
  have bump: "bump_super (p\<lparr>jp_toknext := n, jp_pos := m\<rparr>) us = bump_super p us" for n m us by (simp add: bump_super_def)
  let ?c = "char_code (js ! jp_pos p)"
  consider (a) "?c = 123 \<or> ?c = 91" | (b) "?c = 125 \<or> ?c = 93" | (c) "?c = 34" | (d) "?c \<in> {9, 13, 10, 32, 58, 44}"
    | (e) "?c \<notin> {123, 91, 125, 93, 34, 9, 13, 10, 32, 58, 44}" by blast
  then show thesis
  proof cases
    case a
    then show thesis using assms open_br [of "if ?c = 123 then JSMN_OBJECT else JSMN_ARRAY"]
      by (auto simp: jsmn_step_def jsmn_alloc_token_def open_token Let_def split: if_splits)
  next
    case b
    then show thesis using assms close_br [of "if ?c = 125 then JSMN_OBJECT else JSMN_ARRAY"]
      by (auto simp: jsmn_step_def Let_def split: sum.splits)
  next
    case c
    then obtain q us where q: "jsmn_parse_string js p ts = Inr (q, us)" "count' = Suc count" "p' = q" "ts' = bump_super q us"
      using assms by (auto simp: jsmn_step_def split: sum.splits)
    from q(1) obtain fin where f: "string_end js (Suc (jp_pos p)) = Inr fin" "jp_toknext p < length ts"
      "q = p\<lparr>jp_toknext := Suc (jp_toknext p), jp_pos := fin\<rparr>"
      "us = ts[jp_toknext p := new_token JSMN_STRING (Suc (jp_pos p)) (int fin) p (ts ! jp_toknext p)]"
      by (rule parse_string_result)
    show thesis by (rule str [OF f(1,2) q(2)]) (simp_all only: q(3,4) f(3,4) bump)
  next
    case d
    then have "jsmn_step js count p ts = Inr (count, p, ts)" by (auto simp: jsmn_step_def)
    then show thesis using assms separator by simp
  next
    case e
    then obtain q us where q: "jsmn_parse_primitive js p ts = Inr (q, us)" "count' = Suc count" "p' = q" "ts' = bump_super q us"
      using assms by (auto simp: jsmn_step_def split: sum.splits)
    have d: "\<not> prim_delim (js ! jp_pos p)" using e by (simp add: prim_delim_def)
    from q(1) obtain fin where f: "prim_end js (jp_pos p) = Inr fin" "jp_toknext p < length ts"
      "q = p\<lparr>jp_toknext := Suc (jp_toknext p), jp_pos := fin - 1\<rparr>"
      "us = ts[jp_toknext p := new_token JSMN_PRIMITIVE (jp_pos p) (int fin) p (ts ! jp_toknext p)]"
      by (rule parse_primitive_result)
    show thesis by (rule prim [OF f(1) d f(2)]) (simp_all only: q(2-4) f(3,4) bump)
  qed
qed

lemma step_progress:
  assumes "jsmn_step js count p ts = Inr (count', p', ts')" "jp_pos p < length js"
  shows "jp_pos p \<le> jp_pos p' \<and> jp_pos p' < length js"
  using assms(1)
proof (cases rule: step_cases)
  case (str fin)
  then show ?thesis using string_end_ge [of js "Suc (jp_pos p)" fin] by simp
next
  case (prim fin)
  then show ?thesis using prim_end_ge [of js "jp_pos p" fin] by auto
qed (use assms(2) in simp_all)

function jsmn_loop ::
    "string \<Rightarrow> nat \<Rightarrow> jsmn_parser \<Rightarrow> jsmntok_t list \<Rightarrow> jsmnerr_t + nat \<times> jsmn_parser \<times> jsmntok_t list" where
  "jsmn_loop js count p ts =
     (if jp_pos p < length js then
        (case jsmn_step js count p ts of
           Inl e \<Rightarrow> Inl e
         | Inr (count, p, ts) \<Rightarrow> jsmn_loop js count (p\<lparr>jp_pos := Suc (jp_pos p)\<rparr>) ts)
      else Inr (count, p, ts))"
  by pat_completeness auto
termination
proof (relation "measure (\<lambda>(js, count, p, ts). length js - jp_pos p)")
  fix js count p ts r q count' p' ts'
  assume "jp_pos p < length js" "jsmn_step js count p ts = Inr r" "(count', q) = r" "(p', ts') = q"
  then show "((js, count', p'\<lparr>jp_pos := Suc (jp_pos p')\<rparr>, ts'), js, count, p, ts) \<in>
      measure (\<lambda>(js, count, p, ts). length js - jp_pos p)"
    using step_progress [of js count p ts count' p' ts'] by auto
qed simp

declare jsmn_loop.simps [simp del]

definition jsmn_parse :: "string \<Rightarrow> nat \<Rightarrow> jsmnerr_t + nat \<times> jsmntok_t list" where
  "jsmn_parse js num_tokens =
     (case jsmn_loop js (jp_toknext jsmn_init) jsmn_init (replicate num_tokens zero_tok) of
        Inl e \<Rightarrow> Inl e
      | Inr (count, p, ts) \<Rightarrow>
          if \<exists>i \<in> set [0..<jp_toknext p]. tok_start (ts ! i) \<noteq> - 1 \<and> tok_end (ts ! i) = - 1
          then Inl JSMN_ERROR_PART else Inr (count, ts))"

section \<open>Well-formed tokens\<close>

text \<open>A token of a text of which \<open>bound\<close> bytes are read, stored at index \<open>i\<close>.\<close>

definition tok_ok :: "nat \<Rightarrow> nat \<Rightarrow> jsmntok_t \<Rightarrow> bool" where
  "tok_ok bound i t = (0 \<le> tok_start t \<and> tok_start t \<le> int bound \<and>
     (tok_end t = - 1 \<or> tok_start t \<le> tok_end t \<and> tok_end t \<le> int bound) \<and>
     - 1 \<le> tok_parent t \<and> tok_parent t < int i \<and> tok_type t \<noteq> JSMN_UNDEFINED)"

definition jsmn_inv :: "nat \<Rightarrow> nat \<Rightarrow> jsmn_parser \<Rightarrow> jsmntok_t list \<Rightarrow> bool" where
  "jsmn_inv bound count p ts = (count = jp_toknext p \<and> jp_toknext p \<le> length ts \<and> jp_toknext p \<le> bound \<and>
     - 1 \<le> jp_toksuper p \<and> jp_toksuper p < int (jp_toknext p) \<and>
     (\<forall>i < jp_toknext p. tok_ok bound i (ts ! i)) \<and>
     (\<forall>i. jp_toknext p \<le> i \<and> i < length ts \<longrightarrow> ts ! i = zero_tok))"

lemma tok_ok_mono: "tok_ok b i t \<Longrightarrow> b \<le> b' \<Longrightarrow> tok_ok b' i t"
  by (auto simp: tok_ok_def)

lemma bump_length [simp]: "length (bump_super p ts) = length ts"
  by (simp add: bump_super_def)

lemma bump_nth:
  "i < length ts \<Longrightarrow> bump_super p ts ! i =
     (if jp_toksuper p \<noteq> - 1 \<and> i = nat (jp_toksuper p) then (ts ! i)\<lparr>tok_size := tok_size (ts ! i) + 1\<rparr> else ts ! i)"
  by (simp add: bump_super_def nth_list_update)

lemma tok_ok_size [simp]: "tok_ok b i (t\<lparr>tok_size := n\<rparr>) = tok_ok b i t"
  by (simp add: tok_ok_def)

lemma jsmn_close_result:
  "jsmn_close type pos n ts super = Inr (ts', super') \<Longrightarrow>
     ts' = ts \<and> super' = super \<or>
     (\<exists>k < n. ts' = ts[k := (ts ! k)\<lparr>tok_end := int pos + 1\<rparr>] \<and> super' = tok_parent (ts ! k))"
  by (induction n) (auto split: if_splits simp: less_Suc_eq)

lemma inv_add_token:
  assumes "jsmn_inv b count p ts" "jp_toknext p < length ts" "b \<le> b'" "jp_toknext p < b'"
    and "tok_ok b' (jp_toknext p) t" "- 1 \<le> super" "super \<le> int (jp_toknext p)"
  shows "jsmn_inv b' (Suc count) (p\<lparr>jp_toknext := Suc (jp_toknext p), jp_toksuper := super\<rparr>) (ts[jp_toknext p := t])"
  using assms by (auto simp: jsmn_inv_def nth_list_update less_Suc_eq intro: tok_ok_mono)

lemma inv_bump:
  assumes "jsmn_inv b count q ts" "- 1 \<le> jp_toksuper p" "jp_toksuper p < int (jp_toknext q)"
  shows "jsmn_inv b count q (bump_super p ts)"
  using assms by (auto simp: jsmn_inv_def bump_nth)

lemma inv_pos [simp]: "jsmn_inv b count (p\<lparr>jp_pos := n\<rparr>) ts = jsmn_inv b count p ts"
  by (simp add: jsmn_inv_def)

lemma inv_same_super: "p\<lparr>jp_toknext := n, jp_toksuper := jp_toksuper p\<rparr> = p\<lparr>jp_toknext := n\<rparr>"
  by (cases p) simp

lemma inv_weaken: "jsmn_inv b count p ts \<Longrightarrow> b \<le> b' \<Longrightarrow> jsmn_inv b' count p ts"
  by (auto simp: jsmn_inv_def intro: tok_ok_mono)

lemma inv_close:
  assumes "jsmn_inv b count p ts" "k < jp_toknext p" "b \<le> b'" "pos < b'" "b \<le> pos"
  shows "jsmn_inv b' count (p\<lparr>jp_toksuper := tok_parent (ts ! k)\<rparr>) (ts[k := (ts ! k)\<lparr>tok_end := int pos + 1\<rparr>])"
proof -
  have k: "tok_ok b k (ts ! k)" "k < length ts" using assms(1,2) by (simp_all add: jsmn_inv_def)
  then have "tok_ok b' k ((ts ! k)\<lparr>tok_end := int pos + 1\<rparr>)" "- 1 \<le> tok_parent (ts ! k)" "tok_parent (ts ! k) < int (jp_toknext p)"
    using assms(2-5) by (auto simp: tok_ok_def)
  then show ?thesis using inv_weaken [OF assms(1,3)] assms(2) k(2)
    by (simp add: jsmn_inv_def nth_list_update)
qed

lemma step_inv_tokens:
  assumes "jsmn_step js count p ts = Inr (count', p', ts')" "jsmn_inv (jp_pos p) count p ts" "jp_pos p < length js"
  shows "jsmn_inv (Suc (jp_pos p')) count' p' ts'"
proof -
  let ?n = "jp_toknext p" and ?b = "Suc (jp_pos p')"
  have le: "jp_pos p \<le> jp_pos p'" using step_progress [OF assms(1,3)] by simp
  have p: "?n \<le> jp_pos p" "- 1 \<le> jp_toksuper p" "jp_toksuper p < int ?n"
    using assms(2) by (simp_all add: jsmn_inv_def)
  have add: "jsmn_inv ?b (Suc count) (p\<lparr>jp_toknext := Suc ?n\<rparr>) (ts[?n := new_token type s e p (ts ! ?n)])"
    if "?n < length ts" "s \<le> ?b" "int s \<le> e" "e \<le> int ?b" "type \<noteq> JSMN_UNDEFINED" for type s e
    using inv_add_token [OF assms(2) that(1), of ?b "new_token type s e p (ts ! ?n)" "jp_toksuper p"] le p that
    by (simp add: tok_ok_def new_token_def inv_same_super)
  show ?thesis using assms(1)
  proof (cases rule: step_cases)
    case (open_br type)
    have "tok_ok ?b ?n (new_token type (jp_pos p) (- 1) p (ts ! ?n))"
      using open_br(1) le p by (auto simp: tok_ok_def new_token_def)
    with inv_add_token [OF assms(2) open_br(2), of ?b _ "int ?n"] open_br le p show ?thesis by simp
  next
    case (close_br type super)
    from jsmn_close_result [OF close_br(1)] show ?thesis
    proof (elim disjE conjE exE)
      assume "ts' = ts" "super = jp_toksuper p"
      then have "p' = p" "ts' = ts" using close_br(2) by simp_all
      then show ?thesis using inv_weaken [OF assms(2)] close_br(3) by simp
    next
      fix k assume "k < ?n" "ts' = ts[k := (ts ! k)\<lparr>tok_end := int (jp_pos p) + 1\<rparr>]" "super = tok_parent (ts ! k)"
      then show ?thesis using inv_close [OF assms(2), of k ?b "jp_pos p"] close_br(2,3) by simp
    qed
  next
    case (str fin)
    have "Suc (jp_pos p) \<le> fin" using string_end_ge [OF str(1)] by simp
    then have "jsmn_inv ?b count' p' (ts[?n := new_token JSMN_STRING (Suc (jp_pos p)) (int fin) p (ts ! ?n)])"
      using add [OF str(2), of "Suc (jp_pos p)" "int fin" JSMN_STRING] str(3,4) by simp
    then show ?thesis using inv_bump [OF _ p(2)] p(3) str(4,5) by simp
  next
    case separator
    then show ?thesis using assms(2) by (auto simp: jsmn_inv_def intro: tok_ok_mono)
  next
    case (prim fin)
    have "jp_pos p < fin" using prim_end_ge [OF prim(1)] prim(2) by simp
    then have "jsmn_inv ?b count' p' (ts[?n := new_token JSMN_PRIMITIVE (jp_pos p) (int fin) p (ts ! ?n)])"
      using add [OF prim(3), of "jp_pos p" "int fin" JSMN_PRIMITIVE] prim(4,5) by simp
    then show ?thesis using inv_bump [OF _ p(2)] p(3) prim(4,6) by simp
  qed
qed

lemma step_length: "jsmn_step js count p ts = Inr (count', p', ts') \<Longrightarrow> length ts' = length ts"
proof (erule step_cases)
  fix type super assume "jsmn_close type (jp_pos p) (jp_toknext p) ts (jp_toksuper p) = Inr (ts', super)"
  from jsmn_close_result [OF this] show "length ts' = length ts" by auto
qed simp_all

lemma loop_inv_tokens:
  assumes "jsmn_loop js count p ts = Inr (count', p', ts')" "jsmn_inv (jp_pos p) count p ts" "jp_pos p \<le> length js"
  shows "jsmn_inv (length js) count' p' ts' \<and> length ts' = length ts"
  using assms
proof (induction js count p ts rule: jsmn_loop.induct)
  case (1 js count p ts)
  show ?case
  proof (cases "jp_pos p < length js")
    case False
    then show ?thesis using "1.prems" by (simp add: jsmn_loop.simps [of js count p ts])
  next
    case True
    then obtain c q us where s: "jsmn_step js count p ts = Inr (c, q, us)"
      using "1.prems"(1) by (auto simp: jsmn_loop.simps [of js count p ts] split: sum.splits)
    then have "jsmn_loop js c (q\<lparr>jp_pos := Suc (jp_pos q)\<rparr>) us = Inr (count', p', ts')"
      using "1.prems"(1) True by (simp add: jsmn_loop.simps [of js count p ts])
    moreover have "jsmn_inv (Suc (jp_pos q)) c q us" using s "1.prems"(2) True by (rule step_inv_tokens)
    ultimately show ?thesis using "1.IH" [OF True s refl refl] step_progress [OF s True] step_length [OF s] by simp
  qed
qed

lemma scans_need_no_memory:
  "prim_end js pos \<noteq> Inl JSMN_ERROR_NOMEM" "string_end js pos \<noteq> Inl JSMN_ERROR_NOMEM"
  "jsmn_close type pos n ts super \<noteq> Inl JSMN_ERROR_NOMEM"
proof -
  show "prim_end js pos \<noteq> Inl JSMN_ERROR_NOMEM"
    by (induction js pos rule: prim_end.induct) (subst prim_end.simps, simp)
  show "string_end js pos \<noteq> Inl JSMN_ERROR_NOMEM"
    by (induction js pos rule: string_end.induct) (subst string_end.simps, simp add: Let_def)
  show "jsmn_close type pos n ts super \<noteq> Inl JSMN_ERROR_NOMEM"
    by (induction n) simp_all
qed

lemma step_needs_no_memory:
  assumes "jp_toknext p < length ts"
  shows "jsmn_step js count p ts \<noteq> Inl JSMN_ERROR_NOMEM"
  using assms scans_need_no_memory
  by (auto simp: jsmn_step_def jsmn_parse_string_def jsmn_parse_primitive_def jsmn_alloc_token_def Let_def
    split: sum.splits)

lemma loop_needs_no_memory:
  assumes "jsmn_inv (jp_pos p) count p ts" "length js \<le> length ts"
  shows "jsmn_loop js count p ts \<noteq> Inl JSMN_ERROR_NOMEM"
  using assms
proof (induction js count p ts rule: jsmn_loop.induct)
  case (1 js count p ts)
  show ?case
  proof (cases "jp_pos p < length js")
    case False
    then show ?thesis by (simp add: jsmn_loop.simps [of js count p ts])
  next
    case True
    then have n: "jsmn_step js count p ts \<noteq> Inl JSMN_ERROR_NOMEM"
      using "1.prems" by (intro step_needs_no_memory) (simp add: jsmn_inv_def)
    show ?thesis
    proof (cases "jsmn_step js count p ts")
      case (Inl e)
      then show ?thesis using n True by (simp add: jsmn_loop.simps [of js count p ts])
    next
      case (Inr r)
      obtain c q us where r: "r = (c, q, us)" by (cases r)
      note s = Inr [unfolded r]
      have "jsmn_inv (Suc (jp_pos q)) c q us" using s "1.prems"(1) True by (rule step_inv_tokens)
      then have "jsmn_loop js c (q\<lparr>jp_pos := Suc (jp_pos q)\<rparr>) us \<noteq> Inl JSMN_ERROR_NOMEM"
        using "1.IH" [OF True s refl refl] "1.prems"(2) step_length [OF s] by simp
      then show ?thesis using s True by (simp add: jsmn_loop.simps [of js count p ts])
    qed
  qed
qed

lemma init_tokens: "jsmn_inv 0 0 jsmn_init (replicate n zero_tok)"
  by (simp add: jsmn_inv_def jsmn_init_def)

text \<open>A complete token of a text of \<open>len\<close> bytes at index \<open>i\<close>.\<close>

definition token_wf :: "nat \<Rightarrow> nat \<Rightarrow> jsmntok_t \<Rightarrow> bool" where
  "token_wf len i t = (0 \<le> tok_start t \<and> tok_start t \<le> tok_end t \<and> tok_end t \<le> int len \<and>
     - 1 \<le> tok_parent t \<and> tok_parent t < int i \<and> tok_type t \<noteq> JSMN_UNDEFINED)"

lemma parse_tokens:
  assumes "jsmn_parse js n = Inr (count, ts)"
  shows "count \<le> n" "length ts = n" "count \<le> length js" "i < count \<Longrightarrow> token_wf (length js) i (ts ! i)"
    "count \<le> i \<Longrightarrow> i < n \<Longrightarrow> ts ! i = zero_tok"
proof -
  obtain p where l: "jsmn_loop js 0 jsmn_init (replicate n zero_tok) = Inr (count, p, ts)"
    and closed: "\<forall>i < jp_toknext p. tok_start (ts ! i) = - 1 \<or> tok_end (ts ! i) \<noteq> - 1"
    using assms by (auto simp: jsmn_parse_def jsmn_init_def split: sum.splits if_splits)
  have i: "jsmn_inv (length js) count p ts" "length ts = n"
    using loop_inv_tokens [OF l] init_tokens [of n] by (simp_all add: jsmn_init_def)
  show "count \<le> n" "length ts = n" "count \<le> length js" using i by (simp_all add: jsmn_inv_def)
  show "token_wf (length js) i (ts ! i)" if "i < count"
  proof -
    have "tok_ok (length js) i (ts ! i)" "tok_start (ts ! i) = - 1 \<or> tok_end (ts ! i) \<noteq> - 1"
      using i(1) closed that by (simp_all add: jsmn_inv_def)
    then show ?thesis by (auto simp: tok_ok_def token_wf_def)
  qed
  show "ts ! i = zero_tok" if "count \<le> i" "i < n" using i that by (simp add: jsmn_inv_def)
qed

lemma parse_nomem: "jsmn_parse js n = Inl JSMN_ERROR_NOMEM \<Longrightarrow> n < length js"
proof (rule ccontr)
  assume p: "jsmn_parse js n = Inl JSMN_ERROR_NOMEM" and "\<not> n < length js"
  then have "jsmn_loop js 0 jsmn_init (replicate n zero_tok) \<noteq> Inl JSMN_ERROR_NOMEM"
    using loop_needs_no_memory [of jsmn_init 0 "replicate n zero_tok" js] init_tokens [of n]
    by (simp add: jsmn_init_def)
  with p show False by (auto simp: jsmn_parse_def jsmn_init_def split: sum.splits if_splits)
qed

section \<open>Properties\<close>



end
