(* ===== verification/Config_File.thy ===== *)
theory Config_File
  imports Jsmn Runtime_Config
begin

text \<open>
  The configuration file of \<^verbatim>\<open>src/thermal_config.c\<close>: the helpers that read a token, the parsers of
  the objects \<^verbatim>\<open>metrics\<close> (with \<^verbatim>\<open>tls\<close>, \<^verbatim>\<open>basic_auth\<close> and \<^verbatim>\<open>statsd\<close>), \<^verbatim>\<open>predictive\<close> and \<^verbatim>\<open>telemetry\<close>, and
  \<^verbatim>\<open>parse_config_file\<close>. A file is what a path maps to; \<^term>\<open>None\<close> is one that cannot be opened or read.
  \<open>Config_overrun\<close> is a read behind the token array, which C leaves undefined. A result that would
  not come because a loop does not end is \<^term>\<open>None\<close>.
\<close>

section \<open>Reading tokens\<close>

datatype config_error = Config_invalid | Config_overrun

definition tok_at :: "jsmntok_t list \<Rightarrow> nat \<Rightarrow> config_error + jsmntok_t" where
  "tok_at ts i = (if i < length ts then Inr (ts ! i) else Inl Config_overrun)"

text \<open>A copied string ends at its first NUL for everyone who reads it.\<close>

definition c_string :: "string \<Rightarrow> string" where
  "c_string s = takeWhile (\<lambda>c. c \<noteq> CHR 0x00) s"

definition token_len :: "jsmntok_t \<Rightarrow> nat" where
  "token_len t = nat (tok_end t - tok_start t)"

definition token_text :: "string \<Rightarrow> jsmntok_t \<Rightarrow> string" where
  "token_text js t = take (token_len t) (drop (nat (tok_start t)) js)"

definition copy_string_field :: "nat \<Rightarrow> string \<Rightarrow> string option" where
  "copy_string_field dest_size s = (if length s \<ge> dest_size then None else Some s)"

definition json_token_equals :: "string \<Rightarrow> jsmntok_t \<Rightarrow> string \<Rightarrow> bool" where
  "json_token_equals js t text = (tok_type t = JSMN_STRING \<and> length text = token_len t \<and>
     strncmp_eq (drop (nat (tok_start t)) js) text (token_len t))"

text \<open>
  \<open>skip_subtree\<close> is the \<^verbatim>\<open>while\<close> loop of \<^verbatim>\<open>json_skip\<close>, which calls \<^verbatim>\<open>json_skip\<close> on each member. Every call
  is on a larger index, so fuel for each token is enough.
\<close>

fun skip_subtree :: "nat \<Rightarrow> jsmntok_t list \<Rightarrow> nat \<Rightarrow> nat \<Rightarrow> nat \<Rightarrow> nat" where
  "skip_subtree 0 ts count index cursor = cursor"
| "skip_subtree (Suc fuel) ts count index cursor =
     (if cursor < count \<and> tok_parent (ts ! cursor) \<ge> int index
      then skip_subtree fuel ts count index
        (if tok_type (ts ! cursor) \<in> {JSMN_PRIMITIVE, JSMN_STRING, JSMN_UNDEFINED} then cursor + 1
         else skip_subtree fuel ts count cursor (cursor + 1))
      else cursor)"

definition json_skip :: "jsmntok_t list \<Rightarrow> nat \<Rightarrow> nat \<Rightarrow> nat" where
  "json_skip ts count index =
     (if index \<ge> count then index
      else if tok_type (ts ! index) \<in> {JSMN_PRIMITIVE, JSMN_STRING, JSMN_UNDEFINED} then index + 1
      else skip_subtree count ts count index (index + 1))"

definition json_token_to_string :: "string \<Rightarrow> jsmntok_t \<Rightarrow> nat \<Rightarrow> string option" where
  "json_token_to_string js t dest_size =
     (if tok_type t \<noteq> JSMN_STRING then None
      else if token_len t \<ge> dest_size then None
      else Some (c_string (token_text js t)))"

definition json_token_to_int :: "string \<Rightarrow> jsmntok_t \<Rightarrow> int \<Rightarrow> int \<Rightarrow> int option" where
  "json_token_to_int js t lo hi =
     (if tok_type t \<noteq> JSMN_PRIMITIVE then None
      else if token_len t = 0 \<or> token_len t \<ge> 64 then None
      else let buffer = c_string (token_text js t); (v, endp, erange) = strtol10 buffer
           in if erange \<or> endp = 0 \<or> endp \<noteq> length buffer \<or> v < lo \<or> v > hi then None
              else Some (c_int v))"

definition json_token_to_double :: "string \<Rightarrow> jsmntok_t \<Rightarrow> dbl \<Rightarrow> dbl \<Rightarrow> dbl option" where
  "json_token_to_double js t lo hi =
     (if tok_type t \<noteq> JSMN_PRIMITIVE then None
      else if token_len t = 0 \<or> token_len t \<ge> 64 then None
      else let buffer = c_string (token_text js t); (v, endp, erange) = strtod buffer
           in if erange \<or> endp = 0 \<or> endp \<noteq> length buffer \<or> \<not> isfinite v \<or> dbl_less v lo \<or> dbl_less hi v
              then None else Some v)"

definition json_token_to_bool :: "string \<Rightarrow> jsmntok_t \<Rightarrow> int option" where
  "json_token_to_bool js t =
     (let len = token_len t; ptr = drop (nat (tok_start t)) js
      in if tok_type t \<noteq> JSMN_PRIMITIVE then None
         else if len = 4 \<and> strncmp_eq ptr ''true'' 4 then Some 1
         else if len = 5 \<and> strncmp_eq ptr ''false'' 5 then Some 0
         else if len = 1 \<and> (take 1 ptr = ''0'' \<or> take 1 ptr = ''1'') then Some (if take 1 ptr = ''1'' then 1 else 0)
         else None)"

section \<open>Objects\<close>

type_synonym member_result = "config_error + nat \<times> tsd_runtime_config"

text \<open>Store the converted value of a member; the pointed-to token is read only here.\<close>

definition store :: "(jsmntok_t \<Rightarrow> 'v option) \<Rightarrow> ('v \<Rightarrow> tsd_runtime_config \<Rightarrow> tsd_runtime_config) \<Rightarrow>
    jsmntok_t list \<Rightarrow> nat \<Rightarrow> nat \<Rightarrow> tsd_runtime_config \<Rightarrow> member_result option" where
  "store conv upd ts vi next_i cfg = Some
     (case tok_at ts vi of
        Inl e \<Rightarrow> Inl e
      | Inr t \<Rightarrow> (case conv t of None \<Rightarrow> Inl Config_invalid | Some v \<Rightarrow> Inr (next_i, upd v cfg)))"

text \<open>
  The loop all object parsers share: a key, its value's index, the index behind the value, and the
  member's own treatment, which yields the next cursor.
\<close>

partial_function (option) object_loop ::
    "(jsmntok_t \<Rightarrow> nat \<Rightarrow> nat \<Rightarrow> tsd_runtime_config \<Rightarrow> member_result option) \<Rightarrow> jsmntok_t list \<Rightarrow> nat \<Rightarrow> nat \<Rightarrow> nat \<Rightarrow>
     tsd_runtime_config \<Rightarrow> member_result option" where
  "object_loop member ts count fin cursor cfg =
     (if cursor < fin then
        (case tok_at ts cursor of
           Inl e \<Rightarrow> Some (Inl e)
         | Inr key \<Rightarrow>
             if tok_type key \<noteq> JSMN_STRING then Some (Inl Config_invalid)
             else Option.bind (member key (cursor + 1) (json_skip ts count (cursor + 1)) cfg)
               (\<lambda>r. case r of Inl e \<Rightarrow> Some (Inl e) | Inr (cursor, cfg) \<Rightarrow> object_loop member ts count fin cursor cfg))
      else Some (Inr (fin, cfg)))"

definition parse_object ::
    "(jsmntok_t \<Rightarrow> nat \<Rightarrow> nat \<Rightarrow> tsd_runtime_config \<Rightarrow> member_result option) \<Rightarrow> jsmntok_t list \<Rightarrow> nat \<Rightarrow> nat \<Rightarrow>
     tsd_runtime_config \<Rightarrow> member_result option" where
  "parse_object member ts count index cfg =
     (case tok_at ts index of
        Inl e \<Rightarrow> Some (Inl e)
      | Inr obj \<Rightarrow>
          if tok_type obj \<noteq> JSMN_OBJECT then Some (Inr (json_skip ts count index, cfg))
          else object_loop member ts count (json_skip ts count index) (index + 1) cfg)"

definition metrics_tls_member ::
    "string \<Rightarrow> jsmntok_t list \<Rightarrow> jsmntok_t \<Rightarrow> nat \<Rightarrow> nat \<Rightarrow> tsd_runtime_config \<Rightarrow> member_result option" where
  "metrics_tls_member js ts key vi next_i cfg =
    (if json_token_equals js key ''certificate'' then
       store (\<lambda>t. json_token_to_string js t 256) (\<lambda>v c. c\<lparr>metrics_tls_cert_path := v\<rparr>) ts vi next_i cfg
     else if json_token_equals js key ''private_key'' then
       store (\<lambda>t. json_token_to_string js t 256) (\<lambda>v c. c\<lparr>metrics_tls_key_path := v\<rparr>) ts vi next_i cfg
     else if json_token_equals js key ''client_ca'' then
       store (\<lambda>t. json_token_to_string js t 256) (\<lambda>v c. c\<lparr>metrics_tls_ca_path := v\<rparr>) ts vi next_i cfg
     else if json_token_equals js key ''require_client_auth'' then
       store (json_token_to_bool js) (\<lambda>v c. c\<lparr>metrics_tls_require_client_auth := v\<rparr>) ts vi next_i cfg
     else Some (Inr (next_i, cfg)))"

definition parse_metrics_tls_object ::
    "string \<Rightarrow> jsmntok_t list \<Rightarrow> nat \<Rightarrow> nat \<Rightarrow> tsd_runtime_config \<Rightarrow> member_result option" where
  "parse_metrics_tls_object js ts count = parse_object (metrics_tls_member js ts) ts count"

definition metrics_basic_auth_member ::
    "string \<Rightarrow> jsmntok_t list \<Rightarrow> jsmntok_t \<Rightarrow> nat \<Rightarrow> nat \<Rightarrow> tsd_runtime_config \<Rightarrow> member_result option" where
  "metrics_basic_auth_member js ts key vi next_i cfg =
    (if json_token_equals js key ''username'' then
       store (\<lambda>t. json_token_to_string js t 128) (\<lambda>v c. c\<lparr>metrics_basic_auth_user := v\<rparr>) ts vi next_i cfg
     else if json_token_equals js key ''password'' then
       store (\<lambda>t. json_token_to_string js t 128) (\<lambda>v c. c\<lparr>metrics_basic_auth_pass := v\<rparr>) ts vi next_i cfg
     else Some (Inr (next_i, cfg)))"

definition parse_metrics_basic_auth_object ::
    "string \<Rightarrow> jsmntok_t list \<Rightarrow> nat \<Rightarrow> nat \<Rightarrow> tsd_runtime_config \<Rightarrow> member_result option" where
  "parse_metrics_basic_auth_object js ts count = parse_object (metrics_basic_auth_member js ts) ts count"

definition metrics_statsd_member ::
    "string \<Rightarrow> jsmntok_t list \<Rightarrow> jsmntok_t \<Rightarrow> nat \<Rightarrow> nat \<Rightarrow> tsd_runtime_config \<Rightarrow> member_result option" where
  "metrics_statsd_member js ts key vi next_i cfg =
    (if json_token_equals js key ''host'' then
       store (\<lambda>t. json_token_to_string js t 128) (\<lambda>v c. c\<lparr>statsd_host := v\<rparr>) ts vi next_i cfg
     else if json_token_equals js key ''port'' then
       store (\<lambda>t. json_token_to_int js t 1 65535) (\<lambda>v c. c\<lparr>statsd_port := v\<rparr>) ts vi next_i cfg
     else Some (Inr (next_i, cfg)))"

definition parse_metrics_statsd_object ::
    "string \<Rightarrow> jsmntok_t list \<Rightarrow> nat \<Rightarrow> nat \<Rightarrow> tsd_runtime_config \<Rightarrow> member_result option" where
  "parse_metrics_statsd_object js ts count = parse_object (metrics_statsd_member js ts) ts count"

definition metrics_member ::
    "string \<Rightarrow> jsmntok_t list \<Rightarrow> nat \<Rightarrow> jsmntok_t \<Rightarrow> nat \<Rightarrow> nat \<Rightarrow> tsd_runtime_config \<Rightarrow> member_result option" where
  "metrics_member js ts count key vi next_i cfg =
    (if json_token_equals js key ''bind_address'' then
       store (\<lambda>t. json_token_to_string js t 64) (\<lambda>v c. c\<lparr>metrics_bind_host := v\<rparr>) ts vi next_i cfg
     else if json_token_equals js key ''port'' then
       store (\<lambda>t. json_token_to_int js t 0 65535)
         (\<lambda>v c. c\<lparr>metrics_port := v, metrics_enabled := (if v > 0 then 1 else 0)\<rparr>) ts vi next_i cfg
     else if json_token_equals js key ''tls'' then parse_metrics_tls_object js ts count vi cfg
     else if json_token_equals js key ''basic_auth'' then parse_metrics_basic_auth_object js ts count vi cfg
     else if json_token_equals js key ''statsd'' then parse_metrics_statsd_object js ts count vi cfg
     else Some (Inr (next_i, cfg)))"

definition parse_metrics_object ::
    "string \<Rightarrow> jsmntok_t list \<Rightarrow> nat \<Rightarrow> nat \<Rightarrow> tsd_runtime_config \<Rightarrow> member_result option" where
  "parse_metrics_object js ts count = parse_object (metrics_member js ts count) ts count"

definition predictive_member ::
    "string \<Rightarrow> jsmntok_t list \<Rightarrow> jsmntok_t \<Rightarrow> nat \<Rightarrow> nat \<Rightarrow> tsd_runtime_config \<Rightarrow> member_result option" where
  "predictive_member js ts key vi next_i cfg =
    (if json_token_equals js key ''coeff_path'' then
       store (\<lambda>t. json_token_to_string js t 256) (\<lambda>v c. c\<lparr>predictive_coeff_path := v\<rparr>) ts vi next_i cfg
     else if json_token_equals js key ''temp_ceiling_c'' then
       store (\<lambda>t. json_token_to_int js t 20 125) (\<lambda>v c. c\<lparr>predictive_temp_ceiling_c := v\<rparr>) ts vi next_i cfg
     else if json_token_equals js key ''safety_margin_c'' then
       store (\<lambda>t. json_token_to_int js t 0 60) (\<lambda>v c. c\<lparr>predictive_safety_margin_c := v\<rparr>) ts vi next_i cfg
     else if json_token_equals js key ''emergency_margin_c'' then
       store (\<lambda>t. json_token_to_int js t 0 60) (\<lambda>v c. c\<lparr>predictive_emergency_margin_c := v\<rparr>) ts vi next_i cfg
     else if json_token_equals js key ''alpha'' then
       store (\<lambda>t. json_token_to_double js t (Fin 0) (Fin 1)) (\<lambda>v c. c\<lparr>predictive_alpha := v\<rparr>) ts vi next_i cfg
     else Some (Inr (next_i, cfg)))"

definition parse_predictive_object ::
    "string \<Rightarrow> jsmntok_t list \<Rightarrow> nat \<Rightarrow> nat \<Rightarrow> tsd_runtime_config \<Rightarrow> member_result option" where
  "parse_predictive_object js ts count = parse_object (predictive_member js ts) ts count"

definition telemetry_member ::
    "string \<Rightarrow> jsmntok_t list \<Rightarrow> jsmntok_t \<Rightarrow> nat \<Rightarrow> nat \<Rightarrow> tsd_runtime_config \<Rightarrow> member_result option" where
  "telemetry_member js ts key vi next_i cfg =
    (if json_token_equals js key ''profile'' then
       store (\<lambda>t. json_token_to_string js t 256) (\<lambda>v c. c\<lparr>telemetry_profile_path := v\<rparr>) ts vi next_i cfg
     else if json_token_equals js key ''interval_ms'' then
       store (\<lambda>t. json_token_to_int js t 10 60000) (\<lambda>v c. c\<lparr>telemetry_interval_ms := v\<rparr>) ts vi next_i cfg
     else if json_token_equals js key ''max_skew_ms'' then
       store (\<lambda>t. json_token_to_int js t 0 60000) (\<lambda>v c. c\<lparr>telemetry_max_skew_ms := v\<rparr>) ts vi next_i cfg
     else if json_token_equals js key ''ewma'' then
       store (\<lambda>t. json_token_to_double js t (Fin 0) (Fin 1)) (\<lambda>v c. c\<lparr>telemetry_ewma_alpha := v\<rparr>) ts vi next_i cfg
     else Some (Inr (next_i, cfg)))"

definition parse_telemetry_object ::
    "string \<Rightarrow> jsmntok_t list \<Rightarrow> nat \<Rightarrow> nat \<Rightarrow> tsd_runtime_config \<Rightarrow> member_result option" where
  "parse_telemetry_object js ts count = parse_object (telemetry_member js ts) ts count"

section \<open>The file\<close>

text \<open>The retry with a token array of twice the size.\<close>

partial_function (option) tokenize :: "string \<Rightarrow> nat \<Rightarrow> (jsmnerr_t + nat \<times> jsmntok_t list) option" where
  "tokenize js token_capacity =
     (let r = jsmn_parse js token_capacity
      in if r = Inl JSMN_ERROR_NOMEM then tokenize js (token_capacity * 2) else Some r)"

fun top_level_loop :: "string \<Rightarrow> jsmntok_t list \<Rightarrow> nat \<Rightarrow> nat \<Rightarrow> nat \<Rightarrow> tsd_runtime_config \<Rightarrow>
    (config_error + tsd_runtime_config) option" where
  "top_level_loop js ts parsed 0 cursor cfg = Some (Inr cfg)"
| "top_level_loop js ts parsed (Suc pairs) cursor cfg =
     (case tok_at ts cursor of
        Inl e \<Rightarrow> Some (Inl e)
      | Inr key \<Rightarrow>
          if tok_type key \<noteq> JSMN_STRING then Some (Inl Config_invalid)
          else
            (let vi = cursor + 1
             in Option.bind
                 (if json_token_equals js key ''predictive'' then parse_predictive_object js ts parsed vi cfg
                  else if json_token_equals js key ''telemetry'' then parse_telemetry_object js ts parsed vi cfg
                  else if json_token_equals js key ''metrics'' then parse_metrics_object js ts parsed vi cfg
                  else Some (Inr (json_skip ts parsed vi, cfg)))
                 (\<lambda>r. case r of
                    Inl e \<Rightarrow> Some (Inl e)
                  | Inr (cursor, cfg) \<Rightarrow> top_level_loop js ts parsed pairs cursor cfg)))"

definition parse_config_file ::
    "(string \<Rightarrow> string option) \<Rightarrow> string \<Rightarrow> tsd_runtime_config \<Rightarrow> (config_error + tsd_runtime_config) option" where
  "parse_config_file files path cfg =
     (case files path of
        None \<Rightarrow> Some (Inl Config_invalid)
      | Some js \<Rightarrow>
          Option.bind (tokenize js 128)
            (\<lambda>r. case r of
               Inl e \<Rightarrow> Some (Inl Config_invalid)
             | Inr (parsed, ts) \<Rightarrow>
                 if parsed = 0 \<or> tok_type (ts ! 0) \<noteq> JSMN_OBJECT then Some (Inl Config_invalid)
                 else top_level_loop js ts parsed (nat (tok_size (ts ! 0))) 1 cfg))"

section \<open>Skipping a value\<close>

lemma skip_subtree_spec:
  assumes "count \<le> fuel + cursor" "index \<le> cursor"
  shows "cursor \<le> skip_subtree fuel ts count index cursor"
    "cursor \<le> count \<Longrightarrow> skip_subtree fuel ts count index cursor \<le> count"
    "cursor \<le> k \<Longrightarrow> k < skip_subtree fuel ts count index cursor \<Longrightarrow> tok_parent (ts ! k) \<ge> int index"
    "skip_subtree fuel ts count index cursor < count \<Longrightarrow>
       tok_parent (ts ! skip_subtree fuel ts count index cursor) < int index"
proof -
  let ?good = "\<lambda>index cursor r. cursor \<le> r \<and> (cursor \<le> count \<longrightarrow> r \<le> count) \<and>
    (\<forall>k. cursor \<le> k \<and> k < r \<longrightarrow> tok_parent (ts ! k) \<ge> int index) \<and> (r < count \<longrightarrow> tok_parent (ts ! r) < int index)"
  have "?good index cursor (skip_subtree fuel ts count index cursor)" using assms
  proof (induction fuel arbitrary: index cursor)
    case 0
    then show ?case by auto
  next
    case (Suc fuel)
    show ?case
    proof (cases "cursor < count \<and> tok_parent (ts ! cursor) \<ge> int index")
      case False
      then show ?thesis by (auto simp: Suc.prems)
    next
      case True
      define c where "c = (if tok_type (ts ! cursor) \<in> {JSMN_PRIMITIVE, JSMN_STRING, JSMN_UNDEFINED} then cursor + 1
        else skip_subtree fuel ts count cursor (cursor + 1))"
      have "?good cursor (cursor + 1) (skip_subtree fuel ts count cursor (cursor + 1))"
        using Suc.prems by (intro Suc.IH) auto
      then have c: "cursor < c" "c \<le> count" "\<forall>k. cursor \<le> k \<and> k < c \<longrightarrow> tok_parent (ts ! k) \<ge> int index"
        using True Suc.prems(2) unfolding c_def
        by (auto simp: le_eq_less_or_eq [of cursor] Suc_le_eq split: if_splits)
      have good: "?good index c (skip_subtree fuel ts count index c)" using Suc.prems c(1) by (intro Suc.IH) auto
      have eq: "skip_subtree (Suc fuel) ts count index cursor = skip_subtree fuel ts count index c"
        using True by (simp add: c_def)
      have "\<forall>k. cursor \<le> k \<and> k < skip_subtree fuel ts count index c \<longrightarrow> tok_parent (ts ! k) \<ge> int index"
        using good c(3) by (metis not_le)
      then show ?thesis using good c(1,2) unfolding eq by simp
    qed
  qed
  then show "cursor \<le> skip_subtree fuel ts count index cursor"
    "cursor \<le> count \<Longrightarrow> skip_subtree fuel ts count index cursor \<le> count"
    "cursor \<le> k \<Longrightarrow> k < skip_subtree fuel ts count index cursor \<Longrightarrow> tok_parent (ts ! k) \<ge> int index"
    "skip_subtree fuel ts count index cursor < count \<Longrightarrow>
       tok_parent (ts ! skip_subtree fuel ts count index cursor) < int index" by blast+
qed

lemma json_skip_bounds:
  "index \<le> json_skip ts count index" "index < count \<Longrightarrow> index < json_skip ts count index"
  "index \<le> count \<Longrightarrow> json_skip ts count index \<le> count"
  using skip_subtree_spec(1,2) [of count count "index + 1" index ts] by (auto simp: json_skip_def)

section \<open>The contract of a member\<close>

text \<open>
  What the shared loop needs of a member's treatment and what it gives in return: a result that
  comes, a cursor that advances and stays within the tokens, an invariant of the configuration, and
  no read behind the array while it is larger than the number of tokens.
\<close>

definition member_fine :: "(tsd_runtime_config \<Rightarrow> bool) \<Rightarrow> jsmntok_t list \<Rightarrow> nat \<Rightarrow> nat \<Rightarrow> member_result option \<Rightarrow> bool" where
  "member_fine P ts count vi r = (case r of
     None \<Rightarrow> False
   | Some (Inl e) \<Rightarrow> e = Config_overrun \<longrightarrow> length ts \<le> count
   | Some (Inr (cursor, cfg)) \<Rightarrow> vi \<le> cursor \<and> cursor \<le> count \<and> P cfg)"

locale json_member =
  fixes member :: "jsmntok_t \<Rightarrow> nat \<Rightarrow> nat \<Rightarrow> tsd_runtime_config \<Rightarrow> member_result option"
    and P :: "tsd_runtime_config \<Rightarrow> bool" and ts :: "jsmntok_t list" and count :: nat
  assumes member_ok: "vi \<le> next_i \<Longrightarrow> next_i \<le> count \<Longrightarrow> P cfg \<Longrightarrow> member_fine P ts count vi (member key vi next_i cfg)"
begin

lemma object_loop_fine:
  "cursor \<le> fin \<Longrightarrow> fin \<le> count \<Longrightarrow> P cfg \<Longrightarrow> member_fine P ts count cursor (object_loop member ts count fin cursor cfg)"
proof (induction "count - cursor" arbitrary: cursor cfg rule: less_induct)
  case less
  show ?case
  proof (cases "cursor < fin \<and> cursor < length ts \<and> tok_type (ts ! cursor) = JSMN_STRING")
    case False
    then show ?thesis using less.prems
      by (auto simp: object_loop.simps [of member ts count fin cursor] member_fine_def tok_at_def)
  next
    case True
    let ?r = "member (ts ! cursor) (cursor + 1) (json_skip ts count (cursor + 1)) cfg"
    have vi: "cursor + 1 \<le> count" using True less.prems(2) by simp
    have m: "member_fine P ts count (cursor + 1) ?r"
      using less.prems(3) vi by (intro member_ok json_skip_bounds)
    show ?thesis
    proof (cases "\<exists>c cfg'. ?r = Some (Inr (c, cfg'))")
      case False
      then show ?thesis using True m
        by (auto simp: object_loop.simps [of member ts count fin cursor] member_fine_def tok_at_def
          split: option.splits sum.splits)
    next
      case inr: True
      then obtain c cfg' where r: "?r = Some (Inr (c, cfg'))" by blast
      then have c: "cursor < c" "c \<le> count" "P cfg'" using m by (simp_all add: member_fine_def)
      have l: "object_loop member ts count fin cursor cfg = object_loop member ts count fin c cfg'"
        using True r by (simp add: object_loop.simps [of member ts count fin cursor] tok_at_def)
      show ?thesis
      proof (cases "c \<le> fin")
        case True2: True
        have "member_fine P ts count c (object_loop member ts count fin c cfg')"
          using c less.prems(2) True2 True by (intro less.hyps) auto
        then show ?thesis using c(1) unfolding l by (auto simp: member_fine_def split: option.splits sum.splits)
      next
        case False
        then have "object_loop member ts count fin c cfg' = Some (Inr (fin, cfg'))"
          by (simp add: object_loop.simps [of member ts count fin c])
        then show ?thesis using less.prems c(3) by (simp add: l member_fine_def)
      qed
    qed
  qed
qed

lemma parse_object_fine:
  assumes "index \<le> count" "P cfg"
  shows "member_fine P ts count index (parse_object member ts count index cfg)"
proof (cases "index < count")
  case True
  note s = json_skip_bounds(2,3) [of index count ts]
  have "member_fine P ts count (index + 1) (object_loop member ts count (json_skip ts count index) (index + 1) cfg)"
    using s True assms by (intro object_loop_fine) auto
  then show ?thesis using s True assms
    by (auto simp: parse_object_def tok_at_def member_fine_def split: option.splits sum.splits)
next
  case False
  have "object_loop member ts count index (index + 1) cfg = Some (Inr (index, cfg))"
    by (simp add: object_loop.simps [of member ts count index])
  then show ?thesis using False assms
    by (auto simp: parse_object_def tok_at_def member_fine_def json_skip_def)
qed

end

lemma skip_fine: "vi \<le> next_i \<Longrightarrow> next_i \<le> count \<Longrightarrow> P cfg \<Longrightarrow> member_fine P ts count vi (Some (Inr (next_i, cfg)))"
  by (simp add: member_fine_def)

lemma store_fine:
  assumes "\<And>t v. conv t = Some v \<Longrightarrow> P (upd v cfg)" "vi \<le> next_i" "next_i \<le> count"
  shows "member_fine P ts count vi (store conv upd ts vi next_i cfg)"
  using assms by (auto simp: store_def member_fine_def tok_at_def split: option.splits)

lemma token_int_range:
  assumes "json_token_to_int js t lo hi = Some v" "INT_MIN \<le> lo" "hi \<le> INT_MAX"
  shows "lo \<le> v \<and> v \<le> hi"
  using assms by (auto simp: json_token_to_int_def c_int_id Let_def split: if_splits prod.splits)

lemma token_double_range:
  "json_token_to_double js t lo hi = Some v \<Longrightarrow> isfinite v \<and> \<not> dbl_less v lo \<and> \<not> dbl_less hi v"
  by (auto simp: json_token_to_double_def Let_def split: if_splits prod.splits)

text \<open>The ranges of a runtime generation are such an invariant.\<close>

lemma generation_ranges_strings [simp]:
  "generation_ranges_ok (cfg\<lparr>metrics_tls_cert_path := s\<rparr>) = generation_ranges_ok cfg"
  "generation_ranges_ok (cfg\<lparr>metrics_tls_key_path := s\<rparr>) = generation_ranges_ok cfg"
  "generation_ranges_ok (cfg\<lparr>metrics_tls_ca_path := s\<rparr>) = generation_ranges_ok cfg"
  "generation_ranges_ok (cfg\<lparr>metrics_tls_require_client_auth := n\<rparr>) = generation_ranges_ok cfg"
  "generation_ranges_ok (cfg\<lparr>metrics_basic_auth_user := s\<rparr>) = generation_ranges_ok cfg"
  "generation_ranges_ok (cfg\<lparr>metrics_basic_auth_pass := s\<rparr>) = generation_ranges_ok cfg"
  "generation_ranges_ok (cfg\<lparr>statsd_host := s\<rparr>) = generation_ranges_ok cfg"
  "generation_ranges_ok (cfg\<lparr>statsd_port := n\<rparr>) = generation_ranges_ok cfg"
  "generation_ranges_ok (cfg\<lparr>metrics_bind_host := s\<rparr>) = generation_ranges_ok cfg"
  "generation_ranges_ok (cfg\<lparr>metrics_port := n\<rparr>) = generation_ranges_ok cfg"
  "generation_ranges_ok (cfg\<lparr>metrics_enabled := n\<rparr>) = generation_ranges_ok cfg"
  "generation_ranges_ok (cfg\<lparr>predictive_coeff_path := s\<rparr>) = generation_ranges_ok cfg"
  "generation_ranges_ok (cfg\<lparr>telemetry_profile_path := s\<rparr>) = generation_ranges_ok cfg"
  by (simp_all add: generation_ranges_ok_def)

lemma generation_ranges_limits:
  assumes "generation_ranges_ok cfg"
  shows "20 \<le> v \<and> v \<le> 125 \<Longrightarrow> generation_ranges_ok (cfg\<lparr>predictive_temp_ceiling_c := v\<rparr>)"
    "0 \<le> v \<and> v \<le> 60 \<Longrightarrow> generation_ranges_ok (cfg\<lparr>predictive_safety_margin_c := v\<rparr>)"
    "0 \<le> v \<and> v \<le> 60 \<Longrightarrow> generation_ranges_ok (cfg\<lparr>predictive_emergency_margin_c := v\<rparr>)"
    "10 \<le> v \<and> v \<le> 60000 \<Longrightarrow> generation_ranges_ok (cfg\<lparr>telemetry_interval_ms := v\<rparr>)"
    "0 \<le> v \<and> v \<le> 60000 \<Longrightarrow> generation_ranges_ok (cfg\<lparr>telemetry_max_skew_ms := v\<rparr>)"
    "isfinite a \<and> \<not> dbl_less a (Fin 0) \<and> \<not> dbl_less (Fin 1) a \<Longrightarrow> generation_ranges_ok (cfg\<lparr>predictive_alpha := a\<rparr>)"
    "isfinite a \<and> \<not> dbl_less a (Fin 0) \<and> \<not> dbl_less (Fin 1) a \<Longrightarrow> generation_ranges_ok (cfg\<lparr>telemetry_ewma_alpha := a\<rparr>)"
  using assms by (simp_all add: generation_ranges_ok_def)

lemmas member_rules = store_fine skip_fine
lemmas range_rules = generation_ranges_limits token_int_range token_double_range

text \<open>The treatments of the members of each object, as the parsers have them.\<close>

interpretation tls_ok: json_member "metrics_tls_member js ts" generation_ranges_ok ts count for js ts count
  by unfold_locales (simp add: metrics_tls_member_def member_rules)

interpretation auth_ok: json_member "metrics_basic_auth_member js ts" generation_ranges_ok ts count for js ts count
  by unfold_locales (simp add: metrics_basic_auth_member_def member_rules)

interpretation statsd_ok: json_member "metrics_statsd_member js ts" generation_ranges_ok ts count for js ts count
  by unfold_locales (simp add: metrics_statsd_member_def member_rules)

interpretation metrics_ok: json_member "metrics_member js ts count" generation_ranges_ok ts count for js ts count
  by unfold_locales (simp add: metrics_member_def member_rules parse_metrics_tls_object_def parse_metrics_basic_auth_object_def
    parse_metrics_statsd_object_def tls_ok.parse_object_fine auth_ok.parse_object_fine
    statsd_ok.parse_object_fine)

interpretation predictive_ok: json_member "predictive_member js ts" generation_ranges_ok ts count for js ts count
  by unfold_locales (simp add: predictive_member_def member_rules range_rules)

interpretation telemetry_ok: json_member "telemetry_member js ts" generation_ranges_ok ts count for js ts count
  by unfold_locales (simp add: telemetry_member_def member_rules range_rules)

section \<open>The whole file\<close>

lemmas objects_fine = predictive_ok.parse_object_fine [folded parse_predictive_object_def]
  telemetry_ok.parse_object_fine [folded parse_telemetry_object_def]
  metrics_ok.parse_object_fine [folded parse_metrics_object_def]

text \<open>Twice the capacity as often as needed: at most the size of the text is needed.\<close>

lemma tokenize_returns: "0 < n \<Longrightarrow> \<exists>m r. tokenize js n = Some r \<and> r \<noteq> Inl JSMN_ERROR_NOMEM \<and> jsmn_parse js m = r"
proof (induction "length js - n" arbitrary: n rule: less_induct)
  case less
  show ?case
  proof (cases "jsmn_parse js n = Inl JSMN_ERROR_NOMEM")
    case False
    then show ?thesis by (auto simp: tokenize.simps [of js n])
  next
    case True
    then have "n < length js" by (rule parse_nomem)
    with less.prems have "\<exists>m r. tokenize js (n * 2) = Some r \<and> r \<noteq> Inl JSMN_ERROR_NOMEM \<and> jsmn_parse js m = r"
      by (intro less.hyps) auto
    then show ?thesis using True by (simp add: tokenize.simps [of js n])
  qed
qed

lemma top_level_fine:
  "cursor \<le> parsed \<Longrightarrow> generation_ranges_ok cfg \<Longrightarrow> (parsed < length ts \<longrightarrow> ts ! parsed = zero_tok) \<Longrightarrow>
   case top_level_loop js ts parsed pairs cursor cfg of
     None \<Rightarrow> False
   | Some (Inl e) \<Rightarrow> e = Config_overrun \<longrightarrow> length ts \<le> parsed
   | Some (Inr cfg') \<Rightarrow> generation_ranges_ok cfg'"
proof (induction pairs arbitrary: cursor cfg)
  case 0
  then show ?case by simp
next
  case (Suc pairs)
  show ?case
  proof (cases "cursor < length ts \<and> tok_type (ts ! cursor) = JSMN_STRING \<and> cursor < parsed")
    case False
    then have "top_level_loop js ts parsed (Suc pairs) cursor cfg = Some (Inl Config_invalid) \<or>
        top_level_loop js ts parsed (Suc pairs) cursor cfg = Some (Inl Config_overrun) \<and> length ts \<le> parsed"
      using Suc.prems by (cases "cursor < length ts"; cases "cursor = parsed") (auto simp: tok_at_def zero_tok_def)
    then show ?thesis by auto
  next
    case True
    let ?key = "ts ! cursor" and ?vi = "cursor + 1"
    define r where "r = (if json_token_equals js ?key ''predictive'' then parse_predictive_object js ts parsed ?vi cfg
      else if json_token_equals js ?key ''telemetry'' then parse_telemetry_object js ts parsed ?vi cfg
      else if json_token_equals js ?key ''metrics'' then parse_metrics_object js ts parsed ?vi cfg
      else Some (Inr (json_skip ts parsed ?vi, cfg)))"
    have vi: "?vi \<le> parsed" using True by simp
    have fine: "member_fine generation_ranges_ok ts parsed ?vi r"
      using vi Suc.prems(2) unfolding r_def
      by (simp add: objects_fine skip_fine json_skip_bounds del: Suc_eq_plus1 add_Suc_right)
    have l: "top_level_loop js ts parsed (Suc pairs) cursor cfg =
      Option.bind r (\<lambda>r. case r of Inl e \<Rightarrow> Some (Inl e) | Inr (cursor, cfg) \<Rightarrow> top_level_loop js ts parsed pairs cursor cfg)"
      using True by (simp add: tok_at_def r_def)
    show ?thesis
    proof (cases "\<exists>c cfg'. r = Some (Inr (c, cfg'))")
      case False
      then show ?thesis using fine unfolding l by (auto simp: member_fine_def split: option.splits sum.splits)
    next
      case inr: True
      then obtain c cfg' where r: "r = Some (Inr (c, cfg'))" by blast
      then show ?thesis using Suc.IH [of c cfg'] Suc.prems(3) fine unfolding l r by (simp add: member_fine_def)
    qed
  qed
qed

lemma config_file_fine:
  assumes "generation_ranges_ok cfg"
  shows "case parse_config_file files path cfg of
      None \<Rightarrow> False
    | Some (Inl e) \<Rightarrow> e = Config_overrun \<longrightarrow> (\<exists>js n ts. files path = Some js \<and> jsmn_parse js n = Inr (n, ts))
    | Some (Inr cfg') \<Rightarrow> generation_ranges_ok cfg'"
proof (cases "files path")
  case None
  then show ?thesis by (simp add: parse_config_file_def)
next
  case (Some js)
  obtain m r where r: "tokenize js 128 = Some r" "jsmn_parse js m = r" using tokenize_returns [of 128 js] by auto
  show ?thesis
  proof (cases r)
    case (Inl e)
    then show ?thesis using Some r by (simp add: parse_config_file_def)
  next
    case (Inr q)
    obtain parsed ts where q: "q = (parsed, ts)" by (cases q)
    note t = parse_tokens [OF r(2) [unfolded Inr q]]
    show ?thesis
    proof (cases "parsed = 0 \<or> tok_type (ts ! 0) \<noteq> JSMN_OBJECT")
      case True
      then show ?thesis using Some r Inr q by (auto simp: parse_config_file_def)
    next
      case False
      then have "1 \<le> parsed" "parsed < length ts \<longrightarrow> ts ! parsed = zero_tok" using t(2,5) by auto
      moreover have "parse_config_file files path cfg = top_level_loop js ts parsed (nat (tok_size (ts ! 0))) 1 cfg"
        using Some r Inr q False by (simp add: parse_config_file_def)
      moreover have "length ts \<le> parsed \<Longrightarrow> jsmn_parse js parsed = Inr (parsed, ts)"
        using t(1,2) r(2) Inr q by simp
      ultimately show ?thesis using top_level_fine [of 1 parsed cfg ts js "nat (tok_size (ts ! 0))"] assms Some
        by (auto split: option.splits sum.splits)
    qed
  qed
qed

section \<open>Examples\<close>

definition file_of :: "string \<Rightarrow> string \<Rightarrow> string option" where
  "file_of text path = (if path = ''tsd.json'' then Some text else None)"

declare object_loop.simps [code] tokenize.simps [code]

lemma telemetry_file:
  \<open>parse_config_file (file_of ''{"telemetry":{"interval_ms":250}}'') ''tsd.json'' k_default_config =
   Some (Inr (k_default_config\<lparr>telemetry_interval_ms := 250\<rparr>))\<close>
  by code_simp

text \<open>A top-level member that is not an object makes the loop look for a key too many.\<close>

lemma scalar_member_file:
  \<open>parse_config_file (file_of ''{"comment":"x"}'') ''tsd.json'' k_default_config = Some (Inl Config_invalid)\<close>
  by code_simp

text \<open>A closing bracket without an opening one is accepted.\<close>

lemma unmatched_bracket_file:
  \<open>parse_config_file (file_of ''{"telemetry":{}}}]'') ''tsd.json'' k_default_config = Some (Inr k_default_config)\<close>
  by code_simp

text \<open>When the tokens fill the array exactly, that extra key is read behind it.\<close>

definition full_array_text :: string where
  "full_array_text = ''{'' @ concat (replicate 127 [CHR 0x22, CHR ''a'', CHR 0x22]) @ ''}''"

lemma full_array_file:
  "parse_config_file (file_of full_array_text) ''tsd.json'' k_default_config = Some (Inl Config_overrun)"
  by code_simp

section \<open>Properties\<close>




end
