(* ===== verification/Command_Line.thy ===== *)
theory Command_Line
  imports Config_File Guarded_Updates
begin

text \<open>
  The command line of \<^verbatim>\<open>src/thermal_config.c\<close>: \<^verbatim>\<open>tsd_runtime_config_parse_cli\<close> with its chain of options
  as a table in the same order, \<^verbatim>\<open>validate_runtime_config\<close>, and the log levels of \<^verbatim>\<open>src/logging.c\<close> the
  options and the environment name. Messages and the usage text are not modelled.
\<close>

section \<open>Log levels\<close>

definition strcasecmp_eq :: "string \<Rightarrow> string \<Rightarrow> bool" where
  "strcasecmp_eq s t = (map c_tolower s = map c_tolower t)"

definition tsd_log_level_from_string :: "string option \<Rightarrow> tsd_log_level_t option" where
  "tsd_log_level_from_string level_str =
     (case level_str of
        None \<Rightarrow> None
      | Some s \<Rightarrow>
          if strcasecmp_eq s ''error'' then Some TSD_LOG_LEVEL_ERROR
          else if strcasecmp_eq s ''warn'' \<or> strcasecmp_eq s ''warning'' then Some TSD_LOG_LEVEL_WARN
          else if strcasecmp_eq s ''info'' then Some TSD_LOG_LEVEL_INFO
          else if strcasecmp_eq s ''debug'' then Some TSD_LOG_LEVEL_DEBUG
          else None)"

text \<open>The process-wide level is the \<^verbatim>\<open>int\<close> \<^verbatim>\<open>g_tsd_log_level\<close>; both accessors clamp what they are given.\<close>

definition level_no :: "tsd_log_level_t \<Rightarrow> int" where
  "level_no level = (case level of
     TSD_LOG_LEVEL_ERROR \<Rightarrow> 0 | TSD_LOG_LEVEL_WARN \<Rightarrow> 1 | TSD_LOG_LEVEL_INFO \<Rightarrow> 2 | TSD_LOG_LEVEL_DEBUG \<Rightarrow> 3)"

definition tsd_log_set_level :: "int \<Rightarrow> int" where
  "tsd_log_set_level level =
     (if level < level_no TSD_LOG_LEVEL_ERROR then level_no TSD_LOG_LEVEL_ERROR
      else if level > level_no TSD_LOG_LEVEL_DEBUG then level_no TSD_LOG_LEVEL_DEBUG else level)"

definition tsd_log_get_level :: "int \<Rightarrow> int" where
  "tsd_log_get_level current =
     (if current < level_no TSD_LOG_LEVEL_ERROR then level_no TSD_LOG_LEVEL_ERROR
      else if current > level_no TSD_LOG_LEVEL_DEBUG then level_no TSD_LOG_LEVEL_DEBUG else current)"

definition tsd_log_should_log :: "int \<Rightarrow> int \<Rightarrow> bool" where
  "tsd_log_should_log current level = (level \<le> current)"

section \<open>Outcomes\<close>

text \<open>
  A call goes on with a value, ends the process with a status, reads outside an object, or never
  returns.
\<close>

datatype 'a outcome = Continues 'a | Exits int | Undefined | Never_returns

section \<open>Options\<close>

text \<open>
  An option with a value carries the literal and the length its comparison uses; the value starts
  that far into the argument. A \<^term>\<open>None\<close> of its function is \<^verbatim>\<open>die_invalid_option\<close>.
\<close>

datatype cli_option =
    Config_option
  | Value_option string nat "string \<Rightarrow> tsd_runtime_config \<Rightarrow> tsd_runtime_config option"
  | Switch_option string "tsd_runtime_config \<Rightarrow> tsd_runtime_config"
  | Sandbox_option
  | Help_option

definition int_value :: "int \<Rightarrow> int \<Rightarrow> (int \<Rightarrow> tsd_runtime_config \<Rightarrow> tsd_runtime_config) \<Rightarrow>
    string \<Rightarrow> tsd_runtime_config \<Rightarrow> tsd_runtime_config option" where
  "int_value lo hi upd v cfg = map_option (\<lambda>x. upd x cfg) (tsd_parse_int_option (Some v) lo hi True)"

definition double_value :: "dbl \<Rightarrow> dbl \<Rightarrow> (dbl \<Rightarrow> tsd_runtime_config \<Rightarrow> tsd_runtime_config) \<Rightarrow>
    string \<Rightarrow> tsd_runtime_config \<Rightarrow> tsd_runtime_config option" where
  "double_value lo hi upd v cfg = map_option (\<lambda>x. upd x cfg) (tsd_parse_double_option (Some v) lo hi True)"

definition ratio_value :: "dbl \<Rightarrow> dbl \<Rightarrow> (dbl \<Rightarrow> u64 \<Rightarrow> tsd_runtime_config \<Rightarrow> tsd_runtime_config) \<Rightarrow>
    string \<Rightarrow> tsd_runtime_config \<Rightarrow> tsd_runtime_config option" where
  "ratio_value lo hi upd v cfg = map_option (\<lambda>(r, m). upd r m cfg) (tsd_parse_ratio_option (Some v) lo hi True True)"

definition string_value :: "nat \<Rightarrow> (string \<Rightarrow> tsd_runtime_config \<Rightarrow> tsd_runtime_config) \<Rightarrow>
    string \<Rightarrow> tsd_runtime_config \<Rightarrow> tsd_runtime_config option" where
  "string_value n upd v cfg =
     (if v = [] then None else map_option (\<lambda>s. upd s cfg) (copy_string_field n v))"

definition basic_auth_value :: "string \<Rightarrow> tsd_runtime_config \<Rightarrow> tsd_runtime_config option" where
  "basic_auth_value v cfg =
     (let user = takeWhile (\<lambda>c. c \<noteq> CHR '':'') v; pass = drop (Suc (length user)) v
      in if length user = length v \<or> user = [] \<or> pass = [] then None
         else if length user \<ge> 128 \<or> length pass \<ge> 128 then None
         else Some (cfg\<lparr>metrics_basic_auth_user := user, metrics_basic_auth_pass := pass\<rparr>))"

definition cli_options :: "cli_option list" where
  "cli_options =
    [Config_option,
     Value_option ''--interval='' 11
       (\<lambda>v c. map_option (\<lambda>x. c\<lparr>check_interval_us := x\<rparr>) (tsd_parse_ms_option (Some v) 1 10000 True)),
     Value_option ''--down-count='' 13 (int_value 1 100 (\<lambda>x c. c\<lparr>down_count := x\<rparr>)),
     Value_option ''--up-count='' 11 (int_value 1 100 (\<lambda>x c. c\<lparr>up_count := x\<rparr>)),
     Value_option ''--down-ratio='' 13 (ratio_value (Fin 1) (Fin 10) (\<lambda>r m c. c\<lparr>down_ratio := r, down_ratio_milli := m\<rparr>)),
     Value_option ''--cooldown-down='' 16 (int_value 1 3600000 (\<lambda>x c. c\<lparr>cooldown_down_ms := x\<rparr>)),
     Value_option ''--cooldown-up='' 14 (int_value 1 3600000 (\<lambda>x c. c\<lparr>cooldown_up_ms := x\<rparr>)),
     Value_option ''--min-dwell='' 12 (int_value 1 3600000 (\<lambda>x c. c\<lparr>min_dwell_ms := x\<rparr>)),
     Switch_option ''--no-avx512'' (\<lambda>c. c\<lparr>allow_avx512 := 0\<rparr>),
     Switch_option ''--allow-avx512'' (\<lambda>c. c\<lparr>allow_avx512 := 1\<rparr>),
     Value_option ''--memory-guard-div='' 20 (int_value 1 1000 (\<lambda>x c. c\<lparr>memory_guard_divisor := x\<rparr>)),
     Value_option ''--memory-guard-offset='' 23 (int_value 0 1000000 (\<lambda>x c. c\<lparr>memory_guard_offset_milli := x\<rparr>)),
     Value_option ''--thermal-temp-weight='' 22 (int_value 0 100000 (\<lambda>x c. c\<lparr>thermal_temp_weight_milli := x\<rparr>)),
     Value_option ''--thermal-ratio-weight='' 23 (int_value 0 100000 (\<lambda>x c. c\<lparr>thermal_ratio_weight_milli := x\<rparr>)),
     Value_option ''--duration-sec='' 15 (int_value 1 86400 (\<lambda>x c. c\<lparr>demo_duration_sec := x\<rparr>)),
     Switch_option ''--run-forever'' (\<lambda>c. c\<lparr>run_forever := 1\<rparr>),
     Value_option ''--work-iters='' 13 (int_value 1 INT_MAX (\<lambda>x c. c\<lparr>work_iters := x\<rparr>)),
     Value_option ''--metrics-port='' 15
       (int_value 0 65535 (\<lambda>x c. c\<lparr>metrics_port := x, metrics_enabled := (if x > 0 then 1 else 0)\<rparr>)),
     Value_option ''--metrics-bind='' 15 (string_value 64 (\<lambda>s c. c\<lparr>metrics_bind_host := s\<rparr>)),
     Value_option ''--metrics-cert='' 15 (string_value 256 (\<lambda>s c. c\<lparr>metrics_tls_cert_path := s\<rparr>)),
     Value_option ''--metrics-key='' 14 (string_value 256 (\<lambda>s c. c\<lparr>metrics_tls_key_path := s\<rparr>)),
     Value_option ''--metrics-ca='' 13 (string_value 256 (\<lambda>s c. c\<lparr>metrics_tls_ca_path := s\<rparr>)),
     Switch_option ''--metrics-require-client-auth'' (\<lambda>c. c\<lparr>metrics_tls_require_client_auth := 1\<rparr>),
     Value_option ''--metrics-basic-auth='' 21 basic_auth_value,
     Value_option ''--statsd-host='' 14 (string_value 128 (\<lambda>s c. c\<lparr>statsd_host := s\<rparr>)),
     Value_option ''--statsd-port='' 14 (int_value 1 65535 (\<lambda>x c. c\<lparr>statsd_port := x\<rparr>)),
     Value_option ''--degraded-timeout-sec='' 23 (int_value 1 86400 (\<lambda>x c. c\<lparr>degraded_timeout_sec := x\<rparr>)),
     Value_option ''--temp-ceiling='' 15 (int_value 20 125 (\<lambda>x c. c\<lparr>predictive_temp_ceiling_c := x\<rparr>)),
     Value_option ''--safety-margin='' 16 (int_value 0 60 (\<lambda>x c. c\<lparr>predictive_safety_margin_c := x\<rparr>)),
     Value_option ''--emergency-margin='' 19 (int_value 0 60 (\<lambda>x c. c\<lparr>predictive_emergency_margin_c := x\<rparr>)),
     Value_option ''--predictive-alpha='' 19 (double_value (Fin 0) (Fin 1) (\<lambda>x c. c\<lparr>predictive_alpha := x\<rparr>)),
     Value_option ''--telemetry-interval='' 21 (int_value 10 60000 (\<lambda>x c. c\<lparr>telemetry_interval_ms := x\<rparr>)),
     Value_option ''--telemetry-max-skew='' 21 (int_value 0 60000 (\<lambda>x c. c\<lparr>telemetry_max_skew_ms := x\<rparr>)),
     Value_option ''--telemetry-ewma='' 17 (double_value (Fin 0) (Fin 1) (\<lambda>x c. c\<lparr>telemetry_ewma_alpha := x\<rparr>)),
     Value_option ''--telemetry-profile='' 20 (string_value 256 (\<lambda>s c. c\<lparr>telemetry_profile_path := s\<rparr>)),
     Value_option ''--coeff-path='' 13 (string_value 256 (\<lambda>s c. c\<lparr>predictive_coeff_path := s\<rparr>)),
     Value_option ''--policy-slo-ratio='' 19
       (ratio_value (Fin (1 / 2)) (Fin 10) (\<lambda>r m c. c\<lparr>policy := (policy c)\<lparr>slo_ratio_milli := ucast m\<rparr>\<rparr>)),
     Value_option ''--policy-slo-temp='' 18
       (int_value (- 100) 200 (\<lambda>x c. c\<lparr>policy := (policy c)\<lparr>slo_temp_millic := x * 1000\<rparr>\<rparr>)),
     Value_option ''--policy-penalty-up='' 20
       (int_value 0 1000000 (\<lambda>x c. c\<lparr>policy := (policy c)\<lparr>transition_penalty_up_milli := of_int x\<rparr>\<rparr>)),
     Value_option ''--policy-penalty-down='' 22
       (int_value 0 1000000 (\<lambda>x c. c\<lparr>policy := (policy c)\<lparr>transition_penalty_down_milli := of_int x\<rparr>\<rparr>)),
     Value_option ''--policy-forecast='' 19
       (int_value 0 1000 (\<lambda>x c. c\<lparr>policy := (policy c)\<lparr>forecast_horizon := of_int x\<rparr>\<rparr>)),
     Switch_option ''--health-check'' (\<lambda>c. c\<lparr>health_check_mode := 1\<rparr>),
     Sandbox_option,
     Value_option ''--log-level='' 12
       (\<lambda>v c. map_option (\<lambda>l. c\<lparr>log_level := l\<rparr>) (tsd_log_level_from_string (Some v))),
     Help_option]"

fun option_matches :: "string \<Rightarrow> cli_option \<Rightarrow> bool" where
  "option_matches arg Config_option = strncmp_eq arg ''--config='' 9"
| "option_matches arg (Value_option lit n f) = strncmp_eq arg lit n"
| "option_matches arg (Switch_option lit f) = (arg = lit)"
| "option_matches arg Sandbox_option = (arg = ''--sandbox-only'')"
| "option_matches arg Help_option = (arg = ''--help'')"

fun apply_option :: "(string \<Rightarrow> string option) \<Rightarrow> string \<Rightarrow> cli_option \<Rightarrow> tsd_runtime_config \<times> bool \<Rightarrow>
    (tsd_runtime_config \<times> bool) outcome" where
  "apply_option files arg Config_option (cfg, sandbox) =
     (let path = drop 9 arg
      in if path = [] then Exits 1
         else (case parse_config_file files path cfg of
             None \<Rightarrow> Never_returns
           | Some (Inl Config_invalid) \<Rightarrow> Exits 1
           | Some (Inl Config_overrun) \<Rightarrow> Undefined
           | Some (Inr cfg) \<Rightarrow> Continues (cfg, sandbox)))"
| "apply_option files arg (Value_option lit n f) (cfg, sandbox) =
     (case c_suffix n arg of
        None \<Rightarrow> Undefined
      | Some v \<Rightarrow> (case f v cfg of None \<Rightarrow> Exits 1 | Some cfg \<Rightarrow> Continues (cfg, sandbox)))"
| "apply_option files arg (Switch_option lit f) (cfg, sandbox) = Continues (f cfg, sandbox)"
| "apply_option files arg Sandbox_option (cfg, sandbox) = Continues (cfg, True)"
| "apply_option files arg Help_option (cfg, sandbox) = Exits 0"

fun cli_args :: "(string \<Rightarrow> string option) \<Rightarrow> string list \<Rightarrow> tsd_runtime_config \<times> bool \<Rightarrow>
    (tsd_runtime_config \<times> bool) outcome" where
  "cli_args files [] st = Continues st"
| "cli_args files (arg # args) st =
     (case find (option_matches arg) cli_options of
        None \<Rightarrow> Exits 1
      | Some opt \<Rightarrow>
          (case apply_option files arg opt st of
             Continues st \<Rightarrow> cli_args files args st
           | Exits n \<Rightarrow> Exits n | Undefined \<Rightarrow> Undefined | Never_returns \<Rightarrow> Never_returns))"

section \<open>The whole command line\<close>

definition validate_runtime_config :: "tsd_runtime_config \<Rightarrow> tsd_runtime_config option" where
  "validate_runtime_config cfg =
     (if (metrics_tls_cert_path cfg \<noteq> []) \<noteq> (metrics_tls_key_path cfg \<noteq> []) then None
      else if metrics_tls_require_client_auth cfg \<noteq> 0 \<and> metrics_tls_ca_path cfg = [] then None
      else if (metrics_basic_auth_user cfg \<noteq> []) \<noteq> (metrics_basic_auth_pass cfg \<noteq> []) then None
      else let cfg = (if statsd_host cfg = [] then cfg\<lparr>statsd_port := 0\<rparr> else cfg)
           in if telemetry_interval_ms cfg < 10 \<or> telemetry_interval_ms cfg > 60000 then None
              else if telemetry_max_skew_ms cfg < 0 \<or> telemetry_max_skew_ms cfg > 60000 then None
              else if predictive_temp_ceiling_c cfg < 20 \<or> predictive_temp_ceiling_c cfg > 125 then None
              else if predictive_safety_margin_c cfg < 0 \<or> predictive_safety_margin_c cfg > 60 then None
              else if predictive_emergency_margin_c cfg < 0 \<or> predictive_emergency_margin_c cfg > 60 then None
              else if dbl_less (predictive_alpha cfg) (Fin 0) \<or> dbl_less (Fin 1) (predictive_alpha cfg) then None
              else Some cfg)"

text \<open>The steps after the last argument; \<^term>\<open>None\<close> is \<^verbatim>\<open>exit(1)\<close>.\<close>

definition endpoint_defaults :: "tsd_runtime_config \<Rightarrow> tsd_runtime_config" where
  "endpoint_defaults cfg =
     (let cfg = (if metrics_port cfg \<le> 0 then cfg\<lparr>metrics_port := 0, metrics_enabled := 0\<rparr>
                 else if metrics_enabled cfg = 0 then cfg\<lparr>metrics_enabled := 1\<rparr> else cfg)
      in if metrics_bind_host cfg = []
         then cfg\<lparr>metrics_bind_host := metrics_bind_host k_default_config\<rparr> else cfg)"

definition rounded_ratio_milli :: "tsd_runtime_config \<Rightarrow> u64" where
  "rounded_ratio_milli cfg =
     (let milli = of_int (dbl_trunc (dbl_add (dbl_mul (down_ratio cfg) (Fin 1000)) (Fin (1 / 2))))
      in if milli = 0 then 1 else milli)"

definition finish_config :: "tsd_runtime_config \<Rightarrow> tsd_runtime_config option" where
  "finish_config cfg =
     (case validate_runtime_config (endpoint_defaults cfg) of
        None \<Rightarrow> None
      | Some cfg \<Rightarrow>
          (case tsd_runtime_config_refresh_ticks
              (cfg\<lparr>down_ratio_milli := rounded_ratio_milli cfg,
                   policy := tsd_policy_config_apply_bounds (policy cfg)\<rparr>) of
             (Inl _, _) \<Rightarrow> None
           | (Inr _, cfg) \<Rightarrow> Some cfg))"

definition env_log_level :: "string option \<Rightarrow> tsd_runtime_config \<Rightarrow> tsd_runtime_config" where
  "env_log_level env_level cfg =
     (if env_level = None \<or> env_level = Some [] then cfg
      else (case tsd_log_level_from_string env_level of
          None \<Rightarrow> cfg
        | Some parsed_env_level \<Rightarrow> cfg\<lparr>log_level := parsed_env_level\<rparr>))"

definition tsd_runtime_config_parse_cli ::
    "(string \<Rightarrow> string option) \<Rightarrow> string option \<Rightarrow> tsd_runtime_config option \<Rightarrow> string list \<Rightarrow>
     int \<times> 'a proc_scheme \<Rightarrow>
     (tsd_runtime_config option \<times> int \<times> 'a proc_scheme) outcome" where
  "tsd_runtime_config_parse_cli files env_level cfg args st =
     (let (level, p) = st in
      (case tsd_runtime_config_set_defaults cfg of
         None \<Rightarrow> Continues (None, level, p)
       | Some cfg \<Rightarrow>
           (case cli_args files args (env_log_level env_level cfg, sandbox_only p) of
              Exits n \<Rightarrow> Exits n
            | Undefined \<Rightarrow> Undefined
            | Never_returns \<Rightarrow> Never_returns
            | Continues (cfg, sandbox) \<Rightarrow>
                (case finish_config cfg of
                   None \<Rightarrow> Exits 1
                 | Some cfg \<Rightarrow> Continues (Some cfg, tsd_log_set_level (level_no (log_level cfg)),
                     (tsd_runtime_flags_set_sandbox_only sandbox p)\<lparr>global_config := cfg\<rparr>)))))"

section \<open>Options keep the ranges\<close>

lemma generation_ranges_switches [simp]:
  "generation_ranges_ok (cfg\<lparr>allow_avx512 := n\<rparr>) = generation_ranges_ok cfg"
  "generation_ranges_ok (cfg\<lparr>memory_guard_offset_milli := n\<rparr>) = generation_ranges_ok cfg"
  "generation_ranges_ok (cfg\<lparr>thermal_temp_weight_milli := n\<rparr>) = generation_ranges_ok cfg"
  "generation_ranges_ok (cfg\<lparr>thermal_ratio_weight_milli := n\<rparr>) = generation_ranges_ok cfg"
  "generation_ranges_ok (cfg\<lparr>demo_duration_sec := n\<rparr>) = generation_ranges_ok cfg"
  "generation_ranges_ok (cfg\<lparr>run_forever := n\<rparr>) = generation_ranges_ok cfg"
  "generation_ranges_ok (cfg\<lparr>work_iters := n\<rparr>) = generation_ranges_ok cfg"
  "generation_ranges_ok (cfg\<lparr>health_check_mode := n\<rparr>) = generation_ranges_ok cfg"
  "generation_ranges_ok (cfg\<lparr>degraded_policy_active := n\<rparr>) = generation_ranges_ok cfg"
  "generation_ranges_ok (cfg\<lparr>log_level := l\<rparr>) = generation_ranges_ok cfg"
  by (simp_all add: generation_ranges_ok_def)

lemma generation_ranges_counts:
  assumes "generation_ranges_ok cfg" "0 < v"
  shows "generation_ranges_ok (cfg\<lparr>check_interval_us := v\<rparr>)" "generation_ranges_ok (cfg\<lparr>down_count := v\<rparr>)"
    "generation_ranges_ok (cfg\<lparr>up_count := v\<rparr>)" "generation_ranges_ok (cfg\<lparr>cooldown_down_ms := v\<rparr>)"
    "generation_ranges_ok (cfg\<lparr>cooldown_up_ms := v\<rparr>)" "generation_ranges_ok (cfg\<lparr>min_dwell_ms := v\<rparr>)"
    "generation_ranges_ok (cfg\<lparr>memory_guard_divisor := v\<rparr>)" "generation_ranges_ok (cfg\<lparr>degraded_timeout_sec := v\<rparr>)"
  using assms by (simp_all add: generation_ranges_ok_def)

lemma generation_ranges_ratio:
  "generation_ranges_ok cfg \<Longrightarrow> isfinite r \<Longrightarrow> \<not> dbl_less r (Fin 1) \<Longrightarrow> generation_ranges_ok (cfg\<lparr>down_ratio := r\<rparr>)"
  by (cases r) (auto simp: generation_ranges_ok_def)

definition keeps_ranges :: "(string \<Rightarrow> tsd_runtime_config \<Rightarrow> tsd_runtime_config option) \<Rightarrow> bool" where
  "keeps_ranges f \<longleftrightarrow> (\<forall>v cfg cfg'. generation_ranges_ok cfg \<longrightarrow> f v cfg = Some cfg' \<longrightarrow> generation_ranges_ok cfg')"

fun option_keeps :: "cli_option \<Rightarrow> bool" where
  "option_keeps (Value_option lit n f) = keeps_ranges f"
| "option_keeps (Switch_option lit f) = (\<forall>cfg. generation_ranges_ok cfg \<longrightarrow> generation_ranges_ok (f cfg))"
| "option_keeps opt = True"

lemma keeps_int:
  assumes "INT_MIN \<le> lo" "hi \<le> INT_MAX"
    and "\<And>x cfg. generation_ranges_ok cfg \<Longrightarrow> lo \<le> x \<Longrightarrow> x \<le> hi \<Longrightarrow> generation_ranges_ok (upd x cfg)"
  shows "keeps_ranges (int_value lo hi upd)"
  unfolding keeps_ranges_def int_value_def
proof (intro allI impI)
  fix v cfg cfg' assume g: "generation_ranges_ok cfg"
    and "map_option (\<lambda>x. upd x cfg) (tsd_parse_int_option (Some v) lo hi True) = Some cfg'"
  then obtain x where "tsd_parse_int_option (Some v) lo hi True = Some x" "cfg' = upd x cfg" by auto
  with parse_int_sound [of "Some v" lo hi True x] assms(1,2) assms(3) [OF g] show "generation_ranges_ok cfg'" by auto
qed

lemma parse_double_sound:
  "tsd_parse_double_option v lo hi out = Some x \<Longrightarrow> isfinite x \<and> \<not> dbl_less x lo \<and> \<not> dbl_less hi x"
  by (auto simp: tsd_parse_double_option_def split: option.splits if_splits prod.splits)

lemma parse_ratio_sound:
  "tsd_parse_ratio_option v lo hi a b = Some (x, m) \<Longrightarrow> isfinite x \<and> \<not> dbl_less x lo \<and> \<not> dbl_less hi x"
  by (auto simp: tsd_parse_ratio_option_def Let_def split: option.splits if_splits prod.splits)

lemma keeps_double:
  "(\<And>x cfg. generation_ranges_ok cfg \<Longrightarrow> isfinite x \<and> \<not> dbl_less x lo \<and> \<not> dbl_less hi x \<Longrightarrow>
     generation_ranges_ok (upd x cfg)) \<Longrightarrow> keeps_ranges (double_value lo hi upd)"
  unfolding keeps_ranges_def double_value_def using parse_double_sound by fastforce

lemma keeps_ratio:
  "(\<And>x m cfg. generation_ranges_ok cfg \<Longrightarrow> isfinite x \<and> \<not> dbl_less x lo \<and> \<not> dbl_less hi x \<Longrightarrow>
     generation_ranges_ok (upd x m cfg)) \<Longrightarrow> keeps_ranges (ratio_value lo hi upd)"
  unfolding keeps_ranges_def ratio_value_def using parse_ratio_sound by fastforce

lemma keeps_string:
  "(\<And>s cfg. generation_ranges_ok (upd s cfg) = generation_ranges_ok cfg) \<Longrightarrow> keeps_ranges (string_value n upd)"
  unfolding keeps_ranges_def string_value_def by (auto split: if_splits)

lemma keeps_auth: "keeps_ranges basic_auth_value"
  unfolding keeps_ranges_def basic_auth_value_def Let_def by (auto split: if_splits)

lemma keeps_level: "keeps_ranges (\<lambda>v c. map_option (\<lambda>l. c\<lparr>log_level := l\<rparr>) (g v))"
  unfolding keeps_ranges_def by auto

lemma keeps_interval:
  "keeps_ranges (\<lambda>v c. map_option (\<lambda>x. c\<lparr>check_interval_us := x\<rparr>) (tsd_parse_ms_option (Some v) 1 10000 True))"
  unfolding keeps_ranges_def tsd_parse_ms_option_def
proof (intro allI impI, goal_cases)
  case (1 v cfg cfg')
  then obtain ms where "tsd_parse_int_option (Some v) 1 10000 True = Some ms" "cfg' = cfg\<lparr>check_interval_us := c_int (ms * 1000)\<rparr>"
    by (auto simp: Let_def split: option.splits if_splits)
  moreover from this have "1 \<le> ms" "ms \<le> 10000" using parse_int_sound [of "Some v" 1 10000 True ms] by simp_all
  ultimately show ?case using 1(1) by (simp add: c_int_id generation_ranges_counts)
qed

lemma options_keep: "list_all option_keeps cli_options"
  unfolding cli_options_def list.pred_inject option_keeps.simps
  by (intro conjI TrueI keeps_int keeps_double keeps_ratio keeps_string keeps_auth keeps_level keeps_interval)
     (simp_all add: generation_ranges_counts generation_ranges_limits generation_ranges_ratio)

lemma apply_option_ranges:
  assumes "generation_ranges_ok cfg" "opt \<in> set cli_options"
  shows "case apply_option files arg opt (cfg, sandbox) of
      Continues (cfg', _) \<Rightarrow> generation_ranges_ok cfg' | Never_returns \<Rightarrow> False | _ \<Rightarrow> True"
proof -
  have k: "option_keeps opt" using options_keep assms(2) by (simp add: list_all_iff)
  show ?thesis
  proof (cases opt)
    case Config_option
    with config_file_fine [OF assms(1), of files "drop 9 arg"] show ?thesis
      by (auto simp: Let_def split: option.splits sum.splits config_error.splits)
  next
    case (Value_option lit n f)
    with k assms(1) show ?thesis by (auto simp: keeps_ranges_def split: option.splits)
  qed (use k assms(1) in simp_all)
qed

lemma cli_args_ranges:
  "generation_ranges_ok (fst st) \<Longrightarrow> (case cli_args files args st of
     Continues (cfg', _) \<Rightarrow> generation_ranges_ok cfg' | Never_returns \<Rightarrow> False | _ \<Rightarrow> True)"
proof (induction args arbitrary: st)
  case Nil
  then show ?case by (cases st) simp
next
  case (Cons arg args)
  show ?case
  proof (cases "find (option_matches arg) cli_options")
    case None
    then show ?thesis by simp
  next
    case (Some opt)
    then have "opt \<in> set cli_options" by (auto simp: find_Some_iff)
    from apply_option_ranges [OF Cons.prems this, of files arg "snd st"] Cons.IH Some show ?thesis
      by (cases "apply_option files arg opt st") auto
  qed
qed

section \<open>The finished configuration\<close>

text \<open>What the front end may rely on about its metrics endpoint.\<close>

definition endpoint_ok :: "tsd_runtime_config \<Rightarrow> bool" where
  "endpoint_ok cfg \<longleftrightarrow>
     (metrics_tls_cert_path cfg = []) = (metrics_tls_key_path cfg = []) \<and>
     (metrics_tls_require_client_auth cfg \<noteq> 0 \<longrightarrow> metrics_tls_ca_path cfg \<noteq> []) \<and>
     (metrics_basic_auth_user cfg = []) = (metrics_basic_auth_pass cfg = []) \<and>
     (metrics_enabled cfg \<noteq> 0) = (metrics_port cfg > 0) \<and> metrics_bind_host cfg \<noteq> [] \<and>
     (statsd_host cfg = [] \<longrightarrow> statsd_port cfg = 0)"

lemma refresh_ticks_fixed:
  assumes "tsd_runtime_config_refresh_ticks cfg = (Inr u, cfg')"
  shows "tsd_runtime_config_refresh_ticks cfg' = (ok, cfg')"
  using assms by (auto simp: tsd_runtime_config_refresh_ticks_def Let_def split: sum.splits)

lemma validate_runtime_ok:
  assumes "validate_runtime_config cfg = Some cfg'"
  shows "cfg' = (if statsd_host cfg = [] then cfg\<lparr>statsd_port := 0\<rparr> else cfg)"
    "(metrics_tls_cert_path cfg = []) = (metrics_tls_key_path cfg = [])"
    "metrics_tls_require_client_auth cfg \<noteq> 0 \<longrightarrow> metrics_tls_ca_path cfg \<noteq> []"
    "(metrics_basic_auth_user cfg = []) = (metrics_basic_auth_pass cfg = [])"
  using assms unfolding validate_runtime_config_def Let_def by (auto split: if_split_asm)

lemma finish_config_steps:
  assumes "finish_config cfg = Some cfg'"
  obtains b u where "validate_runtime_config (endpoint_defaults cfg) = Some b"
    "tsd_runtime_config_refresh_ticks (b\<lparr>down_ratio_milli := rounded_ratio_milli b,
       policy := tsd_policy_config_apply_bounds (policy b)\<rparr>) = (Inr u, cfg')"
  using assms unfolding finish_config_def by (auto split: option.split_asm prod.split_asm sum.split_asm)

lemma endpoint_defaults_ok:
  "(metrics_enabled (endpoint_defaults cfg) \<noteq> 0) = (metrics_port (endpoint_defaults cfg) > 0)"
  "metrics_bind_host (endpoint_defaults cfg) \<noteq> []"
  "generation_ranges_ok (endpoint_defaults cfg) = generation_ranges_ok cfg"
  by (simp_all add: endpoint_defaults_def k_default_config_def Let_def)

lemma finish_config_ok:
  assumes "finish_config cfg = Some cfg'" "generation_ranges_ok cfg"
  shows "validate_generation_config cfg' = (ok, cfg')" "endpoint_ok cfg'"
proof -
  obtain b u where v: "validate_runtime_config (endpoint_defaults cfg) = Some b"
    and r: "tsd_runtime_config_refresh_ticks (b\<lparr>down_ratio_milli := rounded_ratio_milli b,
       policy := tsd_policy_config_apply_bounds (policy b)\<rparr>) = (Inr u, cfg')"
    using finish_config_steps [OF assms(1)] .
  note b = validate_runtime_ok [OF v]
  from refresh_ticks_ok(4) [OF r] obtain x y z where cfg': "cfg' = b\<lparr>down_ratio_milli := rounded_ratio_milli b,
      policy := tsd_policy_config_apply_bounds (policy b),
      cooldown_down_ticks := x, cooldown_up_ticks := y, min_dwell_ticks := z\<rparr>" by blast
  have "generation_ranges_ok cfg'" unfolding cfg' b(1) using assms(2) endpoint_defaults_ok(3) by simp
  moreover have "down_ratio_milli cfg' \<noteq> 0" by (simp add: cfg' rounded_ratio_milli_def Let_def)
  moreover have "cfg'\<lparr>policy := tsd_policy_config_apply_bounds (policy cfg')\<rparr> = cfg'"
    by (simp add: cfg' apply_bounds_idem)
  ultimately show "validate_generation_config cfg' = (ok, cfg')"
    using refresh_ticks_fixed [OF r] by (simp add: validate_generation_config_def)
  show "endpoint_ok cfg'"
    using b(2-4) endpoint_defaults_ok(1,2) [of cfg] by (simp add: endpoint_ok_def cfg' b(1))
qed

lemma default_ranges:
  "generation_ranges_ok (k_default_config\<lparr>policy := q, degraded_policy_active := d\<rparr>)"
  by (simp add: generation_ranges_ok_def k_default_config_def)

section \<open>At most one option matches\<close>

text \<open>
  The part of an argument before the equals sign decides which option can match it: the literals of
  the options with a value end in their only equals sign, the others have none.
\<close>

definition arg_name :: "string \<Rightarrow> string" where
  "arg_name arg = takeWhile (\<lambda>c. c \<noteq> CHR ''='') arg"

fun option_literal :: "cli_option \<Rightarrow> string" where
  "option_literal Config_option = ''--config=''"
| "option_literal (Value_option lit n f) = lit"
| "option_literal (Switch_option lit f) = lit"
| "option_literal Sandbox_option = ''--sandbox-only''"
| "option_literal Help_option = ''--help''"

definition miscounted :: "string \<Rightarrow> bool" where
  "miscounted lit = (lit = ''--memory-guard-div='' \<or> lit = ''--memory-guard-offset='' \<or> lit = ''--policy-forecast='')"

fun literal_ok :: "cli_option \<Rightarrow> bool" where
  "literal_ok (Value_option lit n f) =
     (last lit = CHR ''='' \<and> lit \<noteq> [] \<and> CHR ''='' \<notin> set (butlast lit) \<and> CHR 0x00 \<notin> set lit \<and>
      n = (if miscounted lit then Suc (length lit) else length lit))"
| "literal_ok opt = True"

lemma literals_ok: "list_all literal_ok cli_options"
  by (simp add: cli_options_def miscounted_def)

lemma literal_option: "opt \<in> set cli_options \<Longrightarrow> literal_ok opt"
  using literals_ok by (simp add: list_all_iff)

lemma names_distinct: "distinct (map (arg_name \<circ> option_literal) cli_options)"
  by (simp add: cli_options_def arg_name_def)

lemma strncmp_prefix:
  assumes "strncmp_eq s t n" "length t \<le> n" "CHR 0x00 \<notin> set t"
  shows "\<exists>r. s = t @ r"
proof -
  have "take (length t) (take n (s @ [CHR 0x00])) = take (length t) (take n (t @ [CHR 0x00]))"
    using assms(1) by (simp add: strncmp_eq_def)
  then have t: "take (length t) (s @ [CHR 0x00]) = t" using assms(2)
    by (metis append_eq_conv_conj min_absorb1 take_take)
  have "length t \<le> length s"
  proof (rule ccontr)
    assume "\<not> length t \<le> length s"
    then have "t = s @ [CHR 0x00]" using t by simp
    with assms(3) show False by simp
  qed
  then have "take (length t) s = t" using t by simp
  then show ?thesis by (metis append_take_drop_id)
qed

lemma arg_name_literal:
  assumes "last lit = CHR ''=''" "lit \<noteq> []" "CHR ''='' \<notin> set (butlast lit)"
  shows "arg_name (lit @ r) = arg_name lit"
proof -
  have "arg_name (b @ CHR ''='' # q) = b" if "CHR ''='' \<notin> set b" for b q
    using that by (induction b) (auto simp: arg_name_def)
  moreover obtain b where "lit = b @ [CHR ''='']" "CHR ''='' \<notin> set b"
    using assms by (metis append_butlast_last_id)
  ultimately show ?thesis by simp
qed

lemma matches_name:
  assumes "opt \<in> set cli_options" "option_matches arg opt"
  shows "arg_name arg = arg_name (option_literal opt)"
proof -
  note ok = literal_option [OF assms(1)]
  show ?thesis
  proof (cases opt)
    case Config_option
    then obtain r where "arg = ''--config='' @ r" using strncmp_prefix [of arg "''--config=''" 9] assms(2) by auto
    with Config_option arg_name_literal [of "''--config=''" r] show ?thesis by simp
  next
    case (Value_option lit n f)
    moreover have "length lit \<le> n" using ok Value_option by simp
    ultimately obtain r where "arg = lit @ r" using strncmp_prefix [of arg lit n] assms(2) ok by auto
    with Value_option ok arg_name_literal [of lit r] show ?thesis by simp
  qed (use assms(2) in auto)
qed

lemma find_only:
  assumes "distinct (map g xs)" "x \<in> set xs" "P x" "\<And>y. y \<in> set xs \<Longrightarrow> P y \<Longrightarrow> g y = g x"
  shows "find P xs = Some x"
  using assms
proof (induction xs)
  case (Cons y ys)
  show ?case
  proof (cases "x = y")
    case False
    then have "g y \<noteq> g x" using Cons.prems(1,2) by force
    then have "\<not> P y" using Cons.prems(4) [of y] by auto
    moreover have "find P ys = Some x"
      by (rule Cons.IH) (use Cons.prems(1,2) False in simp, use Cons.prems(2) False in simp, fact Cons.prems(3),
        simp add: Cons.prems(4))
    ultimately show ?thesis by simp
  qed (use Cons.prems(3) in simp)
qed simp

lemma find_option:
  assumes "opt \<in> set cli_options" "option_matches arg opt"
  shows "find (option_matches arg) cli_options = Some opt"
proof (rule find_only [OF names_distinct assms(1), of "option_matches arg"])
  show "(arg_name \<circ> option_literal) y = (arg_name \<circ> option_literal) opt"
    if "y \<in> set cli_options" "option_matches arg y" for y
    using matches_name [OF that] matches_name [OF assms] by simp
qed (fact assms(2))

lemma find_no_option:
  assumes "opt \<in> set cli_options" "arg_name arg = arg_name (option_literal opt)" "\<not> option_matches arg opt"
  shows "find (option_matches arg) cli_options = None"
proof -
  have "\<not> option_matches arg y" if "y \<in> set cli_options" for y
  proof
    assume y: "option_matches arg y"
    have "(arg_name \<circ> option_literal) y = (arg_name \<circ> option_literal) opt"
      using matches_name [OF that y] assms(2) by simp
    moreover have "inj_on (arg_name \<circ> option_literal) (set cli_options)"
      using names_distinct unfolding distinct_map by simp
    ultimately have "y = opt" using that assms(1) by (simp only: inj_on_eq_iff)
    with y assms(3) show False by simp
  qed
  then show ?thesis by (simp add: find_None_iff)
qed

lemma strncmp_counted:
  assumes "CHR 0x00 \<notin> set t"
  shows "strncmp_eq (t @ v) t (length t)"
    and "CHR 0x00 \<notin> set v \<Longrightarrow> strncmp_eq (t @ v) t (Suc (length t)) = (v = [])"
  by (auto simp: strncmp_eq_def) (cases v; simp)

section \<open>Properties\<close>

text \<open>
  C17. Reading the command line always comes to an end. A configuration it accepts is one the start of
  a runtime generation takes over unchanged, its metrics endpoint is consistent (certificate with
  key, client authentication with a certificate authority, user with password, enabled exactly with
  a port), and it is the process-wide configuration from then on, at its log level.
\<close>
theorem cli_config_accepted:
  "case tsd_runtime_config_parse_cli files env_level (Some cfg0) args (level, p) of
     Continues (Some cfg, level', p') \<Rightarrow>
       validate_generation_config cfg = (ok, cfg) \<and> endpoint_ok cfg \<and> global_config p' = cfg \<and>
       level' = level_no (log_level cfg)
   | Continues (None, _) \<Rightarrow> False
   | Never_returns \<Rightarrow> False
   | _ \<Rightarrow> True"
proof -
  define c where "c = env_log_level env_level (k_default_config
    \<lparr>policy := tsd_policy_config_apply_bounds k_default_policy_config, degraded_policy_active := 0\<rparr>)"
  have c: "generation_ranges_ok c" unfolding c_def env_log_level_def
    using default_ranges by (simp split: option.split)
  have l: "tsd_log_set_level (level_no l) = level_no l" for l
    by (cases l) (simp_all add: tsd_log_set_level_def level_no_def)
  have e: "tsd_runtime_config_parse_cli files env_level (Some cfg0) args (level, p) =
     (case cli_args files args (c, sandbox_only p) of
        Exits n \<Rightarrow> Exits n | Undefined \<Rightarrow> Undefined | Never_returns \<Rightarrow> Never_returns
      | Continues (cfg, sandbox) \<Rightarrow> (case finish_config cfg of
          None \<Rightarrow> Exits 1
        | Some cfg \<Rightarrow> Continues (Some cfg, tsd_log_set_level (level_no (log_level cfg)),
            (tsd_runtime_flags_set_sandbox_only sandbox p)\<lparr>global_config := cfg\<rparr>)))"
    by (simp add: tsd_runtime_config_parse_cli_def tsd_runtime_config_set_defaults_def c_def)
  show ?thesis unfolding e
    using cli_args_ranges [of "(c, sandbox_only p)" files args] c
    by (auto simp: l split: outcome.split option.split dest: finish_config_ok)
qed

text \<open>
  C20. No option hides another: an argument that starts with the literal of an option with a value is
  handled by that option. For all but three of them the value is what follows the literal. The
  comparisons of \<^verbatim>\<open>--memory-guard-div=\<close>, \<^verbatim>\<open>--memory-guard-offset=\<close> and \<^verbatim>\<open>--policy-forecast=\<close> count one
  character too many: with a value the option is refused as unknown, and without one the parser
  reads behind the argument.
\<close>
theorem cli_option_values:
  assumes "Value_option lit n f \<in> set cli_options" "CHR 0x00 \<notin> set v"
  shows "cli_args files [lit @ v] (cfg, sandbox) =
     (if lit = ''--memory-guard-div='' \<or> lit = ''--memory-guard-offset='' \<or> lit = ''--policy-forecast=''
      then (if v = [] then Undefined else Exits 1)
      else (case f v cfg of None \<Rightarrow> Exits 1 | Some cfg' \<Rightarrow> Continues (cfg', sandbox)))"
  unfolding miscounted_def [symmetric]
proof (cases "miscounted lit")
  case False
  note ok = literal_option [OF assms(1), simplified]
  have "find (option_matches (lit @ v)) cli_options = Some (Value_option lit n f)"
    using ok False strncmp_counted(1) by (intro find_option [OF assms(1)]) simp
  with ok False show "cli_args files [lit @ v] (cfg, sandbox) =
     (if miscounted lit then (if v = [] then Undefined else Exits 1)
      else (case f v cfg of None \<Rightarrow> Exits 1 | Some cfg' \<Rightarrow> Continues (cfg', sandbox)))"
    by (simp add: c_suffix_def split: option.split)
next
  case True
  note ok = literal_option [OF assms(1), simplified]
  have m: "option_matches (lit @ v) (Value_option lit n f) = (v = [])"
    using strncmp_counted(2) [of lit v] assms(2) ok True by simp
  have name: "arg_name (lit @ v) = arg_name (option_literal (Value_option lit n f))"
    using ok by (simp add: arg_name_literal)
  have "find (option_matches (lit @ v)) cli_options = (if v = [] then Some (Value_option lit n f) else None)"
    using find_option [OF assms(1), of "lit @ v"] find_no_option [OF assms(1) name] m by (cases "v = []") auto
  with ok True show "cli_args files [lit @ v] (cfg, sandbox) =
     (if miscounted lit then (if v = [] then Undefined else Exits 1)
      else (case f v cfg of None \<Rightarrow> Exits 1 | Some cfg' \<Rightarrow> Continues (cfg', sandbox)))"
    by (simp add: c_suffix_def)
qed

theorem cli_option_values_witness:
  "cli_args (\<lambda>_. None) [''--memory-guard-div=8''] (k_default_config, False) = Exits 1 \<and>
   cli_args (\<lambda>_. None) [''--memory-guard-div=''] (k_default_config, False) = Undefined \<and>
   cli_args (\<lambda>_. None) [''--down-count=7''] (k_default_config, False) = Continues (k_default_config\<lparr>down_count := 7\<rparr>, False)"
proof -
  have d: "Value_option ''--memory-guard-div='' 20 (int_value 1 1000 (\<lambda>x c. c\<lparr>memory_guard_divisor := x\<rparr>)) \<in> set cli_options"
    and c: "Value_option ''--down-count='' 13 (int_value 1 100 (\<lambda>x c. c\<lparr>down_count := x\<rparr>)) \<in> set cli_options"
    by (simp_all add: cli_options_def)
  have 7: "tsd_parse_int_option (Some ''7'') 1 100 True = Some 7" by code_simp
  show ?thesis
    using cli_option_values [OF d, of "''8''" "\<lambda>_. None" k_default_config False]
      cli_option_values [OF d, of "[]" "\<lambda>_. None" k_default_config False]
      cli_option_values [OF c, of "''7''" "\<lambda>_. None" k_default_config False] 7
    by (simp add: int_value_def)
qed

end
