(* ===== verification/Telemetry_Helper.thy ===== *)
theory Telemetry_Helper
  imports Adaptive_Dispatch
begin

text \<open>
  \<^verbatim>\<open>src/telemetry_helper.c\<close>: finding and reading the package temperature sensor, the MSR pair
  APERF/MPERF and the cpufreq files, each with its own retry schedule.

  The operating system is an oracle: \<open>sys_calls\<close> counts the system calls, and the functions say
  what the call with a given number meets (file contents, directory listings, access rights,
  descriptors, registers), so that everything may change between two calls. \<open>clock_results\<close> are the
  advances of the monotonic clock at its next readings (\<^term>\<open>None\<close>: the call fails; an exhausted list
  stands still). \<open>fd_table\<close> holds the descriptors opened and not yet closed.
\<close>

section \<open>State\<close>

record sproc = dproc +
  clock_results :: "nat option list"
  sys_calls :: nat
  sys_file :: "nat \<Rightarrow> string \<Rightarrow> string option"
  sys_dir :: "nat \<Rightarrow> string \<Rightarrow> string list option"
  sys_access :: "nat \<Rightarrow> string \<Rightarrow> bool"
  sys_open :: "nat \<Rightarrow> string \<Rightarrow> int"
  sys_msr :: "nat \<Rightarrow> int \<Rightarrow> int \<Rightarrow> u64 option"
  fd_table :: "int list"

record tsd_telemetry_sample_t =
  sm_temp_available :: int
  sm_freq_ratio_available :: int
  sm_package_temp_millic :: int
  sm_freq_ratio_milli :: u32
  sm_filtered_temp_available :: int
  sm_filtered_freq_ratio_available :: int
  sm_filtered_package_temp_millic :: int
  sm_filtered_freq_ratio_milli :: u32

definition zero_sample :: tsd_telemetry_sample_t where
  "zero_sample = \<lparr>sm_temp_available = 0, sm_freq_ratio_available = 0, sm_package_temp_millic = 0,
     sm_freq_ratio_milli = 0, sm_filtered_temp_available = 0, sm_filtered_freq_ratio_available = 0,
     sm_filtered_package_temp_millic = 0, sm_filtered_freq_ratio_milli = 0\<rparr>"

record tsd_telemetry_helper_t =
  th_cpu :: int
  th_temp_available :: bool
  th_freq_sysfs_available :: bool
  th_msr_fd :: int
  th_msr_available :: bool
  th_freq_max_khz :: u64
  th_last_aperf :: u64
  th_last_mperf :: u64
  th_temp_path :: string
  th_freq_cur_path :: string
  th_temp_retry_deadline :: int
  th_freq_retry_deadline :: int
  th_msr_retry_deadline :: int
  th_temp_backoff_seconds :: int
  th_freq_backoff_seconds :: int
  th_msr_backoff_seconds :: int

definition zero_helper :: tsd_telemetry_helper_t where
  "zero_helper = \<lparr>th_cpu = 0, th_temp_available = False, th_freq_sysfs_available = False, th_msr_fd = 0,
     th_msr_available = False, th_freq_max_khz = 0, th_last_aperf = 0, th_last_mperf = 0,
     th_temp_path = [], th_freq_cur_path = [], th_temp_retry_deadline = 0, th_freq_retry_deadline = 0,
     th_msr_retry_deadline = 0, th_temp_backoff_seconds = 0, th_freq_backoff_seconds = 0,
     th_msr_backoff_seconds = 0\<rparr>"

section \<open>System calls\<close>

definition sys_tick :: "'a sproc_scheme \<Rightarrow> 'a sproc_scheme" where
  "sys_tick s = s\<lparr>sys_calls := Suc (sys_calls s)\<rparr>"

text \<open>\<^verbatim>\<open>clock_gettime(CLOCK_MONOTONIC)\<close> in nanoseconds; the clock also is the one of the guard.\<close>

definition clock_gettime :: "'a sproc_scheme \<Rightarrow> int option \<times> 'a sproc_scheme" where
  "clock_gettime s =
     (case next_of (Some 0) (clock_results s) of
        (None, rest) \<Rightarrow> (None, s\<lparr>clock_results := rest\<rparr>)
      | (Some adv, rest) \<Rightarrow>
          (let now = steady_now s + int adv in (Some now, s\<lparr>steady_now := now, clock_results := rest\<rparr>)))"

definition read_file :: "string \<Rightarrow> 'a sproc_scheme \<Rightarrow> string option \<times> 'a sproc_scheme" where
  "read_file path s = (sys_file s (sys_calls s) path, sys_tick s)"

definition read_dir :: "string \<Rightarrow> 'a sproc_scheme \<Rightarrow> string list option \<times> 'a sproc_scheme" where
  "read_dir path s = (sys_dir s (sys_calls s) path, sys_tick s)"

definition access_ok :: "string \<Rightarrow> 'a sproc_scheme \<Rightarrow> bool \<times> 'a sproc_scheme" where
  "access_ok path s = (sys_access s (sys_calls s) path, sys_tick s)"

definition open_file :: "string \<Rightarrow> 'a sproc_scheme \<Rightarrow> int \<times> 'a sproc_scheme" where
  "open_file path s =
     (let fd = sys_open s (sys_calls s) path; s = sys_tick s
      in (fd, if fd \<ge> 0 then s\<lparr>fd_table := fd # fd_table s\<rparr> else s))"

definition close_fd :: "int \<Rightarrow> 'a sproc_scheme \<Rightarrow> 'a sproc_scheme" where
  "close_fd fd s = s\<lparr>fd_table := remove1 fd (fd_table s)\<rparr>"

section \<open>Retry schedules\<close>

definition tsd_now_seconds :: "'a sproc_scheme \<Rightarrow> int \<times> 'a sproc_scheme" where
  "tsd_now_seconds s =
     (case clock_gettime s of
        (None, s) \<Rightarrow> (0, s)
      | (Some t, s) \<Rightarrow> (if t div 1000000000 < 0 then 0 else t div 1000000000, s))"

text \<open>The pair of deadline and back-off; only the back-off is read.\<close>

definition schedule_retry :: "int \<Rightarrow> 'a sproc_scheme \<Rightarrow> (int \<times> int) \<times> 'a sproc_scheme" where
  "schedule_retry backoff s =
     (let backoff = (if backoff \<le> 0 then 5 else backoff);
          delay = (if backoff > 600 then 600 else backoff);
          (now, s) = tsd_now_seconds s;
          next_backoff = (if backoff < 600 then (if backoff * 2 > 600 then 600 else backoff * 2) else backoff)
      in ((now + delay, next_backoff), s))"

definition reset_retry :: "int \<times> int" where
  "reset_retry = (0, 5)"

definition set_temp_retry :: "int \<times> int \<Rightarrow> tsd_telemetry_helper_t \<Rightarrow> tsd_telemetry_helper_t" where
  "set_temp_retry r h = h\<lparr>th_temp_retry_deadline := fst r, th_temp_backoff_seconds := snd r\<rparr>"

definition set_freq_retry :: "int \<times> int \<Rightarrow> tsd_telemetry_helper_t \<Rightarrow> tsd_telemetry_helper_t" where
  "set_freq_retry r h = h\<lparr>th_freq_retry_deadline := fst r, th_freq_backoff_seconds := snd r\<rparr>"

definition set_msr_retry :: "int \<times> int \<Rightarrow> tsd_telemetry_helper_t \<Rightarrow> tsd_telemetry_helper_t" where
  "set_msr_retry r h = h\<lparr>th_msr_retry_deadline := fst r, th_msr_backoff_seconds := snd r\<rparr>"

section \<open>Reading values\<close>

text \<open>\<^verbatim>\<open>fgets\<close> of one line into a buffer of \<open>n\<close> characters, up to the first NUL.\<close>

definition fgets :: "nat \<Rightarrow> string \<Rightarrow> string option" where
  "fgets n text =
     (if text = [] then None
      else let line = takeWhile (\<lambda>c. c \<noteq> CHR 0x0A) text;
               line = (if length line < length text then line @ [CHR 0x0A] else line)
           in Some (takeWhile (\<lambda>c. c \<noteq> CHR 0x00) (take (n - 1) line)))"

definition trailing_space :: "char \<Rightarrow> bool" where
  "trailing_space c = (c = CHR 0x0A \<or> c = CHR 0x0D \<or> c = CHR '' '' \<or> c = CHR 0x09)"

definition strip_trailing :: "string \<Rightarrow> string" where
  "strip_trailing text = rev (dropWhile trailing_space (rev text))"

definition read_text_from_path :: "string \<Rightarrow> nat \<Rightarrow> 'a sproc_scheme \<Rightarrow> string option \<times> 'a sproc_scheme" where
  "read_text_from_path path n s =
     (if n < 2 then (None, s)
      else (case read_file path s of
          (None, s) \<Rightarrow> (None, s)
        | (Some text, s) \<Rightarrow> (map_option strip_trailing (fgets n text), s)))"

definition lowercase_ascii :: "string \<Rightarrow> string" where
  "lowercase_ascii text = map c_tolower text"

definition read_long_from_path :: "string \<Rightarrow> 'a sproc_scheme \<Rightarrow> int option \<times> 'a sproc_scheme" where
  "read_long_from_path path s =
     (case read_text_from_path path 64 s of
        (None, s) \<Rightarrow> (None, s)
      | (Some buffer, s) \<Rightarrow>
          (let (parsed, endp, erange) = strtol10 buffer
           in if erange \<or> endp = 0 \<or> endp \<noteq> length buffer then (None, s) else (Some parsed, s)))"

text \<open>\<^verbatim>\<open>snprintf\<close> into \<open>n\<close> characters with the check that nothing was cut off.\<close>

definition snprintf_fits :: "nat \<Rightarrow> string \<Rightarrow> string option" where
  "snprintf_fits n text = (if length text < n then Some text else None)"

text \<open>\<^verbatim>\<open>copy_path\<close> leaves the shortened text in the destination when it does not fit.\<close>

definition copy_path :: "nat \<Rightarrow> string \<Rightarrow> bool \<times> string" where
  "copy_path dest_size path = (length path < dest_size, take (dest_size - 1) path)"

definition physical_package_id :: "int \<Rightarrow> 'a sproc_scheme \<Rightarrow> int \<times> 'a sproc_scheme" where
  "physical_package_id cpu s =
     (case snprintf_fits 256 (''/sys/devices/system/cpu/cpu'' @ dec_int cpu @ ''/topology/physical_package_id'') of
        None \<Rightarrow> (- 1, s)
      | Some path \<Rightarrow>
          (case read_long_from_path path s of
             (None, s) \<Rightarrow> (- 1, s)
           | (Some package, s) \<Rightarrow> (if package < 0 \<or> package > 4096 then - 1 else package, s)))"

definition cpu_entry :: "string \<Rightarrow> int option" where
  "cpu_entry d_name =
     (if \<not> strncmp_eq d_name ''cpu'' 3 then None
      else let digits = drop 3 d_name
           in if digits = [] \<or> \<not> c_isdigit (hd digits) then None
              else let (cpu, endp, _) = strtol10 digits
                   in if endp \<noteq> length digits \<or> cpu < 0 \<or> cpu > 1048576 then None else Some cpu)"

fun collect_packages :: "string list \<Rightarrow> int list \<Rightarrow> 'a sproc_scheme \<Rightarrow> int list \<times> 'a sproc_scheme" where
  "collect_packages [] packages s = (packages, s)"
| "collect_packages (d_name # entries) packages s =
     (case cpu_entry d_name of
        None \<Rightarrow> collect_packages entries packages s
      | Some cpu \<Rightarrow>
          (let (package, s) = physical_package_id cpu s
           in if package < 0 then collect_packages entries packages s
              else if package \<in> set packages then collect_packages entries packages s
              else if length packages < 256 then collect_packages entries (packages @ [package]) s
              else collect_packages entries packages s))"

definition physical_package_count :: "'a sproc_scheme \<Rightarrow> int \<times> 'a sproc_scheme" where
  "physical_package_count s =
     (case read_dir ''/sys/devices/system/cpu'' s of
        (None, s) \<Rightarrow> (0, s)
      | (Some entries, s) \<Rightarrow> (let (packages, s) = collect_packages entries [] s in (int (length packages), s)))"

section \<open>Choosing the temperature sensor\<close>

fun strstr :: "string \<Rightarrow> string \<Rightarrow> bool" where
  "strstr [] needle = (needle = [])"
| "strstr (c # hay) needle = (take (length needle) (c # hay) = needle \<or> strstr hay needle)"

definition label_mentions_package :: "string \<Rightarrow> int \<Rightarrow> bool" where
  "label_mentions_package label package_id =
     (package_id \<ge> 0 \<and>
      (strstr label (''package id '' @ dec_int package_id) \<or>
       strstr label (''package '' @ dec_int package_id) \<or>
       strstr label (''pkg'' @ dec_int package_id)))"

definition driver_score :: "string \<Rightarrow> int" where
  "driver_score driver =
     (if strstr driver ''x86_pkg_temp'' then 120
      else if strstr driver ''coretemp'' then 110
      else if strstr driver ''k10temp'' then 110
      else if strstr driver ''zenpower'' then 105
      else if strstr driver ''cpu'' then 50 else 0)"

definition label_score :: "string \<Rightarrow> int \<Rightarrow> int" where
  "label_score label package_id =
     (if label_mentions_package label package_id then 150
      else if strstr label ''package'' then 100
      else if strstr label ''pkg'' then 90
      else if strstr label ''tctl'' then 85
      else if strstr label ''tdie'' then 80
      else if strstr label ''cpu'' then 50
      else if strstr label ''core'' then 10 else 0)"

definition temperature_candidate_score :: "string option \<Rightarrow> string option \<Rightarrow> int \<Rightarrow> int" where
  "temperature_candidate_score driver label package_id =
     (case driver of None \<Rightarrow> 0 | Some d \<Rightarrow> driver_score d) +
     (case label of None \<Rightarrow> 0 | Some l \<Rightarrow> label_score l package_id)"

record temp_candidate_state_t =
  best_path :: string
  best_score :: int
  best_explicit_match :: bool
  best_ambiguous :: bool

definition consider_temp_candidate ::
    "string \<Rightarrow> int \<Rightarrow> bool \<Rightarrow> temp_candidate_state_t \<Rightarrow> 'a sproc_scheme \<Rightarrow> temp_candidate_state_t \<times> 'a sproc_scheme" where
  "consider_temp_candidate path score explicit best s =
     (let (readable, s) = access_ok path s
      in if \<not> readable then (best, s)
         else (case read_long_from_path path s of
             (None, s) \<Rightarrow> (best, s)
           | (Some v, s) \<Rightarrow>
               if v < - 50000 \<or> v > 150000 then (best, s)
               else if score > best_score best \<or> score = best_score best \<and> explicit \<and> \<not> best_explicit_match best then
                 (let (fits, copied) = copy_path 256 path; best = best\<lparr>best_path := copied\<rparr>
                  in (if fits then best\<lparr>best_score := score, best_explicit_match := explicit, best_ambiguous := False\<rparr>
                      else best, s))
               else if score = best_score best \<and> explicit = best_explicit_match best \<and>
                       best_path best \<noteq> [] \<and> path \<noteq> best_path best
               then (best\<lparr>best_ambiguous := True\<rparr>, s)
               else (best, s)))"

fun scan_zones :: "int \<Rightarrow> string list \<Rightarrow> temp_candidate_state_t \<Rightarrow> 'a sproc_scheme \<Rightarrow>
    temp_candidate_state_t \<times> 'a sproc_scheme" where
  "scan_zones package_id [] best s = (best, s)"
| "scan_zones package_id (d_name # entries) best s =
     (if \<not> strncmp_eq d_name ''thermal_zone'' 12 then scan_zones package_id entries best s
      else (case (snprintf_fits 320 (''/sys/class/thermal/'' @ d_name @ ''/type''),
                  snprintf_fits 320 (''/sys/class/thermal/'' @ d_name @ ''/temp'')) of
          (Some type_path, Some temp_path) \<Rightarrow>
            (case read_text_from_path type_path 128 s of
               (None, s) \<Rightarrow> scan_zones package_id entries best s
             | (Some text, s) \<Rightarrow>
                 (let kind = lowercase_ascii text;
                      score = temperature_candidate_score (Some kind) (Some kind) package_id
                  in if score \<ge> 50 then
                       (let (best, s) = consider_temp_candidate temp_path score
                              (label_mentions_package kind package_id) best s
                        in scan_zones package_id entries best s)
                     else scan_zones package_id entries best s))
        | _ \<Rightarrow> scan_zones package_id entries best s))"

definition scan_thermal_zones ::
    "int \<Rightarrow> temp_candidate_state_t \<Rightarrow> 'a sproc_scheme \<Rightarrow> temp_candidate_state_t \<times> 'a sproc_scheme" where
  "scan_thermal_zones package_id best s =
     (case read_dir ''/sys/class/thermal'' s of
        (None, s) \<Rightarrow> (best, s)
      | (Some entries, s) \<Rightarrow> scan_zones package_id entries best s)"

fun parse_temp_index :: "string \<Rightarrow> nat \<Rightarrow> nat option" where
  "parse_temp_index [] v = None"
| "parse_temp_index (c # cursor) v =
     (if c_isdigit c then
        (let v = v * 10 + digit_val c in if v > 9999 then None else parse_temp_index cursor v)
      else if c # cursor = ''_input'' then Some v else None)"

definition parse_hwmon_temp_input :: "string \<Rightarrow> nat option" where
  "parse_hwmon_temp_input name =
     (if \<not> strncmp_eq name ''temp'' 4 then None
      else let cursor = drop 4 name
           in if cursor = [] \<or> \<not> c_isdigit (hd cursor) then None
              else parse_temp_index cursor 0)"

fun scan_hwmon_inputs :: "int \<Rightarrow> string \<Rightarrow> int \<Rightarrow> string list \<Rightarrow> temp_candidate_state_t \<Rightarrow> 'a sproc_scheme \<Rightarrow>
    temp_candidate_state_t \<times> 'a sproc_scheme" where
  "scan_hwmon_inputs package_id base dscore [] best s = (best, s)"
| "scan_hwmon_inputs package_id base dscore (d_name # entries) best s =
     (case parse_hwmon_temp_input d_name of
        None \<Rightarrow> scan_hwmon_inputs package_id base dscore entries best s
      | Some index \<Rightarrow>
          (case (snprintf_fits 384 (base @ ''/'' @ d_name),
                 snprintf_fits 384 (base @ ''/temp'' @ dec_nat index @ ''_label'')) of
             (Some input_path, Some label_path) \<Rightarrow>
               (let (text, s) = read_text_from_path label_path 128 s;
                    label = (case text of None \<Rightarrow> [] | Some text \<Rightarrow> lowercase_ascii text);
                    score = dscore + temperature_candidate_score None (Some label) package_id;
                    (best, s) = consider_temp_candidate input_path score (label_mentions_package label package_id) best s
                in scan_hwmon_inputs package_id base dscore entries best s)
           | _ \<Rightarrow> scan_hwmon_inputs package_id base dscore entries best s))"

fun scan_hwmon_chips :: "int \<Rightarrow> string list \<Rightarrow> temp_candidate_state_t \<Rightarrow> 'a sproc_scheme \<Rightarrow>
    temp_candidate_state_t \<times> 'a sproc_scheme" where
  "scan_hwmon_chips package_id [] best s = (best, s)"
| "scan_hwmon_chips package_id (d_name # chips) best s =
     (if \<not> strncmp_eq d_name ''hwmon'' 5 then scan_hwmon_chips package_id chips best s
      else (case snprintf_fits 320 (''/sys/class/hwmon/'' @ d_name) of
          None \<Rightarrow> scan_hwmon_chips package_id chips best s
        | Some base \<Rightarrow>
            (case read_text_from_path (take 383 (base @ ''/name'')) 128 s of
               (None, s) \<Rightarrow> scan_hwmon_chips package_id chips best s
             | (Some text, s) \<Rightarrow>
                 (let dscore = temperature_candidate_score (Some (lowercase_ascii text)) None package_id
                  in if dscore = 0 then scan_hwmon_chips package_id chips best s
                     else (case read_dir base s of
                         (None, s) \<Rightarrow> scan_hwmon_chips package_id chips best s
                       | (Some entries, s) \<Rightarrow>
                           (let (best, s) = scan_hwmon_inputs package_id base dscore entries best s
                            in scan_hwmon_chips package_id chips best s))))))"

definition scan_hwmon ::
    "int \<Rightarrow> temp_candidate_state_t \<Rightarrow> 'a sproc_scheme \<Rightarrow> temp_candidate_state_t \<times> 'a sproc_scheme" where
  "scan_hwmon package_id best s =
     (case read_dir ''/sys/class/hwmon'' s of
        (None, s) \<Rightarrow> (best, s)
      | (Some chips, s) \<Rightarrow> scan_hwmon_chips package_id chips best s)"

definition detect_temp_sensor :: "tsd_telemetry_helper_t \<Rightarrow> 'a sproc_scheme \<Rightarrow>
    bool \<times> tsd_telemetry_helper_t \<times> 'a sproc_scheme" where
  "detect_temp_sensor h s =
     (let h = h\<lparr>th_temp_available := False, th_temp_path := []\<rparr>;
          best = \<lparr>best_path = [], best_score = - 1, best_explicit_match = False, best_ambiguous = False\<rparr>;
          (package_id, s) = physical_package_id (th_cpu h) s;
          (best, s) = scan_thermal_zones package_id best s;
          (best, s) = scan_hwmon package_id best s
      in if best_score best < 0 \<or> best_path best = [] then (False, h, s)
         else let (package_count, s) = physical_package_count s
              in if package_count > 1 \<and> (package_id < 0 \<or> \<not> best_explicit_match best) then (False, h, s)
                 else if package_id \<ge> 0 \<and> best_ambiguous best \<and> \<not> best_explicit_match best then (False, h, s)
                 else let (fits, copied) = copy_path 256 (best_path best)
                      in (fits, h\<lparr>th_temp_available := fits, th_temp_path := copied\<rparr>, s))"

section \<open>Frequency sources\<close>

definition cpufreq_path :: "int \<Rightarrow> string \<Rightarrow> string option" where
  "cpufreq_path cpu file = snprintf_fits 256 (''/sys/devices/system/cpu/cpu'' @ dec_int cpu @ ''/cpufreq/'' @ file)"

definition read_max_khz :: "int \<Rightarrow> string \<Rightarrow> 'a sproc_scheme \<Rightarrow> int option \<times> 'a sproc_scheme" where
  "read_max_khz cpu file s =
     (case cpufreq_path cpu file of
        None \<Rightarrow> (None, s)
      | Some path \<Rightarrow>
          (case read_long_from_path path s of
             (None, s) \<Rightarrow> (None, s)
           | (Some khz, s) \<Rightarrow> (if khz \<le> 0 then None else Some khz, s)))"

definition detect_cpufreq_paths :: "tsd_telemetry_helper_t \<Rightarrow> 'a sproc_scheme \<Rightarrow>
    bool \<times> tsd_telemetry_helper_t \<times> 'a sproc_scheme" where
  "detect_cpufreq_paths h s =
     (let gone = h\<lparr>th_freq_sysfs_available := False, th_freq_max_khz := 0, th_freq_cur_path := []\<rparr>
      in (case cpufreq_path (th_cpu h) ''scaling_cur_freq'' of
          None \<Rightarrow> (False, gone, s)
        | Some path \<Rightarrow>
            (let (readable, s) = access_ok path s
             in if \<not> readable then (False, gone, s)
                else let (fits, copied) = copy_path 256 path
                     in if \<not> fits then (False, h\<lparr>th_freq_cur_path := copied\<rparr>, s)
                        else let (m, s) = read_max_khz (th_cpu h) ''scaling_max_freq'' s;
                                 (m, s) = (if m = None then read_max_khz (th_cpu h) ''cpuinfo_max_freq'' s else (m, s))
                             in (case m of
                                   None \<Rightarrow> (False, gone, s)
                                 | Some khz \<Rightarrow> (True, h\<lparr>th_freq_sysfs_available := True, th_freq_max_khz := of_int khz,
                                                              th_freq_cur_path := copied\<rparr>, s)))))"

definition count_metric :: "tsd_metric_counter_t \<Rightarrow> 'a sproc_scheme \<Rightarrow> 'a sproc_scheme" where
  "count_metric i s = s\<lparr>metrics := tsd_metrics_increment i (metrics s)\<rparr>"

definition reopen_msr :: "bool \<Rightarrow> tsd_telemetry_helper_t \<Rightarrow> 'a sproc_scheme \<Rightarrow>
    bool \<times> tsd_telemetry_helper_t \<times> 'a sproc_scheme" where
  "reopen_msr emit_events h s =
     (case snprintf_fits 128 (''/dev/cpu/'' @ dec_int (th_cpu h) @ ''/msr'') of
        None \<Rightarrow> (False, h, s)
      | Some msr_path \<Rightarrow>
          (let (fd, s) = open_file msr_path s
           in if fd \<ge> 0 then
                (True, set_msr_retry reset_retry (h\<lparr>th_msr_fd := fd, th_msr_available := True\<rparr>),
                 if emit_events then count_metric TSD_METRIC_TELEMETRY_MSR_RECOVERIES s else s)
              else let (r, s) = schedule_retry (th_msr_backoff_seconds h) s
                   in (False, set_msr_retry r (h\<lparr>th_msr_fd := - 1, th_msr_available := False\<rparr>), s)))"

definition read_msr64 :: "int \<Rightarrow> int \<Rightarrow> 'a sproc_scheme \<Rightarrow> u64 option \<times> 'a sproc_scheme" where
  "read_msr64 fd offset s = (if fd < 0 then (None, s) else (sys_msr s (sys_calls s) fd offset, sys_tick s))"

section \<open>Life cycle\<close>

definition tsd_telemetry_helper_init :: "int \<Rightarrow> tsd_telemetry_helper_t \<Rightarrow> 'a sproc_scheme \<Rightarrow>
    rc \<times> tsd_telemetry_helper_t \<times> 'a sproc_scheme" where
  "tsd_telemetry_helper_init cpu h s =
     (if cpu < 0 then (Inl EINVAL, h, s)
      else let h = set_msr_retry reset_retry (set_freq_retry reset_retry (set_temp_retry reset_retry
                     (zero_helper\<lparr>th_cpu := cpu, th_msr_fd := - 1\<rparr>)));
               (found, h, s) = detect_temp_sensor h s;
               h = (if found then set_temp_retry reset_retry h else h);
               (found, h, s) = detect_cpufreq_paths h s;
               h = (if found then set_freq_retry reset_retry h else h);
               (opened, h, s) = reopen_msr False h s
           in (ok, h, if opened then s else count_metric TSD_METRIC_TELEMETRY_MSR_DROPS s))"

definition tsd_telemetry_helper_destroy :: "tsd_telemetry_helper_t \<Rightarrow> 'a sproc_scheme \<Rightarrow>
    tsd_telemetry_helper_t \<times> 'a sproc_scheme" where
  "tsd_telemetry_helper_destroy h s =
     (h\<lparr>th_msr_fd := - 1, th_msr_available := False\<rparr>, if th_msr_fd h \<ge> 0 then close_fd (th_msr_fd h) s else s)"

section \<open>Sampling\<close>

definition recover_temperature :: "tsd_telemetry_helper_t \<Rightarrow> 'a sproc_scheme \<Rightarrow> tsd_telemetry_helper_t \<times> 'a sproc_scheme" where
  "recover_temperature h s =
     (let (now, s) = tsd_now_seconds s
      in if th_temp_retry_deadline h = 0 \<or> now \<ge> th_temp_retry_deadline h then
           (case detect_temp_sensor h s of
              (True, h, s) \<Rightarrow> (set_temp_retry reset_retry h, count_metric TSD_METRIC_TELEMETRY_TEMP_RECOVERIES s)
            | (False, h, s) \<Rightarrow>
                (let (r, s) = schedule_retry (th_temp_backoff_seconds h) s in (set_temp_retry r h, s)))
         else (h, s))"

definition sample_temperature :: "tsd_telemetry_helper_t \<times> tsd_telemetry_sample_t \<times> 'a sproc_scheme \<Rightarrow>
    tsd_telemetry_helper_t \<times> tsd_telemetry_sample_t \<times> 'a sproc_scheme" where
  "sample_temperature st =
     (let (h, out, s) = st;
          (h, s) = (if \<not> th_temp_available h \<or> th_temp_path h = [] then recover_temperature h s else (h, s))
      in if \<not> th_temp_available h then (h, out, s)
         else let (v, s) = read_long_from_path (th_temp_path h) s
              in if (case v of None \<Rightarrow> False | Some t \<Rightarrow> t \<ge> - 50000 \<and> t \<le> 150000)
                 then (h, out\<lparr>sm_temp_available := 1, sm_package_temp_millic := the v\<rparr>, s)
                 else let s = count_metric TSD_METRIC_TELEMETRY_TEMP_DROPS s;
                          (r, s) = schedule_retry (th_temp_backoff_seconds h) s
                      in (set_temp_retry r (h\<lparr>th_temp_available := False, th_temp_path := []\<rparr>), out, s))"

text \<open>A ratio in thousandths: a 128-bit quotient cast to 64 bits and saturated to 32.\<close>

definition ratio_u32 :: "nat \<Rightarrow> nat \<Rightarrow> u32" where
  "ratio_u32 n d = (let ratio = (of_nat (n * 1000 div d) :: u64) in if ratio > 0xFFFFFFFF then 0xFFFFFFFF else ucast ratio)"

definition store_ratio :: "nat \<Rightarrow> nat \<Rightarrow> tsd_telemetry_sample_t \<Rightarrow> tsd_telemetry_sample_t" where
  "store_ratio n d out = out\<lparr>sm_freq_ratio_milli := ratio_u32 n d, sm_freq_ratio_available := 1\<rparr>"

definition recover_msr :: "tsd_telemetry_helper_t \<Rightarrow> 'a sproc_scheme \<Rightarrow> tsd_telemetry_helper_t \<times> 'a sproc_scheme" where
  "recover_msr h s =
     (let (now, s) = tsd_now_seconds s
      in if th_msr_retry_deadline h = 0 \<or> now \<ge> th_msr_retry_deadline h then snd (reopen_msr True h s) else (h, s))"

definition sample_msr_ratio :: "tsd_telemetry_helper_t \<times> tsd_telemetry_sample_t \<times> 'a sproc_scheme \<Rightarrow>
    tsd_telemetry_helper_t \<times> tsd_telemetry_sample_t \<times> 'a sproc_scheme" where
  "sample_msr_ratio st =
     (let (h, out, s) = st;
          (h, s) = (if \<not> th_msr_available h \<or> th_msr_fd h < 0 then recover_msr h s else (h, s))
      in if \<not> th_msr_available h \<or> th_msr_fd h < 0 then (h, out, s)
         else let (aperf, s) = read_msr64 (th_msr_fd h) 0xE8 s;
                  (mperf, s) = (if aperf = None then (None, s) else read_msr64 (th_msr_fd h) 0xE7 s)
              in (case (aperf, mperf) of
                    (Some a, Some m) \<Rightarrow>
                      (h\<lparr>th_last_aperf := a, th_last_mperf := m\<rparr>,
                       if th_last_mperf h \<noteq> 0 \<and> m > th_last_mperf h \<and> a \<ge> th_last_aperf h
                       then store_ratio (unat (a - th_last_aperf h)) (unat (m - th_last_mperf h)) out else out, s)
                  | _ \<Rightarrow>
                      (let s = count_metric TSD_METRIC_TELEMETRY_MSR_DROPS (close_fd (th_msr_fd h) s);
                           (r, s) = schedule_retry (th_msr_backoff_seconds h) s
                       in (set_msr_retry r (h\<lparr>th_msr_fd := - 1, th_msr_available := False\<rparr>), out, s))))"

definition recover_cpufreq :: "tsd_telemetry_helper_t \<Rightarrow> 'a sproc_scheme \<Rightarrow> tsd_telemetry_helper_t \<times> 'a sproc_scheme" where
  "recover_cpufreq h s =
     (let (now, s) = tsd_now_seconds s
      in if th_freq_retry_deadline h = 0 \<or> now \<ge> th_freq_retry_deadline h then
           (case detect_cpufreq_paths h s of
              (True, h, s) \<Rightarrow> (set_freq_retry reset_retry h, count_metric TSD_METRIC_TELEMETRY_FREQ_RECOVERIES s)
            | (False, h, s) \<Rightarrow>
                (let (r, s) = schedule_retry (th_freq_backoff_seconds h) s in (set_freq_retry r h, s)))
         else (h, s))"

definition sample_cpufreq_ratio :: "tsd_telemetry_helper_t \<times> tsd_telemetry_sample_t \<times> 'a sproc_scheme \<Rightarrow>
    tsd_telemetry_helper_t \<times> tsd_telemetry_sample_t \<times> 'a sproc_scheme" where
  "sample_cpufreq_ratio st =
     (let (h, out, s) = st;
          (h, s) = (if \<not> th_freq_sysfs_available h \<or> th_freq_cur_path h = [] \<or> th_freq_max_khz h = 0
                    then recover_cpufreq h s else (h, s))
      in if \<not> th_freq_sysfs_available h then (h, out, s)
         else let (v, s) = read_long_from_path (th_freq_cur_path h) s
              in if (case v of None \<Rightarrow> False | Some khz \<Rightarrow> khz > 0)
                 then (h, store_ratio (nat (the v)) (unat (th_freq_max_khz h)) out, s)
                 else let s = count_metric TSD_METRIC_TELEMETRY_FREQ_DROPS s;
                          (r, s) = schedule_retry (th_freq_backoff_seconds h) s
                      in (set_freq_retry r (h\<lparr>th_freq_sysfs_available := False, th_freq_cur_path := []\<rparr>), out, s))"

text \<open>The result is whether the C function returns 0; it sets no \<^verbatim>\<open>errno\<close> of its own.\<close>

definition tsd_telemetry_helper_sample :: "tsd_telemetry_helper_t \<Rightarrow> 'a sproc_scheme \<Rightarrow>
    bool \<times> tsd_telemetry_helper_t \<times> tsd_telemetry_sample_t \<times> 'a sproc_scheme" where
  "tsd_telemetry_helper_sample h s =
     (let (h, out, s) = sample_msr_ratio (sample_temperature (h, zero_sample, s));
          (h, out, s) = (if sm_freq_ratio_available out = 0 then sample_cpufreq_ratio (h, out, s) else (h, out, s))
      in (sm_temp_available out \<noteq> 0 \<or> sm_freq_ratio_available out \<noteq> 0, h, out, s))"

end
