(* ===== verification/Telemetry_Helper_Facts.thy ===== *)
theory Telemetry_Helper_Facts
  imports Telemetry_Helper "HOL-Library.Multiset"
begin

text \<open>
  What the operations of \<open>Telemetry_Helper\<close> touch, the invariant of a helper, the ownership of its
  descriptor and which sensor it may select.
\<close>

section \<open>What the helper touches\<close>

text \<open>
  Every operation only moves the clock and the system call counter forward, counts metrics and
  opens or closes descriptors; \<open>sys_step\<close> leaves the descriptors alone.
\<close>

definition env_step :: "'a sproc_scheme \<Rightarrow> 'a sproc_scheme \<Rightarrow> bool" where
  "env_step s s' \<longleftrightarrow> (\<exists>t m c n f. steady_now s \<le> t \<and> sys_calls s \<le> n \<and>
     s' = s\<lparr>steady_now := t, metrics := m, clock_results := c, sys_calls := n, fd_table := f\<rparr>)"

definition sys_step :: "'a sproc_scheme \<Rightarrow> 'a sproc_scheme \<Rightarrow> bool" where
  "sys_step s s' \<longleftrightarrow> env_step s s' \<and> fd_table s' = fd_table s"

lemma env_stepI:
  "steady_now s \<le> t \<Longrightarrow> sys_calls s \<le> n \<Longrightarrow>
   env_step s (s\<lparr>steady_now := t, metrics := m, clock_results := c, sys_calls := n, fd_table := f\<rparr>)"
  unfolding env_step_def by blast

lemma env_step_refl [simp]: "env_step s s"
  using env_stepI [where s = s and t = "steady_now s" and n = "sys_calls s" and m = "metrics s" and c = "clock_results s" and f = "fd_table s"] by simp

lemma env_step_trans [trans]:
  assumes "env_step s t" "env_step t u"
  shows "env_step s u"
proof -
  obtain a m c n f where t: "t = s\<lparr>steady_now := a, metrics := m, clock_results := c, sys_calls := n, fd_table := f\<rparr>"
    and le: "steady_now s \<le> a" "sys_calls s \<le> n" using assms(1) unfolding env_step_def by blast
  obtain b m' c' n' f' where u: "u = t\<lparr>steady_now := b, metrics := m', clock_results := c', sys_calls := n', fd_table := f'\<rparr>"
    and le': "steady_now t \<le> b" "sys_calls t \<le> n'" using assms(2) unfolding env_step_def by blast
  have "u = s\<lparr>steady_now := b, metrics := m', clock_results := c', sys_calls := n', fd_table := f'\<rparr>"
    unfolding u t by simp
  then show ?thesis using le le' env_stepI [where s = s and t = b and n = n'] unfolding t by simp
qed

lemma sys_step_refl [simp]: "sys_step s s"
  by (simp add: sys_step_def)

lemma sys_step_trans [trans]: "sys_step s t \<Longrightarrow> sys_step t u \<Longrightarrow> sys_step s u"
  unfolding sys_step_def using env_step_trans by auto

lemma sys_env [intro]: "sys_step s t \<Longrightarrow> env_step s t"
  by (simp add: sys_step_def)

lemma tick_step [simp]: "sys_step s (sys_tick s)"
  using env_stepI [where s = s and t = "steady_now s" and n = "Suc (sys_calls s)" and m = "metrics s" and c = "clock_results s" and f = "fd_table s"]
  by (simp add: sys_step_def sys_tick_def)

lemma metric_step [simp]: "sys_step s (count_metric i s)"
  using env_stepI [where s = s and t = "steady_now s" and n = "sys_calls s" and c = "clock_results s" and f = "fd_table s"]
  by (simp add: sys_step_def count_metric_def)

lemma clock_step:
  assumes "clock_gettime s = (r, s')"
  shows "sys_step s s'"
proof -
  obtain a rest where "next_of (Some 0) (clock_results s) = (a, rest)" by fastforce
  then show ?thesis
    using assms env_stepI [where s = s and n = "sys_calls s" and m = "metrics s" and f = "fd_table s" and c = rest]
      env_stepI [where s = s and n = "sys_calls s" and m = "metrics s" and f = "fd_table s" and c = rest and t = "steady_now s"]
    by (cases a) (auto simp: clock_gettime_def sys_step_def Let_def)
qed

text \<open>The operations on the file system.\<close>

lemma seconds_step: "tsd_now_seconds s = (r, s') \<Longrightarrow> sys_step s s'"
  by (auto simp: tsd_now_seconds_def split: prod.splits option.splits dest: clock_step)

lemma schedule_step: "schedule_retry b s = (r, s') \<Longrightarrow> sys_step s s'"
  by (auto simp: schedule_retry_def Let_def split: prod.splits dest: seconds_step)

lemma text_step: "read_text_from_path path n s = (r, s') \<Longrightarrow> sys_step s s'"
  by (auto simp: read_text_from_path_def read_file_def split: if_splits prod.splits option.splits)

lemma long_step: "read_long_from_path path s = (r, s') \<Longrightarrow> sys_step s s'"
  by (auto simp: read_long_from_path_def split: if_splits prod.splits option.splits dest: text_step)

lemma package_step: "physical_package_id cpu s = (r, s') \<Longrightarrow> sys_step s s'"
  by (auto simp: physical_package_id_def split: prod.splits option.splits dest: long_step)

lemma packages_step: "collect_packages entries ps s = (r, s') \<Longrightarrow> sys_step s s'"
proof (induction entries arbitrary: ps s)
  case (Cons d_name entries)
  show ?case
  proof (cases "cpu_entry d_name")
    case (Some cpu)
    obtain k s1 where k: "physical_package_id cpu s = (k, s1)" by fastforce
    have "sys_step s1 s'" using Cons Some k by (auto simp: Let_def split: if_splits)
    with package_step [OF k] show ?thesis by (rule sys_step_trans)
  qed (use Cons in auto)
qed simp

lemma package_count_step: "physical_package_count s = (r, s') \<Longrightarrow> sys_step s s'"
  by (auto simp: physical_package_count_def read_dir_def split: option.splits prod.splits
      dest!: packages_step intro: sys_step_trans [OF tick_step])

section \<open>Which sensor may be selected\<close>

text \<open>
  \<open>sensor_label\<close>: at some system call, the file that labels the sensor at \<open>path\<close> read as \<open>label\<close>. It
  only depends on what the operating system shows.
\<close>

definition shown_label :: "'a sproc_scheme \<Rightarrow> string \<Rightarrow> string \<Rightarrow> bool" where
  "shown_label s file label \<longleftrightarrow> (\<exists>n text line. sys_file s n file = Some text \<and> fgets 128 text = Some line \<and>
     label = lowercase_ascii (strip_trailing line))"

definition sensor_label :: "'a sproc_scheme \<Rightarrow> string \<Rightarrow> string \<Rightarrow> bool" where
  "sensor_label s path label \<longleftrightarrow>
     (\<exists>d. path = ''/sys/class/thermal/'' @ d @ ''/temp'' \<and> shown_label s (''/sys/class/thermal/'' @ d @ ''/type'') label) \<or>
     (\<exists>base d k. path = base @ ''/'' @ d \<and> parse_hwmon_temp_input d = Some k \<and>
        shown_label s (base @ ''/temp'' @ dec_nat k @ ''_label'') label)"

lemma env_oracle:
  assumes "env_step s s'"
  shows "sys_file s' = sys_file s" "sys_dir s' = sys_dir s" "sys_access s' = sys_access s"
    "sys_open s' = sys_open s" "sys_msr s' = sys_msr s"
  using assms by (auto simp: env_step_def)

lemma sensor_label_env: "env_step s s' \<Longrightarrow> sensor_label s' path label = sensor_label s path label"
  by (simp add: sensor_label_def shown_label_def env_oracle)

text \<open>The names a directory shows are short, as they are in these directories.\<close>

definition short_names :: "'a sproc_scheme \<Rightarrow> bool" where
  "short_names s \<longleftrightarrow> (\<forall>n dir entries d. sys_dir s n dir = Some entries \<longrightarrow> d \<in> set entries \<longrightarrow> length d \<le> 100)"

text \<open>A candidate that counts as explicit is labelled with the package.\<close>

definition best_ok :: "'a sproc_scheme \<Rightarrow> int \<Rightarrow> temp_candidate_state_t \<Rightarrow> bool" where
  "best_ok s pkg best \<longleftrightarrow> length (best_path best) < 256 \<and>
     (best_explicit_match best \<longrightarrow> (\<exists>label. sensor_label s (best_path best) label \<and> label_mentions_package label pkg))"

lemma best_ok_env: "env_step s s' \<Longrightarrow> best_ok s' pkg best = best_ok s pkg best"
  by (simp add: best_ok_def sensor_label_env)

lemma consider_ok:
  assumes "consider_temp_candidate path score e best s = (best', s')" "length path < 256" "best_ok s pkg best"
    and "e \<Longrightarrow> \<exists>label. sensor_label s path label \<and> label_mentions_package label pkg"
  shows "sys_step s s'" "best_ok s pkg best'"
  using assms
  by (auto simp: consider_temp_candidate_def access_ok_def copy_path_def best_ok_def Let_def
      split: if_splits option.splits prod.splits dest!: long_step intro: sys_step_trans [OF tick_step])

lemma text_shown:
  "read_text_from_path path 128 s = (Some text, s') \<Longrightarrow> shown_label s path (lowercase_ascii text)"
  by (auto simp: read_text_from_path_def read_file_def shown_label_def split: option.splits)

text \<open>One step of a scan: what it does to state and candidate.\<close>

definition scan_fine :: "'a sproc_scheme \<Rightarrow> int \<Rightarrow> temp_candidate_state_t \<times> 'a sproc_scheme \<Rightarrow> bool" where
  "scan_fine s pkg r \<longleftrightarrow> sys_step s (snd r) \<and> best_ok s pkg (fst r)"

lemma scan_fine_refl: "best_ok s pkg best \<Longrightarrow> scan_fine s pkg (best, s)"
  by (simp add: scan_fine_def)

lemma scan_fine_trans:
  "sys_step s s1 \<Longrightarrow> scan_fine s1 pkg r \<Longrightarrow> scan_fine s pkg r"
  by (auto simp: scan_fine_def best_ok_env [OF sys_env] intro: sys_step_trans)

lemma zone_candidate:
  assumes "length d \<le> 100" "best_ok s pkg best" "shown_label s (''/sys/class/thermal/'' @ d @ ''/type'') label"
  shows "scan_fine s pkg (consider_temp_candidate (''/sys/class/thermal/'' @ d @ ''/temp'') score
    (label_mentions_package label pkg) best s)"
proof -
  obtain b s' where r: "consider_temp_candidate (''/sys/class/thermal/'' @ d @ ''/temp'') score
    (label_mentions_package label pkg) best s = (b, s')" by fastforce
  have "sensor_label s (''/sys/class/thermal/'' @ d @ ''/temp'') label" using assms(3) unfolding sensor_label_def by blast
  then show ?thesis using consider_ok [OF r _ assms(2)] assms(1) unfolding r scan_fine_def by auto
qed

lemma scan_zones_fine:
  "\<forall>d \<in> set entries. length d \<le> 100 \<Longrightarrow> best_ok s pkg best \<Longrightarrow> scan_fine s pkg (scan_zones pkg entries best s)"
proof (induction entries arbitrary: best s)
  case (Cons d entries)
  let ?type = "''/sys/class/thermal/'' @ d @ ''/type''" and ?temp = "''/sys/class/thermal/'' @ d @ ''/temp''"
  have fits: "snprintf_fits 320 ?type = Some ?type" "snprintf_fits 320 ?temp = Some ?temp"
    using Cons.prems(1) by (simp_all add: snprintf_fits_def)
  have rest: "scan_fine s pkg (scan_zones pkg entries b s1)" if "sys_step s s1" "best_ok s1 pkg b" for b s1
    using scan_fine_trans [OF that(1) Cons.IH] Cons.prems(1) that(2) by simp
  show ?case
  proof (cases "strncmp_eq d ''thermal_zone'' 12")
    case False
    then show ?thesis using rest [of s best] Cons.prems(2) by simp
  next
    case zone: True
    obtain t s1 where t: "read_text_from_path ?type 128 s = (t, s1)" by fastforce
    note s1 = text_step [OF t]
    have b1: "best_ok s1 pkg best" using Cons.prems(2) best_ok_env [OF sys_env [OF s1]] by simp
    show ?thesis
    proof (cases t)
      case None
      then show ?thesis using zone t fits rest [OF s1 b1] by simp
    next
      case (Some content)
      have shown: "shown_label s1 ?type (lowercase_ascii content)"
        using text_shown t Some env_oracle [OF sys_env [OF s1]] by (simp add: shown_label_def)
      obtain b s2 where c: "consider_temp_candidate ?temp (temperature_candidate_score (Some (lowercase_ascii content))
          (Some (lowercase_ascii content)) pkg) (label_mentions_package (lowercase_ascii content) pkg) best s1 = (b, s2)"
        by fastforce
      have "sys_step s1 s2" "best_ok s1 pkg b"
        using zone_candidate [OF _ b1 shown] Cons.prems(1) c unfolding scan_fine_def by (metis fst_conv list.set_intros(1) snd_conv)+
      then have "scan_fine s pkg (scan_zones pkg entries b s2)"
        using rest [of s2 b] s1 sys_step_trans best_ok_env [OF sys_env] by blast
      then show ?thesis using zone t fits Some c rest [OF s1 b1] by (simp add: Let_def)
    qed
  qed
qed (simp add: scan_fine_refl)

lemma short_names_dir: "short_names s \<Longrightarrow> read_dir dir s = (Some entries, s') \<Longrightarrow> \<forall>d \<in> set entries. length d \<le> 100"
  by (auto simp: short_names_def read_dir_def)

lemma dir_step: "read_dir dir s = (r, s') \<Longrightarrow> sys_step s s'"
  by (auto simp: read_dir_def)

lemma short_names_env: "env_step s s' \<Longrightarrow> short_names s' = short_names s"
  by (simp add: short_names_def env_oracle)

lemma scan_thermal_zones_fine:
  assumes "short_names s" "best_ok s pkg best"
  shows "scan_fine s pkg (scan_thermal_zones pkg best s)"
proof -
  obtain r s1 where r: "read_dir ''/sys/class/thermal'' s = (r, s1)" by fastforce
  note s1 = dir_step [OF r]
  have "best_ok s1 pkg best" using assms(2) best_ok_env [OF sys_env [OF s1]] by simp
  then show ?thesis
    using r scan_fine_trans [OF s1 scan_fine_refl] scan_fine_trans [OF s1 scan_zones_fine] short_names_dir [OF assms(1)]
    by (cases r) (auto simp: scan_thermal_zones_def)
qed

lemma temp_index_bound: "parse_temp_index cursor v = Some k \<Longrightarrow> v \<le> 9999 \<Longrightarrow> k \<le> 9999"
  by (induction cursor v rule: parse_temp_index.induct) (auto simp: Let_def split: if_splits)

lemma dec_nat_short: "k \<le> 9999 \<Longrightarrow> length (dec_nat k) \<le> 4"
  by (subst dec_nat.simps, subst dec_nat.simps, subst dec_nat.simps, subst dec_nat.simps) auto

lemma hwmon_index: "parse_hwmon_temp_input d = Some k \<Longrightarrow> length (dec_nat k) \<le> 4"
  using temp_index_bound [of "drop 4 d" 0 k] dec_nat_short by (auto simp: parse_hwmon_temp_input_def Let_def split: if_splits)

lemma scan_inputs_fine:
  "\<forall>d \<in> set entries. length d \<le> 100 \<Longrightarrow> length base \<le> 120 \<Longrightarrow> best_ok s pkg best \<Longrightarrow>
   scan_fine s pkg (scan_hwmon_inputs pkg base dscore entries best s)"
proof (induction entries arbitrary: best s)
  case (Cons d entries)
  have rest: "scan_fine s pkg (scan_hwmon_inputs pkg base dscore entries b s1)" if "sys_step s s1" "best_ok s1 pkg b" for b s1
    using scan_fine_trans [OF that(1) Cons.IH] Cons.prems(1,2) that(2) by simp
  show ?case
  proof (cases "parse_hwmon_temp_input d")
    case None
    then show ?thesis using rest [of s best] Cons.prems(3) by simp
  next
    case (Some k)
    let ?input = "base @ ''/'' @ d" and ?file = "base @ ''/temp'' @ dec_nat k @ ''_label''"
    have fits: "snprintf_fits 384 ?input = Some ?input" "snprintf_fits 384 ?file = Some ?file"
      using Cons.prems(1,2) hwmon_index [OF Some] by (simp_all add: snprintf_fits_def)
    obtain t s1 where t: "read_text_from_path ?file 128 s = (t, s1)" by fastforce
    note s1 = text_step [OF t]
    have b1: "best_ok s1 pkg best" using Cons.prems(3) best_ok_env [OF sys_env [OF s1]] by simp
    define label where "label = (case t of None \<Rightarrow> [] | Some content \<Rightarrow> lowercase_ascii content)"
    obtain b s2 where c: "consider_temp_candidate ?input (dscore + temperature_candidate_score None (Some label) pkg)
        (label_mentions_package label pkg) best s1 = (b, s2)" by fastforce
    have "\<exists>l. sensor_label s1 ?input l \<and> label_mentions_package l pkg" if m: "label_mentions_package label pkg"
    proof (cases t)
      case None
      then have "\<not> label_mentions_package label pkg" by (simp add: label_def label_mentions_package_def)
      with m show ?thesis by simp
    next
      case (Some content)
      then have "shown_label s ?file label" using text_shown t by (simp add: label_def)
      then have "shown_label s1 ?file label" using env_oracle [OF sys_env [OF s1]] by (simp add: shown_label_def)
      then have "sensor_label s1 ?input label" using \<open>parse_hwmon_temp_input d = Some k\<close> unfolding sensor_label_def by blast
      with m show ?thesis by blast
    qed
    then have "sys_step s1 s2" "best_ok s1 pkg b" using consider_ok [OF c _ b1] Cons.prems(1,2) by simp_all
    then have "scan_fine s pkg (scan_hwmon_inputs pkg base dscore entries b s2)"
      using rest [of s2 b] s1 sys_step_trans best_ok_env [OF sys_env] by blast
    then show ?thesis using Some fits t c by (simp add: Let_def label_def [symmetric])
  qed
qed (simp add: scan_fine_refl)

lemma scan_chips_fine:
  "\<forall>d \<in> set chips. length d \<le> 100 \<Longrightarrow> short_names s \<Longrightarrow> best_ok s pkg best \<Longrightarrow>
   scan_fine s pkg (scan_hwmon_chips pkg chips best s)"
proof (induction chips arbitrary: best s)
  case (Cons d chips)
  have rest: "scan_fine s pkg (scan_hwmon_chips pkg chips b s1)" if "sys_step s s1" "best_ok s1 pkg b" for b s1
    using scan_fine_trans [OF that(1) Cons.IH] Cons.prems(1,2) that short_names_env [OF sys_env [OF that(1)]] by simp
  show ?case
  proof (cases "strncmp_eq d ''hwmon'' 5")
    case False
    then show ?thesis using rest [of s best] Cons.prems(3) by simp
  next
    case chip: True
    let ?base = "''/sys/class/hwmon/'' @ d"
    have fits: "snprintf_fits 320 ?base = Some ?base" using Cons.prems(1) by (simp add: snprintf_fits_def)
    obtain t s1 where t: "read_text_from_path (take 383 (?base @ ''/name'')) 128 s = (t, s1)" by fastforce
    note s1 = text_step [OF t]
    have b1: "best_ok s1 pkg best" using Cons.prems(3) best_ok_env [OF sys_env [OF s1]] by simp
    obtain e s2 where e: "read_dir ?base s1 = (e, s2)" by fastforce
    note s2 = dir_step [OF e]
    have b2: "best_ok s2 pkg best" using b1 best_ok_env [OF sys_env [OF s2]] by simp
    note s12 = sys_step_trans [OF s1 s2]
    have inner: "scan_fine s pkg (case scan_hwmon_inputs pkg ?base ds es best s2 of (b, s3) \<Rightarrow> scan_hwmon_chips pkg chips b s3)"
      if "e = Some es" for es ds
    proof -
      have "short_names s1" using Cons.prems(2) short_names_env [OF sys_env [OF s1]] by simp
      then have f: "scan_fine s2 pkg (scan_hwmon_inputs pkg ?base ds es best s2)"
        using short_names_dir [of s1 ?base es s2] e that Cons.prems(1) b2 by (intro scan_inputs_fine) auto
      obtain b s3 where r: "scan_hwmon_inputs pkg ?base ds es best s2 = (b, s3)" by fastforce
      have "sys_step s2 s3" "best_ok s3 pkg b" using f best_ok_env [OF sys_env] unfolding r scan_fine_def by auto
      with rest [of s3 b] sys_step_trans [OF s12] show ?thesis unfolding r by simp
    qed
    show ?thesis
    proof (cases t)
      case None
      then show ?thesis using chip fits t rest [OF s1 b1] by simp
    next
      case (Some content)
      then show ?thesis
        using chip fits t e rest [OF s1 b1] rest [OF s12 b2] inner by (cases e) (auto simp: Let_def)
    qed
  qed
qed (simp add: scan_fine_refl)

lemma scan_hwmon_fine:
  assumes "short_names s" "best_ok s pkg best"
  shows "scan_fine s pkg (scan_hwmon pkg best s)"
proof -
  obtain r s1 where r: "read_dir ''/sys/class/hwmon'' s = (r, s1)" by fastforce
  note s1 = dir_step [OF r]
  have "best_ok s1 pkg best" "short_names s1"
    using assms best_ok_env [OF sys_env [OF s1]] short_names_env [OF sys_env [OF s1]] by simp_all
  then show ?thesis
    using r scan_fine_trans [OF s1 scan_fine_refl] scan_fine_trans [OF s1 scan_chips_fine] short_names_dir [OF assms(1)]
    by (cases r) (auto simp: scan_hwmon_def)
qed

section \<open>The scans only read\<close>

lemma consider_step: "consider_temp_candidate path score e best s = (r, s') \<Longrightarrow> sys_step s s'"
  by (auto simp: consider_temp_candidate_def access_ok_def Let_def split: if_splits option.splits prod.splits
      dest!: long_step intro: sys_step_trans [OF tick_step])

lemma scan_zones_step: "scan_zones pkg entries best s = (r, s') \<Longrightarrow> sys_step s s'"
proof (induction entries arbitrary: best s)
  case (Cons d entries)
  from Cons.prems show ?case
    by (auto simp: Let_def split: if_splits option.splits prod.splits dest!: text_step consider_step Cons.IH
        intro: sys_step_trans)
qed simp

lemma scan_inputs_step: "scan_hwmon_inputs pkg base ds entries best s = (r, s') \<Longrightarrow> sys_step s s'"
proof (induction entries arbitrary: best s)
  case (Cons d entries)
  from Cons.prems show ?case
    by (auto simp: Let_def split: if_splits option.splits prod.splits dest!: text_step consider_step Cons.IH
        intro: sys_step_trans)
qed simp

lemma scan_chips_step: "scan_hwmon_chips pkg chips best s = (r, s') \<Longrightarrow> sys_step s s'"
proof (induction chips arbitrary: best s)
  case (Cons d entries)
  from Cons.prems show ?case
    by (auto simp: Let_def split: if_splits option.splits prod.splits dest!: text_step dir_step scan_inputs_step Cons.IH
        intro: sys_step_trans)
qed simp

section \<open>Detection\<close>

lemma scans_step:
  "scan_thermal_zones pkg best s = (r, s') \<Longrightarrow> sys_step s s'"
  "scan_hwmon pkg best s = (r, s') \<Longrightarrow> sys_step s s'"
  by (auto simp: scan_thermal_zones_def scan_hwmon_def split: option.splits prod.splits
      dest!: dir_step scan_zones_step scan_chips_step intro: sys_step_trans)

lemma detect_temp_shape:
  assumes "detect_temp_sensor h s = (found, h', s')"
  shows "sys_step s s'" "h' = h\<lparr>th_temp_available := found, th_temp_path := th_temp_path h'\<rparr>"
    "found \<Longrightarrow> th_temp_path h' \<noteq> []"
proof -
  obtain pkg s1 where p: "physical_package_id (th_cpu h) s = (pkg, s1)" by fastforce
  obtain b1 s2 where z: "scan_thermal_zones pkg \<lparr>best_path = [], best_score = - 1, best_explicit_match = False,
    best_ambiguous = False\<rparr> s1 = (b1, s2)" by fastforce
  obtain b2 s3 where w: "scan_hwmon pkg b1 s2 = (b2, s3)" by fastforce
  obtain n s4 where n: "physical_package_count s3 = (n, s4)" by fastforce
  have s3: "sys_step s s3" using package_step [OF p] scans_step(1) [OF z] scans_step(2) [OF w] by (blast intro: sys_step_trans)
  then have s4: "sys_step s s4" using package_count_step [OF n] by (rule sys_step_trans)
  define path where "path = take 255 (best_path b2)"
  have "(found, h', s') = (False, h\<lparr>th_temp_available := False, th_temp_path := []\<rparr>, s3) \<or>
    (found, h', s') = (False, h\<lparr>th_temp_available := False, th_temp_path := []\<rparr>, s4) \<or>
    best_path b2 \<noteq> [] \<and> (found, h', s') = (length (best_path b2) < 256,
      h\<lparr>th_temp_available := length (best_path b2) < 256, th_temp_path := path\<rparr>, s4)"
    using assms p z w n unfolding path_def by (simp add: detect_temp_sensor_def copy_path_def Let_def split: if_split_asm) blast+
  then show "sys_step s s'" "h' = h\<lparr>th_temp_available := found, th_temp_path := th_temp_path h'\<rparr>"
    "found \<Longrightarrow> th_temp_path h' \<noteq> []"
    using s3 s4 by (auto simp: path_def)
qed

text \<open>On a host with several packages the selected sensor is labelled with the package of the processor.\<close>

lemma detect_temp_labelled:
  assumes "detect_temp_sensor h s = (True, h', s')" "short_names s"
  obtains pkg s1 n s3 where "physical_package_id (th_cpu h) s = (pkg, s1)" "physical_package_count s3 = (n, s')"
    "sys_step s s3"
    "1 < n \<longrightarrow> (\<exists>label. sensor_label s (th_temp_path h') label \<and> label_mentions_package label pkg)"
proof -
  obtain pkg s1 where p: "physical_package_id (th_cpu h) s = (pkg, s1)" by fastforce
  let ?b = "\<lparr>best_path = [], best_score = - 1, best_explicit_match = False, best_ambiguous = False\<rparr>"
  obtain b1 s2 where z: "scan_thermal_zones pkg ?b s1 = (b1, s2)" by fastforce
  obtain b2 s3 where w: "scan_hwmon pkg b1 s2 = (b2, s3)" by fastforce
  obtain n s4 where n: "physical_package_count s3 = (n, s4)" by fastforce
  note s1 = package_step [OF p] and s2 = scans_step(1) [OF z] and s3 = scans_step(2) [OF w]
  note s02 = sys_step_trans [OF s1 s2]
  have "best_ok s1 pkg ?b" by (simp add: best_ok_def)
  then have "best_ok s2 pkg b1"
    using scan_thermal_zones_fine [of s1 pkg ?b] short_names_env [OF sys_env [OF s1]] assms(2) best_ok_env [OF sys_env [OF s2]]
    unfolding z scan_fine_def by simp
  then have "best_ok s2 pkg b2"
    using scan_hwmon_fine [of s2 pkg b1] short_names_env [OF sys_env [OF s02]] assms(2) unfolding w scan_fine_def by simp
  then have ok: "best_ok s pkg b2" using best_ok_env [OF sys_env [OF s02]] by simp
  then have fits: "length (best_path b2) < 256" by (simp add: best_ok_def)
  have h': "th_temp_path h' = best_path b2" "s' = s4" "1 < n \<longrightarrow> best_explicit_match b2"
    using assms(1) p z w n fits by (auto simp: detect_temp_sensor_def copy_path_def Let_def split: if_splits)
  then show ?thesis using that [OF p _ sys_step_trans [OF s02 s3]] n ok by (auto simp: best_ok_def)
qed

lemma strtol10_range: "strtol10 str = (v, e, r) \<Longrightarrow> LONG_MIN \<le> v \<and> v \<le> LONG_MAX"
  by (auto simp: strtol10_def LONG_MIN_def LONG_MAX_def Let_def split: if_splits prod.splits)

lemma long_range: "read_long_from_path path s = (Some v, s') \<Longrightarrow> LONG_MIN \<le> v \<and> v \<le> LONG_MAX"
  by (auto simp: read_long_from_path_def split: if_splits prod.splits option.splits dest: strtol10_range)

lemma max_khz_step:
  assumes "read_max_khz cpu file s = (r, s')"
  shows "sys_step s s'" "r = Some khz \<Longrightarrow> (of_int khz :: u64) \<noteq> 0"
proof -
  show "sys_step s s'"
    using assms by (auto simp: read_max_khz_def split: option.splits prod.splits if_splits dest: long_step)
  assume "r = Some khz"
  then obtain path s1 where "read_long_from_path path s = (Some khz, s1)" "0 < khz"
    using assms by (auto simp: read_max_khz_def split: option.splits prod.splits if_splits)
  with long_range [of path s khz s1] have k: "0 < khz" "khz < 2 ^ 64" by (auto simp: LONG_MAX_def)
  then have "uint (of_int khz :: u64) = khz" by (simp add: uint_word_of_int take_bit_int_eq_self)
  with k show "(of_int khz :: u64) \<noteq> 0" by auto
qed

lemma detect_cpufreq_shape:
  assumes "detect_cpufreq_paths h s = (found, h', s')"
  shows "sys_step s s'" "h' = h\<lparr>th_freq_sysfs_available := th_freq_sysfs_available h',
      th_freq_max_khz := th_freq_max_khz h', th_freq_cur_path := th_freq_cur_path h'\<rparr>"
    "th_freq_sysfs_available h' = found" "found \<Longrightarrow> th_freq_cur_path h' \<noteq> [] \<and> th_freq_max_khz h' \<noteq> 0"
proof -
  have "sys_step s s' \<and> h' = h\<lparr>th_freq_sysfs_available := th_freq_sysfs_available h',
      th_freq_max_khz := th_freq_max_khz h', th_freq_cur_path := th_freq_cur_path h'\<rparr> \<and>
      th_freq_sysfs_available h' = found \<and> (found \<longrightarrow> th_freq_cur_path h' \<noteq> [] \<and> th_freq_max_khz h' \<noteq> 0)"
  proof (cases "cpufreq_path (th_cpu h) ''scaling_cur_freq''")
    case None
    then show ?thesis using assms by (auto simp: detect_cpufreq_paths_def)
  next
    case (Some path)
    then have path: "path \<noteq> []" "length path < 256" by (auto simp: cpufreq_path_def snprintf_fits_def split: if_splits)
    obtain a s1 where a: "access_ok path s = (a, s1)" by fastforce
    obtain m s2 where m: "read_max_khz (th_cpu h) ''scaling_max_freq'' s1 = (m, s2)" by fastforce
    obtain m' s3 where m': "read_max_khz (th_cpu h) ''cpuinfo_max_freq'' s2 = (m', s3)" by fastforce
    have s1: "sys_step s s1" using a by (auto simp: access_ok_def)
    have s2: "sys_step s s2" using s1 max_khz_step(1) [OF m] by (rule sys_step_trans)
    have s3: "sys_step s s3" using s2 max_khz_step(1) [OF m'] by (rule sys_step_trans)
    show ?thesis using assms Some path a m m' s1 s2 s3 max_khz_step(2) [OF m] max_khz_step(2) [OF m']
      by (auto simp: detect_cpufreq_paths_def copy_path_def Let_def split: if_splits option.splits)
  qed
  then show "sys_step s s'" "h' = h\<lparr>th_freq_sysfs_available := th_freq_sysfs_available h',
      th_freq_max_khz := th_freq_max_khz h', th_freq_cur_path := th_freq_cur_path h'\<rparr>"
    "th_freq_sysfs_available h' = found" "found \<Longrightarrow> th_freq_cur_path h' \<noteq> [] \<and> th_freq_max_khz h' \<noteq> 0" by blast+
qed

section \<open>The invariant of a helper\<close>

definition helper_wf :: "tsd_telemetry_helper_t \<Rightarrow> bool" where
  "helper_wf h \<longleftrightarrow> (th_temp_available h \<longrightarrow> th_temp_path h \<noteq> []) \<and>
     (th_freq_sysfs_available h \<longrightarrow> th_freq_cur_path h \<noteq> [] \<and> th_freq_max_khz h \<noteq> 0) \<and>
     (th_msr_available h = (th_msr_fd h \<ge> 0)) \<and>
     th_temp_backoff_seconds h \<in> {5..600} \<and> th_freq_backoff_seconds h \<in> {5..600} \<and>
     th_msr_backoff_seconds h \<in> {5..600}"

lemma schedule_bounds:
  "schedule_retry b s = (r, s') \<Longrightarrow> b \<in> {5..600} \<Longrightarrow> snd r \<in> {5..600}"
  by (auto simp: schedule_retry_def Let_def split: prod.splits if_splits)

text \<open>The part of a helper each source owns.\<close>

definition msr_same :: "tsd_telemetry_helper_t \<Rightarrow> tsd_telemetry_helper_t \<Rightarrow> bool" where
  "msr_same h h' \<longleftrightarrow> th_msr_fd h' = th_msr_fd h \<and> th_msr_available h' = th_msr_available h \<and>
     th_msr_backoff_seconds h' = th_msr_backoff_seconds h"

definition temp_same :: "tsd_telemetry_helper_t \<Rightarrow> tsd_telemetry_helper_t \<Rightarrow> bool" where
  "temp_same h h' \<longleftrightarrow> th_temp_available h' = th_temp_available h \<and> th_temp_path h' = th_temp_path h"

text \<open>A value read from a file, at a system call from now on.\<close>

definition fresh_value :: "'a sproc_scheme \<Rightarrow> string \<Rightarrow> int \<Rightarrow> bool" where
  "fresh_value s path v \<longleftrightarrow> (\<exists>n \<ge> sys_calls s. \<exists>content line. sys_file s n path = Some content \<and>
     fgets 64 content = Some line \<and> strtol10 (strip_trailing line) = (v, length (strip_trailing line), False))"

lemma env_calls: "env_step s s' \<Longrightarrow> sys_calls s \<le> sys_calls s'"
  by (auto simp: env_step_def)

lemma fresh_value_env: "env_step s s' \<Longrightarrow> fresh_value s' path v \<Longrightarrow> fresh_value s path v"
  unfolding fresh_value_def env_oracle(1) using env_calls [of s s'] order_trans by blast

lemma long_fresh: "read_long_from_path path s = (Some v, s') \<Longrightarrow> fresh_value s path v"
  by (auto simp: read_long_from_path_def read_text_from_path_def read_file_def fresh_value_def
      split: option.splits prod.splits if_splits)

lemma set_retry_wf:
  assumes "helper_wf h" "snd r \<in> {5..600}"
  shows "helper_wf (set_temp_retry r h)" "helper_wf (set_freq_retry r h)" "helper_wf (set_msr_retry r h)"
  using assms by (simp_all add: helper_wf_def set_temp_retry_def set_freq_retry_def set_msr_retry_def)

lemma reset_retry_range: "snd reset_retry \<in> {5..600}"
  by (simp add: reset_retry_def)

lemma msr_same_set [simp]:
  "msr_same h (set_temp_retry r h1) = msr_same h h1" "msr_same h (set_freq_retry r h1) = msr_same h h1" "msr_same h h"
  by (simp_all add: msr_same_def set_temp_retry_def set_freq_retry_def)

lemma temp_same_set [simp]:
  "temp_same h (set_freq_retry r h1) = temp_same h h1" "temp_same h (set_msr_retry r h1) = temp_same h h1" "temp_same h h"
  by (simp_all add: temp_same_def set_freq_retry_def set_msr_retry_def)

lemma recover_temperature_wf:
  assumes "recover_temperature h s = (h', s')" "helper_wf h"
  shows "sys_step s s'" "helper_wf h'" "msr_same h h'"
proof -
  obtain now s1 where now: "tsd_now_seconds s = (now, s1)" by fastforce
  obtain found h1 s2 where d: "detect_temp_sensor h s1 = (found, h1, s2)" by (metis prod_cases3)
  obtain r s3 where r: "schedule_retry (th_temp_backoff_seconds h1) s2 = (r, s3)" by fastforce
  note s1 = seconds_step [OF now] and sh = detect_temp_shape [OF d] and s3 = schedule_step [OF r]
  have b: "th_temp_backoff_seconds h1 = th_temp_backoff_seconds h" by (subst sh(2)) simp
  have bounds: "snd r \<in> {5..600}" using schedule_bounds [OF r] b assms(2) by (simp add: helper_wf_def)
  have s13: "sys_step s s2" "sys_step s s3" using s1 sh(1) s3 by (blast intro: sys_step_trans)+
  have wf1: "helper_wf h1" using assms(2) sh(3) by (subst sh(2), simp add: helper_wf_def)
  have same1: "msr_same h h1" by (subst sh(2), simp add: msr_same_def)
  have "(h', s') = (h, s1) \<or> (h', s') = (set_temp_retry reset_retry h1, count_metric TSD_METRIC_TELEMETRY_TEMP_RECOVERIES s2) \<or>
    (h', s') = (set_temp_retry r h1, s3)"
    using assms(1) now d r by (cases found) (simp_all add: recover_temperature_def split: if_split_asm)
  then consider "h' = h" "s' = s1" | "h' = set_temp_retry reset_retry h1" "s' = count_metric TSD_METRIC_TELEMETRY_TEMP_RECOVERIES s2"
    | "h' = set_temp_retry r h1" "s' = s3" by blast
  then have "sys_step s s' \<and> helper_wf h' \<and> msr_same h h'"
  proof cases
    case 1
    then show ?thesis using s1 assms(2) by simp
  next
    case 2
    then show ?thesis using sys_step_trans [OF s13(1) metric_step] set_retry_wf(1) [OF wf1 reset_retry_range] same1 by simp
  next
    case 3
    then show ?thesis using s13(2) set_retry_wf(1) [OF wf1 bounds] same1 by simp
  qed
  then show "sys_step s s'" "helper_wf h'" "msr_same h h'" by blast+
qed

lemma sample_temperature_wf:
  assumes "sample_temperature (h, out, s) = (h', out', s')" "helper_wf h"
  shows "sys_step s s'" "helper_wf h'" "msr_same h h'"
    "(out' = out \<and> \<not> th_temp_available h') \<or> (th_temp_available h' \<and>
       (\<exists>t. out' = out\<lparr>sm_temp_available := 1, sm_package_temp_millic := t\<rparr> \<and> - 50000 \<le> t \<and> t \<le> 150000 \<and>
            fresh_value s (th_temp_path h') t))"
proof -
  obtain h1 s1 where r: "(if \<not> th_temp_available h \<or> th_temp_path h = [] then recover_temperature h s else (h, s)) = (h1, s1)"
    by fastforce
  have h1: "sys_step s s1" "helper_wf h1" "msr_same h h1"
    using r recover_temperature_wf [of h s h1 s1] assms(2) by (simp_all split: if_split_asm)
  obtain v s2 where v: "read_long_from_path (th_temp_path h1) s1 = (v, s2)" by fastforce
  obtain q s3 where q: "schedule_retry (th_temp_backoff_seconds h1) (count_metric TSD_METRIC_TELEMETRY_TEMP_DROPS s2) = (q, s3)"
    by fastforce
  have s2: "sys_step s s2" using h1(1) long_step [OF v] by (rule sys_step_trans)
  have s3: "sys_step s s3" using s2 metric_step schedule_step [OF q] by (blast intro: sys_step_trans)
  have bounds: "snd q \<in> {5..600}" using schedule_bounds [OF q] h1(2) by (simp add: helper_wf_def)
  define h2 where "h2 = h1\<lparr>th_temp_available := False, th_temp_path := []\<rparr>"
  have h2: "helper_wf h2" using h1(2) by (simp add: h2_def helper_wf_def)
  have same2: "msr_same h h2" using h1(3) by (simp add: h2_def msr_same_def)
  have h3: "\<not> th_temp_available (set_temp_retry q h2)" by (simp add: h2_def set_temp_retry_def)
  consider (lost) "\<not> th_temp_available h1" "(h', out', s') = (h1, out, s1)"
    | (got) t where "th_temp_available h1" "v = Some t" "- 50000 \<le> t" "t \<le> 150000"
        "(h', out', s') = (h1, out\<lparr>sm_temp_available := 1, sm_package_temp_millic := t\<rparr>, s2)"
    | (drop) "th_temp_available h1" "(h', out', s') = (set_temp_retry q h2, out, s3)"
    using assms(1) r v q by (cases v) (auto simp: sample_temperature_def h2_def split: if_split_asm)
  then have "sys_step s s' \<and> helper_wf h' \<and> msr_same h h' \<and>
    ((out' = out \<and> \<not> th_temp_available h') \<or> (th_temp_available h' \<and>
       (\<exists>t. out' = out\<lparr>sm_temp_available := 1, sm_package_temp_millic := t\<rparr> \<and> - 50000 \<le> t \<and> t \<le> 150000 \<and>
            fresh_value s (th_temp_path h') t)))"
  proof cases
    case lost
    then show ?thesis using h1 by simp
  next
    case got
    have "fresh_value s (th_temp_path h1) t" using fresh_value_env [OF sys_env [OF h1(1)] long_fresh] v got(2) by simp
    then show ?thesis using got h1 s2 by auto
  next
    case drop
    then show ?thesis using same2 h3 s3 set_retry_wf(1) [OF h2 bounds] by simp
  qed
  then show "sys_step s s'" "helper_wf h'" "msr_same h h'"
    "(out' = out \<and> \<not> th_temp_available h') \<or> (th_temp_available h' \<and>
       (\<exists>t. out' = out\<lparr>sm_temp_available := 1, sm_package_temp_millic := t\<rparr> \<and> - 50000 \<le> t \<and> t \<le> 150000 \<and>
            fresh_value s (th_temp_path h') t))" by blast+
qed

lemma recover_cpufreq_wf:
  assumes "recover_cpufreq h s = (h', s')" "helper_wf h"
  shows "sys_step s s'" "helper_wf h'" "msr_same h h'" "temp_same h h'"
proof -
  obtain now s1 where now: "tsd_now_seconds s = (now, s1)" by fastforce
  obtain found h1 s2 where d: "detect_cpufreq_paths h s1 = (found, h1, s2)" by (metis prod_cases3)
  obtain r s3 where r: "schedule_retry (th_freq_backoff_seconds h1) s2 = (r, s3)" by fastforce
  note s1 = seconds_step [OF now] and sh = detect_cpufreq_shape [OF d] and s3 = schedule_step [OF r]
  have b: "th_freq_backoff_seconds h1 = th_freq_backoff_seconds h" by (subst sh(2)) simp
  have bounds: "snd r \<in> {5..600}" using schedule_bounds [OF r] b assms(2) by (simp add: helper_wf_def)
  have s13: "sys_step s s2" "sys_step s s3" using s1 sh(1) s3 by (blast intro: sys_step_trans)+
  have wf1: "helper_wf h1" using assms(2) sh(3,4) by (subst sh(2), simp add: helper_wf_def)
  have same1: "msr_same h h1" by (subst sh(2), simp add: msr_same_def)
  have same2: "temp_same h h1" by (subst sh(2), simp add: temp_same_def)
  have "(h', s') = (h, s1) \<or> (h', s') = (set_freq_retry reset_retry h1, count_metric TSD_METRIC_TELEMETRY_FREQ_RECOVERIES s2) \<or>
    (h', s') = (set_freq_retry r h1, s3)"
    using assms(1) now d r by (cases found) (simp_all add: recover_cpufreq_def split: if_split_asm)
  then consider "h' = h" "s' = s1" | "h' = set_freq_retry reset_retry h1" "s' = count_metric TSD_METRIC_TELEMETRY_FREQ_RECOVERIES s2"
    | "h' = set_freq_retry r h1" "s' = s3" by blast
  then have "sys_step s s' \<and> helper_wf h' \<and> msr_same h h' \<and> temp_same h h'"
  proof cases
    case 1
    then show ?thesis using s1 assms(2) by simp
  next
    case 2
    then show ?thesis
      using sys_step_trans [OF s13(1) metric_step] set_retry_wf(2) [OF wf1 reset_retry_range] same1 same2 by simp
  next
    case 3
    then show ?thesis using s13(2) set_retry_wf(2) [OF wf1 bounds] same1 same2 by simp
  qed
  then show "sys_step s s'" "helper_wf h'" "msr_same h h'" "temp_same h h'" by blast+
qed

lemma sample_cpufreq_wf:
  assumes "sample_cpufreq_ratio (h, out, s) = (h', out', s')" "helper_wf h"
  shows "sys_step s s'" "helper_wf h'" "msr_same h h'" "temp_same h h'"
    "out' = out \<or> (\<exists>n d. d \<noteq> 0 \<and> out' = store_ratio n d out)"
proof -
  obtain h1 s1 where r: "(if \<not> th_freq_sysfs_available h \<or> th_freq_cur_path h = [] \<or> th_freq_max_khz h = 0
      then recover_cpufreq h s else (h, s)) = (h1, s1)" by fastforce
  have h1: "sys_step s s1" "helper_wf h1" "msr_same h h1" "temp_same h h1"
    using r recover_cpufreq_wf [of h s h1 s1] assms(2) by (simp_all split: if_split_asm)
  obtain v s2 where v: "read_long_from_path (th_freq_cur_path h1) s1 = (v, s2)" by fastforce
  obtain q s3 where q: "schedule_retry (th_freq_backoff_seconds h1) (count_metric TSD_METRIC_TELEMETRY_FREQ_DROPS s2) = (q, s3)"
    by fastforce
  have s2: "sys_step s s2" using h1(1) long_step [OF v] by (rule sys_step_trans)
  have s3: "sys_step s s3" using s2 metric_step schedule_step [OF q] by (blast intro: sys_step_trans)
  have bounds: "snd q \<in> {5..600}" using schedule_bounds [OF q] h1(2) by (simp add: helper_wf_def)
  define h2 where "h2 = h1\<lparr>th_freq_sysfs_available := False, th_freq_cur_path := []\<rparr>"
  have h2: "helper_wf h2" using h1(2) by (simp add: h2_def helper_wf_def)
  have same2: "msr_same h h2" "temp_same h h2" using h1(3,4) by (simp_all add: h2_def msr_same_def temp_same_def)
  consider (lost) "(h', out', s') = (h1, out, s1)"
    | (got) khz where "th_freq_sysfs_available h1" "(h', out', s') = (h1, store_ratio (nat khz) (unat (th_freq_max_khz h1)) out, s2)"
    | (drop) "(h', out', s') = (set_freq_retry q h2, out, s3)"
    using assms(1) r v q by (cases v) (auto simp: sample_cpufreq_ratio_def h2_def split: if_split_asm)
  then have "sys_step s s' \<and> helper_wf h' \<and> msr_same h h' \<and> temp_same h h' \<and>
    (out' = out \<or> (\<exists>n d. d \<noteq> 0 \<and> out' = store_ratio n d out))"
  proof cases
    case lost
    then show ?thesis using h1 by simp
  next
    case got
    then have "unat (th_freq_max_khz h1) \<noteq> 0" using h1(2) by (simp add: helper_wf_def unat_eq_0)
    then show ?thesis using got h1 s2 by auto
  next
    case drop
    then show ?thesis using same2 s3 set_retry_wf(2) [OF h2 bounds] by simp
  qed
  then show "sys_step s s'" "helper_wf h'" "msr_same h h'" "temp_same h h'"
    "out' = out \<or> (\<exists>n d. d \<noteq> 0 \<and> out' = store_ratio n d out)" by blast+
qed

section \<open>Ownership of the MSR descriptor\<close>

definition owns_msr :: "int multiset \<Rightarrow> tsd_telemetry_helper_t \<Rightarrow> 'a sproc_scheme \<Rightarrow> bool" where
  "owns_msr base h s \<longleftrightarrow> mset (fd_table s) = (if th_msr_fd h \<ge> 0 then add_mset (th_msr_fd h) base else base)"

lemma owns_msr_same:
  "sys_step s s' \<Longrightarrow> msr_same h h' \<Longrightarrow> owns_msr base h' s' = owns_msr base h s"
  by (simp add: owns_msr_def sys_step_def msr_same_def)

lemma fd_step [simp]: "env_step s (s\<lparr>fd_table := f\<rparr>)"
  using env_stepI [where s = s and t = "steady_now s" and n = "sys_calls s" and m = "metrics s" and c = "clock_results s"]
  by simp

lemma open_step:
  assumes "open_file path s = (fd, s')"
  shows "env_step s s'" "fd_table s' = (if fd \<ge> 0 then fd # fd_table s else fd_table s)"
proof -
  have "s' = (if fd \<ge> 0 then (sys_tick s)\<lparr>fd_table := fd # fd_table s\<rparr> else sys_tick s)"
    using assms by (auto simp: open_file_def Let_def sys_tick_def)
  moreover have "fd_table (sys_tick s) = fd_table s" by (simp add: sys_tick_def)
  ultimately show "env_step s s'" "fd_table s' = (if fd \<ge> 0 then fd # fd_table s else fd_table s)"
    using env_step_trans [OF sys_env [OF tick_step] fd_step] by auto
qed

lemma close_step: "env_step s (close_fd fd s)"
  by (simp add: close_fd_def)

lemma msr_lost_wf:
  assumes "helper_wf h" "snd q \<in> {5..600}"
  shows "helper_wf (set_msr_retry q (h\<lparr>th_msr_fd := - 1, th_msr_available := False\<rparr>))"
  using assms by (simp add: helper_wf_def set_msr_retry_def)

lemma reopen_msr_wf:
  assumes "reopen_msr e h s = (opened, h', s')" "helper_wf h" "th_msr_fd h < 0"
  shows "env_step s s'" "helper_wf h'" "temp_same h h'" "owns_msr base h s \<Longrightarrow> owns_msr base h' s'"
proof -
  let ?path = "''/dev/cpu/'' @ dec_int (th_cpu h) @ ''/msr''"
  obtain fd s1 where fd: "open_file ?path s = (fd, s1)" by fastforce
  obtain q s2 where q: "schedule_retry (th_msr_backoff_seconds h) s1 = (q, s2)" by fastforce
  note s1 = open_step [OF fd]
  have s2: "env_step s s2" "fd_table s2 = fd_table s1"
    using env_step_trans [OF s1(1) sys_env [OF schedule_step [OF q]]] schedule_step [OF q] by (simp_all add: sys_step_def)
  have bounds: "snd q \<in> {5..600}" using schedule_bounds [OF q] assms(2) by (simp add: helper_wf_def)
  define hn where "hn = set_msr_retry reset_retry (h\<lparr>th_msr_fd := fd, th_msr_available := True\<rparr>)"
  define ho where "ho = set_msr_retry q (h\<lparr>th_msr_fd := - 1, th_msr_available := False\<rparr>)"
  have hn: "th_msr_fd hn = fd" "temp_same h hn" "0 \<le> fd \<Longrightarrow> helper_wf hn"
    using assms(2) by (simp_all add: hn_def helper_wf_def temp_same_def set_msr_retry_def reset_retry_def)
  have ho: "th_msr_fd ho = - 1" "temp_same h ho" "helper_wf ho"
    using msr_lost_wf [OF assms(2) bounds] by (simp_all add: ho_def temp_same_def set_msr_retry_def)
  consider (none) "h' = h" "s' = s" | (opened) "0 \<le> fd" "h' = hn" "s' = s1 \<or> s' = count_metric TSD_METRIC_TELEMETRY_MSR_RECOVERIES s1"
    | (failed) "fd < 0" "h' = ho" "s' = s2"
    using assms(1) fd q by (auto simp: reopen_msr_def hn_def ho_def Let_def split: if_split_asm option.splits)
      (auto simp: snprintf_fits_def split: if_split_asm)
  then have "env_step s s' \<and> helper_wf h' \<and> temp_same h h' \<and> (owns_msr base h s \<longrightarrow> owns_msr base h' s')"
  proof cases
    case none
    then show ?thesis using assms(2) by simp
  next
    case opened
    have "fd_table s' = fd # fd_table s" "env_step s s'"
      using opened s1 env_step_trans [OF s1(1) sys_env [OF metric_step]] by (auto simp: count_metric_def)
    then show ?thesis using opened hn assms(3) by (simp add: owns_msr_def)
  next
    case failed
    then show ?thesis using ho s1 s2 assms(3) by (simp add: owns_msr_def)
  qed
  then show "env_step s s'" "helper_wf h'" "temp_same h h'" "owns_msr base h s \<Longrightarrow> owns_msr base h' s'" by blast+
qed

lemma msr_read_step: "read_msr64 fd off s = (r, s') \<Longrightarrow> sys_step s s'"
  by (auto simp: read_msr64_def split: if_splits)

lemma recover_msr_wf:
  assumes "recover_msr h s = (h', s')" "helper_wf h" "th_msr_fd h < 0"
  shows "env_step s s' \<and> helper_wf h' \<and> temp_same h h' \<and> (owns_msr base h s \<longrightarrow> owns_msr base h' s')"
proof -
  obtain now s0 where now: "tsd_now_seconds s = (now, s0)" by fastforce
  obtain o1 h1 s1 where o1: "reopen_msr True h s0 = (o1, h1, s1)" by (metis prod_cases3)
  note s0 = seconds_step [OF now] and w = reopen_msr_wf [OF o1 assms(2,3)]
  have own: "owns_msr base h s \<Longrightarrow> owns_msr base h s0" using owns_msr_same [OF s0, of h h] by simp
  have "(h', s') = (h1, s1) \<or> (h', s') = (h, s0)"
    using assms(1) now o1 by (simp add: recover_msr_def split: if_split_asm)
  then show ?thesis using w own s0 assms(2) env_step_trans [OF sys_env [OF s0] w(1)] by auto
qed

lemma sample_msr_wf:
  assumes "sample_msr_ratio (h, out, s) = (h', out', s')" "helper_wf h"
  shows "env_step s s'" "helper_wf h'" "temp_same h h'" "owns_msr base h s \<Longrightarrow> owns_msr base h' s'"
    "out' = out \<or> (\<exists>n d. d \<noteq> 0 \<and> out' = store_ratio n d out)"
proof -
  obtain h2 s2 where r: "(if \<not> th_msr_available h \<or> th_msr_fd h < 0 then recover_msr h s else (h, s)) = (h2, s2)"
    by fastforce
  have h2: "env_step s s2 \<and> helper_wf h2 \<and> temp_same h h2 \<and> (owns_msr base h s \<longrightarrow> owns_msr base h2 s2)"
  proof (cases "\<not> th_msr_available h \<or> th_msr_fd h < 0")
    case False
    then show ?thesis using r assms(2) by auto
  next
    case True
    then have "th_msr_fd h < 0" "recover_msr h s = (h2, s2)" using assms(2) r by (auto simp: helper_wf_def)
    then show ?thesis using recover_msr_wf assms(2) by blast
  qed
  obtain a s3 where a: "read_msr64 (th_msr_fd h2) 0xE8 s2 = (a, s3)" by fastforce
  obtain b s4 where b: "(if a = None then (None, s3) else read_msr64 (th_msr_fd h2) 0xE7 s3) = (b, s4)" by fastforce
  obtain q s5 where q: "schedule_retry (th_msr_backoff_seconds h2)
      (count_metric TSD_METRIC_TELEMETRY_MSR_DROPS (close_fd (th_msr_fd h2) s4)) = (q, s5)" by fastforce
  have s4: "sys_step s2 s4" using msr_read_step [OF a] b by (auto dest: msr_read_step intro: sys_step_trans split: if_split_asm)
  have t5: "fd_table s5 = remove1 (th_msr_fd h2) (fd_table s2)"
    using s4 schedule_step [OF q] by (simp add: sys_step_def count_metric_def close_fd_def)
  have s5: "env_step s2 s5"
    using sys_env [OF s4] close_step sys_env [OF metric_step] sys_env [OF schedule_step [OF q]] by (blast intro: env_step_trans)
  have bounds: "snd q \<in> {5..600}" using schedule_bounds [OF q] h2 by (simp add: helper_wf_def)
  define ho where "ho = set_msr_retry q (h2\<lparr>th_msr_fd := - 1, th_msr_available := False\<rparr>)"
  have ho: "th_msr_fd ho = - 1" "temp_same h2 ho" "helper_wf ho"
    using msr_lost_wf [of h2 q] h2 bounds by (simp_all add: ho_def temp_same_def set_msr_retry_def)
  have res: "(h', out', s') = (if \<not> th_msr_available h2 \<or> th_msr_fd h2 < 0 then (h2, out, s2)
      else (case (a, b) of
          (Some x, Some y) \<Rightarrow> (h2\<lparr>th_last_aperf := x, th_last_mperf := y\<rparr>,
            if th_last_mperf h2 \<noteq> 0 \<and> y > th_last_mperf h2 \<and> x \<ge> th_last_aperf h2
            then store_ratio (unat (x - th_last_aperf h2)) (unat (y - th_last_mperf h2)) out else out, s4)
        | _ \<Rightarrow> (ho, out, s5)))"
    using assms(1) unfolding sample_msr_ratio_def Let_def prod.case r a b q ho_def by simp
  consider (closed) "h' = h2" "s' = s2" "out' = out"
    | (got) x y where "h' = h2\<lparr>th_last_aperf := x, th_last_mperf := y\<rparr>" "s' = s4"
        "out' = (if th_last_mperf h2 \<noteq> 0 \<and> y > th_last_mperf h2 \<and> x \<ge> th_last_aperf h2
                 then store_ratio (unat (x - th_last_aperf h2)) (unat (y - th_last_mperf h2)) out else out)"
    | (drop) "0 \<le> th_msr_fd h2" "h' = ho" "s' = s5" "out' = out"
  proof (cases "\<not> th_msr_available h2 \<or> th_msr_fd h2 < 0")
    case True
    show ?thesis by (rule closed) (use res True in simp_all)
  next
    case False
    show ?thesis
    proof (cases "a = None \<or> b = None")
      case True
      then have "(h', out', s') = (ho, out, s5)" using res False by (auto split: option.splits)
      with False show ?thesis by (intro drop) simp_all
    next
      case False': False
      then obtain x y where "a = Some x" "b = Some y" by auto
      with res False show ?thesis by (intro got [of y x]) simp_all
    qed
  qed
  then have "env_step s s' \<and> helper_wf h' \<and> temp_same h h' \<and> (owns_msr base h s \<longrightarrow> owns_msr base h' s') \<and>
    (out' = out \<or> (\<exists>n d. d \<noteq> 0 \<and> out' = store_ratio n d out))"
  proof cases
    case closed
    then show ?thesis using h2 by simp
  next
    case got
    have "unat (y - th_last_mperf h2) \<noteq> 0" if "th_last_mperf h2 < y" using that by (simp add: unat_eq_0)
    moreover have "helper_wf h'" using h2 got(1) unfolding helper_wf_def by auto
    moreover have "temp_same h h'" using h2 got(1) unfolding temp_same_def by auto
    moreover have "msr_same h2 h'" using got(1) by (simp add: msr_same_def)
    moreover have "env_step s s'" using h2 s4 got(2) env_step_trans by blast
    moreover have "owns_msr base h s \<Longrightarrow> owns_msr base h' s'"
      using h2 owns_msr_same [OF s4 \<open>msr_same h2 h'\<close>] got(2) by simp
    ultimately show ?thesis using got(3) by (auto split: if_split_asm)
  next
    case drop
    have "owns_msr base h2 s2 \<Longrightarrow> owns_msr base ho s5" using drop(1) ho(1) t5 by (simp add: owns_msr_def)
    then show ?thesis using drop h2 ho s5 env_step_trans by (auto simp: temp_same_def)
  qed
  then show "env_step s s'" "helper_wf h'" "temp_same h h'" "owns_msr base h s \<Longrightarrow> owns_msr base h' s'"
    "out' = out \<or> (\<exists>n d. d \<noteq> 0 \<and> out' = store_ratio n d out)" by blast+
qed

lemma helper_sample_wf:
  assumes "tsd_telemetry_helper_sample h s = (r, h', out, s')" "helper_wf h"
  shows "env_step s s'" "helper_wf h'" "owns_msr base h s \<Longrightarrow> owns_msr base h' s'"
    "r = (sm_temp_available out \<noteq> 0 \<or> sm_freq_ratio_available out \<noteq> 0)"
    "sm_temp_available out = (if th_temp_available h' then 1 else 0)"
    "sm_temp_available out \<noteq> 0 \<Longrightarrow> fresh_value s (th_temp_path h') (sm_package_temp_millic out) \<and>
       - 50000 \<le> sm_package_temp_millic out \<and> sm_package_temp_millic out \<le> 150000"
    "sm_filtered_temp_available out = 0 \<and> sm_filtered_freq_ratio_available out = 0"
    "sm_freq_ratio_available out \<in> {0, 1}"
proof -
  obtain h1 o1 s1 where t: "sample_temperature (h, zero_sample, s) = (h1, o1, s1)" by (metis prod_cases3)
  obtain h2 o2 s2 where m: "sample_msr_ratio (h1, o1, s1) = (h2, o2, s2)" by (metis prod_cases3)
  obtain h3 o3 s3 where f: "sample_cpufreq_ratio (h2, o2, s2) = (h3, o3, s3)" by (metis prod_cases3)
  note wt = sample_temperature_wf [OF t assms(2)]
  note wm = sample_msr_wf [OF m wt(2)]
  note wf = sample_cpufreq_wf [OF f wm(2)]
  have res: "(sm_freq_ratio_available o2 = 0 \<and> (h', out, s') = (h3, o3, s3)) \<or> (sm_freq_ratio_available o2 \<noteq> 0 \<and> (h', out, s') = (h2, o2, s2))"
    and r: "r = (sm_temp_available out \<noteq> 0 \<or> sm_freq_ratio_available out \<noteq> 0)"
    using assms(1) t m f by (auto simp: tsd_telemetry_helper_sample_def split: if_split_asm)
  show "r = (sm_temp_available out \<noteq> 0 \<or> sm_freq_ratio_available out \<noteq> 0)" by (fact r)
  have e2: "env_step s s2" using sys_env [OF wt(1)] wm(1) by (rule env_step_trans)
  show "env_step s s'" using res e2 env_step_trans [OF e2 sys_env [OF wf(1)]] by auto
  show "helper_wf h'" using res wm(2) wf(2) by auto
  show "owns_msr base h s \<Longrightarrow> owns_msr base h' s'"
    using res owns_msr_same [OF wt(1,3)] wm(4) owns_msr_same [OF wf(1,3)] by auto
  have same: "temp_same h1 h'" using res wm(3) wf(4) by (auto simp: temp_same_def)
  have o: "sm_temp_available out = sm_temp_available o1" "sm_package_temp_millic out = sm_package_temp_millic o1"
    "sm_filtered_temp_available out = 0 \<and> sm_filtered_freq_ratio_available out = 0" "sm_freq_ratio_available out \<in> {0, 1}"
    using res wt(4) wm(5) wf(5) by (auto simp: store_ratio_def zero_sample_def)
  show "sm_temp_available out = (if th_temp_available h' then 1 else 0)"
    using o wt(4) same by (auto simp: zero_sample_def temp_same_def)
  show "fresh_value s (th_temp_path h') (sm_package_temp_millic out) \<and>
       - 50000 \<le> sm_package_temp_millic out \<and> sm_package_temp_millic out \<le> 150000" if "sm_temp_available out \<noteq> 0"
    using that o wt(4) same by (auto simp: zero_sample_def temp_same_def)
  show "sm_filtered_temp_available out = 0 \<and> sm_filtered_freq_ratio_available out = 0" "sm_freq_ratio_available out \<in> {0, 1}"
    using o(3,4) by blast+
qed

lemma helper_init_wf:
  assumes "tsd_telemetry_helper_init cpu h0 s = (Inr u, h, s')"
  shows "env_step s s'" "helper_wf h" "mset (fd_table s) = base \<Longrightarrow> owns_msr base h s'"
proof -
  define hi where "hi = set_msr_retry reset_retry (set_freq_retry reset_retry (set_temp_retry reset_retry
                     (zero_helper\<lparr>th_cpu := cpu, th_msr_fd := - 1\<rparr>)))"
  have hi: "helper_wf hi" "th_msr_fd hi = - 1"
    by (simp_all add: hi_def helper_wf_def zero_helper_def set_msr_retry_def set_freq_retry_def set_temp_retry_def reset_retry_def)
  obtain f1 h1 s1 where d: "detect_temp_sensor hi s = (f1, h1, s1)" by (metis prod_cases3)
  define h1' where "h1' = (if f1 then set_temp_retry reset_retry h1 else h1)"
  obtain f2 h2 s2 where c: "detect_cpufreq_paths h1' s1 = (f2, h2, s2)" by (metis prod_cases3)
  define h2' where "h2' = (if f2 then set_freq_retry reset_retry h2 else h2)"
  obtain o3 h3 s3 where m: "reopen_msr False h2' s2 = (o3, h3, s3)" by (metis prod_cases3)
  note sd = detect_temp_shape [OF d] and sc = detect_cpufreq_shape [OF c]
  have "helper_wf h1" using hi(1) sd(3) by (subst sd(2), simp add: helper_wf_def)
  then have h1: "helper_wf h1'" using set_retry_wf(1) [OF _ reset_retry_range] by (simp add: h1'_def)
  have "msr_same hi h1" by (subst sd(2), simp add: msr_same_def)
  then have m1: "msr_same hi h1'" by (simp add: h1'_def)
  have "helper_wf h2" using h1 sc(3,4) by (subst sc(2), simp add: helper_wf_def)
  then have h2: "helper_wf h2'" using set_retry_wf(2) [OF _ reset_retry_range] by (simp add: h2'_def)
  have "msr_same h1' h2" by (subst sc(2), simp add: msr_same_def)
  then have m2: "msr_same h1' h2'" by (simp add: h2'_def)
  have neg: "th_msr_fd h2' < 0" using m1 m2 hi(2) by (simp add: msr_same_def)
  note w = reopen_msr_wf [OF m h2 neg]
  have s12: "sys_step s s2" using sd(1) sc(1) by (rule sys_step_trans)
  have res: "h = h3" "s' = s3 \<or> s' = count_metric TSD_METRIC_TELEMETRY_MSR_DROPS s3"
    using assms d c m by (auto simp: tsd_telemetry_helper_init_def hi_def h1'_def h2'_def split: if_split_asm)
  show "helper_wf h" using w(2) res by simp
  have s3: "env_step s s3" using sys_env [OF s12] w(1) by (rule env_step_trans)
  then show "env_step s s'" using res env_step_trans [OF s3 sys_env [OF metric_step]] by auto
  assume "mset (fd_table s) = base"
  then have "owns_msr base h2' s2" using neg s12 by (simp add: owns_msr_def sys_step_def)
  then have "owns_msr base h3 s3" by (rule w(4))
  then show "owns_msr base h s'" using res by (auto simp: owns_msr_def count_metric_def)
qed

section \<open>A host with two packages\<close>

text \<open>
  The oracle of the example tells the few paths it shows apart by their lengths: the package number
  of a processor, and of each chip its name, the label and the value of its one sensor.
\<close>

definition example_files :: "string \<Rightarrow> string option" where
  "example_files path =
     (let n = length path
      in if n = 57 then Some [path ! 27]
         else if n = 28 then Some ''coretemp''
         else if n = 35 then
           (if path ! 30 = CHR ''l'' then Some (''Package id '' @ [path ! 22])
            else Some (if path ! 22 = CHR ''0'' then ''48'' else ''71''))
         else None)"

definition example_dirs :: "string \<Rightarrow> string list option" where
  "example_dirs path =
     (let n = length path
      in if n = 16 then Some [''hwmon0'', ''hwmon1'']
         else if n = 23 then Some (if path ! 5 = CHR ''d'' then [''cpu0'', ''cpu1''] else [''temp1_input''])
         else None)"

definition example_sproc :: sproc where
  "example_sproc = proc.extend (proc_init\<lparr>sandbox_complete := True, sandbox_success := True\<rparr>)
     (tproc_ext trampoline_state_init 0 0 0 0 0 0 0 False (- 1) 0 0 [0, 0, 0] [] False [] False (\<lambda>_. 0) []
       avx512_host (Inr 4096) [] [] [Inr 0x10000] [] []
       (dproc_ext 7 [] [] (sproc_ext [] 0 (\<lambda>_. example_files) (\<lambda>_. example_dirs) (\<lambda>_ _. True) (\<lambda>_ _. 9)
          (\<lambda>n _ _. Some (of_nat n)) [] ())))"

lemma example_oracle:
  "sys_dir example_sproc = (\<lambda>_. example_dirs)" "sys_file example_sproc = (\<lambda>_. example_files)"
  by (simp_all add: example_sproc_def proc.defs)

lemma example_names: "short_names example_sproc"
  by (auto simp: short_names_def example_oracle example_dirs_def Let_def split: if_splits)

text \<open>The label of one package may mention another: only the first digits are compared.\<close>

lemma other_package_mentioned: "label_mentions_package ''package id 10'' 1"
  by code_simp

section \<open>Properties\<close>

text \<open>The samples of a helper, one after the other.\<close>

primrec helper_samples :: "nat \<Rightarrow> tsd_telemetry_helper_t \<times> 'a sproc_scheme \<Rightarrow> tsd_telemetry_helper_t \<times> 'a sproc_scheme" where
  "helper_samples 0 st = st"
| "helper_samples (Suc n) st =
     (let (h, s) = helper_samples n st; (_, h, _, s) = tsd_telemetry_helper_sample h s in (h, s))"

lemma helper_samples_wf:
  "helper_samples n (h, s) = (h', s') \<Longrightarrow> helper_wf h \<Longrightarrow> owns_msr base h s \<Longrightarrow> helper_wf h' \<and> owns_msr base h' s'"
proof (induction n arbitrary: h' s')
  case (Suc n)
  obtain h1 s1 where r: "helper_samples n (h, s) = (h1, s1)" by fastforce
  have w1: "helper_wf h1" "owns_msr base h1 s1" using Suc.IH [OF r Suc.prems(2,3)] by simp_all
  obtain k h2 out s2 where q: "tsd_telemetry_helper_sample h1 s1 = (k, h2, out, s2)" by (metis prod_cases4)
  have "h' = h2" "s' = s2" using Suc.prems(1) r q by simp_all
  then show ?case using helper_sample_wf(2,3) [OF q w1(1)] w1(2) by simp
qed simp





end
