(* ===== verification/Telemetry_Fusion.thy ===== *)
theory Telemetry_Fusion
  imports Guarded_Updates "HOL-Library.AList"
begin

text \<open>
  The fusion engine of \<^verbatim>\<open>src/telemetry\<close>: the bus (\<^verbatim>\<open>bus.cpp\<close>), the periodic collectors
  (\<^verbatim>\<open>collector.cpp\<close>) and one iteration of the worker (\<^verbatim>\<open>fusion.cpp\<close>) with its ring of snapshots.
  Times are nanoseconds of the steady clock, 0 being the default-constructed time point.
\<close>

definition c_bool :: "bool \<Rightarrow> int" where
  "c_bool b = (if b then 1 else 0)"

section \<open>Bus\<close>

datatype TelemetrySignal = kPackageTempC | kFrequencyRatio | kThermalCpi | kPowerBudgetWatts

record TelemetryReading =
  tr_value :: dbl
  tr_valid :: bool
  tr_quality :: int
  tr_timestamp :: int
  tr_source :: string

definition default_reading :: TelemetryReading where
  "default_reading = \<lparr>tr_value = Fin 0, tr_valid = False, tr_quality = 0, tr_timestamp = 0, tr_source = []\<rparr>"

text \<open>
  Per signal the slots of the sources. The iteration order of the \<^verbatim>\<open>unordered_map\<close> is unspecified; the
  list has one order, and nothing shown here depends on it.
\<close>

type_synonym telemetry_bus = "TelemetrySignal \<Rightarrow> (string \<times> TelemetryReading) list"

definition empty_bus :: telemetry_bus where
  "empty_bus = (\<lambda>_. [])"

definition bus_publish :: "TelemetrySignal \<Rightarrow> TelemetryReading \<Rightarrow> telemetry_bus \<Rightarrow> telemetry_bus" where
  "bus_publish sig reading bus =
     (let key = (if tr_source reading = [] then ''default'' else tr_source reading);
          slot = (case map_of (bus sig) key of None \<Rightarrow> default_reading | Some r \<Rightarrow> r);
          slot = (if tr_timestamp slot = 0 \<or> tr_timestamp reading > tr_timestamp slot \<or>
                     tr_timestamp reading = tr_timestamp slot \<and> tr_quality reading \<ge> tr_quality slot
                  then reading\<lparr>tr_source := key\<rparr> else slot)
      in bus(sig := AList.update key slot (bus sig)))"

definition bus_readings :: "TelemetrySignal \<Rightarrow> telemetry_bus \<Rightarrow> TelemetryReading list" where
  "bus_readings sig bus = map snd (bus sig)"

definition latest_better :: "TelemetryReading \<Rightarrow> TelemetryReading option \<Rightarrow> bool" where
  "latest_better reading best =
     (case best of None \<Rightarrow> True
      | Some b \<Rightarrow> tr_valid reading \<and> \<not> tr_valid b \<or>
          tr_valid reading = tr_valid b \<and> tr_timestamp reading > tr_timestamp b \<or>
          tr_valid reading = tr_valid b \<and> tr_timestamp reading = tr_timestamp b \<and> tr_quality reading > tr_quality b)"

definition bus_latest :: "TelemetrySignal \<Rightarrow> telemetry_bus \<Rightarrow> TelemetryReading option" where
  "bus_latest sig bus =
     fold (\<lambda>reading best. if latest_better reading best then Some reading else best) (bus_readings sig bus) None"

section \<open>Collectors\<close>

text \<open>
  A provider is a callback; \<open>provided\<close> lists what its next calls give (an exhausted list gives an
  invalid sample). Perf and Freq providers return a pair of CPI and frequency, the others one value.
\<close>

datatype collector_kind = PerfCollector | MsrCollector | RaplCollector | FreqCollector | OemCollector

datatype provided_sample = Provided dbl dbl bool | Provider_throws

record collector =
  co_kind :: collector_kind
  co_interval :: int
  co_next_run :: int
  co_provider :: bool
  co_provided :: "provided_sample list"
  co_quality :: int

definition make_reading :: "dbl \<Rightarrow> bool \<Rightarrow> int \<Rightarrow> int \<Rightarrow> string \<Rightarrow> TelemetryReading" where
  "make_reading v valid quality now source =
     \<lparr>tr_value = v, tr_valid = valid, tr_quality = quality, tr_timestamp = now, tr_source = source\<rparr>"

fun collector_readings :: "collector_kind \<Rightarrow> int \<Rightarrow> int \<Rightarrow> dbl \<Rightarrow> dbl \<Rightarrow> bool \<Rightarrow> (TelemetrySignal \<times> TelemetryReading) list" where
  "collector_readings PerfCollector q now v f valid =
     [(kThermalCpi, make_reading v valid q now ''perf''), (kFrequencyRatio, make_reading f valid q now ''perf'')]"
| "collector_readings MsrCollector q now v f valid = [(kPackageTempC, make_reading v valid q now ''msr'')]"
| "collector_readings RaplCollector q now v f valid = [(kPowerBudgetWatts, make_reading v valid q now ''rapl'')]"
| "collector_readings FreqCollector q now v f valid = [(kFrequencyRatio, make_reading f valid q now ''freq'')]"
| "collector_readings OemCollector q now v f valid = [(kPackageTempC, make_reading v valid q now ''oem'')]"

text \<open>\<^verbatim>\<open>sample\<close> of the five collectors; \<^term>\<open>None\<close> is the exception of the provider.\<close>

definition collector_sample :: "int \<Rightarrow> collector \<Rightarrow> telemetry_bus \<Rightarrow> collector \<times> telemetry_bus option" where
  "collector_sample now c bus =
     (if \<not> co_provider c then (c, Some bus)
      else let (r, rest) = next_of (Provided (Fin 0) (Fin 0) False) (co_provided c); c = c\<lparr>co_provided := rest\<rparr>
           in (case r of
               Provider_throws \<Rightarrow> (c, None)
             | Provided v f valid \<Rightarrow>
                 (c, Some (fold (\<lambda>(sig, rd). bus_publish sig rd) (collector_readings (co_kind c) (co_quality c) now v f valid) bus))))"

definition collect :: "int \<Rightarrow> collector \<Rightarrow> telemetry_bus \<Rightarrow> collector \<times> telemetry_bus option" where
  "collect now c bus =
     (if now < co_next_run c then (c, Some bus)
      else collector_sample now (c\<lparr>co_next_run := now + co_interval c\<rparr>) bus)"

text \<open>The loop of \<^verbatim>\<open>poll\<close>: an exception ends it, and what was published until then stays.\<close>

fun poll :: "int \<Rightarrow> collector list \<Rightarrow> telemetry_bus \<Rightarrow> bool \<times> collector list \<times> telemetry_bus" where
  "poll now [] bus = (True, [], bus)"
| "poll now (c # cs) bus =
     (case collect now c bus of
        (c, None) \<Rightarrow> (False, c # cs, bus)
      | (c, Some bus) \<Rightarrow> (let (done, cs, bus) = poll now cs bus in (done, c # cs, bus)))"

section \<open>Fusion\<close>

record TelemetrySnapshot =
  sn_generation :: u64
  sn_capture_time :: int
  sn_degraded :: bool
  sn_temp_available :: bool
  sn_package_temp_c :: dbl
  sn_freq_available :: bool
  sn_freq_ratio :: dbl
  sn_cpi_available :: bool
  sn_thermal_cpi :: dbl
  sn_power_available :: bool
  sn_power_budget_w :: dbl

definition zero_snapshot :: TelemetrySnapshot where
  "zero_snapshot = \<lparr>sn_generation = 0, sn_capture_time = 0, sn_degraded = False, sn_temp_available = False,
     sn_package_temp_c = Fin 0, sn_freq_available = False, sn_freq_ratio = Fin 0, sn_cpi_available = False,
     sn_thermal_cpi = Fin 0, sn_power_available = False, sn_power_budget_w = Fin 0\<rparr>"

record TelemetryFusionConfig =
  fc_poll_interval :: int
  fc_freshness_window :: int
  fc_ring_size :: nat

record TelemetrySnapshotRingBuffer =
  rb_capacity :: nat
  rb_buffer :: "TelemetrySnapshot list"
  rb_head :: nat
  rb_last_generation :: u64

definition ring_make :: "nat \<Rightarrow> TelemetrySnapshotRingBuffer" where
  "ring_make capacity = (let c = (if capacity = 0 then 1 else capacity)
     in \<lparr>rb_capacity = c, rb_buffer = replicate c zero_snapshot, rb_head = c - 1, rb_last_generation = 0\<rparr>)"

definition ring_publish :: "TelemetrySnapshot \<Rightarrow> TelemetrySnapshotRingBuffer \<Rightarrow> TelemetrySnapshotRingBuffer" where
  "ring_publish snapshot ring =
     (let head = (rb_head ring + 1) mod rb_capacity ring
      in ring\<lparr>rb_buffer := (rb_buffer ring)[head := snapshot], rb_head := head,
              rb_last_generation := sn_generation snapshot\<rparr>)"

definition ring_latest :: "TelemetrySnapshotRingBuffer \<Rightarrow> TelemetrySnapshot option" where
  "ring_latest ring = (if rb_last_generation ring = 0 then None else Some (rb_buffer ring ! rb_head ring))"

text \<open>\<^verbatim>\<open>wait_for\<close>: \<open>later\<close> is the ring when the wait on the condition ends, by a publication or its timeout.\<close>

definition ring_wait_for ::
    "u64 \<Rightarrow> TelemetrySnapshotRingBuffer \<Rightarrow> TelemetrySnapshotRingBuffer \<Rightarrow> TelemetrySnapshot option" where
  "ring_wait_for generation later ring =
     (let ring = (if generation = 0 \<or> generation > rb_last_generation ring then later else ring)
      in if rb_last_generation ring = 0 \<or> rb_last_generation ring < generation then None
         else Some (rb_buffer ring ! rb_head ring))"

text \<open>
  The engine with the bus it shares with its manager. Its thread is \<open>tf_running\<close> here; the racing calls
  of \<^verbatim>\<open>start\<close> and \<^verbatim>\<open>stop\<close> are in \<open>Fusion_Lifecycle\<close>.
\<close>

record fusion =
  tf_config :: TelemetryFusionConfig
  tf_bus :: telemetry_bus
  tf_collectors :: "collector list"
  tf_ring :: TelemetrySnapshotRingBuffer
  tf_running :: bool
  tf_generation :: u64

definition fusion_make :: "TelemetryFusionConfig \<Rightarrow> collector list \<Rightarrow> fusion" where
  "fusion_make config cs = \<lparr>tf_config = config, tf_bus = empty_bus, tf_collectors = cs,
     tf_ring = ring_make (fc_ring_size config), tf_running = False, tf_generation = 0\<rparr>"

definition eligible :: "int \<Rightarrow> int \<Rightarrow> TelemetryReading \<Rightarrow> bool" where
  "eligible window now reading =
     (\<not> (\<not> tr_valid reading \<or> \<not> isfinite (tr_value reading)) \<and>
      \<not> (tr_timestamp reading = 0 \<or> tr_timestamp reading > now) \<and>
      \<not> now - tr_timestamp reading > window)"

definition better :: "TelemetryReading \<Rightarrow> TelemetryReading option \<Rightarrow> bool" where
  "better reading best =
     (case best of None \<Rightarrow> True
      | Some b \<Rightarrow> tr_quality reading > tr_quality b \<or>
          tr_quality reading = tr_quality b \<and> tr_timestamp reading > tr_timestamp b)"

definition select_reading :: "int \<Rightarrow> int \<Rightarrow> TelemetryReading list \<Rightarrow> TelemetryReading option" where
  "select_reading window now readings =
     fold (\<lambda>reading best. if eligible window now reading \<and> better reading best then Some reading else best) readings None"

text \<open>\<^verbatim>\<open>assign_value\<close> leaves the value alone when there is no reading.\<close>

definition assign_value :: "fusion \<Rightarrow> TelemetrySignal \<Rightarrow> int \<Rightarrow> dbl \<Rightarrow> bool \<times> dbl" where
  "assign_value f sig now out_value =
     (case select_reading (fc_freshness_window (tf_config f)) now (bus_readings sig (tf_bus f)) of
        None \<Rightarrow> (False, out_value)
      | Some best \<Rightarrow> (True, tr_value best))"

definition fuse_snapshot :: "int \<Rightarrow> fusion \<Rightarrow> TelemetrySnapshot" where
  "fuse_snapshot now f =
     (let (temp, t) = assign_value f kPackageTempC now (Fin 0);
          (freq, r) = assign_value f kFrequencyRatio now (Fin 0);
          (cpi, c) = assign_value f kThermalCpi now (Fin 0);
          (power, w) = assign_value f kPowerBudgetWatts now (Fin 0)
      in \<lparr>sn_generation = tf_generation f, sn_capture_time = now, sn_degraded = (\<not> temp \<or> \<not> freq),
          sn_temp_available = temp, sn_package_temp_c = t, sn_freq_available = freq, sn_freq_ratio = r,
          sn_cpi_available = cpi, sn_thermal_cpi = c, sn_power_available = power, sn_power_budget_w = w\<rparr>)"

definition snapshot_telemetry :: "bool \<Rightarrow> TelemetrySnapshot \<Rightarrow> tsd_fusion_telemetry_t" where
  "snapshot_telemetry running s = \<lparr>ft_running = c_bool running, ft_degraded = c_bool (sn_degraded s),
     ft_temp_available = c_bool (sn_temp_available s), ft_package_temp_c = sn_package_temp_c s,
     ft_freq_available = c_bool (sn_freq_available s), ft_freq_ratio = sn_freq_ratio s,
     ft_cpi_available = c_bool (sn_cpi_available s), ft_thermal_cpi = sn_thermal_cpi s,
     ft_power_available = c_bool (sn_power_available s), ft_power_budget_w = sn_power_budget_w s\<rparr>"

definition zero_fusion_telemetry :: tsd_fusion_telemetry_t where
  "zero_fusion_telemetry = \<lparr>ft_running = 0, ft_degraded = 0, ft_temp_available = 0, ft_package_temp_c = Fin 0,
     ft_freq_available = 0, ft_freq_ratio = Fin 0, ft_cpi_available = 0, ft_thermal_cpi = Fin 0,
     ft_power_available = 0, ft_power_budget_w = Fin 0\<rparr>"

definition fuse :: "int \<Rightarrow> fusion \<Rightarrow> 'a proc_scheme \<Rightarrow> TelemetrySnapshot \<times> fusion \<times> 'a proc_scheme" where
  "fuse now f p =
     (let f = f\<lparr>tf_generation := tf_generation f + 1\<rparr>; snapshot = fuse_snapshot now f
      in (snapshot, f, tsd_observability_update_fusion (Some (snapshot_telemetry (tf_running f) snapshot)) p))"

definition publish_fusion_running_state :: "bool \<Rightarrow> 'a proc_scheme \<Rightarrow> 'a proc_scheme" where
  "publish_fusion_running_state running p =
     tsd_observability_update_fusion (Some (zero_fusion_telemetry\<lparr>ft_running := c_bool running\<rparr>)) p"

text \<open>One pass of the loop of \<^verbatim>\<open>run\<close>, with the handler of an exception of a provider.\<close>

definition fusion_iteration :: "fusion \<Rightarrow> 'a proc_scheme \<Rightarrow> fusion \<times> 'a proc_scheme" where
  "fusion_iteration f p =
     (let now = steady_now p; (done, cs, bus) = poll now (tf_collectors f) (tf_bus f);
          f = f\<lparr>tf_bus := bus, tf_collectors := cs\<rparr>
      in if done then
           (let (snapshot, f, p) = fuse now f p in (f\<lparr>tf_ring := ring_publish snapshot (tf_ring f)\<rparr>, p))
         else (f, tsd_observability_update_fusion
             (Some (zero_fusion_telemetry\<lparr>ft_running := c_bool (tf_running f), ft_degraded := 1\<rparr>)) p))"

section \<open>Selection\<close>

text \<open>Readings are ordered by quality, then by time.\<close>

definition at_least_as_good :: "TelemetryReading \<Rightarrow> TelemetryReading \<Rightarrow> bool" where
  "at_least_as_good r x \<longleftrightarrow> tr_quality x < tr_quality r \<or> tr_quality x = tr_quality r \<and> tr_timestamp x \<le> tr_timestamp r"

definition best_of :: "(TelemetryReading \<Rightarrow> bool) \<Rightarrow> TelemetryReading list \<Rightarrow> TelemetryReading option \<Rightarrow> bool" where
  "best_of good readings best \<longleftrightarrow>
     (case best of
        None \<Rightarrow> \<forall>x \<in> set readings. \<not> good x
      | Some r \<Rightarrow> r \<in> set readings \<and> good r \<and> (\<forall>x \<in> set readings. good x \<longrightarrow> at_least_as_good r x))"

lemma select_reading_best: "best_of (eligible window now) readings (select_reading window now readings)"
proof (induction readings rule: rev_induct)
  case Nil
  then show ?case by (simp add: select_reading_def best_of_def)
next
  case (snoc x xs)
  let ?b = "select_reading window now xs"
  have step: "select_reading window now (xs @ [x]) = (if eligible window now x \<and> better x ?b then Some x else ?b)"
    by (simp add: select_reading_def)
  show ?case
  proof (cases ?b)
    case None
    then show ?thesis using snoc by (simp add: step better_def best_of_def at_least_as_good_def)
  next
    case (Some r)
    then show ?thesis using snoc by (auto simp: step better_def best_of_def at_least_as_good_def)
  qed
qed

section \<open>Storing readings\<close>

definition bus_wf :: "telemetry_bus \<Rightarrow> bool" where
  "bus_wf bus \<longleftrightarrow> (\<forall>sig. distinct (map fst (bus sig)))"

lemma bus_publish_wf: "bus_wf bus \<Longrightarrow> bus_wf (bus_publish sig r bus)"
  by (auto simp: bus_wf_def bus_publish_def Let_def distinct_update)

text \<open>A source's slot never goes back in time, other sources and signals are not touched.\<close>

definition slot_time :: "telemetry_bus \<Rightarrow> TelemetrySignal \<Rightarrow> string \<Rightarrow> int" where
  "slot_time bus sig key = (case map_of (bus sig) key of None \<Rightarrow> 0 | Some r \<Rightarrow> tr_timestamp r)"

lemma bus_publish_lookup:
  assumes "tr_source r \<noteq> []"
  shows "map_of (bus_publish sig r bus sig') key =
     (if sig' = sig \<and> key = tr_source r
      then Some (if slot_time bus sig key = 0 \<or> tr_timestamp r > slot_time bus sig key \<or>
                    tr_timestamp r = slot_time bus sig key \<and>
                    (\<forall>old. map_of (bus sig) key = Some old \<longrightarrow> tr_quality old \<le> tr_quality r)
                 then r else the (map_of (bus sig) key))
      else map_of (bus sig') key)"
  using assms
  by (cases "map_of (bus sig) key")
     (auto simp: bus_publish_def Let_def slot_time_def update_conv default_reading_def)

lemma bus_publish_readings:
  assumes "bus_wf bus" "tr_source r \<noteq> []" "slot_time bus sig (tr_source r) < tr_timestamp r"
  shows "r \<in> set (bus_readings sig (bus_publish sig r bus))"
proof -
  have "map_of (bus_publish sig r bus sig) (tr_source r) = Some r" using bus_publish_lookup [OF assms(2)] assms(3) by simp
  then show ?thesis unfolding bus_readings_def by (force dest: map_of_SomeD)
qed

section \<open>Ring of snapshots\<close>

definition ring_wf :: "TelemetrySnapshotRingBuffer \<Rightarrow> bool" where
  "ring_wf ring \<longleftrightarrow> 0 < rb_capacity ring \<and> length (rb_buffer ring) = rb_capacity ring \<and> rb_head ring < rb_capacity ring"

lemma ring_make_wf: "ring_wf (ring_make n)" "ring_latest (ring_make n) = None"
  by (auto simp: ring_wf_def ring_make_def ring_latest_def Let_def)

lemma ring_publish_wf: "ring_wf ring \<Longrightarrow> ring_wf (ring_publish s ring)"
  by (simp add: ring_wf_def ring_publish_def Let_def)

lemma ring_publish_latest: "ring_wf ring \<Longrightarrow> sn_generation s \<noteq> 0 \<Longrightarrow> ring_latest (ring_publish s ring) = Some s"
  by (simp add: ring_wf_def ring_publish_def ring_latest_def Let_def)

section \<open>Iterations\<close>

definition fusion_wf :: "fusion \<Rightarrow> bool" where
  "fusion_wf f \<longleftrightarrow> bus_wf (tf_bus f) \<and> ring_wf (tf_ring f)"

lemma fusion_make_wf: "fusion_wf (fusion_make config cs)"
  by (simp add: fusion_wf_def fusion_make_def ring_make_wf bus_wf_def empty_bus_def)

lemma fold_publish_wf: "bus_wf bus \<Longrightarrow> bus_wf (fold (\<lambda>(sig, rd). bus_publish sig rd) rs bus)"
  by (induction rs arbitrary: bus) (auto simp: bus_publish_wf)

lemma collect_wf: "collect now c bus = (c', Some bus') \<Longrightarrow> bus_wf bus \<Longrightarrow> bus_wf bus'"
  by (auto simp: collect_def collector_sample_def Let_def fold_publish_wf split: if_splits prod.splits provided_sample.splits)

lemma poll_wf: "poll now cs bus = (d, cs', bus') \<Longrightarrow> bus_wf bus \<Longrightarrow> bus_wf bus'"
proof (induction cs arbitrary: bus d cs')
  case (Cons c cs)
  obtain c1 b1 where c: "collect now c bus = (c1, b1)" by fastforce
  show ?case
  proof (cases b1)
    case (Some b)
    obtain d2 cs2 bus2 where "poll now cs b = (d2, cs2, bus2)" by (metis prod_cases3)
    then show ?thesis using Cons c Some collect_wf by (fastforce simp: Let_def)
  qed (use Cons c in simp)
qed simp

lemma iteration_wf: "fusion_iteration f p = (f', p') \<Longrightarrow> fusion_wf f \<Longrightarrow> fusion_wf f'"
  by (auto simp: fusion_iteration_def fusion_wf_def fuse_def Let_def ring_publish_wf poll_wf split: prod.splits if_splits)

lemma iteration_snapshot:
  assumes "poll (steady_now p) (tf_collectors f) (tf_bus f) = (True, cs, bus)" "fusion_wf f" "tf_generation f + 1 \<noteq> 0"
  defines "f0 \<equiv> f\<lparr>tf_bus := bus, tf_collectors := cs, tf_generation := tf_generation f + 1\<rparr>"
  shows "ring_latest (tf_ring (fst (fusion_iteration f p))) = Some (fuse_snapshot (steady_now p) f0)"
    and "snd (fusion_iteration f p) =
      tsd_observability_update_fusion (Some (snapshot_telemetry (tf_running f) (fuse_snapshot (steady_now p) f0))) p"
proof -
  have "sn_generation (fuse_snapshot (steady_now p) f0) \<noteq> 0"
    using assms(3) by (simp add: fuse_snapshot_def f0_def split: prod.splits)
  then show "ring_latest (tf_ring (fst (fusion_iteration f p))) = Some (fuse_snapshot (steady_now p) f0)"
    using assms(1,2) by (simp add: fusion_iteration_def fuse_def f0_def fusion_wf_def ring_publish_latest Let_def)
  show "snd (fusion_iteration f p) =
      tsd_observability_update_fusion (Some (snapshot_telemetry (tf_running f) (fuse_snapshot (steady_now p) f0))) p"
    using assms(1) by (simp add: fusion_iteration_def fuse_def f0_def Let_def)
qed

lemma assign_value_best:
  "\<exists>best. best_of (eligible (fc_freshness_window (tf_config f)) now) (bus_readings sig (tf_bus f)) best \<and>
     assign_value f sig now v = (best \<noteq> None, case best of None \<Rightarrow> v | Some r \<Rightarrow> tr_value r)"
  using select_reading_best [of "fc_freshness_window (tf_config f)" now "bus_readings sig (tf_bus f)"]
  by (auto simp: assign_value_def split: option.split intro!: exI
      [of _ "select_reading (fc_freshness_window (tf_config f)) now (bus_readings sig (tf_bus f))"])

section \<open>Properties\<close>

text \<open>What a snapshot says about a signal.\<close>

definition snapshot_signal :: "TelemetrySnapshot \<Rightarrow> TelemetrySignal \<Rightarrow> dbl option" where
  "snapshot_signal s sig = (case sig of
     kPackageTempC \<Rightarrow> if sn_temp_available s then Some (sn_package_temp_c s) else None
   | kFrequencyRatio \<Rightarrow> if sn_freq_available s then Some (sn_freq_ratio s) else None
   | kThermalCpi \<Rightarrow> if sn_cpi_available s then Some (sn_thermal_cpi s) else None
   | kPowerBudgetWatts \<Rightarrow> if sn_power_available s then Some (sn_power_budget_w s) else None)"

lemma snapshot_signal_value:
  "snapshot_signal (fuse_snapshot now f) sig = (case assign_value f sig now (Fin 0) of (avail, v) \<Rightarrow> if avail then Some v else None)"
  by (cases sig) (simp_all add: snapshot_signal_def fuse_snapshot_def split: prod.split)


definition example_fusion :: fusion where
  "example_fusion = (fusion_make \<lparr>fc_poll_interval = 50000000, fc_freshness_window = 150000000, fc_ring_size = 4\<rparr>
     [\<lparr>co_kind = MsrCollector, co_interval = 50000000, co_next_run = 0, co_provider = True,
       co_provided = [Provided (Fin 61) (Fin 0) True], co_quality = 90\<rparr>])"


end
