(* ===== verification/Frames.thy ===== *)
theory Frames
  imports Guarded_Updates
begin

text \<open>
  What the guarded updates and the trampoline selector leave alone: the configuration of the
  generation, the fusion flags, the clock, and every field that later components add to the
  process. The components above them use these facts instead of unfolding the operations.
\<close>

definition outer_same :: "'a tproc_scheme \<Rightarrow> 'a tproc_scheme \<Rightarrow> bool" where
  "outer_same p q \<longleftrightarrow> tproc.more q = tproc.more p \<and> fusion_running q = fusion_running p \<and>
     temperature_upgrade_allowed q = temperature_upgrade_allowed p \<and> steady_now q = steady_now p \<and>
     runtime_config_snapshot_state q = runtime_config_snapshot_state p \<and>
     runtime_config_snapshot q = runtime_config_snapshot p \<and> global_config q = global_config p"

lemma outer_same_refl [simp]: "outer_same p p"
  by (simp add: outer_same_def)

lemma outer_same_trans [trans]: "outer_same p q \<Longrightarrow> outer_same q r \<Longrightarrow> outer_same p r"
  by (simp add: outer_same_def)

text \<open>The selector also leaves alone what has been published.\<close>

definition published_same :: "'a tproc_scheme \<Rightarrow> 'a tproc_scheme \<Rightarrow> bool" where
  "published_same p q \<longleftrightarrow> outer_same p q \<and> telemetry q = telemetry p \<and> telemetry_throws q = telemetry_throws p"

lemmas published_same_defs = published_same_def outer_same_def

lemma published_same_refl [simp]: "published_same p p"
  by (simp add: published_same_defs)

lemma published_same_trans [trans]: "published_same p q \<Longrightarrow> published_same q r \<Longrightarrow> published_same p r"
  by (simp add: published_same_defs)

lemma capture_limits_guard: "published_same p (capture_limits p)"
  by (simp add: published_same_defs capture_limits_def safety_config_snapshot_def Let_def)

lemma authorized_guard: "tsd_runtime_width_authorized w p = (b, q) \<Longrightarrow> published_same p q"
  using capture_limits_guard by (auto simp: width_authorized_pair split: if_splits)

lemma write_leave_guard: "published_same p (tsd_runtime_safety_write_leave p)"
  using capture_limits_guard [of p]
  by (auto simp: tsd_runtime_safety_write_leave_def width_authorized_pair published_same_defs)

lemma write_enter_guard: "tsd_runtime_safety_write_enter p = (r, q) \<Longrightarrow> published_same p q"
  by (rule safety_write_enter_cases [of p]) (auto simp: published_same_defs)

lemma leave_guard: "published_same p q \<Longrightarrow> published_same p (tsd_runtime_safety_write_leave q)"
  using write_leave_guard published_same_trans by blast

lemma leave_outer: "outer_same p q \<Longrightarrow> outer_same p (tsd_runtime_safety_write_leave q)"
  using write_leave_guard outer_same_trans unfolding published_same_def by blast

lemma close_outer: "outer_same p q \<Longrightarrow> outer_same p (tsd_runtime_wide_admission_close q)"
  by (simp add: outer_same_def tsd_runtime_wide_admission_close_def)

lemma lock_outer [simp]:
  "outer_same p (p\<lparr>guard_lock_rcs := rcs\<rparr>)"
  "outer_same p (p\<lparr>guard_lock_rcs := rcs, wide_admission_open := b\<rparr>)"
  "outer_same p (p\<lparr>guard_lock_rcs := rcs, wide_admission_open := b, telemetry := t\<rparr>)"
  "outer_same p (p\<lparr>wide_admission_open := b, telemetry := t, guard_lock_rcs := rcs\<rparr>)"
  by (simp_all add: outer_same_def)

section \<open>Telemetry\<close>

lemma update_fusion_outer: "outer_same p (tsd_observability_update_fusion t p)"
  by (rule safety_write_enter_cases [of p])
     (auto simp: tsd_observability_update_fusion_def intro!: leave_outer close_outer split: option.split)

lemma update_channels_outer: "outer_same p (tsd_observability_update_temperature_channels t p)"
  by (rule safety_write_enter_cases [of p])
     (auto simp: tsd_observability_update_temperature_channels_def intro!: leave_outer close_outer split: option.split)

lemma update_perf_outer: "outer_same p (tsd_observability_update_perf t p)"
  by (rule safety_write_enter_cases [of p])
     (auto simp: tsd_observability_update_perf_def intro!: leave_outer close_outer split: option.split)

section \<open>Selector\<close>

lemma mapping_guard: "mapping_is_rx_not_writable a p = (b, q) \<Longrightarrow> published_same p q"
  by (auto simp: mapping_is_rx_not_writable_def published_same_defs Let_def split: prod.splits if_splits option.splits)

lemma install_slot_guard: "install_slot page i p = Some q \<Longrightarrow> published_same p q"
  by (auto simp: install_slot_def write_slot_def published_same_defs Let_def split: option.splits if_splits)

lemma install_slots_guard: "install_slots page is p = Some q \<Longrightarrow> published_same p q"
  by (induction "is" arbitrary: p) (auto split: option.splits dest: install_slot_guard intro: published_same_trans)

lemma discard_guard: "published_same p (discard_code_page page p)"
  by (simp add: published_same_defs discard_code_page_def)

lemma seal_guard:
  assumes "seal_code_page page p = (r, q)"
  shows "published_same p q"
proof -
  obtain e rest where n: "next_of None (mprotect_rcs p) = (e, rest)" by fastforce
  define p1 where "p1 = p\<lparr>mprotect_rcs := rest\<rparr>"
  define p2 where "p2 = (protect_rx page p1)\<lparr>page_a_prot := PROT_RX,
      tstate := tsd_trampoline_state_set_page_a_writable False (tstate p1)\<rparr>"
  obtain b p3 where m: "mapping_is_rx_not_writable page p2 = (b, p3)" by fastforce
  have o: "published_same p p1" "published_same p p2" by (simp_all add: published_same_defs p1_def p2_def protect_rx_def)
  have "q = discard_code_page page p1 \<or> q = discard_code_page page p3 \<or> q = p3"
    using assms n m by (auto simp: seal_code_page_def p1_def [symmetric] p2_def [symmetric] split: option.splits bool.splits)
  then show ?thesis using o discard_guard mapping_guard [OF m] by (blast intro: published_same_trans)
qed

lemma build_guard:
  assumes "build_canonical_code_page p = (r, q)"
  shows "published_same p q"
proof -
  obtain e rest where n: "next_of (Inl ENOMEM) (mmap_results p) = (e, rest)" by fastforce
  define p1 where "p1 = p\<lparr>mmap_results := rest\<rparr>"
  have o1: "published_same p p1" by (simp add: published_same_defs p1_def)
  have o2: "published_same p (fresh_code_page page n p1)" for page n by (simp add: published_same_defs p1_def fresh_code_page_def)
  consider "q = p" | "q = p1"
    | page n where "q = discard_code_page page (fresh_code_page page n p1)"
    | page n p2 where "install_slots page [0..<kWidthCount] (fresh_code_page page n p1) = Some p2" "seal_code_page page p2 = (r, q)"
    using assms n
    by (auto simp: build_canonical_code_page_def p1_def [symmetric] Let_def split: sum.splits if_splits option.splits)
  then show ?thesis
  proof cases
    case (4 page n p2)
    then show ?thesis using o2 install_slots_guard [OF 4(1)] seal_guard [OF 4(2)] by (blast intro: published_same_trans)
  next
    case (3 page n)
    then show ?thesis using published_same_trans [OF o2 discard_guard] by simp
  qed (use o1 in simp_all)
qed

lemma commit_guard: "commit_selection_and_attestation sha256 w target p = (r, q) \<Longrightarrow> published_same p q"
  by (auto simp: commit_selection_and_attestation_def published_same_defs Let_def split: if_splits option.splits prod.splits)

lemma select_guard:
  assumes "select_target sha256 w p = (r, q)"
  shows "published_same p q"
proof -
  obtain a avx where d: "detect_impl (host p) (Some (tsd_runtime_config_active_snapshot p)) (avx_available p) = (a, avx)" by fastforce
  define p1 where "p1 = p\<lparr>avx_available := avx\<rparr>"
  obtain r2 p2 where b: "(if page_a p1 = 0 then build_canonical_code_page p1 else (ok, p1)) = (r2, p2)" by fastforce
  obtain m p3 where m: "mapping_is_rx_not_writable (slots p2 ! width_rank w) p2 = (m, p3)" by fastforce
  obtain r4 p4 where c: "commit_selection_and_attestation sha256 w (slots p2 ! width_rank w) p3 = (r4, p4)" by fastforce
  have o1: "published_same p p1" by (simp add: published_same_defs p1_def)
  have "published_same p1 p2" using b build_guard [of p1 r2 p2] by (cases "page_a p1 = 0") simp_all
  with o1 have o2: "published_same p p2" by (rule published_same_trans)
  then have o3: "published_same p p3" using mapping_guard [OF m] by (rule published_same_trans)
  then have o4: "published_same p p4" using commit_guard [OF c] by (rule published_same_trans)
  have "select_target sha256 w p =
      (if \<not> width_valid w then (Inl EINVAL, p) else if \<not> tsd_cpu_has_sse41 (host p) then (Inl ENOTSUP, p)
       else if w > a then (Inl ENOTSUP, p1)
       else (case r2 of Inl e \<Rightarrow> (Inl e, p2)
         | Inr _ \<Rightarrow> if (case canonical_patch w of None \<Rightarrow> True | Some patch \<Rightarrow> \<not> has_enbr64_prefix patch) then (Inl EINVAL, p2)
             else if m then (r4, p4) else (Inl EPERM, p3)))"
    unfolding select_target_def Let_def d prod.case p1_def [symmetric] b by (cases m) (simp_all add: m c split: sum.split)
  then have "q \<in> {p, p1, p2, p3, p4}" using assms by (auto split: if_splits sum.splits)
  then show ?thesis using o1 o2 o3 o4 by auto
qed

lemma patch_impl_guard:
  assumes "tsd_trampoline_patch_impl sha256 w p = (r, q)"
  shows "published_same p q"
proof -
  obtain e rest where n: "next_of None (patch_lock_rcs p) = (e, rest)" by fastforce
  define p1 where "p1 = p\<lparr>patch_lock_rcs := rest\<rparr>"
  define p2 where "p2 = p1\<lparr>tstate := tsd_trampoline_state_set_last_patch_attempt w (tstate p1)\<rparr>"
  obtain r3 p3 where t: "select_target sha256 w p2 = (r3, p3)" by fastforce
  have o: "published_same p p1" "published_same p p3" using published_same_trans [OF _ select_guard [OF t], of p]
    by (simp_all add: published_same_defs p1_def p2_def)
  have "q = p1 \<or> (\<exists>m. q = p3\<lparr>metrics := m\<rparr>)"
    using assms n t by (auto simp: tsd_trampoline_patch_impl_def Let_def p1_def [symmetric] p2_def [symmetric] split: option.splits)
  then show ?thesis using o by (auto simp: published_same_defs)
qed

lemma patch_guard: "published_same p (snd (tsd_trampoline_patch sha256 w p))"
proof -
  obtain r1 p1 where e: "tsd_runtime_safety_write_enter p = (r1, p1)" by fastforce
  obtain b p2 where a: "tsd_runtime_width_authorized w p1 = (b, p2)" by fastforce
  obtain r3 p3 where i: "tsd_trampoline_patch_impl sha256 w p2 = (r3, p3)" by fastforce
  have o: "published_same p p1" "published_same p p2" "published_same p p3"
    using write_enter_guard [OF e] authorized_guard [OF a] patch_impl_guard [OF i] by (blast intro: published_same_trans)+
  show ?thesis using o leave_guard by (auto simp: tsd_trampoline_patch_def e a i split: sum.split bool.split)
qed

lemma patch_outer: "outer_same p (snd (tsd_trampoline_patch sha256 w p))"
  using patch_guard by (auto simp: published_same_def)

section \<open>Temperature gate\<close>

text \<open>The gate bit after an update, and that nothing else of the outer state changes.\<close>

lemma gate_outer:
  fixes p :: "'a tproc_scheme" and b sha256
  defines "q \<equiv> update_temperature_gate_unlocked sha256 b p"
  shows "outer_same (p\<lparr>temperature_upgrade_allowed := temperature_upgrade_allowed q\<rparr>) q"
    "temperature_upgrade_allowed q = (b \<and> fst (tsd_runtime_safety_write_enter p) = ok)"
proof -
  have "outer_same (p\<lparr>temperature_upgrade_allowed := temperature_upgrade_allowed q\<rparr>) q \<and>
    temperature_upgrade_allowed q = (b \<and> fst (tsd_runtime_safety_write_enter p) = ok)"
  proof (rule safety_write_enter_cases [of p])
    fix rcs assume l: "tsd_runtime_safety_write_enter p = (ok, p\<lparr>guard_lock_rcs := rcs, wide_admission_open := False\<rparr>)"
    define g where "g = tsd_runtime_safety_write_leave
      (p\<lparr>guard_lock_rcs := rcs, wide_admission_open := False, temperature_upgrade_allowed := b\<rparr>)"
    have g: "outer_same (p\<lparr>temperature_upgrade_allowed := b\<rparr>) g"
      unfolding g_def by (rule leave_outer) (simp add: outer_same_def)
    have "q = g \<or> q = snd (tsd_trampoline_patch sha256 SIMD_SSE41 g)"
      unfolding q_def by (simp add: update_temperature_gate_unlocked_def l Let_def g_def)
    then have "outer_same (p\<lparr>temperature_upgrade_allowed := b\<rparr>) q" using g patch_outer outer_same_trans by blast
    then show ?thesis using l by (simp add: outer_same_def)
  next
    fix e rcs assume l: "tsd_runtime_safety_write_enter p = (Inl e, p\<lparr>guard_lock_rcs := rcs\<rparr>)"
    define g where "g = p\<lparr>guard_lock_rcs := rcs, temperature_upgrade_allowed := False\<rparr>"
    have g: "outer_same (p\<lparr>temperature_upgrade_allowed := False\<rparr>) g" by (simp add: outer_same_def g_def)
    have "q = g \<or> q = snd (tsd_trampoline_patch sha256 SIMD_SSE41 g)"
      unfolding q_def by (simp add: update_temperature_gate_unlocked_def l Let_def g_def)
    then have "outer_same (p\<lparr>temperature_upgrade_allowed := False\<rparr>) q" using g patch_outer outer_same_trans by blast
    then show ?thesis using l by (simp add: outer_same_def)
  qed
  then show "outer_same (p\<lparr>temperature_upgrade_allowed := temperature_upgrade_allowed q\<rparr>) q"
    "temperature_upgrade_allowed q = (b \<and> fst (tsd_runtime_safety_write_enter p) = ok)" by blast+
qed

end
