(* ===== verification/Fusion_Bridge.thy ===== *)
theory Fusion_Bridge
  imports Telemetry_Helper_Facts Telemetry_Fusion Frames
begin

text \<open>
  \<^verbatim>\<open>src/telemetry/fusion_bridge.cpp\<close>: the process-wide fusion service behind the C interface. It owns the
  fusion engine, the direct helper and a cache of the last raw readings, smooths what it publishes
  on the bus, and drives the temperature gate. The calls run under \<^verbatim>\<open>g_fusion_mutex\<close>, so each is one
  operation here; the worker of the engine runs between and inside them (\<open>worker_passes\<close>).
\<close>

section \<open>State\<close>

datatype cpp_exception = Bad_alloc | System_error int | Std_exception | Unknown_exception

text \<open>
  The globals of the file. The manager holds the bus of the engine from the engine's construction on, so
  the bus is the one in \<open>g_fusion\<close>. \<open>cpp_throws\<close> tells which of the next operations that may
  throw do (allocations, the creation of a thread, the lock of the mutex), and \<open>worker_passes\<close>
  how many iterations the worker makes at the next points where it may run.
\<close>

record fproc = sproc +
  g_fusion :: "fusion option"
  g_manager :: bool
  g_direct_helper :: tsd_telemetry_helper_t
  g_direct_helper_ready :: bool
  g_fusion_users :: u32
  g_fusion_cpu :: int
  g_smoothed_temp_c :: "dbl option"
  g_smoothed_freq_ratio :: "dbl option"
  g_raw_temp_valid :: bool
  g_raw_temp_millic :: int
  g_raw_temp_at :: int
  g_raw_freq_valid :: bool
  g_raw_freq_ratio_milli :: u32
  g_raw_freq_at :: int
  cpp_throws :: "cpp_exception option list"
  worker_passes :: "nat list"

definition may_throw :: "'a fproc_scheme \<Rightarrow> cpp_exception option \<times> 'a fproc_scheme" where
  "may_throw p = (let (e, rest) = next_of None (cpp_throws p) in (e, p\<lparr>cpp_throws := rest\<rparr>))"

text \<open>\<^verbatim>\<open>std::chrono::steady_clock::now()\<close> has no error result.\<close>

definition steady_clock_now :: "'a sproc_scheme \<Rightarrow> int \<times> 'a sproc_scheme" where
  "steady_clock_now s = (case clock_gettime s of (None, s) \<Rightarrow> (steady_now s, s) | (Some t, s) \<Rightarrow> (t, s))"

text \<open>Iterations of the worker at a point where it may run.\<close>

primrec worker_iterations :: "nat \<Rightarrow> fusion \<times> 'a proc_scheme \<Rightarrow> fusion \<times> 'a proc_scheme" where
  "worker_iterations 0 st = st"
| "worker_iterations (Suc n) st = (let (f, p) = worker_iterations n st in fusion_iteration f p)"

definition worker_runs :: "'a fproc_scheme \<Rightarrow> 'a fproc_scheme" where
  "worker_runs p =
     (let (n, rest) = next_of 0 (worker_passes p); p = p\<lparr>worker_passes := rest\<rparr>
      in (case g_fusion p of
            None \<Rightarrow> p
          | Some f \<Rightarrow> if tf_running f then (let (f, p) = worker_iterations n (f, p) in p\<lparr>g_fusion := Some f\<rparr>) else p))"

section \<open>Configuration\<close>

definition runtime_config :: "'a proc_scheme \<Rightarrow> tsd_runtime_config" where
  "runtime_config p = tsd_runtime_config_active_snapshot p"

definition runtime_config_initialized :: "'a proc_scheme \<Rightarrow> bool" where
  "runtime_config_initialized p = (check_interval_us (runtime_config p) > 0)"

definition freshness_window :: "'a proc_scheme \<Rightarrow> int" where
  "freshness_window p =
     (let freshness_ms = (if runtime_config_initialized p then telemetry_max_skew_ms (runtime_config p) else 150);
          freshness_ms = (if freshness_ms < 0 then 150 else freshness_ms)
      in freshness_ms * 1000000)"

definition default_config :: "'a proc_scheme \<Rightarrow> TelemetryFusionConfig" where
  "default_config p =
     (let interval_ms = (if runtime_config_initialized p \<and> telemetry_interval_ms (runtime_config p) > 0
                         then telemetry_interval_ms (runtime_config p) else 50)
      in \<lparr>fc_poll_interval = interval_ms * 1000000, fc_freshness_window = freshness_window p, fc_ring_size = 128\<rparr>)"

definition smoothing_alpha :: "'a proc_scheme \<Rightarrow> dbl" where
  "smoothing_alpha p =
     (if \<not> runtime_config_initialized p then Fin 1
      else let alpha = telemetry_ewma_alpha (runtime_config p)
           in if \<not> isfinite alpha \<or> dbl_less alpha (Fin 0) \<or> dbl_less (Fin 1) alpha then Fin 1
              else if dbl_eq alpha (Fin 0) then Fin 1 else alpha)"

section \<open>Samples\<close>

text \<open>\<^verbatim>\<open>smooth_value\<close>: the new state is also the result.\<close>

definition smooth_value :: "dbl \<Rightarrow> dbl \<Rightarrow> dbl option \<Rightarrow> dbl" where
  "smooth_value alpha raw state =
     (case state of None \<Rightarrow> raw
      | Some old \<Rightarrow> dbl_add (dbl_mul alpha raw) (dbl_mul (dbl_sub (Fin 1) alpha) old))"

definition record_raw_sample_unlocked :: "tsd_telemetry_sample_t \<Rightarrow> int \<Rightarrow> 'a fproc_scheme \<Rightarrow> 'a fproc_scheme" where
  "record_raw_sample_unlocked sample now p =
     (let p = (if sm_temp_available sample \<noteq> 0
               then p\<lparr>g_raw_temp_valid := True, g_raw_temp_millic := sm_package_temp_millic sample, g_raw_temp_at := now\<rparr> else p)
      in if sm_freq_ratio_available sample \<noteq> 0
         then p\<lparr>g_raw_freq_valid := True, g_raw_freq_ratio_milli := sm_freq_ratio_milli sample, g_raw_freq_at := now\<rparr> else p)"

definition direct_reading :: "dbl \<Rightarrow> int \<Rightarrow> TelemetryReading" where
  "direct_reading v now = \<lparr>tr_value = v, tr_valid = True, tr_quality = 100, tr_timestamp = now, tr_source = ''direct''\<rparr>"

text \<open>\<^verbatim>\<open>bus->publish\<close> may fail to allocate the slot.\<close>

definition publish_reading :: "TelemetrySignal \<Rightarrow> TelemetryReading \<Rightarrow> 'a fproc_scheme \<Rightarrow> cpp_exception option \<times> 'a fproc_scheme" where
  "publish_reading sig reading p =
     (case may_throw p of
        (Some e, p) \<Rightarrow> (Some e, p)
      | (None, p) \<Rightarrow> (None, p\<lparr>g_fusion := map_option (\<lambda>f. f\<lparr>tf_bus := bus_publish sig reading (tf_bus f)\<rparr>) (g_fusion p)\<rparr>))"

definition publish_temperature :: "tsd_telemetry_sample_t \<Rightarrow> int \<Rightarrow> 'a fproc_scheme \<Rightarrow> cpp_exception option \<times> 'a fproc_scheme" where
  "publish_temperature sample now p =
     (if sm_temp_available sample = 0 then (None, p)
      else let raw_c = dbl_div (dbl_of_int (sm_package_temp_millic sample)) (Fin 1000);
               v = smooth_value (smoothing_alpha p) raw_c (g_smoothed_temp_c p)
           in publish_reading kPackageTempC (direct_reading v now) (p\<lparr>g_smoothed_temp_c := Some v\<rparr>))"

definition publish_frequency :: "tsd_telemetry_sample_t \<Rightarrow> int \<Rightarrow> 'a fproc_scheme \<Rightarrow> cpp_exception option \<times> 'a fproc_scheme" where
  "publish_frequency sample now p =
     (if sm_freq_ratio_available sample = 0 then (None, p)
      else let raw_ratio = dbl_of_int (uint (sm_freq_ratio_milli sample));
               v = smooth_value (smoothing_alpha p) raw_ratio (g_smoothed_freq_ratio p)
           in publish_reading kFrequencyRatio (direct_reading v now) (p\<lparr>g_smoothed_freq_ratio := Some v\<rparr>))"

definition publish_sample_unlocked :: "tsd_telemetry_sample_t \<Rightarrow> 'a fproc_scheme \<Rightarrow> (cpp_exception + bool) \<times> 'a fproc_scheme" where
  "publish_sample_unlocked sample p =
     (if \<not> g_manager p then (Inr False, p)
      else if g_fusion p = None then (Inr False, p)
      else let (now, p) = steady_clock_now p; p = record_raw_sample_unlocked sample now p
           in (case publish_temperature sample now p of
                 (Some e, p) \<Rightarrow> (Inl e, p)
               | (None, p) \<Rightarrow>
                   (case publish_frequency sample now p of
                      (Some e, p) \<Rightarrow> (Inl e, p)
                    | (None, p) \<Rightarrow> (Inr (sm_temp_available sample \<noteq> 0 \<or> sm_freq_ratio_available sample \<noteq> 0), p))))"

definition raw_is_fresh :: "int \<Rightarrow> int \<Rightarrow> 'a proc_scheme \<Rightarrow> bool" where
  "raw_is_fresh timestamp now p = (if timestamp = 0 then False else now \<ge> timestamp \<and> now - timestamp \<le> freshness_window p)"

definition copy_raw_cache_unlocked :: "int \<Rightarrow> 'a fproc_scheme \<Rightarrow> tsd_telemetry_sample_t \<Rightarrow> tsd_telemetry_sample_t" where
  "copy_raw_cache_unlocked now p out =
     (let out = (if g_raw_temp_valid p \<and> raw_is_fresh (g_raw_temp_at p) now p
                 then out\<lparr>sm_temp_available := 1, sm_package_temp_millic := g_raw_temp_millic p\<rparr> else out)
      in if g_raw_freq_valid p \<and> raw_is_fresh (g_raw_freq_at p) now p
         then out\<lparr>sm_freq_ratio_available := 1, sm_freq_ratio_milli := g_raw_freq_ratio_milli p\<rparr> else out)"

text \<open>The conversion of a \<^verbatim>\<open>long long\<close> to \<^verbatim>\<open>int32_t\<close>.\<close>

definition int32_of :: "int \<Rightarrow> int" where
  "int32_of n = (n + 2147483648) mod 4294967296 - 2147483648"

definition millic_of :: "dbl \<Rightarrow> int" where
  "millic_of celsius = int32_of (llround (dbl_mul celsius (Fin 1000)))"

definition copy_filtered_snapshot :: "TelemetrySnapshot \<Rightarrow> tsd_telemetry_sample_t \<Rightarrow> bool \<times> tsd_telemetry_sample_t" where
  "copy_filtered_snapshot snapshot out =
     (if \<not> sn_temp_available snapshot \<and> \<not> sn_freq_available snapshot then (False, out)
      else (True, out\<lparr>sm_filtered_temp_available := c_bool (sn_temp_available snapshot),
        sm_filtered_freq_ratio_available := c_bool (sn_freq_available snapshot),
        sm_filtered_package_temp_millic := (if sn_temp_available snapshot then millic_of (sn_package_temp_c snapshot) else 0),
        sm_filtered_freq_ratio_milli := (if sn_freq_available snapshot then of_int (llround (sn_freq_ratio snapshot)) else 0)\<rparr>))"

definition fill_filtered_from_raw :: "tsd_telemetry_sample_t \<Rightarrow> tsd_telemetry_sample_t" where
  "fill_filtered_from_raw out =
     (let out = (if sm_filtered_temp_available out = 0 \<and> sm_temp_available out \<noteq> 0
                 then out\<lparr>sm_filtered_temp_available := 1, sm_filtered_package_temp_millic := sm_package_temp_millic out\<rparr> else out)
      in if sm_filtered_freq_ratio_available out = 0 \<and> sm_freq_ratio_available out \<noteq> 0
         then out\<lparr>sm_filtered_freq_ratio_available := 1, sm_filtered_freq_ratio_milli := sm_freq_ratio_milli out\<rparr> else out)"

definition update_temperature_observability_unlocked :: "tsd_telemetry_sample_t \<Rightarrow> 'a proc_scheme \<Rightarrow> 'a proc_scheme" where
  "update_temperature_observability_unlocked sample p =
     tsd_observability_update_temperature_channels (Some
       \<lparr>tc_raw_available = c_bool (sm_temp_available sample \<noteq> 0),
        tc_raw_package_temp_c = (if sm_temp_available sample \<noteq> 0
          then dbl_div (dbl_of_int (sm_package_temp_millic sample)) (Fin 1000) else Fin 0),
        tc_filtered_available = c_bool (sm_filtered_temp_available sample \<noteq> 0),
        tc_filtered_package_temp_c = (if sm_filtered_temp_available sample \<noteq> 0
          then dbl_div (dbl_of_int (sm_filtered_package_temp_millic sample)) (Fin 1000) else Fin 0)\<rparr>) p"

section \<open>Life cycle\<close>

definition reset_signal_state_unlocked :: "'a fproc_scheme \<Rightarrow> 'a fproc_scheme" where
  "reset_signal_state_unlocked p = p\<lparr>g_smoothed_temp_c := None, g_smoothed_freq_ratio := None,
     g_raw_temp_valid := False, g_raw_temp_millic := 0, g_raw_temp_at := 0,
     g_raw_freq_valid := False, g_raw_freq_ratio_milli := 0, g_raw_freq_at := 0\<rparr>"

text \<open>
  \<^verbatim>\<open>TelemetryFusion::start\<close> and \<^verbatim>\<open>stop\<close> as the bridge calls them: one caller at a time, and no caller
  inside the worker (the interleaved ones are in \<open>Fusion_Lifecycle\<close>). \<^verbatim>\<open>stop\<close> only throws when a mutex or
  a join is misused; it is not given exceptions.
\<close>

definition fusion_start :: "fusion \<Rightarrow> 'a fproc_scheme \<Rightarrow> cpp_exception option \<times> fusion \<times> 'a fproc_scheme" where
  "fusion_start f p =
     (if tf_running f then (None, f, p)
      else (case may_throw p of
          (Some e, p) \<Rightarrow> (Some e, f\<lparr>tf_running := False\<rparr>, publish_fusion_running_state False p)
        | (None, p) \<Rightarrow> (None, f\<lparr>tf_running := True\<rparr>, publish_fusion_running_state True p)))"

definition fusion_stop :: "'a fproc_scheme \<Rightarrow> 'a fproc_scheme" where
  "fusion_stop p =
     (case g_fusion p of
        None \<Rightarrow> p
      | Some f \<Rightarrow> (publish_fusion_running_state False p)\<lparr>g_fusion := Some (f\<lparr>tf_running := False\<rparr>)\<rparr>)"

text \<open>\<^verbatim>\<open>g_fusion.reset()\<close>: the destructor stops once more.\<close>

definition fusion_reset :: "'a fproc_scheme \<Rightarrow> 'a fproc_scheme" where
  "fusion_reset p = (fusion_stop p)\<lparr>g_fusion := None\<rparr>"

definition release_helper :: "'a fproc_scheme \<Rightarrow> 'a fproc_scheme" where
  "release_helper p =
     (if g_direct_helper_ready p
      then (let (h, p) = tsd_telemetry_helper_destroy (g_direct_helper p) p
            in p\<lparr>g_direct_helper := h, g_direct_helper_ready := False\<rparr>)
      else p)"

definition reopen_gate :: "'a fproc_scheme \<Rightarrow> 'a fproc_scheme" where
  "reopen_gate p =
     (let p = (case tsd_runtime_safety_write_enter p of
            (Inr _, p) \<Rightarrow> tsd_runtime_safety_write_leave (p\<lparr>temperature_upgrade_allowed := True\<rparr>)
          | (Inl _, p) \<Rightarrow> p)
      in tsd_observability_update_temperature_channels (Some
           \<lparr>tc_raw_available = 0, tc_raw_package_temp_c = Fin 0, tc_filtered_available = 0, tc_filtered_package_temp_c = Fin 0\<rparr>) p)"

definition rollback_start_unlocked :: "'a fproc_scheme \<Rightarrow> 'a fproc_scheme" where
  "rollback_start_unlocked p =
     (let p = fusion_reset (fusion_stop p); p = release_helper (p\<lparr>g_manager := False\<rparr>);
          p = reset_signal_state_unlocked (p\<lparr>g_fusion_users := 0, g_fusion_cpu := - 1\<rparr>)
      in reopen_gate (p\<lparr>fusion_running := False\<rparr>))"

text \<open>
  The \<^verbatim>\<open>try\<close> block of \<^verbatim>\<open>start_unlocked\<close>: first up to the running engine, then the first sample. An engine
  left by a worker that stopped itself is destroyed when the new one takes its place.
\<close>

definition start_engine :: "int \<Rightarrow> 'a fproc_scheme \<Rightarrow> cpp_exception option \<times> 'a fproc_scheme" where
  "start_engine cpu p =
     (case may_throw p of
        (Some e, p) \<Rightarrow> (Some e, p)
      | (None, p) \<Rightarrow>
          (let p = p\<lparr>g_manager := True\<rparr>; config = default_config p
           in (case may_throw p of
                 (Some e, p) \<Rightarrow> (Some e, p)
               | (None, p) \<Rightarrow>
                   (let p = reset_signal_state_unlocked ((fusion_reset p)\<lparr>g_fusion := Some (fusion_make config [])\<rparr>);
                        (r, h, p) = tsd_telemetry_helper_init cpu (g_direct_helper p) p;
                        p = p\<lparr>g_direct_helper := h, g_direct_helper_ready := (r = ok), g_fusion_cpu := cpu\<rparr>;
                        (e, f, p) = fusion_start (fusion_make config []) p;
                        p = p\<lparr>g_fusion := Some f\<rparr>
                    in (case e of
                          Some e \<Rightarrow> (Some e, p)
                        | None \<Rightarrow> (None, p\<lparr>g_fusion_users := 1, fusion_running := True\<rparr>))))))"

definition start_sample :: "(u8 list \<Rightarrow> u8 list option) \<Rightarrow> 'a fproc_scheme \<Rightarrow> cpp_exception option \<times> 'a fproc_scheme" where
  "start_sample sha256 p =
     (if \<not> g_direct_helper_ready p then (None, update_temperature_gate_unlocked sha256 False p)
      else let (r, h, initial, p) = tsd_telemetry_helper_sample (g_direct_helper p) p; p = p\<lparr>g_direct_helper := h\<rparr>
           in if \<not> r then (None, update_temperature_gate_unlocked sha256 False p)
              else let (e, p) = (if sm_temp_available initial \<noteq> 0 \<or> sm_freq_ratio_available initial \<noteq> 0
                                 then publish_sample_unlocked initial p else (Inr False, p))
                   in (case e of
                         Inl e \<Rightarrow> (Some e, p)
                       | Inr _ \<Rightarrow>
                           (let initial' = (case (sm_temp_available initial \<noteq> 0, g_smoothed_temp_c p) of
                                  (True, Some v) \<Rightarrow> initial\<lparr>sm_filtered_temp_available := 1, sm_filtered_package_temp_millic := millic_of v\<rparr>
                                | _ \<Rightarrow> initial);
                                p = update_temperature_observability_unlocked initial' p
                            in (None, update_temperature_gate_unlocked sha256 (sm_temp_available initial \<noteq> 0) p))))"

text \<open>The number of an error code as an \<^verbatim>\<open>errno\<close> value, with the names the sources know.\<close>

definition errno_of_code :: "int \<Rightarrow> errno" where
  "errno_of_code code = (case map_of [(1, EPERM), (2, ENOENT), (3, ESRCH), (4, EINTR), (5, EIO), (7, E2BIG), (9, EBADF),
     (11, EAGAIN), (12, ENOMEM), (13, EACCES), (16, EBUSY), (19, ENODEV), (22, EINVAL), (34, ERANGE), (35, EDEADLK),
     (61, ENODATA), (95, EOPNOTSUPP), (129, EKEYREJECTED)] code of Some e \<Rightarrow> e | None \<Rightarrow> EOTHER (nat code))"

fun exception_errno :: "cpp_exception \<Rightarrow> errno" where
  "exception_errno Bad_alloc = ENOMEM"
| "exception_errno (System_error code) = (if code > 0 then errno_of_code code else EAGAIN)"
| "exception_errno Std_exception = EIO"
| "exception_errno Unknown_exception = EIO"

definition start_unlocked :: "(u8 list \<Rightarrow> u8 list option) \<Rightarrow> int \<Rightarrow> 'a fproc_scheme \<Rightarrow> rc \<times> 'a fproc_scheme" where
  "start_unlocked sha256 cpu p =
     (if cpu < 0 then (Inl EINVAL, p)
      else if runtime_config_initialized p \<and> telemetry_profile_path (runtime_config p) \<noteq> [] then (Inl ENOTSUP, p)
      else if (case g_fusion p of None \<Rightarrow> False | Some f \<Rightarrow> tf_running f) then
        (if cpu \<noteq> g_fusion_cpu p then (Inl EBUSY, p) else (ok, p\<lparr>g_fusion_users := g_fusion_users p + 1\<rparr>))
      else (case start_engine cpu p of
          (Some e, p) \<Rightarrow> (Inl (exception_errno e), rollback_start_unlocked p)
        | (None, p) \<Rightarrow>
            (case start_sample sha256 (worker_runs p) of
               (Some e, p) \<Rightarrow> (Inl (exception_errno e), rollback_start_unlocked p)
             | (None, p) \<Rightarrow> (ok, p))))"

section \<open>C interface\<close>

definition tsd_telemetry_fusion_start_for_cpu ::
    "(u8 list \<Rightarrow> u8 list option) \<Rightarrow> int \<Rightarrow> 'a fproc_scheme \<Rightarrow> rc \<times> 'a fproc_scheme" where
  "tsd_telemetry_fusion_start_for_cpu sha256 cpu p =
     (case may_throw p of (Some _, p) \<Rightarrow> (Inl EIO, p) | (None, p) \<Rightarrow> start_unlocked sha256 cpu p)"

definition tsd_telemetry_fusion_start :: "(u8 list \<Rightarrow> u8 list option) \<Rightarrow> 'a fproc_scheme \<Rightarrow> rc \<times> 'a fproc_scheme" where
  "tsd_telemetry_fusion_start sha256 p = tsd_telemetry_fusion_start_for_cpu sha256 0 p"

definition tsd_telemetry_fusion_stop :: "'a fproc_scheme \<Rightarrow> 'a fproc_scheme" where
  "tsd_telemetry_fusion_stop p =
     (case may_throw p of
        (Some _, p) \<Rightarrow> p
      | (None, p) \<Rightarrow>
          if g_fusion_users p > 1 then p\<lparr>g_fusion_users := g_fusion_users p - 1\<rparr>
          else let p = p\<lparr>g_fusion_users := 0\<rparr>;
                   p = (if g_fusion p \<noteq> None then fusion_reset (fusion_stop p) else p);
                   p = release_helper (p\<lparr>g_manager := False\<rparr>);
                   p = reset_signal_state_unlocked (p\<lparr>g_fusion_cpu := - 1\<rparr>)
               in reopen_gate (p\<lparr>fusion_running := False\<rparr>))"

definition tsd_telemetry_fusion_publish_sample ::
    "(u8 list \<Rightarrow> u8 list option) \<Rightarrow> tsd_telemetry_sample_t option \<Rightarrow> 'a fproc_scheme \<Rightarrow> rc \<times> 'a fproc_scheme" where
  "tsd_telemetry_fusion_publish_sample sha256 sample p =
     (case sample of
        None \<Rightarrow> (Inl EINVAL, p)
      | Some sample \<Rightarrow>
          (case may_throw p of
             (Some _, p) \<Rightarrow> (Inl EIO, p)
           | (None, p) \<Rightarrow>
               if g_fusion p = None \<or> \<not> g_manager p then (Inl ENODEV, p)
               else (case publish_sample_unlocked sample p of
                   (Inl _, p) \<Rightarrow> (Inl EIO, p)
                 | (Inr published, p) \<Rightarrow>
                     (let (now, p) = steady_clock_now p; safety = copy_raw_cache_unlocked now p zero_sample;
                          safety = (case g_smoothed_temp_c p of
                              None \<Rightarrow> safety
                            | Some v \<Rightarrow> safety\<lparr>sm_filtered_temp_available := 1, sm_filtered_package_temp_millic := millic_of v\<rparr>);
                          p = update_temperature_observability_unlocked safety p;
                          p = update_temperature_gate_unlocked sha256 (sm_temp_available safety \<noteq> 0) p
                      in (if published then ok else Inl ENODATA, p)))))"

text \<open>The sample is reset before anything can fail; \<open>wanted\<close> is whether the caller passed a place for it.\<close>

definition sample_direct :: "'a fproc_scheme \<Rightarrow> cpp_exception option \<times> 'a fproc_scheme" where
  "sample_direct p =
     (if \<not> g_direct_helper_ready p then (None, p)
      else let (r, h, direct, p) = tsd_telemetry_helper_sample (g_direct_helper p) p; p = p\<lparr>g_direct_helper := h\<rparr>
           in if r \<and> (sm_temp_available direct \<noteq> 0 \<or> sm_freq_ratio_available direct \<noteq> 0)
              then (case publish_sample_unlocked direct p of (Inl e, p) \<Rightarrow> (Some e, p) | (Inr _, p) \<Rightarrow> (None, p))
              else (None, p))"

definition tsd_telemetry_fusion_sample ::
    "(u8 list \<Rightarrow> u8 list option) \<Rightarrow> bool \<Rightarrow> 'a fproc_scheme \<Rightarrow> rc \<times> tsd_telemetry_sample_t \<times> 'a fproc_scheme" where
  "tsd_telemetry_fusion_sample sha256 wanted p =
     (if \<not> wanted then (Inl EINVAL, zero_sample, p)
      else (case may_throw p of
          (Some _, p) \<Rightarrow> (Inl EIO, zero_sample, p)
        | (None, p) \<Rightarrow>
            if g_fusion p = None then (Inl ENODEV, zero_sample, p)
            else (case sample_direct p of
                (Some _, p) \<Rightarrow> (Inl EIO, zero_sample, p)
              | (None, p) \<Rightarrow>
                  (let p = worker_runs p;
                       (filtered_usable, out) = (case Option.bind (g_fusion p) (ring_latest \<circ> tf_ring) of
                           None \<Rightarrow> (False, zero_sample)
                         | Some snapshot \<Rightarrow> copy_filtered_snapshot snapshot zero_sample);
                       (now, p) = steady_clock_now p;
                       out = fill_filtered_from_raw (copy_raw_cache_unlocked now p out);
                       p = update_temperature_observability_unlocked out p;
                       p = update_temperature_gate_unlocked sha256 (sm_temp_available out \<noteq> 0) p;
                       raw_usable = (sm_temp_available out \<noteq> 0 \<or> sm_freq_ratio_available out \<noteq> 0)
                   in (if raw_usable \<or> filtered_usable then ok else Inl ENODATA, out, p)))))"

end
