(* ===== verification/Perf.thy ===== *)
theory Perf
  imports Fusion_Bridge Statistics
begin

text \<open>
  \<^verbatim>\<open>src/thermal_perf.c\<close>: the context that measures the workload thread with a group of hardware counters, or
  falls back to software timing, fails closed when the counters are lost, and probes them again after a
  back-off. The test hooks compiled under \<^verbatim>\<open>TSD_ENABLE_TESTS\<close> are left out.
\<close>

section \<open>State\<close>

datatype tsd_perf_mode_t = TSD_PERF_MODE_NONE | TSD_PERF_MODE_HARDWARE | TSD_PERF_MODE_SOFTWARE

record perf_group_read_t =
  pg_nr :: u64
  pg_time_enabled :: u64
  pg_time_running :: u64
  pg_cycles :: u64
  pg_insns :: u64

definition zero_group_read :: perf_group_read_t where
  "zero_group_read = \<lparr>pg_nr = 0, pg_time_enabled = 0, pg_time_running = 0, pg_cycles = 0, pg_insns = 0\<rparr>"

text \<open>
  \<^verbatim>\<open>struct perf_ctx\<close>; a time stamp is a number of nanoseconds, a processor set a list. \<open>pc_workload\<close> is whether
  there is a workload callback.
\<close>

record perf_ctx =
  pc_fd_cycles :: int
  pc_fd_insns :: int
  pc_fd_llc_misses :: int
  pc_baseline_cpi :: u64
  pc_calibrated_cpi_reference :: u64
  pc_baseline_work_cost_milli :: u64
  pc_calibrated_work_reference :: u64
  pc_baseline_llc_mpki_milli :: u64
  pc_slow_cpi :: u64
  pc_fast_cpi :: u64
  pc_slow_llc_mpki :: u64
  pc_fast_llc_mpki :: u64
  pc_ratio_history :: "u32 list"
  pc_ratio_history_count :: nat
  pc_ratio_history_cursor :: nat
  pc_ratio_trimmed_milli :: u32
  pc_owner_tid :: int
  pc_original_affinity :: "nat list option"
  pc_pinned_cpu :: int
  pc_monitor_cpu :: int
  pc_last_group_read :: perf_group_read_t
  pc_last_group_valid :: bool
  pc_last_llc_value :: u64
  pc_zero_running_samples :: int
  pc_mode :: tsd_perf_mode_t
  pc_hardware_validated :: bool
  pc_software_adaptation :: bool
  pc_sw_last_timestamp :: int
  pc_sw_last_iterations :: u64
  pc_hw_last_iterations :: u64
  pc_workload :: bool
  pc_telemetry :: tsd_telemetry_helper_t
  pc_fusion_acquired :: bool
  pc_mode_entered_at :: int
  pc_timeout_notified :: bool
  pc_perf_retry_deadline_ns :: u64
  pc_perf_retry_backoff_seconds :: int
  pc_llc_retry_deadline_ns :: u64
  pc_llc_retry_backoff_seconds :: int
  pc_force_software :: bool

definition zero_ctx :: perf_ctx where
  "zero_ctx = \<lparr>pc_fd_cycles = 0, pc_fd_insns = 0, pc_fd_llc_misses = 0, pc_baseline_cpi = 0, pc_calibrated_cpi_reference = 0,
     pc_baseline_work_cost_milli = 0, pc_calibrated_work_reference = 0, pc_baseline_llc_mpki_milli = 0, pc_slow_cpi = 0,
     pc_fast_cpi = 0, pc_slow_llc_mpki = 0, pc_fast_llc_mpki = 0, pc_ratio_history = replicate TSD_RATIO_HISTORY 0,
     pc_ratio_history_count = 0, pc_ratio_history_cursor = 0, pc_ratio_trimmed_milli = 0, pc_owner_tid = 0,
     pc_original_affinity = None, pc_pinned_cpu = 0, pc_monitor_cpu = 0, pc_last_group_read = zero_group_read,
     pc_last_group_valid = False, pc_last_llc_value = 0, pc_zero_running_samples = 0, pc_mode = TSD_PERF_MODE_NONE,
     pc_hardware_validated = False, pc_software_adaptation = False, pc_sw_last_timestamp = 0, pc_sw_last_iterations = 0,
     pc_hw_last_iterations = 0, pc_workload = False, pc_telemetry = zero_helper, pc_fusion_acquired = False,
     pc_mode_entered_at = 0, pc_timeout_notified = False, pc_perf_retry_deadline_ns = 0, pc_perf_retry_backoff_seconds = 0,
     pc_llc_retry_deadline_ns = 0, pc_llc_retry_backoff_seconds = 0, pc_force_software = False\<rparr>"

text \<open>
  The environment of the file: what the next calls of \<^verbatim>\<open>perf_event_open\<close>, \<^verbatim>\<open>ioctl\<close> and \<^verbatim>\<open>read\<close> give (an
  exhausted list: no such event, success, end of file), the processors of the thread and what
  \<^verbatim>\<open>sched_getcpu\<close> says, the affinity that was set last, the work items completed during the next
  observations, and the value of \<^verbatim>\<open>TSD_FAKE_PERF\<close>.
\<close>

record pproc = fproc +
  perf_open_results :: "(errno + nat) list"
  ioctl_results :: "bool list"
  read_results :: "(errno + u8 list) list"
  allowed_cpus :: "nat list option"
  current_cpu :: int
  affinity :: "nat list"
  setaffinity_ok :: "bool list"
  observed_work :: "u64 list"
  fake_perf_env :: "string option"

record tsd_thermal_eval_t =
  te_performance_available :: int
  te_work_normalized :: int
  te_work_cost_milli :: u64
  te_cpi_milli :: u64
  te_ratio_milli :: u32
  te_trimmed_ratio_milli :: u32
  te_llc_mpki_milli :: u64
  te_severity_milli :: u64
  te_thermal_severity_milli :: u64
  te_memory_bound :: bool
  te_sample :: tsd_telemetry_sample_t

definition zero_eval :: tsd_thermal_eval_t where
  "zero_eval = \<lparr>te_performance_available = 0, te_work_normalized = 0, te_work_cost_milli = 0, te_cpi_milli = 0, te_ratio_milli = 0,
     te_trimmed_ratio_milli = 0, te_llc_mpki_milli = 0, te_severity_milli = 0, te_thermal_severity_milli = 0,
     te_memory_bound = False, te_sample = zero_sample\<rparr>"

section \<open>Domain, publication, clocks\<close>

definition reset_measurement_domain :: "perf_ctx \<Rightarrow> perf_ctx" where
  "reset_measurement_domain ctx = ctx\<lparr>pc_slow_cpi := 0, pc_fast_cpi := 0, pc_slow_llc_mpki := 0, pc_fast_llc_mpki := 0,
     pc_ratio_history := replicate TSD_RATIO_HISTORY 0, pc_ratio_history_count := 0, pc_ratio_history_cursor := 0,
     pc_ratio_trimmed_milli := 0\<rparr>"

fun mode_number :: "tsd_perf_mode_t \<Rightarrow> int" where
  "mode_number TSD_PERF_MODE_NONE = 0"
| "mode_number TSD_PERF_MODE_HARDWARE = 1"
| "mode_number TSD_PERF_MODE_SOFTWARE = 2"

definition publish_perf_state :: "perf_ctx \<Rightarrow> bool \<Rightarrow> 'a proc_scheme \<Rightarrow> 'a proc_scheme" where
  "publish_perf_state ctx healthy p = tsd_observability_update_perf (Some
     \<lparr>pt_mode = mode_number (pc_mode ctx), pt_counters_healthy = c_bool healthy,
      pt_pinned_cpu = pc_pinned_cpu ctx, pt_monitor_cpu = pc_monitor_cpu ctx\<rparr>) p"

text \<open>\<^verbatim>\<open>clock_gettime\<close> into a zeroed and into an old time stamp.\<close>

definition clock_or :: "int \<Rightarrow> 'a sproc_scheme \<Rightarrow> int \<times> 'a sproc_scheme" where
  "clock_or old s = (case clock_gettime s of (None, s) \<Rightarrow> (old, s) | (Some t, s) \<Rightarrow> (t, s))"

definition monotonic_now_ns :: "'a sproc_scheme \<Rightarrow> u64 \<times> 'a sproc_scheme" where
  "monotonic_now_ns s = (case clock_gettime s of (None, s) \<Rightarrow> (0, s) | (Some t, s) \<Rightarrow> (of_int t, s))"

definition timespec_diff_ns :: "int \<Rightarrow> int \<Rightarrow> u64" where
  "timespec_diff_ns start stop = (if stop - start < 0 then 0 else of_int (stop - start))"

section \<open>Back-off\<close>

abbreviation UINT64_MAX :: u64 where "UINT64_MAX \<equiv> - 1"
abbreviation PERF_INITIAL_BACKOFF_SEC :: int where "PERF_INITIAL_BACKOFF_SEC \<equiv> 5"
abbreviation PERF_MAX_BACKOFF_SEC :: int where "PERF_MAX_BACKOFF_SEC \<equiv> 60"

text \<open>The deadline and the next back-off, for either kind of counter.\<close>

definition next_retry :: "int \<Rightarrow> 'a sproc_scheme \<Rightarrow> (u64 \<times> int) \<times> 'a sproc_scheme" where
  "next_retry backoff s =
     (let backoff = (if backoff \<le> 0 then PERF_INITIAL_BACKOFF_SEC else backoff);
          delay = (if backoff > PERF_MAX_BACKOFF_SEC then PERF_MAX_BACKOFF_SEC else backoff);
          (now, s) = monotonic_now_ns s; delta = of_int delay * 1000000000;
          deadline = (if now > UINT64_MAX - delta then UINT64_MAX else now + delta);
          backoff = (if backoff < PERF_MAX_BACKOFF_SEC
                     then (if backoff * 2 > PERF_MAX_BACKOFF_SEC then PERF_MAX_BACKOFF_SEC else backoff * 2) else backoff)
      in ((deadline, backoff), s))"

definition reset_perf_retry :: "perf_ctx \<Rightarrow> perf_ctx" where
  "reset_perf_retry ctx = ctx\<lparr>pc_perf_retry_deadline_ns := 0, pc_perf_retry_backoff_seconds := PERF_INITIAL_BACKOFF_SEC\<rparr>"

definition schedule_perf_retry :: "perf_ctx \<Rightarrow> 'a sproc_scheme \<Rightarrow> perf_ctx \<times> 'a sproc_scheme" where
  "schedule_perf_retry ctx s =
     (if pc_force_software ctx then (ctx, s)
      else let ((deadline, backoff), s) = next_retry (pc_perf_retry_backoff_seconds ctx) s
           in (ctx\<lparr>pc_perf_retry_deadline_ns := deadline, pc_perf_retry_backoff_seconds := backoff\<rparr>, s))"

definition perf_retry_due :: "perf_ctx \<Rightarrow> 'a sproc_scheme \<Rightarrow> bool \<times> 'a sproc_scheme" where
  "perf_retry_due ctx s =
     (if pc_force_software ctx then (False, s)
      else if pc_perf_retry_deadline_ns ctx = 0 then (True, s)
      else let (now, s) = monotonic_now_ns s in (now \<ge> pc_perf_retry_deadline_ns ctx, s))"

definition reset_llc_retry :: "perf_ctx \<Rightarrow> perf_ctx" where
  "reset_llc_retry ctx = ctx\<lparr>pc_llc_retry_deadline_ns := 0, pc_llc_retry_backoff_seconds := PERF_INITIAL_BACKOFF_SEC\<rparr>"

definition schedule_llc_retry :: "perf_ctx \<Rightarrow> 'a sproc_scheme \<Rightarrow> perf_ctx \<times> 'a sproc_scheme" where
  "schedule_llc_retry ctx s =
     (if pc_force_software ctx then (ctx, s)
      else let ((deadline, backoff), s) = next_retry (pc_llc_retry_backoff_seconds ctx) s
           in (ctx\<lparr>pc_llc_retry_deadline_ns := deadline, pc_llc_retry_backoff_seconds := backoff\<rparr>, s))"

definition llc_retry_due :: "perf_ctx \<Rightarrow> 'a sproc_scheme \<Rightarrow> bool \<times> 'a sproc_scheme" where
  "llc_retry_due ctx s =
     (if pc_force_software ctx \<or> pc_mode ctx \<noteq> TSD_PERF_MODE_HARDWARE then (False, s)
      else if pc_llc_retry_deadline_ns ctx = 0 then (True, s)
      else let (now, s) = monotonic_now_ns s in (now \<ge> pc_llc_retry_deadline_ns ctx, s))"

section \<open>Modes\<close>

definition enter_software :: "(u8 list \<Rightarrow> u8 list option) \<Rightarrow> perf_ctx \<Rightarrow> 'a sproc_scheme \<Rightarrow> perf_ctx \<times> 'a sproc_scheme" where
  "enter_software sha256 ctx p =
     (let p = tsd_runtime_wide_admission_close p;
          ctx = ctx\<lparr>pc_calibrated_cpi_reference := 0, pc_calibrated_work_reference := 0, pc_hardware_validated := False\<rparr>;
          p = count_metric TSD_METRIC_PERF_FALLBACKS p;
          p = p\<lparr>degraded_active := tsd_runtime_config_enter_degraded_mode (Some GlobalConfig) (degraded_active p)\<rparr>;
          p = publish_perf_state ctx False p
      in (ctx, if tsd_trampoline_state_current_width (tstate p) \<noteq> SIMD_SSE41
               then snd (tsd_trampoline_patch sha256 SIMD_SSE41 p) else p))"

definition enter_hardware :: "tsd_perf_mode_t \<Rightarrow> perf_ctx \<Rightarrow> 'a sproc_scheme \<Rightarrow> perf_ctx \<times> 'a sproc_scheme" where
  "enter_hardware previous ctx p =
     (let p = (if previous = TSD_PERF_MODE_SOFTWARE \<and> pc_hardware_validated ctx
               then count_metric TSD_METRIC_PERF_RECOVERIES p else p);
          p = p\<lparr>degraded_active := tsd_runtime_config_exit_degraded_mode (Some GlobalConfig) (degraded_active p)\<rparr>
      in (ctx, publish_perf_state ctx (pc_hardware_validated ctx) p))"

definition perf_set_mode ::
    "(u8 list \<Rightarrow> u8 list option) \<Rightarrow> tsd_perf_mode_t \<Rightarrow> perf_ctx \<Rightarrow> 'a sproc_scheme \<Rightarrow> perf_ctx \<times> 'a sproc_scheme" where
  "perf_set_mode sha256 mode ctx p =
     (let previous = pc_mode ctx
      in if previous = mode
         then (ctx, publish_perf_state ctx (mode = TSD_PERF_MODE_HARDWARE \<and> pc_hardware_validated ctx) p)
         else let ctx = (reset_measurement_domain ctx)\<lparr>pc_mode := mode\<rparr>;
                  (t, p) = clock_or (pc_mode_entered_at ctx) p;
                  ctx = ctx\<lparr>pc_mode_entered_at := t, pc_timeout_notified := False\<rparr>
              in (case mode of
                    TSD_PERF_MODE_SOFTWARE \<Rightarrow> enter_software sha256 ctx p
                  | TSD_PERF_MODE_HARDWARE \<Rightarrow> enter_hardware previous ctx p
                  | TSD_PERF_MODE_NONE \<Rightarrow>
                      (let ctx = ctx\<lparr>pc_hardware_validated := False\<rparr> in (ctx, publish_perf_state ctx False p))))"

definition perf_software_timeout_exceeded :: "perf_ctx \<Rightarrow> int \<Rightarrow> 'a sproc_scheme \<Rightarrow> bool \<times> 'a sproc_scheme" where
  "perf_software_timeout_exceeded ctx timeout_sec p =
     (if timeout_sec \<le> 0 \<or> pc_mode ctx \<noteq> TSD_PERF_MODE_SOFTWARE then (False, p)
      else let (now, p) = clock_or 0 p
           in (timespec_diff_ns (pc_mode_entered_at ctx) now \<ge> of_int timeout_sec * 1000000000, p))"

section \<open>Reading counters\<close>

text \<open>
  The loop of \<^verbatim>\<open>tsd_perf_read_exact\<close> over the results of \<^verbatim>\<open>read\<close>: an interrupted call is repeated, an error or
  the end of the file gives up, and a call never gives more than what it was asked for.
\<close>

fun read_loop :: "nat \<Rightarrow> u8 list \<Rightarrow> (errno + u8 list) list \<Rightarrow> u8 list option \<times> (errno + u8 list) list" where
  "read_loop want out [] = (if length out < want then None else Some out, [])"
| "read_loop want out (r # rs) =
     (if length out < want
      then (case r of
              Inl e \<Rightarrow> if e = EINTR then read_loop want out rs else (None, rs)
            | Inr bytes \<Rightarrow> if bytes = [] then (None, rs)
                           else read_loop want (out @ take (want - length out) bytes) rs)
      else (Some out, r # rs))"

definition tsd_perf_read_exact :: "int \<Rightarrow> nat \<Rightarrow> 'a pproc_scheme \<Rightarrow> u8 list option \<times> 'a pproc_scheme" where
  "tsd_perf_read_exact fd want p =
     (if fd < 0 \<or> want = 0 then (None, p)
      else let (r, rest) = read_loop want [] (read_results p) in (r, p\<lparr>read_results := rest\<rparr>))"

text \<open>The words of the structures that are read, little endian.\<close>

primrec le_word :: "u8 list \<Rightarrow> u64" where
  "le_word [] = 0"
| "le_word (b # bs) = ucast b + 256 * le_word bs"

definition word_at :: "u8 list \<Rightarrow> nat \<Rightarrow> u64" where
  "word_at bs i = le_word (take 8 (drop (8 * i) bs))"

definition read_group :: "int \<Rightarrow> 'a pproc_scheme \<Rightarrow> perf_group_read_t option \<times> 'a pproc_scheme" where
  "read_group fd p =
     (case tsd_perf_read_exact fd 40 p of
        (None, p) \<Rightarrow> (None, p)
      | (Some bs, p) \<Rightarrow>
          (Some \<lparr>pg_nr = word_at bs 0, pg_time_enabled = word_at bs 1, pg_time_running = word_at bs 2,
                 pg_cycles = word_at bs 3, pg_insns = word_at bs 4\<rparr>, p))"

definition read_counter :: "int \<Rightarrow> 'a pproc_scheme \<Rightarrow> u64 option \<times> 'a pproc_scheme" where
  "read_counter fd p =
     (case tsd_perf_read_exact fd 8 p of (None, p) \<Rightarrow> (None, p) | (Some bs, p) \<Rightarrow> (Some (word_at bs 0), p))"

definition fill_missing_filtered :: "tsd_telemetry_sample_t \<Rightarrow> tsd_telemetry_sample_t" where
  "fill_missing_filtered out =
     (let out = (if sm_temp_available out \<noteq> 0 \<and> sm_filtered_temp_available out = 0
                 then out\<lparr>sm_filtered_temp_available := 1, sm_filtered_package_temp_millic := sm_package_temp_millic out\<rparr> else out)
      in if sm_freq_ratio_available out \<noteq> 0 \<and> sm_filtered_freq_ratio_available out = 0
         then out\<lparr>sm_filtered_freq_ratio_available := 1, sm_filtered_freq_ratio_milli := sm_freq_ratio_milli out\<rparr> else out)"

definition fetch_direct_telemetry :: "perf_ctx \<Rightarrow> 'a sproc_scheme \<Rightarrow> tsd_telemetry_sample_t \<times> perf_ctx \<times> 'a sproc_scheme" where
  "fetch_direct_telemetry ctx p =
     (let (_, h, out, p) = tsd_telemetry_helper_sample (pc_telemetry ctx) p
      in (fill_missing_filtered out, ctx\<lparr>pc_telemetry := h\<rparr>, p))"

definition fetch_fused_telemetry :: "(u8 list \<Rightarrow> u8 list option) \<Rightarrow> perf_ctx \<Rightarrow> 'a fproc_scheme \<Rightarrow>
    tsd_telemetry_sample_t \<times> perf_ctx \<times> 'a fproc_scheme" where
  "fetch_fused_telemetry sha256 ctx p =
     (if pc_fusion_acquired ctx
      then (case tsd_telemetry_fusion_sample sha256 True p of
              (Inr _, out, p) \<Rightarrow> (out, ctx, p)
            | (Inl _, _, p) \<Rightarrow> fetch_direct_telemetry ctx p)
      else fetch_direct_telemetry ctx p)"

definition perf_ioctl :: "int \<Rightarrow> bool \<Rightarrow> 'a pproc_scheme \<Rightarrow> bool \<times> 'a pproc_scheme" where
  "perf_ioctl fd required p =
     (if fd < 0 then (\<not> required, p)
      else let (r, rest) = next_of True (ioctl_results p) in (r, p\<lparr>ioctl_results := rest\<rparr>))"

definition should_fallback_to_software :: "errno \<Rightarrow> bool" where
  "should_fallback_to_software err = (err = EACCES \<or> err = EPERM \<or> err = ENOENT \<or> err = EOPNOTSUPP)"

definition scale_counter :: "u64 \<Rightarrow> u64 \<Rightarrow> u64 \<Rightarrow> u64" where
  "scale_counter delta time_enabled time_running =
     (if time_running = 0 \<or> time_enabled = 0 then 0
      else of_nat ((unat delta * unat time_enabled) div unat time_running))"

definition group_order_valid :: "perf_group_read_t \<Rightarrow> perf_group_read_t \<Rightarrow> bool" where
  "group_order_valid a b =
     (\<not> (pg_nr a \<noteq> 2 \<or> pg_nr b \<noteq> 2) \<and>
      \<not> (pg_time_enabled b < pg_time_enabled a \<or> pg_time_running b < pg_time_running a) \<and>
      \<not> (pg_cycles b < pg_cycles a \<or> pg_insns b < pg_insns a))"

definition group_baseline_progress_valid :: "perf_group_read_t \<Rightarrow> perf_group_read_t \<Rightarrow> bool" where
  "group_baseline_progress_valid a b =
     (group_order_valid a b \<and> pg_time_enabled b > pg_time_enabled a \<and> pg_time_running b > pg_time_running a \<and>
      pg_cycles b > pg_cycles a \<and> pg_insns b > pg_insns a)"

section \<open>Opening and closing\<close>

definition perf_event_open_sys :: "'a pproc_scheme \<Rightarrow> (errno + nat) \<times> 'a pproc_scheme" where
  "perf_event_open_sys p =
     (case next_of (Inl ENOENT) (perf_open_results p) of
        (Inl e, rest) \<Rightarrow> (Inl e, p\<lparr>perf_open_results := rest\<rparr>)
      | (Inr fd, rest) \<Rightarrow> (Inr fd, p\<lparr>perf_open_results := rest, fd_table := int fd # fd_table p\<rparr>))"

definition close_if_open :: "int \<Rightarrow> 'a sproc_scheme \<Rightarrow> 'a sproc_scheme" where
  "close_if_open fd p = (if fd \<ge> 0 then close_fd fd p else p)"

definition close_perf_events :: "perf_ctx \<Rightarrow> 'a sproc_scheme \<Rightarrow> perf_ctx \<times> 'a sproc_scheme" where
  "close_perf_events ctx p =
     (ctx\<lparr>pc_fd_cycles := - 1, pc_fd_insns := - 1, pc_fd_llc_misses := - 1, pc_last_group_valid := False,
          pc_last_llc_value := 0, pc_zero_running_samples := 0\<rparr>,
      close_if_open (pc_fd_llc_misses ctx) (close_if_open (pc_fd_insns ctx) (close_if_open (pc_fd_cycles ctx) p)))"

abbreviation CPU_SETSIZE :: nat where "CPU_SETSIZE \<equiv> 1024"

text \<open>The first two members of a processor set, \<open>- 1\<close> where there are fewer.\<close>

definition first_two_cpus :: "nat list \<Rightarrow> int \<times> int" where
  "first_two_cpus allowed =
     (case filter (\<lambda>c. c \<in> set allowed) [0..<CPU_SETSIZE] of
        [] \<Rightarrow> (- 1, - 1) | [a] \<Rightarrow> (int a, - 1) | a # b # _ \<Rightarrow> (int a, int b))"

definition set_affinity :: "nat list \<Rightarrow> 'a pproc_scheme \<Rightarrow> 'a pproc_scheme" where
  "set_affinity cpus p =
     (let (r, rest) = next_of True (setaffinity_ok p); p = p\<lparr>setaffinity_ok := rest\<rparr>
      in if r then p\<lparr>affinity := cpus\<rparr> else p)"

definition select_runtime_cpus :: "int \<Rightarrow> perf_ctx \<Rightarrow> 'a pproc_scheme \<Rightarrow> perf_ctx \<times> 'a pproc_scheme" where
  "select_runtime_cpus tid ctx p =
     (let ctx = ctx\<lparr>pc_owner_tid := tid\<rparr>;
          (ctx, fst_cpu, snd_cpu) = (case allowed_cpus p of
              None \<Rightarrow> (ctx, - 1, - 1)
            | Some allowed \<Rightarrow> (ctx\<lparr>pc_original_affinity := Some allowed\<rparr>, first_two_cpus allowed));
          (fst_cpu, snd_cpu) = (if fst_cpu < 0
              then (let c = (if current_cpu p \<ge> 0 then current_cpu p else 0) in (c, c)) else (fst_cpu, snd_cpu));
          snd_cpu = (if snd_cpu < 0 then fst_cpu else snd_cpu)
      in (ctx\<lparr>pc_pinned_cpu := fst_cpu, pc_monitor_cpu := snd_cpu\<rparr>, set_affinity [nat fst_cpu] p))"

definition restore_owner_affinity :: "perf_ctx \<Rightarrow> 'a pproc_scheme \<Rightarrow> perf_ctx \<times> 'a pproc_scheme" where
  "restore_owner_affinity ctx p =
     (case pc_original_affinity ctx of
        None \<Rightarrow> (ctx, p)
      | Some cpus \<Rightarrow> if pc_owner_tid ctx \<le> 0 then (ctx, p)
                     else (ctx\<lparr>pc_original_affinity := None\<rparr>, set_affinity cpus p))"

definition open_llc_event :: "perf_ctx \<Rightarrow> 'a pproc_scheme \<Rightarrow> rc \<times> perf_ctx \<times> 'a pproc_scheme" where
  "open_llc_event ctx p =
     (let p = close_if_open (pc_fd_llc_misses ctx) p;
          ctx = (if pc_fd_llc_misses ctx \<ge> 0 then ctx\<lparr>pc_fd_llc_misses := - 1\<rparr> else ctx)
      in (case perf_event_open_sys p of
            (Inl e, p) \<Rightarrow> (let (ctx, p) = schedule_llc_retry ctx p in (Inl e, ctx, p))
          | (Inr fd, p) \<Rightarrow> (ok, reset_llc_retry (ctx\<lparr>pc_fd_llc_misses := int fd\<rparr>), p)))"

definition open_perf_events :: "perf_ctx \<Rightarrow> 'a pproc_scheme \<Rightarrow> rc \<times> perf_ctx \<times> 'a pproc_scheme" where
  "open_perf_events ctx p =
     (let (ctx, p) = close_perf_events ctx p
      in (case perf_event_open_sys p of
            (Inl e, p) \<Rightarrow> (Inl e, ctx, p)
          | (Inr fd_cycles, p) \<Rightarrow>
              (let ctx = ctx\<lparr>pc_fd_cycles := int fd_cycles\<rparr>
               in (case perf_event_open_sys p of
                     (Inl e, p) \<Rightarrow> (let (ctx, p) = close_perf_events ctx p in (Inl e, ctx, p))
                   | (Inr fd_insns, p) \<Rightarrow>
                       (let (_, ctx, p) = open_llc_event (ctx\<lparr>pc_fd_insns := int fd_insns\<rparr>) p
                        in (ok, reset_perf_retry ctx, p))))))"

text \<open>The optional counter is given up and probed again later, as here, on every failure.\<close>

definition drop_llc :: "perf_ctx \<Rightarrow> 'a sproc_scheme \<Rightarrow> perf_ctx \<times> 'a sproc_scheme" where
  "drop_llc ctx p = schedule_llc_retry (ctx\<lparr>pc_fd_llc_misses := - 1\<rparr>) (close_fd (pc_fd_llc_misses ctx) p)"

definition enable_optional_llc :: "perf_ctx \<Rightarrow> 'a pproc_scheme \<Rightarrow> bool \<times> perf_ctx \<times> 'a pproc_scheme" where
  "enable_optional_llc ctx p =
     (if pc_fd_llc_misses ctx < 0 then (True, ctx, p)
      else (case perf_ioctl (pc_fd_llc_misses ctx) False p of
              (False, p) \<Rightarrow> (False, drop_llc ctx p)
            | (True, p) \<Rightarrow>
                (case perf_ioctl (pc_fd_llc_misses ctx) False p of
                   (False, p) \<Rightarrow> (False, drop_llc ctx p)
                 | (True, p) \<Rightarrow> (True, ctx, p))))"

definition enable_perf_events_strict :: "perf_ctx \<Rightarrow> 'a pproc_scheme \<Rightarrow> bool \<times> perf_ctx \<times> 'a pproc_scheme" where
  "enable_perf_events_strict ctx p =
     (if pc_fd_cycles ctx < 0 \<or> pc_fd_insns ctx < 0 then (False, ctx, p)
      else (case perf_ioctl (pc_fd_cycles ctx) True p of
              (False, p) \<Rightarrow> (False, ctx, p)
            | (True, p) \<Rightarrow>
                (case perf_ioctl (pc_fd_cycles ctx) True p of
                   (False, p) \<Rightarrow> (False, ctx, p)
                 | (True, p) \<Rightarrow> (let (_, ctx, p) = enable_optional_llc ctx p in (True, ctx, p)))))"

definition perf_fail_closed :: "(u8 list \<Rightarrow> u8 list option) \<Rightarrow> perf_ctx \<Rightarrow> 'a sproc_scheme \<Rightarrow> perf_ctx \<times> 'a sproc_scheme" where
  "perf_fail_closed sha256 ctx p =
     (let (ctx, p) = close_perf_events ctx p;
          ctx = ctx\<lparr>pc_hardware_validated := False, pc_software_adaptation := False\<rparr>;
          (ctx, p) = schedule_perf_retry ctx p
      in perf_set_mode sha256 TSD_PERF_MODE_SOFTWARE ctx p)"

section \<open>Life of a context\<close>

definition fresh_ctx :: "bool \<Rightarrow> perf_ctx" where
  "fresh_ctx workload = reset_llc_retry (reset_perf_retry (zero_ctx\<lparr>pc_fd_cycles := - 1, pc_fd_insns := - 1,
     pc_fd_llc_misses := - 1, pc_mode := TSD_PERF_MODE_NONE, pc_workload := workload\<rparr>))"

definition acquire_telemetry ::
    "(u8 list \<Rightarrow> u8 list option) \<Rightarrow> perf_ctx \<Rightarrow> 'a fproc_scheme \<Rightarrow> perf_ctx \<times> 'a fproc_scheme" where
  "acquire_telemetry sha256 ctx p =
     (let (_, h, p) = tsd_telemetry_helper_init (pc_pinned_cpu ctx) (pc_telemetry ctx) p;
          (r, p) = tsd_telemetry_fusion_start_for_cpu sha256 (pc_pinned_cpu ctx) p
      in (ctx\<lparr>pc_telemetry := h, pc_fusion_acquired := (r = ok)\<rparr>, p))"

definition env_forces_software :: "string option \<Rightarrow> bool" where
  "env_forces_software env = (case env of None \<Rightarrow> False | Some v \<Rightarrow> v \<noteq> [] \<and> v \<noteq> ''0'')"

definition open_initial ::
    "(u8 list \<Rightarrow> u8 list option) \<Rightarrow> perf_ctx \<Rightarrow> 'a pproc_scheme \<Rightarrow> perf_ctx \<times> 'a pproc_scheme" where
  "open_initial sha256 ctx p =
     (if pc_force_software ctx then perf_set_mode sha256 TSD_PERF_MODE_SOFTWARE ctx p
      else (case open_perf_events ctx p of
              (Inl _, ctx, p) \<Rightarrow>
                (let (ctx, p) = schedule_perf_retry ctx p in perf_set_mode sha256 TSD_PERF_MODE_SOFTWARE ctx p)
            | (Inr _, ctx, p) \<Rightarrow>
                perf_set_mode sha256 TSD_PERF_MODE_HARDWARE (ctx\<lparr>pc_hardware_validated := False\<rparr>) p))"

text \<open>\<open>tid\<close> is the calling thread; \<^verbatim>\<open>calloc\<close> may fail.\<close>

definition tsd_perf_init ::
    "(u8 list \<Rightarrow> u8 list option) \<Rightarrow> int \<Rightarrow> bool \<Rightarrow> 'a pproc_scheme \<Rightarrow> perf_ctx option \<times> 'a pproc_scheme" where
  "tsd_perf_init sha256 tid workload p =
     (let (allocated, rest) = next_of True (calloc_ok p); p = p\<lparr>calloc_ok := rest\<rparr>
      in if \<not> allocated then (None, p)
         else let ctx = fresh_ctx workload;
                  (t, p) = clock_or (pc_mode_entered_at ctx) p;
                  (ctx, p) = select_runtime_cpus tid (ctx\<lparr>pc_mode_entered_at := t\<rparr>) p;
                  p = publish_perf_state ctx False p;
                  (ctx, p) = acquire_telemetry sha256 ctx p;
                  (ctx, p) = open_initial sha256 (ctx\<lparr>pc_force_software := env_forces_software (fake_perf_env p)\<rparr>) p
              in (Some ctx, p))"

definition perf_enable ::
    "(u8 list \<Rightarrow> u8 list option) \<Rightarrow> perf_ctx \<Rightarrow> 'a pproc_scheme \<Rightarrow> perf_ctx \<times> 'a pproc_scheme" where
  "perf_enable sha256 ctx p =
     (if pc_mode ctx \<noteq> TSD_PERF_MODE_HARDWARE then (ctx, p)
      else (case enable_perf_events_strict ctx p of
              (True, ctx, p) \<Rightarrow> (ctx, p)
            | (False, ctx, p) \<Rightarrow> perf_fail_closed sha256 ctx p))"

definition tsd_perf_enable ::
    "(u8 list \<Rightarrow> u8 list option) \<Rightarrow> perf_ctx option \<Rightarrow> 'a pproc_scheme \<Rightarrow> perf_ctx option \<times> 'a pproc_scheme" where
  "tsd_perf_enable sha256 ctx p =
     (case ctx of None \<Rightarrow> (None, p) | Some ctx \<Rightarrow> (let (ctx, p) = perf_enable sha256 ctx p in (Some ctx, p)))"

definition tsd_perf_disable :: "perf_ctx \<Rightarrow> 'a pproc_scheme \<Rightarrow> 'a pproc_scheme" where
  "tsd_perf_disable ctx p =
     (if pc_mode ctx \<noteq> TSD_PERF_MODE_HARDWARE then p
      else snd (perf_ioctl (pc_fd_llc_misses ctx) False (snd (perf_ioctl (pc_fd_cycles ctx) False p))))"

text \<open>The context is freed at the end, so only the process is left.\<close>

definition perf_cleanup :: "perf_ctx \<Rightarrow> 'a pproc_scheme \<Rightarrow> 'a pproc_scheme" where
  "perf_cleanup ctx p =
     (let (ctx, p) = close_perf_events ctx (tsd_perf_disable ctx p);
          (h, p) = tsd_telemetry_helper_destroy (pc_telemetry ctx) p;
          p = (if pc_fusion_acquired ctx then tsd_telemetry_fusion_stop p else p);
          ctx = ctx\<lparr>pc_telemetry := h, pc_mode := TSD_PERF_MODE_NONE, pc_hardware_validated := False\<rparr>;
          p = publish_perf_state ctx False p
      in snd (restore_owner_affinity ctx p))"

definition tsd_perf_cleanup :: "perf_ctx option \<Rightarrow> 'a pproc_scheme \<Rightarrow> 'a pproc_scheme" where
  "tsd_perf_cleanup ctx p = (case ctx of None \<Rightarrow> p | Some ctx \<Rightarrow> perf_cleanup ctx p)"

section \<open>Baselines\<close>

text \<open>
  What runs during an observation is the workload callback, or another thread while this one sleeps: either way
  the number of completed work items has advanced by what the environment says.
\<close>

definition create_baseline_observation :: "'a pproc_scheme \<Rightarrow> 'a pproc_scheme" where
  "create_baseline_observation p =
     (let (n, rest) = next_of 0 (observed_work p)
      in p\<lparr>observed_work := rest, workload_iterations := workload_iterations p + n\<rparr>)"

abbreviation MPKI_SCALE :: u64 where "MPKI_SCALE \<equiv> 1000000"

definition or_default :: "u64 \<Rightarrow> u64 \<Rightarrow> u64" where
  "or_default d v = (if v \<noteq> 0 then v else d)"

definition cost_milli :: "u64 \<Rightarrow> u64 \<Rightarrow> u64" where
  "cost_milli cycles work = (if work \<noteq> 0 then of_nat ((unat cycles * 1000) div unat work) else 0)"

definition initial_trimmed :: "tsd_runtime_config option \<Rightarrow> u32" where
  "initial_trimmed cfg = (case cfg of None \<Rightarrow> 1500 | Some c \<Rightarrow> ucast (down_ratio_milli c))"

text \<open>The fields that a successful measurement of the hardware counters writes.\<close>

definition store_hardware_baseline ::
    "tsd_runtime_config option \<Rightarrow> perf_group_read_t \<Rightarrow> u64 \<Rightarrow> u64 \<Rightarrow> u64 \<Rightarrow> u64 \<Rightarrow> u64 \<Rightarrow> u64 \<Rightarrow> perf_ctx \<Rightarrow> perf_ctx" where
  "store_hardware_baseline cfg rd_after delta_cycles delta_insns llc_before llc_after work_before work_after ctx =
     (let cpi = (delta_cycles * 1000) div delta_insns;
          work = cost_milli delta_cycles (if work_after \<ge> work_before then work_after - work_before else 0);
          delta_llc = (if pc_fd_llc_misses ctx \<ge> 0 \<and> llc_after \<ge> llc_before then llc_after - llc_before else 0);
          mpki = or_default 1000 ((delta_llc * MPKI_SCALE) div delta_insns)
      in ctx\<lparr>pc_baseline_cpi := cpi, pc_calibrated_cpi_reference := or_default 1 cpi,
             pc_baseline_work_cost_milli := work, pc_calibrated_work_reference := work, pc_hw_last_iterations := work_after,
             pc_baseline_llc_mpki_milli := mpki, pc_slow_cpi := or_default 1000 cpi, pc_fast_cpi := or_default 1000 cpi,
             pc_slow_llc_mpki := mpki, pc_fast_llc_mpki := mpki, pc_ratio_history_count := 0, pc_ratio_history_cursor := 0,
             pc_ratio_trimmed_milli := initial_trimmed cfg, pc_last_group_read := rd_after, pc_last_group_valid := True,
             pc_last_llc_value := llc_after, pc_zero_running_samples := 0\<rparr>)"

definition read_llc_or :: "u64 \<Rightarrow> perf_ctx \<Rightarrow> 'a pproc_scheme \<Rightarrow> u64 \<times> 'a pproc_scheme" where
  "read_llc_or other ctx p =
     (if pc_fd_llc_misses ctx \<ge> 0
      then (case read_counter (pc_fd_llc_misses ctx) p of (None, p) \<Rightarrow> (other, p) | (Some v, p) \<Rightarrow> (v, p))
      else (0, p))"

definition measure_hardware_baseline :: "(u8 list \<Rightarrow> u8 list option) \<Rightarrow> perf_ctx \<Rightarrow> tsd_runtime_config option \<Rightarrow>
    'a pproc_scheme \<Rightarrow> bool \<times> perf_ctx \<times> 'a pproc_scheme" where
  "measure_hardware_baseline sha256 ctx cfg p =
     (case read_group (pc_fd_cycles ctx) p of
        (None, p) \<Rightarrow> (False, ctx, p)
      | (Some rd_before, p) \<Rightarrow>
          if pg_nr rd_before \<noteq> 2 then (False, ctx, p)
          else let (llc_before, p) = read_llc_or 0 ctx p;
                   work_before = workload_iterations p; p = create_baseline_observation p; work_after = workload_iterations p
               in (case read_group (pc_fd_cycles ctx) p of
                     (None, p) \<Rightarrow> (False, ctx, p)
                   | (Some rd_after, p) \<Rightarrow>
                       if pg_nr rd_after \<noteq> 2 \<or> \<not> group_baseline_progress_valid rd_before rd_after then (False, ctx, p)
                       else let (llc_after, p) = read_llc_or llc_before ctx p;
                                enabled_delta = pg_time_enabled rd_after - pg_time_enabled rd_before;
                                running_delta = pg_time_running rd_after - pg_time_running rd_before;
                                delta_cycles = scale_counter (pg_cycles rd_after - pg_cycles rd_before) enabled_delta running_delta;
                                delta_insns = scale_counter (pg_insns rd_after - pg_insns rd_before) enabled_delta running_delta
                            in if delta_cycles = 0 \<or> delta_insns = 0 then (False, ctx, p)
                               else let ctx = store_hardware_baseline cfg rd_after delta_cycles delta_insns llc_before llc_after
                                                work_before work_after ctx;
                                        (_, ctx, p) = fetch_fused_telemetry sha256 ctx p
                                    in (True, ctx, p)))"

definition measure_software_baseline :: "tsd_runtime_config option \<Rightarrow> perf_ctx \<Rightarrow> 'a pproc_scheme \<Rightarrow> perf_ctx \<times> 'a pproc_scheme" where
  "measure_software_baseline cfg ctx p =
     (let before_iters = workload_iterations p; (start, p) = clock_or 0 p; p = create_baseline_observation p;
          (stop, p) = clock_or 0 p; after_iters = workload_iterations p;
          delta_iters = (if after_iters > before_iters then after_iters - before_iters else 100000);
          elapsed_ns = or_default 1 (timespec_diff_ns start stop);
          surrogate_cpi = or_default 1000 (if delta_iters = 0 then 1000 else (elapsed_ns * 1000) div delta_iters);
          ctx = ctx\<lparr>pc_baseline_cpi := surrogate_cpi, pc_calibrated_cpi_reference := surrogate_cpi, pc_baseline_llc_mpki_milli := 1000,
                    pc_slow_cpi := surrogate_cpi, pc_fast_cpi := surrogate_cpi, pc_slow_llc_mpki := 1000, pc_fast_llc_mpki := 1000,
                    pc_ratio_history_count := 0, pc_ratio_history_cursor := 0, pc_ratio_trimmed_milli := initial_trimmed cfg,
                    pc_last_group_valid := False, pc_last_llc_value := 0, pc_software_adaptation := True,
                    pc_sw_last_iterations := workload_iterations p\<rparr>;
          (t, p) = clock_or (pc_sw_last_timestamp ctx) p
      in (ctx\<lparr>pc_sw_last_timestamp := t\<rparr>, p))"

definition perf_measure_baseline :: "(u8 list \<Rightarrow> u8 list option) \<Rightarrow> perf_ctx \<Rightarrow> tsd_runtime_config option \<Rightarrow>
    'a pproc_scheme \<Rightarrow> perf_ctx \<times> 'a pproc_scheme" where
  "perf_measure_baseline sha256 ctx cfg p =
     (if pc_mode ctx = TSD_PERF_MODE_SOFTWARE then measure_software_baseline cfg ctx p
      else if pc_mode ctx \<noteq> TSD_PERF_MODE_HARDWARE then (ctx, p)
      else (case enable_perf_events_strict ctx p of
              (False, ctx, p) \<Rightarrow> perf_fail_closed sha256 ctx p
            | (True, ctx, p) \<Rightarrow>
                (case measure_hardware_baseline sha256 ctx cfg p of
                   (False, ctx, p) \<Rightarrow> perf_fail_closed sha256 ctx p
                 | (True, ctx, p) \<Rightarrow>
                     (let ctx = ctx\<lparr>pc_hardware_validated := True\<rparr> in (ctx, publish_perf_state ctx True p)))))"

definition tsd_perf_measure_baseline :: "(u8 list \<Rightarrow> u8 list option) \<Rightarrow> perf_ctx option \<Rightarrow> tsd_runtime_config option \<Rightarrow>
    'a pproc_scheme \<Rightarrow> perf_ctx option \<times> 'a pproc_scheme" where
  "tsd_perf_measure_baseline sha256 ctx cfg p =
     (case ctx of None \<Rightarrow> (None, p) | Some ctx \<Rightarrow> (let (ctx, p) = perf_measure_baseline sha256 ctx cfg p in (Some ctx, p)))"

section \<open>Recovery\<close>

definition reject_reprobe :: "perf_ctx \<Rightarrow> 'a sproc_scheme \<Rightarrow> bool \<times> perf_ctx \<times> 'a sproc_scheme" where
  "reject_reprobe ctx p =
     (let (ctx, p) = close_perf_events ctx p;
          (ctx, p) = schedule_perf_retry (ctx\<lparr>pc_hardware_validated := False\<rparr>) p
      in (False, ctx, publish_perf_state ctx False p))"

definition try_recover_hardware ::
    "(u8 list \<Rightarrow> u8 list option) \<Rightarrow> perf_ctx \<Rightarrow> 'a pproc_scheme \<Rightarrow> bool \<times> perf_ctx \<times> 'a pproc_scheme" where
  "try_recover_hardware sha256 ctx p =
     (if pc_mode ctx \<noteq> TSD_PERF_MODE_SOFTWARE then (False, ctx, p)
      else (case perf_retry_due ctx p of
              (False, p) \<Rightarrow> (False, ctx, p)
            | (True, p) \<Rightarrow>
                (case open_perf_events ctx p of
                   (Inl _, ctx, p) \<Rightarrow>
                     (let (ctx, p) = schedule_perf_retry ctx p in (False, ctx, publish_perf_state ctx False p))
                 | (Inr _, ctx, p) \<Rightarrow>
                     (case enable_perf_events_strict ctx p of
                        (False, ctx, p) \<Rightarrow> reject_reprobe ctx p
                      | (True, ctx, p) \<Rightarrow>
                          (case measure_hardware_baseline sha256 ctx (Some (tsd_runtime_config_active_snapshot p)) p of
                             (False, ctx, p) \<Rightarrow> reject_reprobe ctx p
                           | (True, ctx, p) \<Rightarrow>
                               (let ctx = reset_perf_retry (ctx\<lparr>pc_hardware_validated := True, pc_software_adaptation := False\<rparr>);
                                    (ctx, p) = perf_set_mode sha256 TSD_PERF_MODE_HARDWARE ctx p
                                in (True, ctx, p)))))))"

definition try_recover_llc :: "perf_ctx \<Rightarrow> 'a pproc_scheme \<Rightarrow> perf_ctx \<times> 'a pproc_scheme" where
  "try_recover_llc ctx p =
     (if pc_mode ctx \<noteq> TSD_PERF_MODE_HARDWARE \<or> pc_fd_llc_misses ctx \<ge> 0 then (ctx, p)
      else (case llc_retry_due ctx p of
              (False, p) \<Rightarrow> (ctx, p)
            | (True, p) \<Rightarrow>
                (case open_llc_event ctx p of
                   (Inl _, ctx, p) \<Rightarrow> (ctx, p)
                 | (Inr _, ctx, p) \<Rightarrow>
                     (case enable_optional_llc ctx p of
                        (False, ctx, p) \<Rightarrow> (ctx, p)
                      | (True, ctx, p) \<Rightarrow>
                          (case read_counter (pc_fd_llc_misses ctx) p of
                             (None, p) \<Rightarrow> drop_llc ctx p
                           | (Some seed, p) \<Rightarrow> (reset_llc_retry (ctx\<lparr>pc_last_llc_value := seed\<rparr>), p))))))"

section \<open>Evaluation\<close>

abbreviation FAST_EWMA_SHIFT :: nat where "FAST_EWMA_SHIFT \<equiv> 2"
abbreviation SLOW_EWMA_SHIFT :: nat where "SLOW_EWMA_SHIFT \<equiv> 5"
abbreviation TSD_TEMP_REF_MILLIC :: int where "TSD_TEMP_REF_MILLIC \<equiv> 85000"
abbreviation TSD_FREQ_REF_MILLI :: int where "TSD_FREQ_REF_MILLI \<equiv> 1000"
abbreviation PERF_ZERO_RUNNING_LIMIT :: int where "PERF_ZERO_RUNNING_LIMIT \<equiv> 3"
abbreviation UINT32_MAX :: u64 where "UINT32_MAX \<equiv> 4294967295"

text \<open>A ratio in thousandths, rounded to the nearest, computed with 128 bits and cut to 64.\<close>

definition ratio_of :: "u64 \<Rightarrow> u64 \<Rightarrow> u64" where
  "ratio_of num den = of_nat ((unat num * 1000 + unat (den div 2)) div unat den)"

definition update_averages :: "u64 \<Rightarrow> u64 \<Rightarrow> perf_ctx \<Rightarrow> perf_ctx" where
  "update_averages current_cpi mpki_milli ctx =
     (let ctx = (if pc_calibrated_cpi_reference ctx = 0 \<and> current_cpi > 0
                 then ctx\<lparr>pc_calibrated_cpi_reference := current_cpi\<rparr> else ctx);
          ctx = ctx\<lparr>pc_fast_cpi := tsd_update_ewma (pc_fast_cpi ctx) current_cpi FAST_EWMA_SHIFT\<rparr>;
          ctx = ctx\<lparr>pc_slow_cpi := tsd_update_ewma (pc_slow_cpi ctx) current_cpi SLOW_EWMA_SHIFT\<rparr>;
          ctx = (if pc_slow_cpi ctx = 0
                 then ctx\<lparr>pc_slow_cpi := or_default (or_default 1000 (pc_baseline_cpi ctx)) current_cpi\<rparr> else ctx)
      in ctx\<lparr>pc_fast_llc_mpki := tsd_update_ewma (pc_fast_llc_mpki ctx) mpki_milli FAST_EWMA_SHIFT,
             pc_slow_llc_mpki := tsd_update_ewma (pc_slow_llc_mpki ctx) mpki_milli SLOW_EWMA_SHIFT\<rparr>)"

definition cpi_ratio :: "u64 \<Rightarrow> perf_ctx \<Rightarrow> u64" where
  "cpi_ratio current_cpi ctx =
     (let reference_cpi = or_default (or_default 1 (pc_baseline_cpi ctx)) (pc_slow_cpi ctx);
          adaptive = ratio_of current_cpi reference_cpi;
          absolute = ratio_of current_cpi (or_default reference_cpi (pc_calibrated_cpi_reference ctx))
      in if adaptive > absolute then adaptive else absolute)"

definition work_ratio :: "u64 \<Rightarrow> u64 \<Rightarrow> perf_ctx \<Rightarrow> u64 \<times> perf_ctx" where
  "work_ratio current_cpi work_cost ctx =
     (if work_cost > 0
      then let ctx = (if pc_calibrated_work_reference ctx = 0
                      then ctx\<lparr>pc_calibrated_work_reference := work_cost, pc_baseline_work_cost_milli := work_cost\<rparr> else ctx)
           in (ratio_of work_cost (pc_calibrated_work_reference ctx), ctx)
      else (cpi_ratio current_cpi ctx, ctx))"

definition record_ratio :: "u64 \<Rightarrow> perf_ctx \<Rightarrow> perf_ctx" where
  "record_ratio ratio_milli ctx =
     (let n = (if pc_ratio_history_count ctx < TSD_RATIO_HISTORY then pc_ratio_history_count ctx + 1 else pc_ratio_history_count ctx);
          stored = (if ratio_milli > UINT32_MAX then - 1 else ucast ratio_milli);
          history = (pc_ratio_history ctx)[pc_ratio_history_cursor ctx := stored]
      in ctx\<lparr>pc_ratio_history_count := n, pc_ratio_history := history,
             pc_ratio_history_cursor := (pc_ratio_history_cursor ctx + 1) mod TSD_RATIO_HISTORY,
             pc_ratio_trimmed_milli := tsd_compute_trimmed_mean (Some history) n\<rparr>)"

definition is_memory_bound :: "u64 \<Rightarrow> perf_ctx \<Rightarrow> bool" where
  "is_memory_bound mpki_milli ctx =
     (pc_fd_llc_misses ctx \<ge> 0 \<and>
      ratio_of (or_default mpki_milli (pc_slow_llc_mpki ctx)) (or_default 1000 (pc_baseline_llc_mpki_milli ctx)) > 2500)"

definition dynamic_threshold :: "bool \<Rightarrow> tsd_runtime_config option \<Rightarrow> bool \<Rightarrow> perf_ctx \<Rightarrow> u64" where
  "dynamic_threshold degraded cfg memory_bound ctx =
     (let threshold = (case cfg of None \<Rightarrow> 1500 | Some c \<Rightarrow> tsd_runtime_config_effective_down_ratio_milli degraded (Some c));
          threshold = (if pc_fast_cpi ctx > pc_slow_cpi ctx
             then let delta = pc_fast_cpi ctx - pc_slow_cpi ctx;
                      delta_ratio = of_nat ((unat delta * 1000) div unat (or_default 1 (pc_slow_cpi ctx)));
                      penalty = (if delta_ratio div 5 > threshold div 4 then threshold div 4 else delta_ratio div 5)
                  in (if threshold > penalty then threshold - penalty else threshold)
             else threshold)
      in (case cfg of
            None \<Rightarrow> threshold
          | Some c \<Rightarrow>
              if memory_bound
              then let guard = (if memory_guard_divisor c > 0 then threshold div of_int (memory_guard_divisor c) else 0)
                   in threshold + (guard + of_int (memory_guard_offset_milli c))
              else threshold))"

text \<open>The reactive severity reads the raw channel only.\<close>

definition temp_severity :: "tsd_runtime_config \<Rightarrow> tsd_telemetry_sample_t \<Rightarrow> u64" where
  "temp_severity c t =
     (if sm_temp_available t \<noteq> 0 \<and> thermal_temp_weight_milli c > 0
      then let temp_excess = sm_package_temp_millic t - TSD_TEMP_REF_MILLIC
           in if temp_excess > 0 then (of_int temp_excess * of_int (thermal_temp_weight_milli c)) div 1000 else 0
      else 0)"

definition freq_severity :: "tsd_runtime_config \<Rightarrow> tsd_telemetry_sample_t \<Rightarrow> u64" where
  "freq_severity c t =
     (if sm_freq_ratio_available t \<noteq> 0 \<and> thermal_ratio_weight_milli c > 0
      then let freq_deficit = TSD_FREQ_REF_MILLI - uint (sm_freq_ratio_milli t)
           in if freq_deficit > 0 then (of_int freq_deficit * of_int (thermal_ratio_weight_milli c)) div 1000 else 0
      else 0)"

definition thermal_severity :: "tsd_runtime_config option \<Rightarrow> tsd_telemetry_sample_t \<Rightarrow> u64" where
  "thermal_severity cfg t = (case cfg of None \<Rightarrow> 0 | Some c \<Rightarrow> temp_severity c t + freq_severity c t)"

definition process_measurement :: "bool \<Rightarrow> perf_ctx \<Rightarrow> u64 \<Rightarrow> u64 \<Rightarrow> u64 \<Rightarrow> tsd_runtime_config option \<Rightarrow>
    tsd_telemetry_sample_t \<Rightarrow> bool \<times> tsd_thermal_eval_t \<times> perf_ctx" where
  "process_measurement degraded ctx current_cpi work_cost mpki_milli cfg sample =
     (let ctx = update_averages current_cpi mpki_milli ctx;
          (ratio_milli, ctx) = work_ratio current_cpi work_cost ctx;
          ctx = record_ratio ratio_milli ctx;
          memory_bound = is_memory_bound mpki_milli ctx;
          threshold = dynamic_threshold degraded cfg memory_bound ctx;
          consensus_ratio = (ratio_milli + ucast (pc_ratio_trimmed_milli ctx)) div 2;
          base_severity = (if consensus_ratio > threshold then consensus_ratio - threshold else 0);
          severity = base_severity + thermal_severity cfg sample
      in (severity > 0,
          \<lparr>te_performance_available = 1, te_work_normalized = c_bool (work_cost > 0), te_work_cost_milli = work_cost,
           te_cpi_milli = current_cpi, te_ratio_milli = ucast ratio_milli, te_trimmed_ratio_milli = pc_ratio_trimmed_milli ctx,
           te_llc_mpki_milli = mpki_milli, te_severity_milli = severity, te_thermal_severity_milli = thermal_severity cfg sample,
           te_memory_bound = memory_bound, te_sample = sample\<rparr>, ctx))"

text \<open>An evaluation that lost the counters fails closed and asks for a downgrade.\<close>

definition fail_evaluation :: "(u8 list \<Rightarrow> u8 list option) \<Rightarrow> perf_ctx \<Rightarrow> 'a sproc_scheme \<Rightarrow>
    bool \<times> tsd_thermal_eval_t \<times> perf_ctx \<times> 'a sproc_scheme" where
  "fail_evaluation sha256 ctx p =
     (let (ctx, p) = perf_fail_closed sha256 ctx p in (True, zero_eval\<lparr>te_severity_milli := 1\<rparr>, ctx, p))"

definition handle_no_running_progress :: "(u8 list \<Rightarrow> u8 list option) \<Rightarrow> perf_ctx \<Rightarrow> 'a sproc_scheme \<Rightarrow>
    bool \<times> tsd_thermal_eval_t \<times> perf_ctx \<times> 'a sproc_scheme" where
  "handle_no_running_progress sha256 ctx p =
     (let ctx = ctx\<lparr>pc_zero_running_samples := pc_zero_running_samples ctx + 1\<rparr>
      in if pc_zero_running_samples ctx < PERF_ZERO_RUNNING_LIMIT then (False, zero_eval, ctx, p)
         else fail_evaluation sha256 ctx p)"

definition evaluate_software :: "(u8 list \<Rightarrow> u8 list option) \<Rightarrow> perf_ctx \<Rightarrow> tsd_runtime_config option \<Rightarrow> 'a pproc_scheme \<Rightarrow>
    bool \<times> tsd_thermal_eval_t \<times> perf_ctx \<times> 'a pproc_scheme" where
  "evaluate_software sha256 ctx cfg p =
     (case try_recover_hardware sha256 ctx p of
        (True, ctx, p) \<Rightarrow> (False, zero_eval, ctx, p)
      | (False, ctx, p) \<Rightarrow>
          if \<not> pc_software_adaptation ctx
          then let (t, p) = clock_or (pc_sw_last_timestamp ctx) p
               in (False, zero_eval, ctx\<lparr>pc_sw_last_iterations := workload_iterations p, pc_sw_last_timestamp := t,
                                          pc_software_adaptation := True\<rparr>, p)
          else let (now, p) = clock_or 0 p;
                   now_iters = workload_iterations p;
                   delta_iters = (if now_iters \<ge> pc_sw_last_iterations ctx then now_iters - pc_sw_last_iterations ctx else 0);
                   delta_ns = timespec_diff_ns (pc_sw_last_timestamp ctx) now;
                   ctx = ctx\<lparr>pc_sw_last_iterations := now_iters, pc_sw_last_timestamp := now\<rparr>
               in if delta_iters = 0 \<or> delta_ns = 0 then (False, zero_eval, ctx, p)
                  else let cost = or_default 1 ((delta_ns * 1000) div delta_iters);
                           (sample, ctx, p) = fetch_fused_telemetry sha256 ctx p;
                           (r, out, ctx) = process_measurement (degraded_active p) ctx cost 0 0 cfg sample
                       in (r, out\<lparr>te_performance_available := 0\<rparr>, ctx, p))"

definition read_llc_or_drop :: "perf_ctx \<Rightarrow> 'a pproc_scheme \<Rightarrow> u64 \<times> perf_ctx \<times> 'a pproc_scheme" where
  "read_llc_or_drop ctx p =
     (if pc_fd_llc_misses ctx < 0 then (0, ctx, p)
      else (case read_counter (pc_fd_llc_misses ctx) p of
              (None, p) \<Rightarrow> (0, drop_llc ctx p)
            | (Some v, p) \<Rightarrow> (v, ctx, p)))"

text \<open>From a group that made progress to the measurement.\<close>

definition evaluate_progress :: "(u8 list \<Rightarrow> u8 list option) \<Rightarrow> perf_group_read_t \<Rightarrow> u64 \<Rightarrow> u64 \<Rightarrow> u64 \<Rightarrow> perf_ctx \<Rightarrow>
    tsd_runtime_config option \<Rightarrow> 'a pproc_scheme \<Rightarrow> bool \<times> tsd_thermal_eval_t \<times> perf_ctx \<times> 'a pproc_scheme" where
  "evaluate_progress sha256 rd_now llc_now enabled_delta running_delta ctx cfg p =
     (let raw_cycles_delta = pg_cycles rd_now - pg_cycles (pc_last_group_read ctx);
          raw_insns_delta = pg_insns rd_now - pg_insns (pc_last_group_read ctx);
          advanced = (\<lambda>ctx. ctx\<lparr>pc_last_group_read := rd_now, pc_last_llc_value := llc_now\<rparr>)
      in if raw_insns_delta = 0 then (False, zero_eval, advanced ctx, publish_perf_state (advanced ctx) True p)
         else let delta_cycles = scale_counter raw_cycles_delta enabled_delta running_delta;
                  delta_insns = scale_counter raw_insns_delta enabled_delta running_delta
              in if delta_cycles = 0 \<or> delta_insns = 0 then handle_no_running_progress sha256 ctx p
                 else let current_cpi = (delta_cycles * 1000) div delta_insns;
                          now_work = workload_iterations p;
                          delta_work = (if now_work \<ge> pc_hw_last_iterations ctx then now_work - pc_hw_last_iterations ctx else 0);
                          ctx = ctx\<lparr>pc_hw_last_iterations := now_work\<rparr>;
                          work_cost = cost_milli delta_cycles delta_work
                      in if \<not> pc_workload ctx \<and> delta_work = 0
                         then let ctx = advanced ctx; p = publish_perf_state ctx True p;
                                  (sample, ctx, p) = fetch_fused_telemetry sha256 ctx p
                              in (False, zero_eval\<lparr>te_sample := sample\<rparr>, ctx, p)
                         else let delta_llc = (if pc_fd_llc_misses ctx \<ge> 0 \<and> llc_now \<ge> pc_last_llc_value ctx
                                               then llc_now - pc_last_llc_value ctx else 0);
                                  mpki_milli = (delta_llc * MPKI_SCALE) div delta_insns;
                                  ctx = advanced ctx; p = publish_perf_state ctx True p;
                                  (sample, ctx, p) = fetch_fused_telemetry sha256 ctx p;
                                  (r, out, ctx) = process_measurement (degraded_active p) ctx current_cpi work_cost mpki_milli cfg sample
                              in (r, out, ctx, p))"

definition evaluate_hardware :: "(u8 list \<Rightarrow> u8 list option) \<Rightarrow> perf_ctx \<Rightarrow> tsd_runtime_config option \<Rightarrow> 'a pproc_scheme \<Rightarrow>
    bool \<times> tsd_thermal_eval_t \<times> perf_ctx \<times> 'a pproc_scheme" where
  "evaluate_hardware sha256 ctx cfg p =
     (let (ctx, p) = try_recover_llc ctx p
      in (case read_group (pc_fd_cycles ctx) p of
            (None, p) \<Rightarrow> fail_evaluation sha256 ctx p
          | (Some rd_now, p) \<Rightarrow>
              if pg_nr rd_now \<noteq> 2 then fail_evaluation sha256 ctx p
              else let (llc_now, ctx, p) = read_llc_or_drop ctx p
                   in if \<not> pc_last_group_valid ctx
                      then let ctx = ctx\<lparr>pc_last_group_read := rd_now, pc_last_group_valid := True, pc_last_llc_value := llc_now\<rparr>
                           in (False, zero_eval, ctx, publish_perf_state ctx True p)
                      else if \<not> group_order_valid (pc_last_group_read ctx) rd_now then fail_evaluation sha256 ctx p
                      else let enabled_delta = pg_time_enabled rd_now - pg_time_enabled (pc_last_group_read ctx);
                               running_delta = pg_time_running rd_now - pg_time_running (pc_last_group_read ctx)
                           in if running_delta = 0 \<or> enabled_delta = 0 then handle_no_running_progress sha256 ctx p
                              else evaluate_progress sha256 rd_now llc_now enabled_delta running_delta
                                     (ctx\<lparr>pc_zero_running_samples := 0\<rparr>) cfg p))"

definition perf_evaluate :: "(u8 list \<Rightarrow> u8 list option) \<Rightarrow> perf_ctx \<Rightarrow> tsd_runtime_config option \<Rightarrow> 'a pproc_scheme \<Rightarrow>
    bool \<times> tsd_thermal_eval_t \<times> perf_ctx \<times> 'a pproc_scheme" where
  "perf_evaluate sha256 ctx cfg p =
     (if pc_mode ctx = TSD_PERF_MODE_SOFTWARE then evaluate_software sha256 ctx cfg p
      else if pc_mode ctx \<noteq> TSD_PERF_MODE_HARDWARE \<or> \<not> pc_hardware_validated ctx
      then (True, zero_eval\<lparr>te_severity_milli := 1\<rparr>, ctx, p)
      else evaluate_hardware sha256 ctx cfg p)"

text \<open>The result and, for a context, what is written to the place the caller passed for it.\<close>

definition tsd_perf_evaluate :: "(u8 list \<Rightarrow> u8 list option) \<Rightarrow> perf_ctx option \<Rightarrow> tsd_runtime_config option \<Rightarrow> 'a pproc_scheme \<Rightarrow>
    bool \<times> tsd_thermal_eval_t option \<times> perf_ctx option \<times> 'a pproc_scheme" where
  "tsd_perf_evaluate sha256 ctx cfg p =
     (case ctx of
        None \<Rightarrow> (False, None, None, p)
      | Some ctx \<Rightarrow> (let (r, out, ctx, p) = perf_evaluate sha256 ctx cfg p in (r, Some out, Some ctx, p)))"

section \<open>Queries\<close>

definition tsd_perf_get_mode :: "perf_ctx option \<Rightarrow> tsd_perf_mode_t" where
  "tsd_perf_get_mode ctx = (case ctx of None \<Rightarrow> TSD_PERF_MODE_NONE | Some c \<Rightarrow> pc_mode c)"

definition tsd_perf_get_pinned_cpu :: "perf_ctx option \<Rightarrow> int" where
  "tsd_perf_get_pinned_cpu ctx = (case ctx of None \<Rightarrow> - 1 | Some c \<Rightarrow> pc_pinned_cpu c)"

definition tsd_perf_get_monitor_cpu :: "perf_ctx option \<Rightarrow> int" where
  "tsd_perf_get_monitor_cpu ctx = (case ctx of None \<Rightarrow> - 1 | Some c \<Rightarrow> pc_monitor_cpu c)"

definition tsd_perf_upgrades_allowed :: "perf_ctx option \<Rightarrow> bool" where
  "tsd_perf_upgrades_allowed ctx =
     (case ctx of None \<Rightarrow> False | Some c \<Rightarrow> pc_mode c = TSD_PERF_MODE_HARDWARE \<and> pc_hardware_validated c)"

definition tsd_perf_check_software_timeout :: "perf_ctx option \<Rightarrow> int \<Rightarrow> 'a sproc_scheme \<Rightarrow>
    bool \<times> perf_ctx option \<times> 'a sproc_scheme" where
  "tsd_perf_check_software_timeout ctx timeout_sec p =
     (case ctx of
        None \<Rightarrow> (False, None, p)
      | Some c \<Rightarrow>
          if timeout_sec \<le> 0 \<or> pc_timeout_notified c then (False, Some c, p)
          else (case perf_software_timeout_exceeded c timeout_sec p of
                  (False, p) \<Rightarrow> (False, Some c, p)
                | (True, p) \<Rightarrow> (True, Some (c\<lparr>pc_timeout_notified := True\<rparr>),
                                 count_metric TSD_METRIC_SOFTWARE_TIMEOUT_ESCALATIONS p)))"

end
