(* ===== verification/Fusion_Bridge_Facts.thy ===== *)
theory Fusion_Bridge_Facts
  imports Fusion_Bridge
begin

text \<open>
  The fusion service (\<open>Fusion_Bridge\<close>): it is a reference-counted service that holds its descriptor exactly
  while it runs, and what it hands out as a raw temperature is the last unfiltered reading, no older
  than the freshness window.
\<close>

section \<open>Frames\<close>

lemma outer_fields:
  assumes "outer_same p q"
  shows "sproc.more q = sproc.more p" "fd_table q = fd_table p" "clock_results q = clock_results p" "sys_calls q = sys_calls p"
    "sys_file q = sys_file p"
  using assms by (cases p; cases q; simp add: outer_same_def)+

lemma more_globals:
  assumes "sproc.more q = sproc.more p"
  shows "g_fusion q = g_fusion p" "g_manager q = g_manager p" "g_direct_helper q = g_direct_helper p"
    "g_direct_helper_ready q = g_direct_helper_ready p" "g_fusion_users q = g_fusion_users p" "g_fusion_cpu q = g_fusion_cpu p"
    "g_raw_temp_valid q = g_raw_temp_valid p" "g_raw_temp_millic q = g_raw_temp_millic p" "g_raw_temp_at q = g_raw_temp_at p"
    "cpp_throws q = cpp_throws p" "worker_passes q = worker_passes p"
  using assms by (cases p; cases q; simp)+

lemmas outer_globals = more_globals [OF outer_fields(1)]

lemma runtime_config_update [simp]:
  "runtime_config (p\<lparr>g_fusion := x1\<rparr>) = runtime_config p"
  "runtime_config (p\<lparr>g_fusion_users := x2\<rparr>) = runtime_config p"
  "runtime_config (p\<lparr>fusion_running := b\<rparr>) = runtime_config p"
  "runtime_config (p\<lparr>temperature_upgrade_allowed := b\<rparr>) = runtime_config p"
  "runtime_config (p\<lparr>g_manager := b\<rparr>) = runtime_config p"
  by (simp_all add: runtime_config_def tsd_runtime_config_active_snapshot_def)

section \<open>The state of the service\<close>

definition engine_ok :: "'a fproc_scheme \<Rightarrow> bool" where
  "engine_ok p \<longleftrightarrow> (case g_fusion p of None \<Rightarrow> False | Some f \<Rightarrow> tf_running f \<and> fusion_wf f)"

definition helper_held :: "int multiset \<Rightarrow> 'a fproc_scheme \<Rightarrow> bool" where
  "helper_held base p \<longleftrightarrow> (if g_direct_helper_ready p then helper_wf (g_direct_helper p) \<and> owns_msr base (g_direct_helper p) p
     else mset (fd_table p) = base)"

definition bridge_idle :: "int multiset \<Rightarrow> 'a fproc_scheme \<Rightarrow> bool" where
  "bridge_idle base p \<longleftrightarrow> g_fusion p = None \<and> \<not> g_manager p \<and> \<not> g_direct_helper_ready p \<and> g_fusion_users p = 0 \<and>
     g_fusion_cpu p = - 1 \<and> \<not> g_raw_temp_valid p \<and> \<not> fusion_running p \<and> mset (fd_table p) = base"

definition bridge_active :: "int multiset \<Rightarrow> 'a fproc_scheme \<Rightarrow> bool" where
  "bridge_active base p \<longleftrightarrow> engine_ok p \<and> g_manager p \<and> fusion_running p \<and> 0 \<le> g_fusion_cpu p \<and> helper_held base p"

definition bridge_inv :: "int multiset \<Rightarrow> 'a fproc_scheme \<Rightarrow> bool" where
  "bridge_inv base p \<longleftrightarrow> bridge_idle base p \<or> bridge_active base p"

text \<open>What the operations on a running service leave alone.\<close>

definition service_same :: "'a fproc_scheme \<Rightarrow> 'a fproc_scheme \<Rightarrow> bool" where
  "service_same p q \<longleftrightarrow> (engine_ok p \<longrightarrow> engine_ok q) \<and> g_manager q = g_manager p \<and> g_direct_helper q = g_direct_helper p \<and>
     g_direct_helper_ready q = g_direct_helper_ready p \<and> g_fusion_users q = g_fusion_users p \<and> g_fusion_cpu q = g_fusion_cpu p \<and>
     fusion_running q = fusion_running p \<and> fd_table q = fd_table p \<and> runtime_config q = runtime_config p"

lemma service_same_refl [simp]: "service_same p p"
  by (simp add: service_same_def)

lemma service_same_trans [trans]: "service_same p q \<Longrightarrow> service_same q r \<Longrightarrow> service_same p r"
  by (simp add: service_same_def)

lemma active_service_same: "bridge_active base p \<Longrightarrow> service_same p q \<Longrightarrow> bridge_active base q"
  by (simp add: bridge_active_def service_same_def helper_held_def owns_msr_def split: if_splits)

lemma outer_config: "outer_same p q \<Longrightarrow> runtime_config q = runtime_config p"
  by (simp add: outer_same_def runtime_config_def tsd_runtime_config_active_snapshot_def)

lemma outer_service: "outer_same p q \<Longrightarrow> service_same p q"
  by (simp add: service_same_def engine_ok_def outer_globals outer_fields outer_config) (simp add: outer_same_def)

lemma may_throw_service: "may_throw p = (e, q) \<Longrightarrow> service_same p q"
  by (auto simp: may_throw_def service_same_def engine_ok_def runtime_config_def tsd_runtime_config_active_snapshot_def split: prod.splits)

lemma may_throw_raw: "may_throw p = (e, q) \<Longrightarrow> q = p\<lparr>cpp_throws := cpp_throws q\<rparr>"
  by (auto simp: may_throw_def split: prod.splits)

text \<open>The clock.\<close>

lemma steady_clock_step:
  assumes "steady_clock_now s = (t, s')"
  shows "s' = s\<lparr>steady_now := t, clock_results := clock_results s'\<rparr>" "steady_now s \<le> t"
  using assms by (auto simp: steady_clock_now_def clock_gettime_def Let_def split: prod.splits option.splits)

lemma update_service [simp]:
  "service_same p (p\<lparr>steady_now := t, clock_results := c\<rparr>)"
  "service_same p (p\<lparr>cpp_throws := x\<rparr>)"
  "service_same p (p\<lparr>worker_passes := w\<rparr>)"
  "service_same p (p\<lparr>g_smoothed_temp_c := v\<rparr>)"
  "service_same p (p\<lparr>g_smoothed_freq_ratio := v\<rparr>)"
  "service_same p (p\<lparr>g_raw_temp_valid := b, g_raw_temp_millic := m, g_raw_temp_at := t\<rparr>)"
  "service_same p (p\<lparr>g_raw_freq_valid := b, g_raw_freq_ratio_milli := r, g_raw_freq_at := t\<rparr>)"
  by (simp_all add: service_same_def engine_ok_def runtime_config_def tsd_runtime_config_active_snapshot_def)

lemma clock_service: "steady_clock_now p = (t, q) \<Longrightarrow> service_same p q"
  using steady_clock_step(1) [of p t q] update_service(1) by metis

lemma record_service: "service_same p (record_raw_sample_unlocked sample now p)"
  unfolding record_raw_sample_unlocked_def Let_def using update_service(6,7) service_same_trans by (simp, blast)

lemma publish_reading_service: "publish_reading sig r p = (e, q) \<Longrightarrow> service_same p q"
proof -
  assume a: "publish_reading sig r p = (e, q)"
  obtain x p1 where t: "may_throw p = (x, p1)" by fastforce
  have s: "service_same p p1" using t by (rule may_throw_service)
  have "service_same p1 (p1\<lparr>g_fusion := map_option (\<lambda>f. f\<lparr>tf_bus := bus_publish sig r (tf_bus f)\<rparr>) (g_fusion p1)\<rparr>)"
    by (auto simp: service_same_def engine_ok_def fusion_wf_def bus_publish_wf runtime_config_def
        tsd_runtime_config_active_snapshot_def split: option.splits)
  then show ?thesis using a t s service_same_trans by (auto simp: publish_reading_def split: option.splits)
qed

lemma publish_temperature_service:
  assumes "publish_temperature sample now p = (e, q)"
  shows "service_same p q"
proof (cases "sm_temp_available sample = 0")
  case False
  then obtain v where "publish_reading kPackageTempC (direct_reading v now) (p\<lparr>g_smoothed_temp_c := Some v\<rparr>) = (e, q)"
    using assms by (simp add: publish_temperature_def Let_def)
  then show ?thesis by (rule service_same_trans [OF update_service(4) publish_reading_service])
qed (use assms in \<open>simp add: publish_temperature_def\<close>)

lemma publish_frequency_service:
  assumes "publish_frequency sample now p = (e, q)"
  shows "service_same p q"
proof (cases "sm_freq_ratio_available sample = 0")
  case False
  then obtain v where "publish_reading kFrequencyRatio (direct_reading v now) (p\<lparr>g_smoothed_freq_ratio := Some v\<rparr>) = (e, q)"
    using assms by (simp add: publish_frequency_def Let_def)
  then show ?thesis by (rule service_same_trans [OF update_service(5) publish_reading_service])
qed (use assms in \<open>simp add: publish_frequency_def\<close>)

lemma publish_sample_service:
  assumes "publish_sample_unlocked sample p = (r, q)"
  shows "service_same p q"
proof -
  obtain now p1 where c: "steady_clock_now p = (now, p1)" by fastforce
  let ?p2 = "record_raw_sample_unlocked sample now p1"
  obtain e3 p3 where t: "publish_temperature sample now ?p2 = (e3, p3)" by fastforce
  obtain e4 p4 where f: "publish_frequency sample now p3 = (e4, p4)" by fastforce
  have "service_same p p1" using c by (rule clock_service)
  also have "service_same p1 ?p2" by (rule record_service)
  also have "service_same ?p2 p3" using t by (rule publish_temperature_service)
  finally have s3: "service_same p p3" .
  then have s4: "service_same p p4" using publish_frequency_service [OF f] by (rule service_same_trans)
  have "q = p \<or> q = p3 \<or> q = p4" using assms c t f
    by (auto simp: publish_sample_unlocked_def split: if_splits option.splits)
  then show ?thesis using s3 s4 by auto
qed

text \<open>The worker.\<close>

lemma iteration_outer: "fusion_iteration f p = (f', p') \<Longrightarrow> outer_same p p' \<and> tf_running f' = tf_running f"
  using update_fusion_outer by (auto simp: fusion_iteration_def fuse_def Let_def split: prod.splits if_splits)

lemma worker_iterations_outer:
  "worker_iterations n (f, p) = (f', p') \<Longrightarrow> fusion_wf f \<Longrightarrow> outer_same p p' \<and> tf_running f' = tf_running f \<and> fusion_wf f'"
proof (induction n arbitrary: f' p')
  case (Suc n)
  obtain f1 p1 where r: "worker_iterations n (f, p) = (f1, p1)" by fastforce
  have "fusion_iteration f1 p1 = (f', p')" using Suc.prems(1) r by simp
  then show ?case using Suc.IH [OF r Suc.prems(2)] iteration_outer iteration_wf outer_same_trans by metis
qed simp

lemma engine_service:
  assumes "service_same p q" "tf_running f" "fusion_wf f"
  shows "service_same p (q\<lparr>g_fusion := Some f\<rparr>)"
  using assms by (simp add: service_same_def engine_ok_def)

lemma worker_service:
  assumes "engine_ok p"
  shows "service_same p (worker_runs p)"
proof -
  obtain n rest where n: "next_of 0 (worker_passes p) = (n, rest)" by fastforce
  obtain f where f: "g_fusion p = Some f" "tf_running f" "fusion_wf f" using assms by (auto simp: engine_ok_def split: option.splits)
  obtain f' q where w: "worker_iterations n (f, p\<lparr>worker_passes := rest\<rparr>) = (f', q)" by fastforce
  have o: "outer_same (p\<lparr>worker_passes := rest\<rparr>) q" "tf_running f'" "fusion_wf f'"
    using worker_iterations_outer [OF w f(3)] f(2) by simp_all
  have "service_same p q" using service_same_trans [OF update_service(3) outer_service [OF o(1)]] .
  then have "service_same p (q\<lparr>g_fusion := Some f'\<rparr>)" using o(2,3) by (rule engine_service)
  then show ?thesis using n f w by (simp add: worker_runs_def Let_def)
qed

lemma observability_outer: "outer_same p (update_temperature_observability_unlocked sample p)"
  by (simp add: update_temperature_observability_unlocked_def update_channels_outer)

lemma gate_service: "service_same p (update_temperature_gate_unlocked sha256 b p)"
proof -
  let ?q = "update_temperature_gate_unlocked sha256 b p"
  have "service_same (p\<lparr>temperature_upgrade_allowed := temperature_upgrade_allowed ?q\<rparr>) ?q"
    using gate_outer(1) by (rule outer_service)
  then show ?thesis
    by (simp add: service_same_def engine_ok_def runtime_config_def tsd_runtime_config_active_snapshot_def)
qed

text \<open>Sampling the helper of a running service.\<close>

lemma env_globals:
  assumes "env_step p q"
  shows "sproc.more q = sproc.more p" "fusion_running q = fusion_running p" "runtime_config q = runtime_config p"
    "steady_now p \<le> steady_now q"
  using assms by (auto simp: env_step_def runtime_config_def tsd_runtime_config_active_snapshot_def)

lemma helper_sample_active:
  assumes "bridge_active base p" "g_direct_helper_ready p"
    and "tsd_telemetry_helper_sample (g_direct_helper p) p = (r, h, out, q)"
  shows "bridge_active base (q\<lparr>g_direct_helper := h\<rparr>)"
proof -
  have w: "helper_wf (g_direct_helper p)" "owns_msr base (g_direct_helper p) p"
    using assms(1,2) by (simp_all add: bridge_active_def helper_held_def)
  note s = helper_sample_wf [OF assms(3) w(1)]
  note m = more_globals [OF env_globals(1) [OF s(1)]] env_globals(2) [OF s(1)]
  show ?thesis using assms(1,2) s(2) s(3) [OF w(2)] m
    by (simp add: bridge_active_def helper_held_def engine_ok_def owns_msr_def)
qed

section \<open>Operations on a running service\<close>

lemma active_update [simp]:
  "bridge_active base (p\<lparr>g_fusion_users := n\<rparr>) = bridge_active base p"
  by (simp add: bridge_active_def engine_ok_def helper_held_def owns_msr_def)

lemma sample_direct_active:
  assumes "bridge_active base p" "sample_direct p = (e, q)"
  shows "bridge_active base q" "g_fusion_users q = g_fusion_users p" "g_fusion_cpu q = g_fusion_cpu p"
proof -
  have "bridge_active base q \<and> g_fusion_users q = g_fusion_users p \<and> g_fusion_cpu q = g_fusion_cpu p"
  proof (cases "g_direct_helper_ready p")
    case True
    obtain r h d p1 where s: "tsd_telemetry_helper_sample (g_direct_helper p) p = (r, h, d, p1)" by (metis prod_cases4)
    let ?p2 = "p1\<lparr>g_direct_helper := h\<rparr>"
    have a: "bridge_active base ?p2" using assms(1) True s by (rule helper_sample_active)
    have w: "helper_wf (g_direct_helper p)" using assms(1) True by (simp add: bridge_active_def helper_held_def)
    have g: "g_fusion_users ?p2 = g_fusion_users p" "g_fusion_cpu ?p2 = g_fusion_cpu p"
      using more_globals [OF env_globals(1) [OF helper_sample_wf(1) [OF s w]]] by simp_all
    obtain e3 p3 where d: "publish_sample_unlocked d ?p2 = (e3, p3)" by fastforce
    have "q = ?p2 \<or> q = p3" using assms(2) True s d
      by (auto simp: sample_direct_def Let_def split: if_splits sum.splits)
    then show ?thesis using a g active_service_same [OF a publish_sample_service [OF d]] publish_sample_service [OF d]
      by (auto simp: service_same_def)
  qed (use assms in \<open>auto simp: sample_direct_def\<close>)
  then show "bridge_active base q" "g_fusion_users q = g_fusion_users p" "g_fusion_cpu q = g_fusion_cpu p" by blast+
qed

definition service :: "'a fproc_scheme \<Rightarrow> (int \<times> u32) option" where
  "service p = (if g_fusion p = None then None else Some (g_fusion_cpu p, g_fusion_users p))"

lemma active_service: "bridge_active base p \<Longrightarrow> service p = Some (g_fusion_cpu p, g_fusion_users p)"
  by (auto simp: service_def bridge_active_def engine_ok_def split: option.splits)

lemma idle_service: "bridge_idle base p \<Longrightarrow> service p = None"
  by (simp add: service_def bridge_idle_def)

lemma inv_service_same:
  assumes "bridge_active base p" "service_same p q"
  shows "bridge_active base q \<and> service q = service p"
  using active_service_same [OF assms] active_service [OF assms(1)] active_service [of base q] assms(2)
  by (simp add: service_same_def)

lemma bridge_throw:
  assumes "may_throw p = (e, q)" "bridge_inv base p"
  shows "bridge_inv base q" "service q = service p"
proof -
  have "service_same p q" using assms(1) by (rule may_throw_service)
  moreover have "g_fusion q = g_fusion p" "g_raw_temp_valid q = g_raw_temp_valid p"
    using may_throw_raw [OF assms(1)] by (metis fproc.select_convs fproc.surjective fproc.update_convs(15))+
  ultimately show "bridge_inv base q" "service q = service p"
    using assms(2) inv_service_same [of base p q]
    by (auto simp: bridge_inv_def bridge_idle_def service_def service_same_def)
qed

lemma publish_inv_same:
  assumes "bridge_inv base p" "tsd_telemetry_fusion_publish_sample sha256 sample p = (r, q)"
  shows "bridge_inv base q \<and> service q = service p"
proof (cases sample)
  case (Some d)
  obtain e p1 where t: "may_throw p = (e, p1)" by fastforce
  have i: "bridge_inv base p1" "service p1 = service p" using bridge_throw [OF t assms(1)] .
  show ?thesis
  proof (cases "e = None \<and> g_fusion p1 \<noteq> None \<and> g_manager p1")
    case True
    then have a: "bridge_active base p1" using i by (auto simp: bridge_inv_def bridge_idle_def)
    obtain r2 p2 where s: "publish_sample_unlocked d p1 = (r2, p2)" by fastforce
    obtain now p3 where c: "steady_clock_now p2 = (now, p3)" by fastforce
    have s3: "service_same p1 p2" "service_same p1 p3"
      using publish_sample_service [OF s] clock_service [OF c] service_same_trans by blast+
    have "service_same p1 (update_temperature_gate_unlocked sha256 b (update_temperature_observability_unlocked x p3))" for b x
      using s3(2) service_same_trans outer_service [OF observability_outer] gate_service by blast
    then have "service_same p1 q" using assms(2) Some True t s c s3
      by (auto simp: tsd_telemetry_fusion_publish_sample_def Let_def split: sum.splits)
    then show ?thesis using inv_service_same [OF a] i by (simp add: bridge_inv_def)
  qed (use assms(2) Some t i in \<open>auto simp: tsd_telemetry_fusion_publish_sample_def split: option.splits\<close>)
qed (use assms in \<open>simp add: tsd_telemetry_fusion_publish_sample_def\<close>)

lemma sample_inv_same:
  assumes "bridge_inv base p" "tsd_telemetry_fusion_sample sha256 wanted p = (r, out, q)"
  shows "bridge_inv base q \<and> service q = service p"
proof -
  obtain e p1 where t: "may_throw p = (e, p1)" by fastforce
  have i: "bridge_inv base p1" "service p1 = service p" using bridge_throw [OF t assms(1)] .
  show ?thesis
  proof (cases "wanted \<and> e = None \<and> g_fusion p1 \<noteq> None")
    case True
    then have a: "bridge_active base p1" using i by (auto simp: bridge_inv_def bridge_idle_def)
    obtain e2 p2 where s: "sample_direct p1 = (e2, p2)" by fastforce
    have a2: "bridge_active base p2" "service p2 = service p"
      using sample_direct_active [OF a s] active_service [OF a] active_service [of base p2] i(2) by simp_all
    obtain now p3 where c: "steady_clock_now (worker_runs p2) = (now, p3)" by fastforce
    have s3: "service_same p2 p3" using worker_service clock_service [OF c] service_same_trans a2(1)
      by (auto simp: bridge_active_def)
    have "service_same p2 (update_temperature_gate_unlocked sha256 b (update_temperature_observability_unlocked x p3))" for b x
      using s3 service_same_trans outer_service [OF observability_outer] gate_service by blast
    then have "service_same p2 q" using assms(2) True t s c
      by (auto simp: tsd_telemetry_fusion_sample_def Let_def split: option.splits prod.splits)
    then show ?thesis using inv_service_same [OF a2(1)] a2(2) by (simp add: bridge_inv_def)
  qed (use assms t i in \<open>auto simp: tsd_telemetry_fusion_sample_def split: option.splits if_splits\<close>)
qed

section \<open>Releasing the service\<close>

lemma fusion_stop_outer: "\<exists>q. outer_same p q \<and> fusion_stop p = q\<lparr>g_fusion := g_fusion (fusion_stop p)\<rparr>"
proof (cases "g_fusion p")
  case None
  then have "fusion_stop p = p\<lparr>g_fusion := g_fusion (fusion_stop p)\<rparr>" by (cases p) (simp add: fusion_stop_def)
  then show ?thesis using outer_same_refl by blast
next
  case (Some f)
  have "outer_same p (publish_fusion_running_state False p)"
    unfolding publish_fusion_running_state_def by (rule update_fusion_outer)
  then show ?thesis using Some by (auto simp: fusion_stop_def intro!: exI [of _ "publish_fusion_running_state False p"])
qed

lemma reopen_outer: "\<exists>b. outer_same (p\<lparr>temperature_upgrade_allowed := b\<rparr>) (reopen_gate p)"
proof -
  have "\<exists>b q. outer_same (p\<lparr>temperature_upgrade_allowed := b\<rparr>) q \<and>
      reopen_gate p = tsd_observability_update_temperature_channels (Some
        \<lparr>tc_raw_available = 0, tc_raw_package_temp_c = Fin 0, tc_filtered_available = 0, tc_filtered_package_temp_c = Fin 0\<rparr>) q"
  proof (rule safety_write_enter_cases [of p])
    fix rcs assume "tsd_runtime_safety_write_enter p = (ok, p\<lparr>guard_lock_rcs := rcs, wide_admission_open := False\<rparr>)"
    moreover have "outer_same (p\<lparr>temperature_upgrade_allowed := True\<rparr>) (tsd_runtime_safety_write_leave
        (p\<lparr>guard_lock_rcs := rcs, wide_admission_open := False, temperature_upgrade_allowed := True\<rparr>))"
      by (rule leave_outer) (simp add: outer_same_def)
    ultimately show ?thesis by (auto simp: reopen_gate_def)
  next
    fix e rcs assume "tsd_runtime_safety_write_enter p = (Inl e, p\<lparr>guard_lock_rcs := rcs\<rparr>)"
    moreover have "outer_same (p\<lparr>temperature_upgrade_allowed := temperature_upgrade_allowed p\<rparr>) (p\<lparr>guard_lock_rcs := rcs\<rparr>)"
      by (simp add: outer_same_def)
    ultimately show ?thesis
      by (intro exI [of _ "temperature_upgrade_allowed p"] exI [of _ "p\<lparr>guard_lock_rcs := rcs\<rparr>"]) (simp add: reopen_gate_def)
  qed
  then show ?thesis using update_channels_outer outer_same_trans by metis
qed

lemma helper_held_update [simp]:
  "helper_held base (p\<lparr>g_fusion := x\<rparr>) = helper_held base p" "helper_held base (p\<lparr>g_manager := b\<rparr>) = helper_held base p"
  "helper_held base (p\<lparr>g_fusion_users := n\<rparr>) = helper_held base p" "helper_held base (p\<lparr>cpp_throws := t\<rparr>) = helper_held base p"
  "helper_held base (p\<lparr>fusion_running := b\<rparr>) = helper_held base p"
  by (simp_all add: helper_held_def owns_msr_def)

lemma outer_helper_held: "outer_same p q \<Longrightarrow> helper_held base q = helper_held base p"
  by (simp add: helper_held_def owns_msr_def outer_globals outer_fields)

lemma fusion_stop_held [simp]: "helper_held base (fusion_stop p) = helper_held base p"
  using fusion_stop_outer [of p] outer_helper_held helper_held_update(1) by metis

lemma release_helper_fields:
  assumes "helper_held base p"
  shows "\<not> g_direct_helper_ready (release_helper p)" "mset (fd_table (release_helper p)) = base"
    "g_fusion (release_helper p) = g_fusion p" "g_manager (release_helper p) = g_manager p"
  using assms
  by (auto simp: release_helper_def tsd_telemetry_helper_destroy_def helper_held_def owns_msr_def close_fd_def)

lemma teardown_idle:
  assumes "helper_held base p" "g_fusion p = None" "\<not> g_manager p" "g_fusion_users q = 0"
    "q = reset_signal_state_unlocked ((release_helper p)\<lparr>g_fusion_users := n, g_fusion_cpu := - 1\<rparr>)"
  shows "bridge_idle base (reopen_gate (q\<lparr>fusion_running := False\<rparr>))"
proof -
  note r = release_helper_fields [OF assms(1)]
  obtain b where o: "outer_same (q\<lparr>fusion_running := False, temperature_upgrade_allowed := b\<rparr>) (reopen_gate (q\<lparr>fusion_running := False\<rparr>))"
    using reopen_outer [of "q\<lparr>fusion_running := False\<rparr>"] by auto
  show ?thesis using assms r o outer_globals [OF o] outer_fields(2) [OF o]
    by (simp add: bridge_idle_def reset_signal_state_unlocked_def) (simp add: outer_same_def)
qed

lemma rollback_idle:
  assumes "helper_held base p"
  shows "bridge_idle base (rollback_start_unlocked p)"
  unfolding rollback_start_unlocked_def Let_def
  by (rule teardown_idle [where p = "(fusion_reset (fusion_stop p))\<lparr>g_manager := False\<rparr>" and n = 0])
     (use assms in \<open>simp_all add: fusion_reset_def reset_signal_state_unlocked_def\<close>)

text \<open>What a caller sees of the service: its processor and the number of users; and what a stop does to it.\<close>

definition service_stop :: "(int \<times> u32) option \<Rightarrow> (int \<times> u32) option" where
  "service_stop v = (case v of None \<Rightarrow> None | Some (c, n) \<Rightarrow> if n > 1 then Some (c, n - 1) else None)"

lemma last_stop_idle:
  assumes "may_throw p = (None, p1)" "helper_held base p1" "\<not> g_fusion_users p1 > 1"
  shows "bridge_idle base (tsd_telemetry_fusion_stop p)"
proof -
  let ?p2 = "p1\<lparr>g_fusion_users := 0\<rparr>"
  let ?p3 = "(if g_fusion ?p2 \<noteq> None then fusion_reset (fusion_stop ?p2) else ?p2)\<lparr>g_manager := False\<rparr>"
  have h: "helper_held base ?p3" using assms(2) by (simp add: fusion_reset_def)
  have g: "g_fusion ?p3 = None" by (simp add: fusion_reset_def)
  have "g_fusion_users (fusion_stop r) = g_fusion_users r" for r :: "'a fproc_scheme"
  proof -
    obtain q where "outer_same r q" "fusion_stop r = q\<lparr>g_fusion := g_fusion (fusion_stop r)\<rparr>" using fusion_stop_outer by blast
    then show ?thesis using outer_globals(5) [of r q] by (metis fproc.select_convs(5) fproc.surjective fproc.update_convs(1))
  qed
  then have u: "g_fusion_users (release_helper ?p3) = 0"
    by (simp add: release_helper_def tsd_telemetry_helper_destroy_def close_fd_def fusion_reset_def)
  have "tsd_telemetry_fusion_stop p =
      reopen_gate ((reset_signal_state_unlocked ((release_helper ?p3)\<lparr>g_fusion_cpu := - 1\<rparr>))\<lparr>fusion_running := False\<rparr>)"
    using assms(1,3) by (simp add: tsd_telemetry_fusion_stop_def Let_def)
  moreover have "(release_helper ?p3)\<lparr>g_fusion_cpu := - 1\<rparr> = (release_helper ?p3)\<lparr>g_fusion_users := 0, g_fusion_cpu := - 1\<rparr>"
    using u by (cases "release_helper ?p3") simp
  ultimately show ?thesis
    using teardown_idle [OF h g _ _ refl, of 0] by (simp add: reset_signal_state_unlocked_def)
qed

lemma stop_inv:
  assumes "bridge_inv base p"
  shows "bridge_inv base (tsd_telemetry_fusion_stop p)"
    "service (tsd_telemetry_fusion_stop p) = (if fst (may_throw p) = None then service_stop (service p) else service p)"
proof -
  obtain e p1 where t: "may_throw p = (e, p1)" by fastforce
  have i: "bridge_inv base p1" "service p1 = service p" using bridge_throw [OF t assms] .
  let ?q = "tsd_telemetry_fusion_stop p"
  have "bridge_inv base ?q \<and> service ?q = (if e = None then service_stop (service p1) else service p1)"
  proof (cases "e = None")
    case False
    then have "?q = p1" using t by (auto simp: tsd_telemetry_fusion_stop_def)
    then show ?thesis using i False by auto
  next
    case None: True
    show ?thesis
    proof (cases "g_fusion_users p1 > 1")
      case True
      then have a: "bridge_active base p1" using i(1) by (auto simp: bridge_inv_def bridge_idle_def)
      have "?q = p1\<lparr>g_fusion_users := g_fusion_users p1 - 1\<rparr>" using True None t by (simp add: tsd_telemetry_fusion_stop_def)
      then show ?thesis using a True None active_service [OF a] active_service [of base ?q]
        by (simp add: bridge_inv_def service_stop_def)
    next
      case False
      have "helper_held base p1" using i(1) by (auto simp: bridge_inv_def bridge_idle_def bridge_active_def helper_held_def)
      then have q: "bridge_idle base ?q" using last_stop_idle t None False by blast
      have "service_stop (service p1) = None"
        using False i(1) active_service [of base p1] idle_service [of base p1] by (auto simp: bridge_inv_def service_stop_def)
      then show ?thesis using q None idle_service [OF q] by (simp add: bridge_inv_def)
    qed
  qed
  then show "bridge_inv base ?q" "service ?q = (if fst (may_throw p) = None then service_stop (service p) else service p)"
    using t i(2) by simp_all
qed

section \<open>Starting the service\<close>

lemma helper_init_ok:
  assumes "0 \<le> cpu"
  obtains h q where "tsd_telemetry_helper_init cpu h0 p = (ok, h, q)"
  using assms by (cases "tsd_telemetry_helper_init cpu h0 p") (auto simp: tsd_telemetry_helper_init_def Let_def split: prod.splits)

text \<open>The engine starts, or the creation of its thread throws.\<close>

lemma fusion_start_result:
  assumes "fusion_start (fusion_make config []) p = (e, f, q)" "helper_held base p" "g_manager p" "0 \<le> g_fusion_cpu p"
  shows "helper_held base (q\<lparr>g_fusion := Some f\<rparr>)"
    "e = None \<Longrightarrow> bridge_active base (q\<lparr>g_fusion := Some f, g_fusion_users := 1, fusion_running := True\<rparr>)"
    "g_fusion_cpu q = g_fusion_cpu p"
proof -
  obtain x p1 where t: "may_throw p = (x, p1)" by fastforce
  have p1: "p1 = p\<lparr>cpp_throws := cpp_throws p1\<rparr>" using t by (rule may_throw_raw)
  have h1: "helper_held base p1" using assms(2) by (subst p1) simp
  have g1: "g_manager p1" "g_fusion_cpu p1 = g_fusion_cpu p"
    using assms(3) p1 by (metis fproc.select_convs fproc.surjective fproc.update_convs(15))+
  have "outer_same p1 q \<and> f = (fusion_make config [])\<lparr>tf_running := (e = None)\<rparr>"
    using assms(1) t update_fusion_outer
    by (auto simp: fusion_start_def fusion_make_def publish_fusion_running_state_def split: option.splits)
  then have o: "outer_same p1 q" and f: "f = (fusion_make config [])\<lparr>tf_running := (e = None)\<rparr>" by blast+
  have h: "helper_held base q" using h1 outer_helper_held [OF o] by simp
  then show "helper_held base (q\<lparr>g_fusion := Some f\<rparr>)" by simp
  show c: "g_fusion_cpu q = g_fusion_cpu p" using outer_globals(6) [OF o] g1 by simp
  assume "e = None"
  then have "tf_running f" "fusion_wf f" using f fusion_make_wf [of config "[]"] by (simp_all add: fusion_wf_def)
  then show "bridge_active base (q\<lparr>g_fusion := Some f, g_fusion_users := 1, fusion_running := True\<rparr>)"
    using h c assms(4) outer_globals(2) [OF o] g1(1)
    by (simp add: bridge_active_def engine_ok_def)
qed

lemma start_engine_result:
  assumes "bridge_idle base p" "0 \<le> cpu" "start_engine cpu p = (e, q)"
  shows "helper_held base q" "e = None \<Longrightarrow> bridge_active base q \<and> service q = Some (cpu, 1)"
proof -
  obtain x1 p1 where t1: "may_throw p = (x1, p1)" by fastforce
  obtain x2 p2 where t2: "may_throw (p1\<lparr>g_manager := True\<rparr>) = (x2, p2)" by fastforce
  have p1: "p1 = p\<lparr>cpp_throws := cpp_throws p1\<rparr>" using t1 by (rule may_throw_raw)
  have p2: "p2 = p1\<lparr>g_manager := True, cpp_throws := cpp_throws p2\<rparr>" using may_throw_raw [OF t2] by simp
  have f1: "fd_table p1 = fd_table p" "g_direct_helper_ready p1 = g_direct_helper_ready p" "g_fusion p1 = g_fusion p"
    by (subst p1, simp)+
  have f2: "fd_table p2 = fd_table p" "\<not> g_direct_helper_ready p2" "g_fusion p2 = None" "g_manager p2"
    using f1 assms(1) by (subst p2, simp add: bridge_idle_def)+
  have base: "mset (fd_table p) = base" using assms(1) by (simp add: bridge_idle_def)
  define config where "config = default_config (p1\<lparr>g_manager := True\<rparr>)"
  define p3 where "p3 = reset_signal_state_unlocked ((fusion_reset p2)\<lparr>g_fusion := Some (fusion_make config [])\<rparr>)"
  have f3: "fd_table p3 = fd_table p" "g_manager p3" using f2
    by (simp_all add: p3_def reset_signal_state_unlocked_def fusion_reset_def fusion_stop_def)
  obtain h p4 where i: "tsd_telemetry_helper_init cpu (g_direct_helper p3) p3 = (ok, h, p4)" using helper_init_ok [OF assms(2)] .
  note w = helper_init_wf [OF i]
  define p5 where "p5 = p4\<lparr>g_direct_helper := h, g_direct_helper_ready := True, g_fusion_cpu := cpu\<rparr>"
  have f5: "helper_held base p5" "g_manager p5" "g_fusion_cpu p5 = cpu"
    using w(2) w(3) [of base] f3 base more_globals(2) [OF env_globals(1) [OF w(1)]]
    by (simp_all add: p5_def helper_held_def owns_msr_def)
  obtain e6 f p6 where s: "fusion_start (fusion_make config []) p5 = (e6, f, p6)" by (metis prod_cases3)
  note r = fusion_start_result [OF s f5(1,2)] 
  have "(e, q) = (if x1 \<noteq> None then (x1, p1) else if x2 \<noteq> None then (x2, p2) else if e6 \<noteq> None then (e6, p6\<lparr>g_fusion := Some f\<rparr>)
      else (None, p6\<lparr>g_fusion := Some f, g_fusion_users := 1, fusion_running := True\<rparr>))"
    using assms(3) t1 t2 i s
    by (auto simp: start_engine_def Let_def config_def [symmetric] p3_def [symmetric] p5_def [symmetric] split: option.splits)
  moreover have "helper_held base p1" "helper_held base p2" using f1 f2 base assms(1) by (simp_all add: helper_held_def bridge_idle_def)
  moreover have "helper_held base (p6\<lparr>g_fusion := Some f\<rparr>)" using r(1) f5 assms(2) by simp
  moreover have "bridge_active base (p6\<lparr>g_fusion := Some f, g_fusion_users := 1, fusion_running := True\<rparr>)" "g_fusion_cpu p6 = cpu" if "e6 = None"
    using r(2,3) f5(3) assms(2) that by simp_all
  ultimately show "helper_held base q" "e = None \<Longrightarrow> bridge_active base q \<and> service q = Some (cpu, 1)"
    using active_service [of base q] by (auto simp: bridge_active_def split: if_splits)
qed

lemma start_sample_result:
  assumes "bridge_active base p" "start_sample sha256 p = (e, q)"
  shows "bridge_active base q \<and> service q = service p"
proof (cases "g_direct_helper_ready p")
  case False
  then have "service_same p q" using assms(2) gate_service by (auto simp: start_sample_def)
  then show ?thesis using inv_service_same [OF assms(1)] by blast
next
  case True
  obtain r h d p1 where s: "tsd_telemetry_helper_sample (g_direct_helper p) p = (r, h, d, p1)" by (metis prod_cases4)
  let ?p2 = "p1\<lparr>g_direct_helper := h\<rparr>"
  have a: "bridge_active base ?p2" using assms(1) True s by (rule helper_sample_active)
  have "helper_wf (g_direct_helper p)" using assms(1) True by (simp add: bridge_active_def helper_held_def)
  then have v: "service ?p2 = service p"
    using more_globals [OF env_globals(1) [OF helper_sample_wf(1) [OF s]]] by (simp add: service_def)
  obtain e3 p3 where d: "publish_sample_unlocked d ?p2 = (e3, p3)" by fastforce
  have s3: "service_same ?p2 p3" using d by (rule publish_sample_service)
  have gate: "service_same ?p2 (update_temperature_gate_unlocked sha256 b (update_temperature_observability_unlocked x p'))"
    if "service_same ?p2 p'" for b x p'
    using that service_same_trans outer_service [OF observability_outer] gate_service by blast
  have "service_same ?p2 q" using assms(2) True s d s3 gate [OF s3] gate [OF service_same_refl] gate_service
    by (auto simp: start_sample_def Let_def split: if_splits sum.splits)
  then show ?thesis using inv_service_same [OF a] v by simp
qed

lemma start_inv:
  assumes "bridge_inv base p" "tsd_telemetry_fusion_start_for_cpu sha256 cpu p = (r, q)"
  shows "bridge_inv base q" "r \<noteq> ok \<Longrightarrow> service q = service p"
    "r = ok \<Longrightarrow> service q = (case service p of None \<Rightarrow> Some (cpu, 1) | Some (c, n) \<Rightarrow> Some (c, n + 1)) \<and>
       (\<forall>c n. service p = Some (c, n) \<longrightarrow> c = cpu)"
proof -
  obtain e p1 where t: "may_throw p = (e, p1)" by fastforce
  have i: "bridge_inv base p1" "service p1 = service p" using bridge_throw [OF t assms(1)] .
  have "bridge_inv base q \<and> (if r = ok then service q = (case service p1 of None \<Rightarrow> Some (cpu, 1) | Some (c, n) \<Rightarrow> Some (c, n + 1)) \<and>
       (\<forall>c n. service p1 = Some (c, n) \<longrightarrow> c = cpu) else service q = service p1)"
  proof (cases "e = None \<and> \<not> cpu < 0 \<and> \<not> (runtime_config_initialized p1 \<and> telemetry_profile_path (runtime_config p1) \<noteq> [])")
    case False
    then have "r \<noteq> ok \<and> q = p1" using assms(2) t
      by (cases e) (auto simp: tsd_telemetry_fusion_start_for_cpu_def start_unlocked_def split: if_split_asm)
    then show ?thesis using i by simp
  next
    case True
    then have st: "start_unlocked sha256 cpu p1 = (r, q)" using assms(2) t by (simp add: tsd_telemetry_fusion_start_for_cpu_def)
    consider (idle) "bridge_idle base p1" | (active) "bridge_active base p1" using i by (auto simp: bridge_inv_def)
    then show ?thesis
    proof cases
      case active
      then have "(r, q) = (if cpu \<noteq> g_fusion_cpu p1 then (Inl EBUSY, p1) else (ok, p1\<lparr>g_fusion_users := g_fusion_users p1 + 1\<rparr>))"
        using st True by (auto simp: start_unlocked_def bridge_active_def engine_ok_def split: option.splits)
      then show ?thesis using active active_service [OF active] active_service [of base q]
        by (auto simp: bridge_inv_def split: if_splits)
    next
      case idle
      obtain e2 p2 where g: "start_engine cpu p1 = (e2, p2)" by fastforce
      obtain e3 p3 where s: "start_sample sha256 (worker_runs p2) = (e3, p3)" by fastforce
      note gr = start_engine_result [OF idle _ g]
      have a3: "bridge_active base p3 \<and> service p3 = Some (cpu, 1)" if "e2 = None"
        using gr(2) True that start_sample_result [OF _ s] inv_service_same [OF _ worker_service, of base p2]
        by (auto simp: bridge_active_def)
      then have h3: "helper_held base p3" if "e2 = None" using that by (simp add: bridge_active_def)
      have "(r, q) = (case e2 of Some e \<Rightarrow> (Inl (exception_errno e), rollback_start_unlocked p2)
          | None \<Rightarrow> (case e3 of Some e \<Rightarrow> (Inl (exception_errno e), rollback_start_unlocked p3) | None \<Rightarrow> (ok, p3)))"
        using st True idle g s by (auto simp: start_unlocked_def bridge_idle_def split: option.splits)
      moreover have "helper_held base p2" using gr(1) True by simp
      ultimately show ?thesis using a3 h3 rollback_idle idle_service [OF idle] idle_service [OF rollback_idle]
        by (auto simp: bridge_inv_def split: option.splits)
    qed
  qed
  then show "bridge_inv base q" "r \<noteq> ok \<Longrightarrow> service q = service p"
    "r = ok \<Longrightarrow> service q = (case service p of None \<Rightarrow> Some (cpu, 1) | Some (c, n) \<Rightarrow> Some (c, n + 1)) \<and>
       (\<forall>c n. service p = Some (c, n) \<longrightarrow> c = cpu)" using i(2) by auto
qed

section \<open>Runs of the service\<close>

text \<open>
  The calls in any order and with any outcome, the worker between them, and whatever the rest of the
  process does to state the bridge does not own.
\<close>

inductive bridge_step :: "(u8 list \<Rightarrow> u8 list option) \<Rightarrow> 'a fproc_scheme \<Rightarrow> 'a fproc_scheme \<Rightarrow> bool" for sha256 where
  step_start: "tsd_telemetry_fusion_start_for_cpu sha256 cpu p = (r, q) \<Longrightarrow> bridge_step sha256 p q"
| step_stop: "bridge_step sha256 p (tsd_telemetry_fusion_stop p)"
| step_publish: "tsd_telemetry_fusion_publish_sample sha256 sample p = (r, q) \<Longrightarrow> bridge_step sha256 p q"
| step_sample: "tsd_telemetry_fusion_sample sha256 wanted p = (r, out, q) \<Longrightarrow> bridge_step sha256 p q"
| step_worker: "g_fusion p \<noteq> None \<Longrightarrow> bridge_step sha256 p (worker_runs p)"
| step_other: "sproc.more q = sproc.more p \<Longrightarrow> fd_table q = fd_table p \<Longrightarrow> fusion_running q = fusion_running p \<Longrightarrow> bridge_step sha256 p q"

inductive_cases bridge_stepE: "bridge_step sha256 p q"

lemma other_inv:
  assumes "sproc.more q = sproc.more p" "fd_table q = fd_table p" "fusion_running q = fusion_running p" "bridge_inv base p"
  shows "bridge_inv base q"
proof -
  note g = more_globals [OF assms(1)]
  have "bridge_idle base q = bridge_idle base p" using g assms(2,3) by (simp add: bridge_idle_def)
  moreover have "helper_held base q = helper_held base p" using g assms(2) by (simp add: helper_held_def owns_msr_def)
  then have "bridge_active base q = bridge_active base p" using g assms(3) by (simp add: bridge_active_def engine_ok_def)
  ultimately show ?thesis using assms(4) by (simp add: bridge_inv_def)
qed

lemma bridge_step_inv:
  assumes "bridge_inv base p" "bridge_step sha256 p q"
  shows "bridge_inv base q"
  using assms(2)
proof (cases rule: bridge_step.cases)
  case step_worker
  then have "bridge_active base p" using assms(1) by (auto simp: bridge_inv_def bridge_idle_def)
  then show ?thesis using step_worker inv_service_same worker_service by (auto simp: bridge_inv_def bridge_active_def)
next
  case (step_start cpu r)
  then show ?thesis using start_inv(1) [OF assms(1)] by blast
next
  case step_stop
  then show ?thesis using stop_inv(1) [OF assms(1)] by simp
next
  case (step_publish sample r)
  then show ?thesis using publish_inv_same [OF assms(1)] by blast
next
  case (step_sample wanted r out)
  then show ?thesis using sample_inv_same [OF assms(1)] by blast
next
  case step_other
  then show ?thesis using other_inv assms(1) by blast
qed

interpretation bridge: inductive_invariant "bridge_idle base" "bridge_step sha256" "bridge_inv base" for base sha256
  using bridge_step_inv by unfold_locales (auto simp: bridge_inv_def)

section \<open>Raw values\<close>

text \<open>The raw cache and what its freshness depends on.\<close>

definition raw_same :: "'a fproc_scheme \<Rightarrow> 'a fproc_scheme \<Rightarrow> bool" where
  "raw_same p q \<longleftrightarrow> g_raw_temp_valid q = g_raw_temp_valid p \<and> g_raw_temp_millic q = g_raw_temp_millic p \<and>
     g_raw_temp_at q = g_raw_temp_at p"

lemma raw_same_refl [simp]: "raw_same p p"
  by (simp add: raw_same_def)

lemma raw_same_trans [trans]: "raw_same p q \<Longrightarrow> raw_same q r \<Longrightarrow> raw_same p r"
  by (simp add: raw_same_def)

lemma outer_raw: "outer_same p q \<Longrightarrow> raw_same p q"
  by (simp add: raw_same_def outer_globals)

lemma worker_raw: "raw_same p (worker_runs p)"
proof -
  obtain n rest where n: "next_of 0 (worker_passes p) = (n, rest)" by fastforce
  have o: "outer_same (p\<lparr>worker_passes := rest\<rparr>) q" if "worker_iterations n (f, p\<lparr>worker_passes := rest\<rparr>) = (f', q)" for f f' q n
    using that
  proof (induction n arbitrary: f' q)
    case (Suc n)
    obtain f1 p1 where r: "worker_iterations n (f, p\<lparr>worker_passes := rest\<rparr>) = (f1, p1)" by fastforce
    then show ?case using Suc iteration_outer [of f1 p1 f' q] outer_same_trans by fastforce
  qed simp
  show ?thesis
  proof (cases "g_fusion p")
    case (Some f)
    obtain f' q where w: "worker_iterations n (f, p\<lparr>worker_passes := rest\<rparr>) = (f', q)" by fastforce
    have "raw_same (p\<lparr>worker_passes := rest\<rparr>) q" using o [OF w] by (rule outer_raw)
    then show ?thesis using Some n w by (auto simp: worker_runs_def raw_same_def Let_def)
  qed (use n in \<open>simp add: worker_runs_def raw_same_def Let_def\<close>)
qed

lemma clock_raw: "steady_clock_now p = (t, q) \<Longrightarrow> raw_same p q \<and> steady_now q = t"
proof -
  assume "steady_clock_now p = (t, q)"
  then have q: "q = p\<lparr>steady_now := t, clock_results := clock_results q\<rparr>" by (rule steady_clock_step(1))
  show ?thesis by (subst (1 2) q) (simp add: raw_same_def)
qed

lemma copy_raw_temperature:
  "sm_temp_available out = 0 \<Longrightarrow>
   sm_temp_available (copy_raw_cache_unlocked now p out) \<noteq> 0 \<longleftrightarrow> g_raw_temp_valid p \<and> raw_is_fresh (g_raw_temp_at p) now p"
  "sm_temp_available out = 0 \<Longrightarrow> sm_temp_available (copy_raw_cache_unlocked now p out) \<noteq> 0 \<Longrightarrow>
   sm_package_temp_millic (copy_raw_cache_unlocked now p out) = g_raw_temp_millic p"
  by (auto simp: copy_raw_cache_unlocked_def Let_def)

lemma fill_filtered_keeps:
  "sm_temp_available (fill_filtered_from_raw out) = sm_temp_available out"
  "sm_package_temp_millic (fill_filtered_from_raw out) = sm_package_temp_millic out"
  by (simp_all add: fill_filtered_from_raw_def Let_def)

lemma copy_filtered_keeps: "copy_filtered_snapshot snapshot out = (b, out') \<Longrightarrow> sm_temp_available out' = sm_temp_available out"
  by (auto simp: copy_filtered_snapshot_def split: if_splits)

text \<open>A reading that is published is also cached, before anything can fail.\<close>

lemma publish_reading_raw: "publish_reading sig r p = (e, q) \<Longrightarrow> raw_same p q"
  by (auto simp: publish_reading_def may_throw_def raw_same_def split: option.splits prod.splits)

lemma publish_sample_raw:
  assumes "publish_sample_unlocked d p = (r, q)" "g_manager p" "g_fusion p \<noteq> None" "sm_temp_available d \<noteq> 0"
  shows "g_raw_temp_millic q = sm_package_temp_millic d"
proof -
  obtain now p1 where c: "steady_clock_now p = (now, p1)" by fastforce
  let ?p2 = "record_raw_sample_unlocked d now p1"
  obtain e3 p3 where t: "publish_temperature d now ?p2 = (e3, p3)" by fastforce
  obtain e4 p4 where f: "publish_frequency d now p3 = (e4, p4)" by fastforce
  have r2: "g_raw_temp_millic ?p2 = sm_package_temp_millic d" using assms(4) by (simp add: record_raw_sample_unlocked_def Let_def)
  have "raw_same ?p2 p3" using t publish_reading_raw assms(4) by (fastforce simp: publish_temperature_def Let_def raw_same_def)
  moreover have "raw_same p3 p4" using f publish_reading_raw
    by (cases "sm_freq_ratio_available d = 0") (fastforce simp: publish_frequency_def Let_def raw_same_def)+
  ultimately have "g_raw_temp_millic p3 = sm_package_temp_millic d" "g_raw_temp_millic p4 = sm_package_temp_millic d"
    using r2 by (simp_all add: raw_same_def)
  moreover have "q = p3 \<or> q = p4" using assms(1-3) c t f
    by (auto simp: publish_sample_unlocked_def split: if_splits option.splits)
  ultimately show ?thesis by blast
qed

lemma sample_direct_raw:
  assumes "sample_direct p = (e, q)" "bridge_active base p" "g_direct_helper_ready p"
    "tsd_telemetry_helper_sample (g_direct_helper p) p = (k, h, d, p1)" "sm_temp_available d \<noteq> 0"
  shows "g_raw_temp_millic q = sm_package_temp_millic d"
proof -
  have w: "helper_wf (g_direct_helper p)" using assms(2,3) by (simp add: bridge_active_def helper_held_def)
  let ?p2 = "p1\<lparr>g_direct_helper := h\<rparr>"
  have a: "bridge_active base ?p2" using assms(2-4) by (rule helper_sample_active)
  have k: "k" using helper_sample_wf(4) [OF assms(4) w] assms(5) by simp
  obtain r p3 where s: "publish_sample_unlocked d ?p2 = (r, p3)" by fastforce
  have "q = p3" using assms(1,3-5) s k by (auto simp: sample_direct_def split: sum.splits)
  then show ?thesis using publish_sample_raw [OF s] a assms(5) by (auto simp: bridge_active_def engine_ok_def split: option.splits)
qed

section \<open>Properties\<close>

text \<open>
  C36. The fusion service is a counted service, whatever its calls, the worker, exceptions and lock
  failures do: a successful start on an idle service makes it run for that processor with one
  user, on a running one it adds a user and only for the same processor, a failed start changes
  nothing, each stop removes one user, and the last stop (or a start that fails halfway) leaves
  the service idle: no engine, no helper, no cached reading, and exactly the descriptors open that
  were open before the first start.
\<close>
theorem fusion_service_counted:
  assumes "reachable (bridge_idle base) (bridge_step sha256) p"
  shows "(case tsd_telemetry_fusion_start_for_cpu sha256 cpu p of (r, q) \<Rightarrow>
      if r = ok then (case service p of None \<Rightarrow> service q = Some (cpu, 1) | Some (c, n) \<Rightarrow> c = cpu \<and> service q = Some (c, n + 1))
      else service q = service p) \<and>
    (fst (may_throw p) = None \<longrightarrow> service (tsd_telemetry_fusion_stop p) = service_stop (service p)) \<and>
    (case service p of None \<Rightarrow> bridge_idle base p | Some _ \<Rightarrow> fusion_running p \<and> engine_ok p)"
proof -
  have i: "bridge_inv base p" using assms by (rule bridge.reachable_inv)
  obtain r q where s: "tsd_telemetry_fusion_start_for_cpu sha256 cpu p = (r, q)" by fastforce
  have "case service p of None \<Rightarrow> bridge_idle base p | Some _ \<Rightarrow> fusion_running p \<and> engine_ok p"
    using i active_service [of base p] idle_service [of base p] by (auto simp: bridge_inv_def bridge_active_def)
  then show ?thesis using start_inv [OF i s] stop_inv(2) [OF i] s by (auto split: option.splits)
qed

definition example_fproc :: fproc where
  "example_fproc = sproc.extend example_sproc
     (fproc_ext None False zero_helper False 0 (- 1) None None False 0 0 False 0 0 [] [] ())"

lemma example_fproc_idle: "bridge_idle {#} example_fproc"
  by (simp add: bridge_idle_def example_fproc_def example_sproc_def proc_init_def sproc.defs proc.defs)

theorem fusion_service_counted_witness:
  "case tsd_telemetry_fusion_start_for_cpu Some 1 example_fproc of (r, q) \<Rightarrow> service q = (if r = ok then Some (1, 1) else None)"
proof -
  have "reachable (bridge_idle {#}) (bridge_step Some) example_fproc" using example_fproc_idle by (rule reachable_init)
  moreover obtain r q where "tsd_telemetry_fusion_start_for_cpu Some 1 example_fproc = (r, q)" by fastforce
  ultimately show ?thesis using fusion_service_counted [of "{#}" Some example_fproc 1] idle_service [OF example_fproc_idle]
    by (simp split: if_splits)
qed


definition example_running :: fproc where
  "example_running = example_fproc\<lparr>fusion_running := True, steady_now := 7,
     g_fusion := Some ((fusion_make \<lparr>fc_poll_interval = 50, fc_freshness_window = 150, fc_ring_size = 1\<rparr> [])\<lparr>tf_running := True\<rparr>),
     g_manager := True, g_fusion_users := 1, g_fusion_cpu := 0,
     g_raw_temp_valid := True, g_raw_temp_millic := 71000, g_raw_temp_at := 5\<rparr>"


end
