(* ===== verification/Perf_Facts.thy ===== *)
theory Perf_Facts
  imports Perf Fusion_Bridge_Facts
begin

text \<open>
  The measuring context (\<open>Perf\<close>): it accounts for every descriptor it opens, keeps its history and its
  back-offs within bounds, claims hardware mode only with open counters and a validated baseline, and
  after the loss of the counters no wide width is authorized.
\<close>

section \<open>Reading\<close>

lemma read_loop_length: "read_loop want out rs = (Some bs, rest) \<Longrightarrow> length out \<le> want \<Longrightarrow> length bs = want"
  by (induction want out rs rule: read_loop.induct) (auto split: if_splits sum.splits)

lemma read_loop_interrupts: "fst (read_loop want out (filter (\<lambda>r. r \<noteq> Inl EINTR) rs)) = fst (read_loop want out rs)"
proof (induction rs arbitrary: out)
  case (Cons r rs)
  show ?case
  proof (cases "length out < want")
    case True
    then show ?thesis using Cons by (cases r) (auto split: if_splits)
  next
    case False
    moreover have "\<not> length out < want \<Longrightarrow> fst (read_loop want out xs) = Some out" for xs by (cases xs) simp_all
    ultimately show ?thesis by metis
  qed
qed simp

section \<open>Frames\<close>

text \<open>The state of the fusion service, apart from descriptors.\<close>

definition bridge_frame :: "'a fproc_scheme \<Rightarrow> 'a fproc_scheme \<Rightarrow> bool" where
  "bridge_frame p q \<longleftrightarrow> g_fusion q = g_fusion p \<and> g_manager q = g_manager p \<and> g_direct_helper q = g_direct_helper p \<and>
     g_direct_helper_ready q = g_direct_helper_ready p \<and> g_fusion_users q = g_fusion_users p \<and> g_fusion_cpu q = g_fusion_cpu p \<and>
     g_raw_temp_valid q = g_raw_temp_valid p \<and> fusion_running q = fusion_running p"

definition open_fd :: "int \<Rightarrow> int multiset" where
  "open_fd fd = (if fd \<ge> 0 then {#fd#} else {#})"

definition service_fds :: "'a fproc_scheme \<Rightarrow> int multiset" where
  "service_fds p = (if g_direct_helper_ready p then open_fd (th_msr_fd (g_direct_helper p)) else {#})"

lemma bridge_frame_refl [simp]: "bridge_frame p p"
  by (simp add: bridge_frame_def)

lemma bridge_frame_trans [trans]: "bridge_frame p q \<Longrightarrow> bridge_frame q r \<Longrightarrow> bridge_frame p r"
  by (simp add: bridge_frame_def)

lemma bridge_inv_fds: "bridge_inv base p \<Longrightarrow> mset (fd_table p) = base + service_fds p"
  by (auto simp: bridge_inv_def bridge_idle_def bridge_active_def helper_held_def owns_msr_def service_fds_def open_fd_def
      split: if_splits)

lemma bridge_move:
  assumes "bridge_inv base p" "bridge_frame p q" "mset (fd_table q) = base' + service_fds p"
  shows "bridge_inv base' q"
  using assms
  by (auto simp: bridge_inv_def bridge_idle_def bridge_active_def helper_held_def owns_msr_def service_fds_def open_fd_def
      bridge_frame_def engine_ok_def split: if_splits)

section \<open>Descriptors of a context\<close>

definition perf_fds :: "perf_ctx \<Rightarrow> int multiset" where
  "perf_fds ctx = open_fd (pc_fd_cycles ctx) + open_fd (pc_fd_insns ctx) + open_fd (pc_fd_llc_misses ctx) +
     open_fd (th_msr_fd (pc_telemetry ctx))"

definition owns :: "int multiset \<Rightarrow> perf_ctx \<Rightarrow> 'a sproc_scheme \<Rightarrow> bool" where
  "owns rest ctx p \<longleftrightarrow> mset (fd_table p) = rest + perf_fds ctx"

text \<open>A step of a context that accounts for its descriptors and leaves the fusion service alone.\<close>

definition perf_moves :: "perf_ctx \<Rightarrow> 'a fproc_scheme \<Rightarrow> perf_ctx \<Rightarrow> 'a fproc_scheme \<Rightarrow> bool" where
  "perf_moves ctx p ctx' q \<longleftrightarrow> bridge_frame p q \<and> (\<forall>rest. owns rest ctx p \<longrightarrow> owns rest ctx' q)"

lemma perf_moves_trans [trans]: "perf_moves ctx p ctx1 p1 \<Longrightarrow> perf_moves ctx1 p1 ctx2 p2 \<Longrightarrow> perf_moves ctx p ctx2 p2"
  using bridge_frame_trans by (auto simp: perf_moves_def)

lemma perf_moves_inv:
  assumes "perf_moves ctx p ctx' q" "bridge_inv (base + perf_fds ctx) p"
  shows "bridge_inv (base + perf_fds ctx') q"
proof -
  have "owns (base + service_fds p) ctx p" using bridge_inv_fds [OF assms(2)] by (simp add: owns_def ac_simps)
  then have "owns (base + service_fds p) ctx' q" using assms(1) by (simp add: perf_moves_def)
  then have "mset (fd_table q) = base + perf_fds ctx' + service_fds p" by (simp add: owns_def ac_simps)
  then show ?thesis using bridge_move [OF assms(2)] assms(1) by (auto simp: perf_moves_def)
qed

lemma perf_moves_quiet:
  assumes "bridge_frame p q" "fd_table q = fd_table p" "perf_fds ctx' = perf_fds ctx"
  shows "perf_moves ctx p ctx' q"
  using assms by (simp add: perf_moves_def owns_def)

lemma perf_moves_refl [simp]: "perf_moves ctx p ctx p"
  by (simp add: perf_moves_quiet)

lemma outer_frame: "outer_same p q \<Longrightarrow> bridge_frame p q \<and> fd_table q = fd_table p"
  using outer_globals [of p q] outer_fields(2) [of p q] by (simp add: bridge_frame_def) (simp add: outer_same_def)

lemma env_frame:
  assumes "env_step p q"
  shows "bridge_frame p q"
  using more_globals [OF env_globals(1) [OF assms]] env_globals(2) [OF assms] by (simp add: bridge_frame_def)

text \<open>A step that only reads the clock.\<close>

definition ticks :: "'a sproc_scheme \<Rightarrow> 'a sproc_scheme \<Rightarrow> bool" where
  "ticks p q \<longleftrightarrow> (\<exists>t c. steady_now p \<le> t \<and> q = p\<lparr>steady_now := t, clock_results := c\<rparr>)"

lemma ticks_refl [simp]: "ticks p p"
  unfolding ticks_def by (rule exI [of _ "steady_now p"], rule exI [of _ "clock_results p"]) (cases p, simp)

lemma clock_gettime_ticks: "clock_gettime p = (r, q) \<Longrightarrow> ticks p q"
proof (cases "next_of (Some 0) (clock_results p)")
  case (Pair a rest)
  assume "clock_gettime p = (r, q)"
  then have "q = p\<lparr>steady_now := (case a of None \<Rightarrow> steady_now p | Some adv \<Rightarrow> steady_now p + int adv), clock_results := rest\<rparr>"
    using Pair by (cases p) (auto simp: clock_gettime_def Let_def split: option.splits)
  moreover have "steady_now p \<le> (case a of None \<Rightarrow> steady_now p | Some adv \<Rightarrow> steady_now p + int adv)" by (simp split: option.split)
  ultimately show ?thesis unfolding ticks_def by blast
qed

lemma clock_ticks:
  "clock_or old p = (t, q) \<Longrightarrow> ticks p q"
  "monotonic_now_ns p = (n, q) \<Longrightarrow> ticks p q"
  using clock_gettime_ticks [of p _ q] by (auto simp: clock_or_def monotonic_now_ns_def split: prod.splits option.splits)

lemma ticks_frame: "ticks p q \<Longrightarrow> bridge_frame p q \<and> fd_table q = fd_table p"
  by (auto simp: ticks_def bridge_frame_def)

lemma ticks_moves: "ticks p q \<Longrightarrow> perf_fds ctx' = perf_fds ctx \<Longrightarrow> perf_moves ctx p ctx' q"
  using ticks_frame perf_moves_quiet by blast

text \<open>The back-off doubles up to its bound.\<close>

lemma next_retry_step:
  assumes "next_retry b p = ((d, b'), q)"
  shows "ticks p q" "b \<in> {5..60} \<Longrightarrow> b' \<in> {5..60} \<and> b' = min 60 (2 * b)"
  using assms clock_ticks(2) [of p _ q] by (auto simp: next_retry_def Let_def split: prod.splits if_splits)

abbreviation backoff_ok :: "int \<Rightarrow> bool" where
  "backoff_ok b \<equiv> b \<in> {PERF_INITIAL_BACKOFF_SEC..PERF_MAX_BACKOFF_SEC}"

lemma schedule_perf_step:
  assumes "schedule_perf_retry ctx p = (ctx', q)"
  obtains d b where "ctx' = ctx\<lparr>pc_perf_retry_deadline_ns := d, pc_perf_retry_backoff_seconds := b\<rparr>" "ticks p q"
    "backoff_ok (pc_perf_retry_backoff_seconds ctx) \<Longrightarrow> backoff_ok b"
proof (cases "pc_force_software ctx")
  case True
  then show ?thesis using that [of "pc_perf_retry_backoff_seconds ctx" "pc_perf_retry_deadline_ns ctx"] assms
    by (cases ctx) (simp add: schedule_perf_retry_def)
next
  case False
  obtain d b p1 where n: "next_retry (pc_perf_retry_backoff_seconds ctx) p = ((d, b), p1)" by (metis prod.exhaust)
  then show ?thesis using that [of b d] next_retry_step [OF n] False assms by (simp add: schedule_perf_retry_def)
qed

lemma schedule_llc_step:
  assumes "schedule_llc_retry ctx p = (ctx', q)"
  obtains d b where "ctx' = ctx\<lparr>pc_llc_retry_deadline_ns := d, pc_llc_retry_backoff_seconds := b\<rparr>" "ticks p q"
    "backoff_ok (pc_llc_retry_backoff_seconds ctx) \<Longrightarrow> backoff_ok b"
proof (cases "pc_force_software ctx")
  case True
  then show ?thesis using that [of "pc_llc_retry_backoff_seconds ctx" "pc_llc_retry_deadline_ns ctx"] assms
    by (cases ctx) (simp add: schedule_llc_retry_def)
next
  case False
  obtain d b p1 where n: "next_retry (pc_llc_retry_backoff_seconds ctx) p = ((d, b), p1)" by (metis prod.exhaust)
  then show ?thesis using that [of b d] next_retry_step [OF n] False assms by (simp add: schedule_llc_retry_def)
qed

lemma due_ticks:
  "perf_retry_due ctx p = (b, q) \<Longrightarrow> ticks p q"
  "llc_retry_due ctx p = (b, q) \<Longrightarrow> ticks p q"
  using clock_ticks(2) [of p _ q] by (auto simp: perf_retry_due_def llc_retry_due_def split: if_splits prod.splits)

section \<open>Opening and closing\<close>

lemma close_if_open_fds: "mset (fd_table (close_if_open fd p)) = mset (fd_table p) - open_fd fd"
  by (simp add: close_if_open_def close_fd_def open_fd_def)

lemma close_if_open_frame: "bridge_frame p (close_if_open fd p)"
  by (simp add: close_if_open_def close_fd_def bridge_frame_def)

definition closed_ctx :: "perf_ctx \<Rightarrow> perf_ctx" where
  "closed_ctx ctx = ctx\<lparr>pc_fd_cycles := - 1, pc_fd_insns := - 1, pc_fd_llc_misses := - 1, pc_last_group_valid := False,
     pc_last_llc_value := 0, pc_zero_running_samples := 0\<rparr>"

lemma close_perf_events_moves:
  assumes "close_perf_events ctx p = (ctx', q)"
  shows "ctx' = closed_ctx ctx" "perf_moves ctx p ctx' q"
proof -
  have q: "q = close_if_open (pc_fd_llc_misses ctx) (close_if_open (pc_fd_insns ctx) (close_if_open (pc_fd_cycles ctx) p))"
    and c: "ctx' = closed_ctx ctx" using assms by (simp_all add: close_perf_events_def closed_ctx_def)
  have "bridge_frame p q" unfolding q using close_if_open_frame bridge_frame_trans by blast
  then show "ctx' = closed_ctx ctx" "perf_moves ctx p ctx' q"
    unfolding c perf_moves_def owns_def q close_if_open_fds by (simp_all add: perf_fds_def closed_ctx_def open_fd_def ac_simps)
qed

lemma open_sys_moves:
  assumes "perf_event_open_sys p = (r, q)"
  shows "bridge_frame p q" "mset (fd_table q) = mset (fd_table p) + (case r of Inl _ \<Rightarrow> {#} | Inr fd \<Rightarrow> open_fd (int fd))"
  using assms by (auto simp: perf_event_open_sys_def bridge_frame_def open_fd_def split: prod.splits sum.splits)

text \<open>What an operation on the optional counter may change of the context.\<close>

definition llc_step :: "perf_ctx \<Rightarrow> perf_ctx \<Rightarrow> bool" where
  "llc_step ctx ctx' \<longleftrightarrow> (\<exists>fd d b v. ctx' = ctx\<lparr>pc_fd_llc_misses := fd, pc_llc_retry_deadline_ns := d,
     pc_llc_retry_backoff_seconds := b, pc_last_llc_value := v\<rparr> \<and>
     (backoff_ok (pc_llc_retry_backoff_seconds ctx) \<longrightarrow> backoff_ok b))"

lemma llc_step_refl [simp]: "llc_step ctx ctx"
  unfolding llc_step_def
  by (rule exI [of _ "pc_fd_llc_misses ctx"], rule exI [of _ "pc_llc_retry_deadline_ns ctx"],
      rule exI [of _ "pc_llc_retry_backoff_seconds ctx"], rule exI [of _ "pc_last_llc_value ctx"]) (cases ctx, simp)

lemma llc_step_trans [trans]: "llc_step a b \<Longrightarrow> llc_step b c \<Longrightarrow> llc_step a c"
  unfolding llc_step_def by (elim exE conjE) (simp, blast)

lemma drop_llc_moves:
  assumes "drop_llc ctx p = (ctx', q)" "pc_fd_llc_misses ctx \<ge> 0"
  shows "llc_step ctx ctx'" "perf_moves ctx p ctx' q" "pc_fd_llc_misses ctx' = - 1"
proof -
  let ?c = "ctx\<lparr>pc_fd_llc_misses := - 1\<rparr>" and ?p = "close_fd (pc_fd_llc_misses ctx) p"
  obtain d b where s: "ctx' = ?c\<lparr>pc_llc_retry_deadline_ns := d, pc_llc_retry_backoff_seconds := b\<rparr>" "ticks ?p q"
    "backoff_ok (pc_llc_retry_backoff_seconds ?c) \<Longrightarrow> backoff_ok b"
    using schedule_llc_step [OF assms(1) [unfolded drop_llc_def]] by metis
  show "llc_step ctx ctx'" unfolding llc_step_def
    by (rule exI [of _ "- 1"], rule exI [of _ d], rule exI [of _ b], rule exI [of _ "pc_last_llc_value ctx"])
       (use s in \<open>cases ctx, simp\<close>)
  have "perf_moves ctx p ?c ?p" using assms(2)
    by (auto simp: perf_moves_def owns_def perf_fds_def open_fd_def close_fd_def bridge_frame_def)
  also have "perf_moves ?c ?p ctx' q" using s by (intro ticks_moves) (simp_all add: perf_fds_def)
  finally show "perf_moves ctx p ctx' q" .
  show "pc_fd_llc_misses ctx' = - 1" using s by simp
qed

lemma open_llc_moves:
  assumes "open_llc_event ctx p = (r, ctx', q)"
  shows "llc_step ctx ctx'" "perf_moves ctx p ctx' q"
proof -
  let ?c = "ctx\<lparr>pc_fd_llc_misses := (if pc_fd_llc_misses ctx \<ge> 0 then - 1 else pc_fd_llc_misses ctx)\<rparr>"
  let ?p = "close_if_open (pc_fd_llc_misses ctx) p"
  have c: "(if pc_fd_llc_misses ctx \<ge> 0 then ctx\<lparr>pc_fd_llc_misses := - 1\<rparr> else ctx) = ?c" by (cases ctx) simp
  obtain r1 p1 where o: "perf_event_open_sys ?p = (r1, p1)" by fastforce
  have m: "perf_moves ctx p ?c ?p" using close_if_open_fds [of "pc_fd_llc_misses ctx" p] close_if_open_frame
    by (auto simp: perf_moves_def owns_def perf_fds_def open_fd_def)
  note s = open_sys_moves [OF o]
  have "llc_step ctx ctx' \<and> perf_moves ?c ?p ctx' q"
  proof (cases r1)
    case (Inl e)
    have "schedule_llc_retry ?c p1 = (ctx', q)" using assms o Inl c by (auto simp: open_llc_event_def Let_def split: prod.splits)
    then obtain d b where d: "ctx' = ?c\<lparr>pc_llc_retry_deadline_ns := d, pc_llc_retry_backoff_seconds := b\<rparr>" "ticks p1 q"
      "backoff_ok (pc_llc_retry_backoff_seconds ?c) \<Longrightarrow> backoff_ok b" by (metis schedule_llc_step)
    have "perf_moves ?c ?p ?c p1" using s Inl by (simp add: perf_moves_def owns_def)
    moreover have "perf_moves ?c p1 ctx' q" using d by (intro ticks_moves) (simp_all add: perf_fds_def)
    moreover have "llc_step ctx ctx'" unfolding llc_step_def
      by (rule exI [of _ "pc_fd_llc_misses ?c"], rule exI [of _ d], rule exI [of _ b], rule exI [of _ "pc_last_llc_value ctx"])
         (use d in \<open>cases ctx, simp\<close>)
    ultimately show ?thesis using perf_moves_trans by blast
  next
    case (Inr fd)
    have r: "ctx' = ?c\<lparr>pc_fd_llc_misses := int fd, pc_llc_retry_deadline_ns := 0, pc_llc_retry_backoff_seconds := 5\<rparr>" "q = p1"
      using assms o Inr c by (auto simp: open_llc_event_def reset_llc_retry_def Let_def)
    have "llc_step ctx ctx'" unfolding llc_step_def
      by (rule exI [of _ "int fd"], rule exI [of _ 0], rule exI [of _ 5], rule exI [of _ "pc_last_llc_value ctx"])
         (use r in \<open>cases ctx, simp\<close>)
    then show ?thesis using s r Inr by (auto simp: perf_moves_def owns_def perf_fds_def open_fd_def)
  qed
  then show "llc_step ctx ctx'" "perf_moves ctx p ctx' q" using m perf_moves_trans by blast+
qed

text \<open>A step that only consumes results of \<^verbatim>\<open>read\<close> and \<^verbatim>\<open>ioctl\<close> and observes work.\<close>

definition io_step :: "'a pproc_scheme \<Rightarrow> 'a pproc_scheme \<Rightarrow> bool" where
  "io_step p q \<longleftrightarrow> (\<exists>w r i v. q = p\<lparr>workload_iterations := w, read_results := r, ioctl_results := i, observed_work := v\<rparr>)"

lemma io_refl [simp]: "io_step p p"
  unfolding io_step_def
  by (rule exI [of _ "workload_iterations p"], rule exI [of _ "read_results p"], rule exI [of _ "ioctl_results p"],
      rule exI [of _ "observed_work p"]) (cases p, simp)

lemma io_trans [trans]: "io_step a b \<Longrightarrow> io_step b c \<Longrightarrow> io_step a c"
  unfolding io_step_def by (elim exE) (simp, blast)

lemma io_moves: "io_step p q \<Longrightarrow> perf_moves ctx p ctx q"
  by (rule perf_moves_quiet) (auto simp: io_step_def bridge_frame_def)

lemma io_updates [simp]:
  "io_step p (p\<lparr>read_results := r\<rparr>)" "io_step p (p\<lparr>ioctl_results := i\<rparr>)"
  "io_step p (p\<lparr>observed_work := v, workload_iterations := w\<rparr>)"
  unfolding io_step_def by (cases p, simp, blast?)+

lemma io_reads:
  "tsd_perf_read_exact fd n p = (r1, q) \<Longrightarrow> io_step p q"
  "read_group fd p = (r2, q) \<Longrightarrow> io_step p q"
  "read_counter fd p = (r3, q) \<Longrightarrow> io_step p q"
  "read_llc_or other ctx p = (r4, q) \<Longrightarrow> io_step p q"
  "perf_ioctl fd req p = (r5, q) \<Longrightarrow> io_step p q"
  by (auto simp: tsd_perf_read_exact_def read_group_def read_counter_def read_llc_or_def perf_ioctl_def
      split: prod.splits option.splits if_splits)

lemma observation_io: "io_step p (create_baseline_observation p)"
  by (simp add: create_baseline_observation_def Let_def split: prod.split)

lemma enable_llc_moves:
  assumes "enable_optional_llc ctx p = (r, ctx', q)"
  shows "llc_step ctx ctx'" "perf_moves ctx p ctx' q" "r \<Longrightarrow> ctx' = ctx"
proof -
  obtain r1 p1 where i: "perf_ioctl (pc_fd_llc_misses ctx) False p = (r1, p1)" by fastforce
  obtain r2 p2 where j: "perf_ioctl (pc_fd_llc_misses ctx) False p1 = (r2, p2)" by fastforce
  have io: "io_step p p1" "io_step p p2" using io_reads(5) [OF i] io_reads(5) [OF j] io_trans by blast+
  consider "ctx' = ctx \<and> q = p" | p3 where "io_step p p3" "pc_fd_llc_misses ctx \<ge> 0" "drop_llc ctx p3 = (ctx', q)" "\<not> r" | "ctx' = ctx \<and> q = p2"
    using assms i j io by (fastforce simp: enable_optional_llc_def split: if_splits bool.splits)
  then have "llc_step ctx ctx' \<and> perf_moves ctx p ctx' q \<and> (r \<longrightarrow> ctx' = ctx)"
  proof cases
    case (2 p3)
    then show ?thesis using drop_llc_moves [OF 2(3,2)] io_moves [OF 2(1)] perf_moves_trans by blast
  qed (use io io_moves in auto)
  then show "llc_step ctx ctx'" "perf_moves ctx p ctx' q" "r \<Longrightarrow> ctx' = ctx" by blast+
qed

lemma enable_strict_moves:
  assumes "enable_perf_events_strict ctx p = (r, ctx', q)"
  shows "llc_step ctx ctx'" "perf_moves ctx p ctx' q"
proof -
  obtain r1 p1 where i: "perf_ioctl (pc_fd_cycles ctx) True p = (r1, p1)" by fastforce
  obtain r2 p2 where j: "perf_ioctl (pc_fd_cycles ctx) True p1 = (r2, p2)" by fastforce
  obtain r3 c3 p3 where e: "enable_optional_llc ctx p2 = (r3, c3, p3)" by (metis prod_cases3)
  have io: "io_step p p1" "io_step p p2" using io_reads(5) [OF i] io_reads(5) [OF j] io_trans by blast+
  have "(ctx', q) \<in> {(ctx, p), (ctx, p1), (ctx, p2), (c3, p3)}"
    using assms i j e by (auto simp: enable_perf_events_strict_def split: if_splits bool.splits)
  then show "llc_step ctx ctx'" "perf_moves ctx p ctx' q"
    using enable_llc_moves [OF e] io io_moves perf_moves_trans by (auto, blast)
qed

text \<open>The context after the primary group was opened.\<close>

definition opened_ctx :: "perf_ctx \<Rightarrow> perf_ctx \<Rightarrow> bool" where
  "opened_ctx ctx ctx' \<longleftrightarrow> (\<exists>c i ctx1. 0 \<le> c \<and> 0 \<le> i \<and> llc_step ((closed_ctx ctx)\<lparr>pc_fd_cycles := c, pc_fd_insns := i\<rparr>) ctx1 \<and>
     ctx' = reset_perf_retry ctx1)"

lemma open_perf_events_moves:
  assumes "open_perf_events ctx p = (r, ctx', q)"
  shows "perf_moves ctx p ctx' q" "r = ok \<Longrightarrow> opened_ctx ctx ctx'" "r \<noteq> ok \<Longrightarrow> ctx' = closed_ctx ctx"
proof -
  obtain p1 where c: "close_perf_events ctx p = (closed_ctx ctx, p1)" "perf_moves ctx p (closed_ctx ctx) p1"
    using close_perf_events_moves by (metis prod.exhaust)
  obtain r2 p2 where o2: "perf_event_open_sys p1 = (r2, p2)" by fastforce
  note s2 = open_sys_moves [OF o2]
  have "perf_moves ctx p ctx' q \<and> (if r = ok then opened_ctx ctx ctx' else ctx' = closed_ctx ctx)"
  proof (cases r2)
    case (Inl e)
    have "ctx' = closed_ctx ctx" "q = p2" "r \<noteq> ok" using assms c o2 Inl by (auto simp: open_perf_events_def)
    moreover have "perf_moves (closed_ctx ctx) p1 (closed_ctx ctx) p2" using s2 Inl by (simp add: perf_moves_def owns_def)
    ultimately show ?thesis using c(2) perf_moves_trans by auto
  next
    case (Inr fc)
    let ?c2 = "(closed_ctx ctx)\<lparr>pc_fd_cycles := int fc\<rparr>"
    have m2: "perf_moves (closed_ctx ctx) p1 ?c2 p2" using s2 Inr
      by (auto simp: perf_moves_def owns_def perf_fds_def open_fd_def closed_ctx_def)
    obtain r3 p3 where o3: "perf_event_open_sys p2 = (r3, p3)" by fastforce
    note s3 = open_sys_moves [OF o3]
    show ?thesis
    proof (cases r3)
      case (Inl e)
      have m3: "perf_moves ?c2 p2 ?c2 p3" using s3 Inl by (simp add: perf_moves_def owns_def)
      have "close_perf_events ?c2 p3 = (ctx', q)" "r \<noteq> ok" using assms c o2 o3 Inr Inl by (auto simp: open_perf_events_def split: prod.splits)
      then show ?thesis using close_perf_events_moves [of ?c2 p3 ctx' q] m2 m3 c(2) perf_moves_trans
        by (auto simp: closed_ctx_def) blast+
    next
      case (Inr fi)
      let ?c3 = "?c2\<lparr>pc_fd_insns := int fi\<rparr>"
      have m3: "perf_moves ?c2 p2 ?c3 p3" using s3 Inr by (auto simp: perf_moves_def owns_def perf_fds_def open_fd_def closed_ctx_def)
      obtain r4 c4 p4 where l: "open_llc_event ?c3 p3 = (r4, c4, p4)" by (metis prod_cases3)
      note s4 = open_llc_moves [OF l]
      have r: "r = ok" "ctx' = reset_perf_retry c4" "q = p4"
        using assms c o2 o3 \<open>r2 = Inr fc\<close> Inr l by (auto simp: open_perf_events_def)
      have "opened_ctx ctx ctx'" unfolding opened_ctx_def using s4(1) r
        by (intro exI [of _ "int fc"] exI [of _ "int fi"] exI [of _ c4]) simp
      moreover have "perf_moves c4 p4 ctx' q" using r by (simp add: perf_moves_quiet reset_perf_retry_def perf_fds_def)
      ultimately show ?thesis using c(2) m2 m3 s4(2) r perf_moves_trans by (metis (no_types, lifting))
    qed
  qed
  then show "perf_moves ctx p ctx' q" "r = ok \<Longrightarrow> opened_ctx ctx ctx'" "r \<noteq> ok \<Longrightarrow> ctx' = closed_ctx ctx" by auto
qed

section \<open>Modes\<close>

lemma publish_outer: "outer_same p (publish_perf_state ctx b p)"
  by (simp add: publish_perf_state_def update_perf_outer)

lemma publish_frame: "bridge_frame p (publish_perf_state ctx b p) \<and> fd_table (publish_perf_state ctx b p) = fd_table p"
  using publish_outer by (rule outer_frame)

lemma frame_updates [simp]:
  "bridge_frame p (p\<lparr>wide_admission_open := b\<rparr>)" "bridge_frame p (p\<lparr>degraded_active := b\<rparr>)"
  "bridge_frame p (p\<lparr>metrics := m\<rparr>)" "bridge_frame p (p\<lparr>calloc_ok := cs\<rparr>)"
  by (simp_all add: bridge_frame_def)

definition settled_ctx :: "tsd_perf_mode_t \<Rightarrow> int \<Rightarrow> perf_ctx \<Rightarrow> perf_ctx" where
  "settled_ctx mode t ctx = (reset_measurement_domain ctx)\<lparr>pc_mode := mode, pc_mode_entered_at := t, pc_timeout_notified := False\<rparr>"

lemma enter_software_step:
  assumes "enter_software sha256 ctx p = (ctx', q)"
  shows "ctx' = ctx\<lparr>pc_calibrated_cpi_reference := 0, pc_calibrated_work_reference := 0, pc_hardware_validated := False\<rparr>"
    "bridge_frame p q \<and> fd_table q = fd_table p"
proof -
  define p0 where "p0 = count_metric TSD_METRIC_PERF_FALLBACKS (tsd_runtime_wide_admission_close p)"
  define p1 where "p1 = p0\<lparr>degraded_active := tsd_runtime_config_enter_degraded_mode (Some GlobalConfig) (degraded_active p0)\<rparr>"
  let ?c = "ctx\<lparr>pc_calibrated_cpi_reference := 0, pc_calibrated_work_reference := 0, pc_hardware_validated := False\<rparr>"
  let ?p2 = "publish_perf_state ?c False p1"
  have f1: "bridge_frame p p1" "fd_table p1 = fd_table p"
    by (simp_all add: p0_def p1_def count_metric_def tsd_runtime_wide_admission_close_def bridge_frame_def)
  have r: "(ctx', q) = (?c, if tsd_trampoline_state_current_width (tstate ?p2) \<noteq> SIMD_SSE41
      then snd (tsd_trampoline_patch sha256 SIMD_SSE41 ?p2) else ?p2)"
    using assms unfolding enter_software_def Let_def p0_def [symmetric] p1_def [symmetric] by (rule sym)
  then show "ctx' = ?c" by simp
  define p2 where "p2 = ?p2"
  have q: "q = p2 \<or> q = snd (tsd_trampoline_patch sha256 SIMD_SSE41 p2)" using r p2_def by (simp split: if_splits)
  have "bridge_frame p1 p2 \<and> fd_table p2 = fd_table p1" unfolding p2_def by (rule publish_frame)
  then have f2: "bridge_frame p p2" "fd_table p2 = fd_table p" using bridge_frame_trans [OF f1(1)] f1(2) by simp_all
  have "bridge_frame p2 (snd (tsd_trampoline_patch sha256 SIMD_SSE41 p2)) \<and>
      fd_table (snd (tsd_trampoline_patch sha256 SIMD_SSE41 p2)) = fd_table p2" using patch_outer by (rule outer_frame)
  then have "bridge_frame p (snd (tsd_trampoline_patch sha256 SIMD_SSE41 p2)) \<and>
      fd_table (snd (tsd_trampoline_patch sha256 SIMD_SSE41 p2)) = fd_table p" using bridge_frame_trans [OF f2(1)] f2(2) by simp
  then show "bridge_frame p q \<and> fd_table q = fd_table p" using q f2 by auto
qed

lemma enter_hardware_step:
  assumes "enter_hardware previous ctx p = (ctx', q)"
  shows "ctx' = ctx" "bridge_frame p q \<and> fd_table q = fd_table p"
proof -
  define p1 where "p1 = (if previous = TSD_PERF_MODE_SOFTWARE \<and> pc_hardware_validated ctx
    then count_metric TSD_METRIC_PERF_RECOVERIES p else p)"
  define p2 where "p2 = p1\<lparr>degraded_active := tsd_runtime_config_exit_degraded_mode (Some GlobalConfig) (degraded_active p1)\<rparr>"
  have f: "bridge_frame p p2" "fd_table p2 = fd_table p" by (simp_all add: p1_def p2_def count_metric_def bridge_frame_def)
  have "ctx' = ctx \<and> q = publish_perf_state ctx (pc_hardware_validated ctx) p2"
    using assms unfolding enter_hardware_def Let_def p1_def [symmetric] p2_def [symmetric] by auto
  then show "ctx' = ctx" "bridge_frame p q \<and> fd_table q = fd_table p"
    using f publish_frame [of p2 ctx "pc_hardware_validated ctx"] bridge_frame_trans by auto
qed

lemma set_mode_step:
  assumes "perf_set_mode sha256 mode ctx p = (ctx', q)"
  shows "pc_mode ctx = mode \<Longrightarrow> ctx' = ctx"
    "pc_mode ctx \<noteq> mode \<Longrightarrow> mode = TSD_PERF_MODE_SOFTWARE \<Longrightarrow> \<exists>t. ctx' = (settled_ctx mode t ctx)
       \<lparr>pc_calibrated_cpi_reference := 0, pc_calibrated_work_reference := 0, pc_hardware_validated := False\<rparr>"
    "pc_mode ctx \<noteq> mode \<Longrightarrow> mode = TSD_PERF_MODE_HARDWARE \<Longrightarrow> \<exists>t. ctx' = settled_ctx mode t ctx"
    "bridge_frame p q \<and> fd_table q = fd_table p"
proof -
  obtain t p1 where c: "clock_or (pc_mode_entered_at ctx) p = (t, p1)" by fastforce
  have f: "bridge_frame p p1" "fd_table p1 = fd_table p" using ticks_frame [OF clock_ticks(1) [OF c]] by auto
  have res: "(ctx', q) = (if pc_mode ctx = mode
      then (ctx, publish_perf_state ctx (mode = TSD_PERF_MODE_HARDWARE \<and> pc_hardware_validated ctx) p)
      else (case mode of
          TSD_PERF_MODE_SOFTWARE \<Rightarrow> enter_software sha256 (settled_ctx mode t ctx) p1
        | TSD_PERF_MODE_HARDWARE \<Rightarrow> enter_hardware (pc_mode ctx) (settled_ctx mode t ctx) p1
        | TSD_PERF_MODE_NONE \<Rightarrow> ((settled_ctx mode t ctx)\<lparr>pc_hardware_validated := False\<rparr>,
            publish_perf_state ((settled_ctx mode t ctx)\<lparr>pc_hardware_validated := False\<rparr>) False p1)))"
    using assms c by (cases "pc_mode ctx = mode"; cases mode) (simp_all add: perf_set_mode_def settled_ctx_def reset_measurement_domain_def Let_def)
  then show "pc_mode ctx = mode \<Longrightarrow> ctx' = ctx" by simp
  show "\<exists>t. ctx' = (settled_ctx mode t ctx)
       \<lparr>pc_calibrated_cpi_reference := 0, pc_calibrated_work_reference := 0, pc_hardware_validated := False\<rparr>"
    if "pc_mode ctx \<noteq> mode" "mode = TSD_PERF_MODE_SOFTWARE"
    using res that enter_software_step(1) [of sha256 "settled_ctx mode t ctx" p1 ctx' q] by auto
  show "\<exists>t. ctx' = settled_ctx mode t ctx" if "pc_mode ctx \<noteq> mode" "mode = TSD_PERF_MODE_HARDWARE"
    using res that enter_hardware_step(1) [of "pc_mode ctx" "settled_ctx mode t ctx" p1 ctx' q] by auto
  have "bridge_frame p1 q \<and> fd_table q = fd_table p1" if "pc_mode ctx \<noteq> mode"
    using res that enter_software_step(2) [of sha256 "settled_ctx mode t ctx" p1 ctx' q]
      enter_hardware_step(2) [of "pc_mode ctx" "settled_ctx mode t ctx" p1 ctx' q] publish_frame
    by (cases mode) auto
  then show "bridge_frame p q \<and> fd_table q = fd_table p" 
    using res f bridge_frame_trans publish_frame [of p ctx "mode = TSD_PERF_MODE_HARDWARE \<and> pc_hardware_validated ctx"]
    by (cases "pc_mode ctx = mode") auto
qed

section \<open>The invariant of a context\<close>

definition ctx_wf :: "perf_ctx \<Rightarrow> bool" where
  "ctx_wf ctx \<longleftrightarrow> length (pc_ratio_history ctx) = TSD_RATIO_HISTORY \<and> pc_ratio_history_count ctx \<le> TSD_RATIO_HISTORY \<and>
     pc_ratio_history_cursor ctx < TSD_RATIO_HISTORY \<and> backoff_ok (pc_perf_retry_backoff_seconds ctx) \<and>
     backoff_ok (pc_llc_retry_backoff_seconds ctx)"

definition mode_wf :: "perf_ctx \<Rightarrow> bool" where
  "mode_wf ctx \<longleftrightarrow> (case pc_mode ctx of
     TSD_PERF_MODE_NONE \<Rightarrow> False
   | TSD_PERF_MODE_HARDWARE \<Rightarrow> 0 \<le> pc_fd_cycles ctx \<and> 0 \<le> pc_fd_insns ctx
   | TSD_PERF_MODE_SOFTWARE \<Rightarrow> pc_fd_cycles ctx = - 1 \<and> pc_fd_insns ctx = - 1 \<and> pc_fd_llc_misses ctx = - 1 \<and>
       \<not> pc_hardware_validated ctx)"

definition held :: "int multiset \<Rightarrow> perf_ctx \<Rightarrow> 'a fproc_scheme \<Rightarrow> bool" where
  "held base ctx p \<longleftrightarrow> helper_wf (pc_telemetry ctx) \<and> bridge_inv (base + perf_fds ctx) p"

lemma held_moves: "held base ctx p \<Longrightarrow> perf_moves ctx p ctx' q \<Longrightarrow> pc_telemetry ctx' = pc_telemetry ctx \<Longrightarrow> held base ctx' q"
  using perf_moves_inv by (auto simp: held_def)

lemma held_frame:
  assumes "held base ctx p" "bridge_frame p q \<and> fd_table q = fd_table p" "perf_fds ctx' = perf_fds ctx"
    "pc_telemetry ctx' = pc_telemetry ctx"
  shows "held base ctx' q"
proof -
  have "perf_moves ctx p ctx' q" using assms(2,3) by (intro perf_moves_quiet) auto
  then show ?thesis using held_moves assms(1,4) by blast
qed

lemma llc_step_keeps:
  assumes "llc_step ctx ctx'"
  shows "pc_mode ctx' = pc_mode ctx" "pc_fd_cycles ctx' = pc_fd_cycles ctx" "pc_fd_insns ctx' = pc_fd_insns ctx"
    "pc_telemetry ctx' = pc_telemetry ctx" "pc_hardware_validated ctx' = pc_hardware_validated ctx" "ctx_wf ctx \<Longrightarrow> ctx_wf ctx'"
    "pc_perf_retry_backoff_seconds ctx' = pc_perf_retry_backoff_seconds ctx" "pc_force_software ctx' = pc_force_software ctx"
  using assms by (auto simp: llc_step_def ctx_wf_def)

lemma opened_keeps:
  assumes "opened_ctx ctx ctx'"
  shows "pc_mode ctx' = pc_mode ctx" "0 \<le> pc_fd_cycles ctx'" "0 \<le> pc_fd_insns ctx'" "pc_telemetry ctx' = pc_telemetry ctx"
    "ctx_wf ctx \<Longrightarrow> ctx_wf ctx'" "pc_perf_retry_backoff_seconds ctx' = 5" "pc_force_software ctx' = pc_force_software ctx"
  using assms by (auto simp: opened_ctx_def reset_perf_retry_def closed_ctx_def llc_step_def ctx_wf_def)

lemma closed_ctx_keeps [simp]:
  "pc_mode (closed_ctx ctx) = pc_mode ctx" "pc_telemetry (closed_ctx ctx) = pc_telemetry ctx" "ctx_wf (closed_ctx ctx) = ctx_wf ctx"
  "pc_hardware_validated (closed_ctx ctx) = pc_hardware_validated ctx" "pc_force_software (closed_ctx ctx) = pc_force_software ctx"
  by (simp_all add: closed_ctx_def ctx_wf_def)

lemma settled_keeps [simp]:
  "pc_mode (settled_ctx mode t ctx) = mode" "perf_fds (settled_ctx mode t ctx) = perf_fds ctx"
  "pc_telemetry (settled_ctx mode t ctx) = pc_telemetry ctx" "pc_hardware_validated (settled_ctx mode t ctx) = pc_hardware_validated ctx"
  "ctx_wf ctx \<Longrightarrow> ctx_wf (settled_ctx mode t ctx)" "pc_fd_cycles (settled_ctx mode t ctx) = pc_fd_cycles ctx"
  "pc_fd_insns (settled_ctx mode t ctx) = pc_fd_insns ctx" "pc_fd_llc_misses (settled_ctx mode t ctx) = pc_fd_llc_misses ctx"
  by (simp_all add: settled_ctx_def reset_measurement_domain_def perf_fds_def ctx_wf_def)

definition perf_inv :: "int multiset \<Rightarrow> perf_ctx \<Rightarrow> 'a fproc_scheme \<Rightarrow> bool" where
  "perf_inv base ctx p \<longleftrightarrow> ctx_wf ctx \<and> mode_wf ctx \<and> held base ctx p"

text \<open>Going to software mode with every descriptor closed, and to hardware mode with the group open.\<close>

lemma set_software_inv:
  assumes "perf_set_mode sha256 TSD_PERF_MODE_SOFTWARE ctx p = (ctx', q)" "ctx_wf ctx" "held base ctx p"
    "pc_fd_cycles ctx = - 1" "pc_fd_insns ctx = - 1" "pc_fd_llc_misses ctx = - 1" "\<not> pc_hardware_validated ctx"
  shows "perf_inv base ctx' q" "pc_mode ctx' = TSD_PERF_MODE_SOFTWARE"
proof -
  have "ctx_wf ctx' \<and> mode_wf ctx' \<and> perf_fds ctx' = perf_fds ctx \<and> pc_telemetry ctx' = pc_telemetry ctx \<and> pc_mode ctx' = TSD_PERF_MODE_SOFTWARE"
  proof (cases "pc_mode ctx = TSD_PERF_MODE_SOFTWARE")
    case True
    then show ?thesis using set_mode_step(1) [OF assms(1)] assms by (simp add: mode_wf_def)
  next
    case False
    then obtain t where t: "ctx' = (settled_ctx TSD_PERF_MODE_SOFTWARE t ctx)
       \<lparr>pc_calibrated_cpi_reference := 0, pc_calibrated_work_reference := 0, pc_hardware_validated := False\<rparr>"
      using set_mode_step(2) [OF assms(1)] by auto
    have "perf_fds ctx' = perf_fds (settled_ctx TSD_PERF_MODE_SOFTWARE t ctx)" "ctx_wf ctx' = ctx_wf (settled_ctx TSD_PERF_MODE_SOFTWARE t ctx)"
      by (simp_all add: t perf_fds_def ctx_wf_def)
    then show ?thesis using assms by (simp add: t mode_wf_def)
  qed
  then show "perf_inv base ctx' q" "pc_mode ctx' = TSD_PERF_MODE_SOFTWARE"
    using held_frame [OF assms(3) set_mode_step(4) [OF assms(1)]] by (auto simp: perf_inv_def)
qed

lemma set_hardware_inv:
  assumes "perf_set_mode sha256 TSD_PERF_MODE_HARDWARE ctx p = (ctx', q)" "ctx_wf ctx" "held base ctx p"
    "0 \<le> pc_fd_cycles ctx" "0 \<le> pc_fd_insns ctx"
  shows "perf_inv base ctx' q" "pc_mode ctx' = TSD_PERF_MODE_HARDWARE" "pc_hardware_validated ctx' = pc_hardware_validated ctx"
proof -
  have "ctx_wf ctx' \<and> mode_wf ctx' \<and> perf_fds ctx' = perf_fds ctx \<and> pc_telemetry ctx' = pc_telemetry ctx \<and>
      pc_mode ctx' = TSD_PERF_MODE_HARDWARE \<and> pc_hardware_validated ctx' = pc_hardware_validated ctx"
  proof (cases "pc_mode ctx = TSD_PERF_MODE_HARDWARE")
    case True
    then show ?thesis using set_mode_step(1) [OF assms(1)] assms by (simp add: mode_wf_def)
  next
    case False
    then show ?thesis using set_mode_step(3) [OF assms(1)] assms by (auto simp: mode_wf_def)
  qed
  then show "perf_inv base ctx' q" "pc_mode ctx' = TSD_PERF_MODE_HARDWARE" "pc_hardware_validated ctx' = pc_hardware_validated ctx"
    using held_frame [OF assms(3) set_mode_step(4) [OF assms(1)]] by (auto simp: perf_inv_def)
qed

lemma fail_closed_inv:
  assumes "perf_fail_closed sha256 ctx p = (ctx', q)" "ctx_wf ctx" "held base ctx p"
  shows "perf_inv base ctx' q" "pc_mode ctx' = TSD_PERF_MODE_SOFTWARE"
proof -
  obtain p1 where c: "close_perf_events ctx p = (closed_ctx ctx, p1)" "perf_moves ctx p (closed_ctx ctx) p1"
    using close_perf_events_moves by (metis prod.exhaust)
  let ?c1 = "(closed_ctx ctx)\<lparr>pc_hardware_validated := False, pc_software_adaptation := False\<rparr>"
  obtain c2 p2 where s: "schedule_perf_retry ?c1 p1 = (c2, p2)" by fastforce
  obtain d b where d: "c2 = ?c1\<lparr>pc_perf_retry_deadline_ns := d, pc_perf_retry_backoff_seconds := b\<rparr>" "ticks p1 p2"
    "backoff_ok (pc_perf_retry_backoff_seconds ?c1) \<Longrightarrow> backoff_ok b" using schedule_perf_step [OF s] by metis
  have "held base (closed_ctx ctx) p1" using assms(3) c(2) by (rule held_moves) simp
  moreover have "perf_moves (closed_ctx ctx) p1 c2 p2" using d(2) by (rule ticks_moves) (simp add: d perf_fds_def)
  ultimately have h: "held base c2 p2" by (rule held_moves) (simp add: d)
  have "perf_set_mode sha256 TSD_PERF_MODE_SOFTWARE c2 p2 = (ctx', q)" using assms(1) c s by (simp add: perf_fail_closed_def)
  moreover have "ctx_wf c2" using assms(2) d by (simp add: ctx_wf_def closed_ctx_def)
  ultimately show "perf_inv base ctx' q" "pc_mode ctx' = TSD_PERF_MODE_SOFTWARE"
    using set_software_inv [OF _ _ h] by (simp_all add: d closed_ctx_def)
qed

lemma perf_inv_wf: "perf_inv base ctx p \<Longrightarrow> ctx_wf ctx \<and> held base ctx p"
  by (simp add: perf_inv_def)

section \<open>Telemetry and baselines\<close>

lemma helper_sample_held:
  assumes "tsd_telemetry_helper_sample (pc_telemetry ctx) p = (r, h, out, q)" "held base ctx p"
  shows "held base (ctx\<lparr>pc_telemetry := h\<rparr>) q"
proof -
  have w: "helper_wf (pc_telemetry ctx)" using assms(2) by (simp add: held_def)
  note s = helper_sample_wf [OF assms(1) w]
  let ?c = "ctx\<lparr>pc_telemetry := h\<rparr>"
  let ?fds = "open_fd (pc_fd_cycles ctx) + open_fd (pc_fd_insns ctx) + open_fd (pc_fd_llc_misses ctx)"
  have "owns rest ?c q" if "owns rest ctx p" for rest
    using that s(3) [of "rest + ?fds"] by (auto simp: owns_def perf_fds_def owns_msr_def open_fd_def split: if_splits)
  then have "perf_moves ctx p ?c q" using env_frame [OF s(1)] by (simp add: perf_moves_def)
  then show ?thesis using perf_moves_inv assms(2) s(2) by (auto simp: held_def)
qed

lemma fetch_ctx:
  assumes "fetch_fused_telemetry sha256 ctx p = (out, ctx', q)"
  shows "\<exists>h. ctx' = ctx\<lparr>pc_telemetry := h\<rparr>"
proof -
  have id: "\<exists>h. ctx = ctx\<lparr>pc_telemetry := h\<rparr>" by (rule exI [of _ "pc_telemetry ctx"]) (cases ctx, simp)
  have direct: "fetch_direct_telemetry ctx p1 = (out, ctx', q) \<Longrightarrow> \<exists>h. ctx' = ctx\<lparr>pc_telemetry := h\<rparr>" for p1
    by (auto simp: fetch_direct_telemetry_def split: prod.splits)
  show ?thesis using assms id direct by (auto simp: fetch_fused_telemetry_def split: if_splits prod.splits sum.splits)
qed

lemma fetch_held:
  assumes "fetch_fused_telemetry sha256 ctx p = (out, ctx', q)" "held base ctx p"
  shows "held base ctx' q"
proof -
  have direct: "held base ctx' q"
    if "fetch_direct_telemetry ctx p1 = (out, ctx', q)" "held base ctx p1" for p1
  proof -
    obtain r h o2 p2 where s: "tsd_telemetry_helper_sample (pc_telemetry ctx) p1 = (r, h, o2, p2)" by (metis prod_cases4)
    then show ?thesis using helper_sample_held [OF s that(2)] that(1) by (auto simp: fetch_direct_telemetry_def)
  qed
  obtain r o1 p1 where f: "tsd_telemetry_fusion_sample sha256 True p = (r, o1, p1)" by (metis prod_cases3)
  have h1: "held base ctx p1" using assms(2) sample_inv_same [OF _ f] by (simp add: held_def)
  show ?thesis
  proof (cases "pc_fusion_acquired ctx \<and> r = ok")
    case True
    then show ?thesis using assms(1) f h1 by (auto simp: fetch_fused_telemetry_def)
  next
    case False
    then show ?thesis using assms f h1 direct by (cases r) (auto simp: fetch_fused_telemetry_def split: if_splits)
  qed
qed

text \<open>A failed measurement only reads; a successful one has seen the group make progress.\<close>

lemma measure_baseline_cases:
  assumes "measure_hardware_baseline sha256 ctx cfg p = (r, ctx', q)"
  obtains (failed) "\<not> r" "ctx' = ctx" "io_step p q"
  | (measured) a b cy ins l0 l1 w0 w1 p1 out where "r" "group_baseline_progress_valid a b" "cy \<noteq> 0" "ins \<noteq> 0" "io_step p p1"
      "fetch_fused_telemetry sha256 (store_hardware_baseline cfg b cy ins l0 l1 w0 w1 ctx) p1 = (out, ctx', q)"
proof -
  obtain ra p1 where g1: "read_group (pc_fd_cycles ctx) p = (ra, p1)" by fastforce
  obtain l0 p2 where v1: "read_llc_or 0 ctx p1 = (l0, p2)" by fastforce
  define p3 where "p3 = create_baseline_observation p2"
  obtain rb p4 where g2: "read_group (pc_fd_cycles ctx) p3 = (rb, p4)" by fastforce
  obtain l1 p5 where v2: "read_llc_or l0 ctx p4 = (l1, p5)" by fastforce
  have i1: "io_step p p1" using g1 by (rule io_reads)
  have i2: "io_step p p2" using i1 io_reads(4) [OF v1] by (rule io_trans)
  have i4: "io_step p p4" using io_trans [OF i2 observation_io] io_reads(2) [OF g2] unfolding p3_def by (rule io_trans)
  have i5: "io_step p p5" using i4 io_reads(4) [OF v2] by (rule io_trans)
  show ?thesis
  proof (cases "\<exists>a b. ra = Some a \<and> pg_nr a = 2 \<and> rb = Some b \<and> pg_nr b = 2 \<and> group_baseline_progress_valid a b")
    case False
    then have "\<not> r" "ctx' = ctx" "q = p1 \<or> q = p4" using assms g1 v1 g2
      by (auto simp: measure_hardware_baseline_def p3_def [symmetric] Let_def split: option.splits if_splits)
    then show ?thesis using failed i1 i4 by blast
  next
    case True
    then obtain a b where ab: "ra = Some a" "pg_nr a = 2" "rb = Some b" "pg_nr b = 2" "group_baseline_progress_valid a b" by blast
    let ?e = "pg_time_enabled b - pg_time_enabled a" and ?u = "pg_time_running b - pg_time_running a"
    define cy where "cy = scale_counter (pg_cycles b - pg_cycles a) ?e ?u"
    define ins where "ins = scale_counter (pg_insns b - pg_insns a) ?e ?u"
    let ?c = "store_hardware_baseline cfg b cy ins l0 l1 (workload_iterations p2) (workload_iterations p3) ctx"
    obtain out c6 p6 where f: "fetch_fused_telemetry sha256 ?c p5 = (out, c6, p6)" by (metis prod_cases3)
    have "(r, ctx', q) = (if cy = 0 \<or> ins = 0 then (False, ctx, p5) else (True, c6, p6))"
      using assms g1 v1 g2 v2 ab f
      by (cases "cy = 0 \<or> ins = 0")
         (auto simp: measure_hardware_baseline_def p3_def [symmetric] cy_def [symmetric] ins_def [symmetric] Let_def)
    then show ?thesis using failed i5 measured [of a b cy ins p5 l0 l1 "workload_iterations p2" "workload_iterations p3" out] ab(5) f
      by (auto split: if_splits)
  qed
qed

lemma store_keeps:
  fixes cfg rd cy ins l0 l1 w0 w1 ctx
  defines "c \<equiv> store_hardware_baseline cfg rd cy ins l0 l1 w0 w1 ctx"
  shows "pc_mode c = pc_mode ctx" "pc_fd_cycles c = pc_fd_cycles ctx" "pc_fd_insns c = pc_fd_insns ctx" "pc_fd_llc_misses c = pc_fd_llc_misses ctx"
    "pc_telemetry c = pc_telemetry ctx" "ctx_wf ctx \<Longrightarrow> ctx_wf c" "pc_last_group_read c = rd" "pc_last_group_valid c"
    "pc_calibrated_cpi_reference c \<noteq> 0" "pc_hardware_validated c = pc_hardware_validated ctx"
    "pc_perf_retry_backoff_seconds c = pc_perf_retry_backoff_seconds ctx"
  by (simp_all add: c_def store_hardware_baseline_def ctx_wf_def Let_def or_default_def)

text \<open>What a measurement keeps, whatever its result.\<close>

lemma measure_baseline_held:
  assumes "measure_hardware_baseline sha256 ctx cfg p = (r, ctx', q)" "ctx_wf ctx" "held base ctx p"
  shows "held base ctx' q" "ctx_wf ctx'" "pc_mode ctx' = pc_mode ctx" "pc_fd_cycles ctx' = pc_fd_cycles ctx"
    "pc_fd_insns ctx' = pc_fd_insns ctx" "pc_perf_retry_backoff_seconds ctx' = pc_perf_retry_backoff_seconds ctx"
proof -
  have "held base ctx' q \<and> ctx_wf ctx' \<and> pc_mode ctx' = pc_mode ctx \<and> pc_fd_cycles ctx' = pc_fd_cycles ctx \<and>
      pc_fd_insns ctx' = pc_fd_insns ctx \<and> pc_perf_retry_backoff_seconds ctx' = pc_perf_retry_backoff_seconds ctx"
    using assms(1)
  proof (cases rule: measure_baseline_cases)
    case failed
    then show ?thesis using assms held_moves [OF assms(3) io_moves, of q] by auto
  next
    case (measured a b cy ins l0 l1 w0 w1 p1 out)
    let ?c = "store_hardware_baseline cfg b cy ins l0 l1 w0 w1 ctx"
    have m: "perf_fds ?c = perf_fds ctx" by (simp add: perf_fds_def store_keeps)
    have "held base ctx p1" using assms(3) io_moves [OF measured(5)] by (rule held_moves) simp
    then have "held base ?c p1" using m by (simp add: held_def store_keeps)
    from fetch_held [OF measured(6) this] show ?thesis using assms(2) fetch_ctx [OF measured(6)] store_keeps(6) [of ctx cfg b cy ins l0 l1 w0 w1]
      by (auto simp: store_keeps(1-4,11)) (simp add: ctx_wf_def)
  qed
  then show "held base ctx' q" "ctx_wf ctx'" "pc_mode ctx' = pc_mode ctx" "pc_fd_cycles ctx' = pc_fd_cycles ctx"
    "pc_fd_insns ctx' = pc_fd_insns ctx" "pc_perf_retry_backoff_seconds ctx' = pc_perf_retry_backoff_seconds ctx" by blast+
qed

section \<open>Recovery\<close>

lemma schedule_perf_backoff:
  assumes "schedule_perf_retry ctx p = (ctx', q)" "\<not> pc_force_software ctx" "backoff_ok (pc_perf_retry_backoff_seconds ctx)"
  shows "pc_perf_retry_backoff_seconds ctx' = min 60 (2 * pc_perf_retry_backoff_seconds ctx)"
proof -
  obtain x p1 where n: "next_retry (pc_perf_retry_backoff_seconds ctx) p = (x, p1)" by fastforce
  then show ?thesis using next_retry_step(2) [of "pc_perf_retry_backoff_seconds ctx" p "fst x" "snd x" p1] assms
    by (auto simp: schedule_perf_retry_def split: prod.splits)
qed

lemma schedule_perf_inv:
  assumes "schedule_perf_retry ctx p = (ctx', q)" "ctx_wf ctx" "held base ctx p"
  shows "ctx_wf ctx'" "held base ctx' q" "pc_mode ctx' = pc_mode ctx" "mode_wf ctx' = mode_wf ctx"
proof -
  obtain d b where d: "ctx' = ctx\<lparr>pc_perf_retry_deadline_ns := d, pc_perf_retry_backoff_seconds := b\<rparr>" "ticks p q"
    "backoff_ok (pc_perf_retry_backoff_seconds ctx) \<Longrightarrow> backoff_ok b" using schedule_perf_step [OF assms(1)] by metis
  show "ctx_wf ctx'" "pc_mode ctx' = pc_mode ctx" "mode_wf ctx' = mode_wf ctx" using assms(2) d
    by (simp_all add: ctx_wf_def mode_wf_def split: tsd_perf_mode_t.split)
  have "perf_moves ctx p ctx' q" using d(2) by (rule ticks_moves) (simp add: d perf_fds_def)
  with assms(3) show "held base ctx' q" by (rule held_moves) (simp add: d)
qed

lemma publish_held: "held base ctx p \<Longrightarrow> held base ctx (publish_perf_state c b p)"
  using held_frame [OF _ publish_frame] by blast

lemma reject_inv:
  assumes "reject_reprobe ctx p = (r, ctx', q)" "ctx_wf ctx" "held base ctx p" "pc_mode ctx = TSD_PERF_MODE_SOFTWARE"
  shows "\<not> r" "perf_inv base ctx' q" "pc_mode ctx' = TSD_PERF_MODE_SOFTWARE"
proof -
  obtain p1 where c: "close_perf_events ctx p = (closed_ctx ctx, p1)" "perf_moves ctx p (closed_ctx ctx) p1"
    using close_perf_events_moves by (metis prod.exhaust)
  let ?c = "(closed_ctx ctx)\<lparr>pc_hardware_validated := False\<rparr>"
  obtain c2 p2 where s: "schedule_perf_retry ?c p1 = (c2, p2)" by fastforce
  have "held base (closed_ctx ctx) p1" using assms(3) c(2) by (rule held_moves) simp
  then have h: "held base ?c p1" by (simp add: held_def perf_fds_def)
  have w: "ctx_wf ?c" using assms(2) by (simp add: ctx_wf_def closed_ctx_def)
  note i = schedule_perf_inv [OF s w h]
  have m: "mode_wf ?c" using assms(4) by (simp add: mode_wf_def closed_ctx_def)
  have r: "(r, ctx', q) = (False, c2, publish_perf_state c2 False p2)" using assms(1) c s by (auto simp: reject_reprobe_def)
  then show "\<not> r" "pc_mode ctx' = TSD_PERF_MODE_SOFTWARE" using i(3) assms(4) by simp_all
  show "perf_inv base ctx' q" using r i(1,4) m publish_held [OF i(2)] by (simp add: perf_inv_def)
qed

lemma reject_false: "reject_reprobe ctx p = (r, ctx', q) \<Longrightarrow> \<not> r"
  by (auto simp: reject_reprobe_def split: prod.splits)

text \<open>Every way in which a probe of the hardware can end.\<close>

lemma recover_hardware_cases:
  assumes "try_recover_hardware sha256 ctx p = (r, ctx', q)"
  obtains (idle) p1 where "\<not> r" "ctx' = ctx" "ticks p p1" "q = p1" "pc_mode ctx \<noteq> TSD_PERF_MODE_SOFTWARE \<or> \<not> fst (perf_retry_due ctx p)"
  | (unopened) e c2 p2 p1 c3 p3 where "perf_retry_due ctx p = (True, p1)" "open_perf_events ctx p1 = (Inl e, c2, p2)"
      "schedule_perf_retry c2 p2 = (c3, p3)" "\<not> r" "ctx' = c3" "q = publish_perf_state c3 False p3"
  | (rejected) p1 c2 p2 ok3 c3 p3 where "perf_retry_due ctx p = (True, p1)" "open_perf_events ctx p1 = (ok, c2, p2)"
      "enable_perf_events_strict c2 p2 = (ok3, c3, p3)" "reject_reprobe c3 p3 = (r, ctx', q)"
  | (unmeasured) p1 c2 p2 c3 p3 c4 p4 where "perf_retry_due ctx p = (True, p1)" "open_perf_events ctx p1 = (ok, c2, p2)"
      "enable_perf_events_strict c2 p2 = (True, c3, p3)"
      "measure_hardware_baseline sha256 c3 (Some (tsd_runtime_config_active_snapshot p3)) p3 = (False, c4, p4)" "reject_reprobe c4 p4 = (r, ctx', q)"
  | (recovered) p1 c2 p2 c3 p3 c4 p4 where "perf_retry_due ctx p = (True, p1)" "open_perf_events ctx p1 = (ok, c2, p2)"
      "enable_perf_events_strict c2 p2 = (True, c3, p3)"
      "measure_hardware_baseline sha256 c3 (Some (tsd_runtime_config_active_snapshot p3)) p3 = (True, c4, p4)" "r"
      "perf_set_mode sha256 TSD_PERF_MODE_HARDWARE
         (reset_perf_retry (c4\<lparr>pc_hardware_validated := True, pc_software_adaptation := False\<rparr>)) p4 = (ctx', q)"
proof (cases "pc_mode ctx \<noteq> TSD_PERF_MODE_SOFTWARE")
  case True
  then show ?thesis using idle [of p] assms by (simp add: try_recover_hardware_def)
next
  case False
  obtain b p1 where d: "perf_retry_due ctx p = (b, p1)" by fastforce
  obtain r2 c2 p2 where o: "open_perf_events ctx p1 = (r2, c2, p2)" by (metis prod_cases3)
  obtain ok3 c3 p3 where e: "enable_perf_events_strict c2 p2 = (ok3, c3, p3)" by (metis prod_cases3)
  obtain ok4 c4 p4 where m: "measure_hardware_baseline sha256 c3 (Some (tsd_runtime_config_active_snapshot p3)) p3 = (ok4, c4, p4)"
    by (metis prod_cases3)
  obtain c5 p5 where s: "schedule_perf_retry c2 p2 = (c5, p5)" by fastforce
  note eqs = d o e m s assms False
  consider "\<not> b" | err where "b" "r2 = Inl err" | "b" "r2 = ok" "\<not> ok3" | "b" "r2 = ok" "ok3" "\<not> ok4" | "b" "r2 = ok" "ok3" "ok4"
    by (metis old.sum.exhaust old.unit.exhaust)
  then show ?thesis
  proof cases
    case 1
    then show ?thesis using idle [of p1] eqs due_ticks(1) [OF d] by (simp add: try_recover_hardware_def)
  next
    case (2 err)
    then show ?thesis using unopened [of p1 err c2 p2 c5 p5] eqs by (auto simp: try_recover_hardware_def)
  next
    case 3
    then show ?thesis using rejected [of p1 c2 p2 ok3 c3 p3] eqs by (simp add: try_recover_hardware_def)
  next
    case 4
    then show ?thesis using unmeasured [of p1 c2 p2 c3 p3 c4 p4] eqs by (simp add: try_recover_hardware_def)
  next
    case 5
    then show ?thesis using recovered [of p1 c2 p2 c3 p3 c4 p4] eqs
      by (auto simp: try_recover_hardware_def Let_def split: prod.splits)
  qed
qed

text \<open>The context with the group opened for a probe.\<close>

lemma probe_open:
  assumes "perf_retry_due ctx p = (b, p1)" "open_perf_events ctx p1 = (r, c2, p2)" "perf_inv base ctx p"
  shows "held base c2 p2" "ctx_wf c2" "pc_mode c2 = pc_mode ctx" "pc_force_software c2 = pc_force_software ctx"
proof -
  note o = open_perf_events_moves [OF assms(2)]
  have t: "pc_telemetry c2 = pc_telemetry ctx" and w: "ctx_wf c2" "pc_mode c2 = pc_mode ctx" "pc_force_software c2 = pc_force_software ctx"
    using o(2,3) opened_keeps [of ctx c2] assms(3) by (cases "r = ok"; auto simp: perf_inv_def)+
  have "held base ctx p1" using held_moves [OF _ ticks_moves [OF due_ticks(1) [OF assms(1)] refl]] assms(3) by (simp add: perf_inv_def)
  then show "held base c2 p2" using o(1) t by (rule held_moves)
  show "ctx_wf c2" "pc_mode c2 = pc_mode ctx" "pc_force_software c2 = pc_force_software ctx" using w by blast+
qed

lemma probe_enabled:
  assumes "perf_retry_due ctx p = (b, p1)" "open_perf_events ctx p1 = (ok, c2, p2)" "enable_perf_events_strict c2 p2 = (k, c3, p3)"
    "perf_inv base ctx p"
  shows "held base c3 p3" "ctx_wf c3" "pc_mode c3 = pc_mode ctx" "pc_force_software c3 = pc_force_software ctx"
    "0 \<le> pc_fd_cycles c3" "0 \<le> pc_fd_insns c3" "pc_perf_retry_backoff_seconds c3 = 5"
proof -
  note o = open_perf_events_moves(2) [OF assms(2) refl]
  note h = probe_open [OF assms(1,2,4)] and e = enable_strict_moves [OF assms(3)]
  note k = llc_step_keeps [OF e(1)]
  show "held base c3 p3" using h(1) e(2) k(4) by (rule held_moves)
  show "ctx_wf c3" "pc_mode c3 = pc_mode ctx" "pc_force_software c3 = pc_force_software ctx" "0 \<le> pc_fd_cycles c3" "0 \<le> pc_fd_insns c3"
    "pc_perf_retry_backoff_seconds c3 = 5" using h k opened_keeps [OF o] by simp_all
qed

lemma recover_inv:
  assumes "try_recover_hardware sha256 ctx p = (r, ctx', q)" "perf_inv base ctx p" "pc_mode ctx = TSD_PERF_MODE_SOFTWARE"
  shows "perf_inv base ctx' q \<and> pc_mode ctx' = (if r then TSD_PERF_MODE_HARDWARE else TSD_PERF_MODE_SOFTWARE)"
  using assms(1)
proof (cases rule: recover_hardware_cases)
  case (idle p1)
  then have "held base ctx q" using held_moves [OF _ ticks_moves [OF _ refl], of base ctx p q] assms(2) by (simp add: perf_inv_def)
  then show ?thesis using idle assms by (simp add: perf_inv_def)
next
  case (unopened e c2 p2 p1 c3 p3)
  note o = probe_open [OF unopened(1,2) assms(2)]
  note i = schedule_perf_inv [OF unopened(3) o(2,1)]
  have "c2 = closed_ctx ctx" using open_perf_events_moves(3) [OF unopened(2)] by simp
  then have "mode_wf c2" using assms(2,3) by (simp add: mode_wf_def perf_inv_def closed_ctx_def)
  then show ?thesis using unopened i o(3) publish_held [OF i(2)] assms(3) by (simp add: perf_inv_def)
next
  case (rejected p1 c2 p2 ok3 c3 p3)
  note e = probe_enabled [OF rejected(1-3) assms(2)]
  show ?thesis using reject_inv [OF rejected(4) e(2,1)] e(3) assms(3) by simp
next
  case (unmeasured p1 c2 p2 c3 p3 c4 p4)
  note e = probe_enabled [OF unmeasured(1-3) assms(2)]
  note m = measure_baseline_held [OF unmeasured(4) e(2,1)]
  show ?thesis using reject_inv [OF unmeasured(5) m(2,1)] m(3) e(3) assms(3) by simp
next
  case (recovered p1 c2 p2 c3 p3 c4 p4)
  note e = probe_enabled [OF recovered(1-3) assms(2)]
  note m = measure_baseline_held [OF recovered(4) e(2,1)]
  let ?c = "reset_perf_retry (c4\<lparr>pc_hardware_validated := True, pc_software_adaptation := False\<rparr>)"
  have "held base ?c p4" using m(1) by (simp add: held_def perf_fds_def reset_perf_retry_def)
  moreover have "ctx_wf ?c" using m(2) by (simp add: ctx_wf_def reset_perf_retry_def)
  ultimately show ?thesis using set_hardware_inv [OF recovered(6)] m(4,5) e(5,6) recovered(5) by (simp add: reset_perf_retry_def)
qed

section \<open>Evaluation\<close>

text \<open>A change of the context that the invariant does not see.\<close>

definition ctx_same :: "perf_ctx \<Rightarrow> perf_ctx \<Rightarrow> bool" where
  "ctx_same c c' \<longleftrightarrow> pc_mode c' = pc_mode c \<and> pc_fd_cycles c' = pc_fd_cycles c \<and> pc_fd_insns c' = pc_fd_insns c \<and>
     pc_fd_llc_misses c' = pc_fd_llc_misses c \<and> pc_telemetry c' = pc_telemetry c \<and>
     pc_hardware_validated c' = pc_hardware_validated c \<and> (ctx_wf c \<longrightarrow> ctx_wf c')"

lemma perf_inv_same:
  assumes "perf_inv base c p" "ctx_same c c'" "bridge_frame p q \<and> fd_table q = fd_table p"
  shows "perf_inv base c' q"
proof -
  have "mode_wf c' = mode_wf c" using assms(2) by (simp add: mode_wf_def ctx_same_def split: tsd_perf_mode_t.split)
  moreover have "held base c' q" using assms held_frame [of base c p q c'] by (simp add: perf_inv_def ctx_same_def perf_fds_def)
  ultimately show ?thesis using assms by (simp add: perf_inv_def ctx_same_def)
qed

lemma perf_inv_llc:
  assumes "perf_inv base c p" "pc_mode c = TSD_PERF_MODE_HARDWARE" "llc_step c c'" "perf_moves c p c' q"
  shows "perf_inv base c' q" "pc_mode c' = TSD_PERF_MODE_HARDWARE"
proof -
  note k = llc_step_keeps [OF assms(3)]
  have "held base c' q" using assms(1,4) k(4) held_moves by (auto simp: perf_inv_def)
  then show "perf_inv base c' q" "pc_mode c' = TSD_PERF_MODE_HARDWARE" using assms k by (simp_all add: perf_inv_def mode_wf_def)
qed

lemma perf_inv_io: "perf_inv base c p \<Longrightarrow> io_step p q \<Longrightarrow> perf_inv base c q"
  using held_moves [of base c p c q] io_moves [of p q c] by (simp add: perf_inv_def)

lemma perf_inv_publish: "perf_inv base c p \<Longrightarrow> perf_inv base c (publish_perf_state d b p)"
  using publish_held by (auto simp: perf_inv_def)

lemma perf_inv_fetch:
  assumes "fetch_fused_telemetry sha256 c p = (out, c', q)" "perf_inv base c p"
  shows "perf_inv base c' q" "pc_mode c' = pc_mode c"
proof -
  obtain h where c: "c' = c\<lparr>pc_telemetry := h\<rparr>" using fetch_ctx [OF assms(1)] by blast
  have "held base c' q" using fetch_held [OF assms(1)] assms(2) by (simp add: perf_inv_def)
  then show "perf_inv base c' q" "pc_mode c' = pc_mode c" using assms(2) c
    by (simp_all add: perf_inv_def ctx_wf_def mode_wf_def split: tsd_perf_mode_t.splits)
qed

lemma measurement_same:
  assumes "process_measurement degraded c cpi work mpki cfg s = (r, out, c')"
  shows "ctx_same c c'"
proof -
  let ?c1 = "update_averages cpi mpki c"
  obtain ratio c2 where w: "work_ratio cpi work ?c1 = (ratio, c2)" by fastforce
  have 1: "ctx_same c ?c1" by (simp add: ctx_same_def update_averages_def ctx_wf_def Let_def)
  have 2: "ctx_same ?c1 c2" using w by (auto simp: ctx_same_def work_ratio_def ctx_wf_def Let_def split: if_splits)
  have 3: "ctx_same c2 (record_ratio ratio c2)" by (auto simp: ctx_same_def record_ratio_def ctx_wf_def Let_def)
  have "c' = record_ratio ratio c2" using assms w by (simp add: process_measurement_def Let_def)
  then show ?thesis using 1 2 3 by (simp add: ctx_same_def)
qed

lemma try_recover_llc_moves:
  assumes "try_recover_llc ctx p = (ctx', q)"
  shows "llc_step ctx ctx'" "perf_moves ctx p ctx' q"
proof (atomize (full), cases "pc_mode ctx \<noteq> TSD_PERF_MODE_HARDWARE \<or> pc_fd_llc_misses ctx \<ge> 0")
  case True
  then show "llc_step ctx ctx' \<and> perf_moves ctx p ctx' q" using assms by (simp add: try_recover_llc_def)
next
  case False
  obtain b p1 where d: "llc_retry_due ctx p = (b, p1)" by fastforce
  obtain r2 c2 p2 where o: "open_llc_event ctx p1 = (r2, c2, p2)" by (metis prod_cases3)
  obtain r3 c3 p3 where e: "enable_optional_llc c2 p2 = (r3, c3, p3)" by (metis prod_cases3)
  obtain v p4 where v: "read_counter (pc_fd_llc_misses c3) p3 = (v, p4)" by fastforce
  have m1: "perf_moves ctx p ctx p1" using due_ticks(2) [OF d] by (rule ticks_moves) simp
  have m2: "llc_step ctx c2" "perf_moves ctx p c2 p2" using open_llc_moves [OF o] m1 perf_moves_trans by blast+
  have m3: "llc_step ctx c3" "perf_moves ctx p c3 p3" using enable_llc_moves(1,2) [OF e] m2 llc_step_trans perf_moves_trans by blast+
  have m4: "perf_moves ctx p c3 p4" using m3(2) io_moves [OF io_reads(3) [OF v]] by (rule perf_moves_trans)
  consider "ctx' = ctx" "q = p1" | "ctx' = c2" "q = p2" | "ctx' = c3" "q = p3" | "r2 = ok" "r3" "v = None" "drop_llc c3 p4 = (ctx', q)"
    | w where "ctx' = reset_llc_retry (c3\<lparr>pc_last_llc_value := w\<rparr>)" "q = p4"
    using assms False d o e v by (cases b; cases r2; cases r3; cases v) (auto simp: try_recover_llc_def)
  then show "llc_step ctx ctx' \<and> perf_moves ctx p ctx' q"
  proof cases
    case 4
    have "c3 = c2" using enable_llc_moves(3) [OF e] 4 by simp
    moreover have "pc_fd_llc_misses c2 \<ge> 0" using o 4(1) by (auto simp: open_llc_event_def reset_llc_retry_def Let_def split: sum.splits prod.splits)
    ultimately show ?thesis using drop_llc_moves [OF 4(4)] m3(1) m4 llc_step_trans perf_moves_trans by blast
  next
    case (5 w)
    have "llc_step c3 ctx'" unfolding llc_step_def
      by (rule exI [of _ "pc_fd_llc_misses c3"], rule exI [of _ 0], rule exI [of _ 5], rule exI [of _ w])
         (use 5 in \<open>cases c3, simp add: reset_llc_retry_def\<close>)
    moreover have "perf_moves c3 p4 ctx' q" using 5 by (simp add: perf_moves_quiet reset_llc_retry_def perf_fds_def)
    ultimately show ?thesis using m3(1) m4 llc_step_trans perf_moves_trans by blast
  qed (use m1 m2 m3 in simp_all)
qed

lemma read_llc_moves:
  assumes "read_llc_or_drop ctx p = (v, ctx', q)"
  shows "llc_step ctx ctx'" "perf_moves ctx p ctx' q"
proof -
  obtain r p1 where r: "read_counter (pc_fd_llc_misses ctx) p = (r, p1)" by fastforce
  have m: "perf_moves ctx p ctx p1" using io_moves [OF io_reads(3) [OF r]] .
  consider "ctx' = ctx" "q = p \<or> q = p1" | "pc_fd_llc_misses ctx \<ge> 0" "drop_llc ctx p1 = (ctx', q)"
    using assms r by (cases r) (auto simp: read_llc_or_drop_def split: if_splits)
  then have "llc_step ctx ctx' \<and> perf_moves ctx p ctx' q"
  proof cases
    case 2
    then show ?thesis using drop_llc_moves(1,2) [OF 2(2,1)] perf_moves_trans [OF m] by simp
  qed (use m in auto)
  then show "llc_step ctx ctx'" "perf_moves ctx p ctx' q" by blast+
qed

lemma fail_evaluation_inv:
  assumes "fail_evaluation sha256 ctx p = (r, out, ctx', q)" "perf_inv base ctx p"
  shows "perf_inv base ctx' q" "pc_mode ctx' = TSD_PERF_MODE_SOFTWARE"
proof -
  have "perf_fail_closed sha256 ctx p = (ctx', q)" using assms(1) by (auto simp: fail_evaluation_def split: prod.splits)
  then show "perf_inv base ctx' q" "pc_mode ctx' = TSD_PERF_MODE_SOFTWARE"
    using fail_closed_inv [of sha256 ctx p ctx' q base] assms(2) by (simp_all add: perf_inv_wf)
qed

lemma no_progress_inv:
  assumes "handle_no_running_progress sha256 ctx p = (r, out, ctx', q)" "perf_inv base ctx p"
  shows "perf_inv base ctx' q"
proof -
  let ?c = "ctx\<lparr>pc_zero_running_samples := pc_zero_running_samples ctx + 1\<rparr>"
  have "ctx_same ctx ?c" by (simp add: ctx_same_def ctx_wf_def)
  then have "perf_inv base ?c p" using perf_inv_same [OF assms(2)] by simp
  then show ?thesis using assms(1) fail_evaluation_inv by (auto simp: handle_no_running_progress_def Let_def split: if_splits)
qed

lemma evaluate_software_inv:
  assumes "evaluate_software sha256 ctx cfg p = (r, out, ctx', q)" "perf_inv base ctx p" "pc_mode ctx = TSD_PERF_MODE_SOFTWARE"
  shows "perf_inv base ctx' q"
proof -
  obtain k c1 p1 where t: "try_recover_hardware sha256 ctx p = (k, c1, p1)" by (metis prod_cases3)
  have i1: "perf_inv base c1 p1" using recover_inv [OF t assms(2,3)] by blast
  obtain t2 p2 where c2: "clock_or (pc_sw_last_timestamp c1) p1 = (t2, p2)" by fastforce
  obtain now p3 where c3: "clock_or 0 p1 = (now, p3)" by fastforce
  have f: "bridge_frame p1 p2 \<and> fd_table p2 = fd_table p1" "bridge_frame p1 p3 \<and> fd_table p3 = fd_table p1"
    using clock_ticks(1) c2 c3 ticks_frame by blast+
  let ?c2 = "c1\<lparr>pc_sw_last_iterations := workload_iterations p2, pc_sw_last_timestamp := t2, pc_software_adaptation := True\<rparr>"
  let ?c3 = "c1\<lparr>pc_sw_last_iterations := workload_iterations p3, pc_sw_last_timestamp := now\<rparr>"
  have "ctx_same c1 ?c2" "ctx_same c1 ?c3" by (simp_all add: ctx_same_def ctx_wf_def)
  then have i2: "perf_inv base ?c2 p2" and i3: "perf_inv base ?c3 p3" using perf_inv_same [OF i1] f by blast+
  obtain s c4 p4 where f4: "fetch_fused_telemetry sha256 ?c3 p3 = (s, c4, p4)" by (metis prod_cases3)
  have i4: "perf_inv base c4 p4" using perf_inv_fetch [OF f4 i3] by blast
  have i5: "perf_inv base c5 p4" if "process_measurement d c4 cost 0 0 cfg s = (r5, o5, c5)" for d cost r5 o5 c5
    using perf_inv_same [OF i4 measurement_same [OF that]] by simp
  have "(ctx', q) \<in> {(c1, p1), (?c2, p2), (?c3, p3)} \<or>
      (\<exists>d cost r5 o5 c5. process_measurement d c4 cost 0 0 cfg s = (r5, o5, c5) \<and> ctx' = c5 \<and> q = p4)"
    using assms(1) t c2 c3 f4
    by (auto simp: evaluate_software_def Let_def split: bool.splits if_splits prod.splits)
  then show ?thesis using i1 i2 i3 i5 by auto
qed

lemma evaluate_progress_inv:
  assumes "evaluate_progress sha256 rd llc e u ctx cfg p = (r, out, ctx', q)" "perf_inv base ctx p"
  shows "perf_inv base ctx' q"
proof -
  let ?adv = "\<lambda>c. c\<lparr>pc_last_group_read := rd, pc_last_llc_value := llc\<rparr>"
  let ?c1 = "?adv ctx" and ?c2 = "?adv (ctx\<lparr>pc_hw_last_iterations := workload_iterations p\<rparr>)"
  have "ctx_same ctx ?c1" "ctx_same ctx ?c2" by (simp_all add: ctx_same_def ctx_wf_def)
  then have i: "perf_inv base ?c1 p" "perf_inv base ?c2 p" using perf_inv_same [OF assms(2)] by auto
  obtain s c3 p3 where f: "fetch_fused_telemetry sha256 ?c2 (publish_perf_state ?c2 True p) = (s, c3, p3)" by (metis prod_cases3)
  have i3: "perf_inv base c3 p3" using perf_inv_fetch(1) [OF f perf_inv_publish [OF i(2)]] .
  have i4: "perf_inv base c4 p3" if "process_measurement d c3 cpi work mpki cfg s = (r4, o4, c4)" for d cpi work mpki r4 o4 c4
    using perf_inv_same [OF i3 measurement_same [OF that]] by simp
  consider "ctx' = ?c1" "q = publish_perf_state ?c1 True p" | "handle_no_running_progress sha256 ctx p = (r, out, ctx', q)"
    | "ctx' = c3" "q = p3" | d cpi work mpki r4 o4 where "process_measurement d c3 cpi work mpki cfg s = (r4, o4, ctx')" "q = p3"
    using assms(1) f by (auto simp: evaluate_progress_def Let_def split: if_split_asm prod.split_asm)
  then show ?thesis by cases (use i3 i4 perf_inv_publish [OF i(1)] no_progress_inv assms(2) in auto)
qed

lemma evaluate_hardware_inv:
  assumes "evaluate_hardware sha256 ctx cfg p = (r, out, ctx', q)" "perf_inv base ctx p" "pc_mode ctx = TSD_PERF_MODE_HARDWARE"
  shows "perf_inv base ctx' q"
proof -
  obtain c1 p1 where l: "try_recover_llc ctx p = (c1, p1)" by fastforce
  obtain g p2 where g: "read_group (pc_fd_cycles c1) p1 = (g, p2)" by fastforce
  obtain v c3 p3 where v: "read_llc_or_drop c1 p2 = (v, c3, p3)" by (metis prod_cases3)
  note i1 = perf_inv_llc [OF assms(2,3) try_recover_llc_moves [OF l]]
  have i2: "perf_inv base c1 p2" using i1(1) io_reads(2) [OF g] by (rule perf_inv_io)
  note i3 = perf_inv_llc [OF i2 i1(2) read_llc_moves [OF v]]
  have same: "ctx_same c3 (c3\<lparr>pc_last_group_read := rd, pc_last_group_valid := True, pc_last_llc_value := v\<rparr>)"
    "ctx_same c3 (c3\<lparr>pc_zero_running_samples := 0\<rparr>)" for rd by (simp_all add: ctx_same_def ctx_wf_def)
  have i4: "perf_inv base (c3\<lparr>pc_last_group_read := rd, pc_last_group_valid := True, pc_last_llc_value := v\<rparr>) p3"
    "perf_inv base (c3\<lparr>pc_zero_running_samples := 0\<rparr>) p3" for rd
    using perf_inv_same [OF i3(1) same(1) [of rd]] perf_inv_same [OF i3(1) same(2)] by auto
  consider "fail_evaluation sha256 c1 p2 = (r, out, ctx', q)" | "fail_evaluation sha256 c3 p3 = (r, out, ctx', q)"
    | rd where "ctx' = c3\<lparr>pc_last_group_read := rd, pc_last_group_valid := True, pc_last_llc_value := v\<rparr>" "q = publish_perf_state ctx' True p3"
    | "handle_no_running_progress sha256 c3 p3 = (r, out, ctx', q)"
    | rd e u where "evaluate_progress sha256 rd v e u (c3\<lparr>pc_zero_running_samples := 0\<rparr>) cfg p3 = (r, out, ctx', q)"
    using assms(1) l g v by (auto simp: evaluate_hardware_def Let_def split: option.split_asm if_split_asm)
  then show ?thesis
  proof cases
    case 1
    then show ?thesis using i2 by (rule fail_evaluation_inv)
  next
    case 2
    then show ?thesis using i3(1) by (rule fail_evaluation_inv)
  next
    case (3 rd)
    then show ?thesis using perf_inv_publish [OF i4(1)] by simp
  next
    case 4
    then show ?thesis using i3(1) by (rule no_progress_inv)
  next
    case (5 rd e u)
    then show ?thesis using i4(2) by (rule evaluate_progress_inv)
  qed
qed

lemma evaluate_inv:
  assumes "perf_evaluate sha256 ctx cfg p = (r, out, ctx', q)" "perf_inv base ctx p"
  shows "perf_inv base ctx' q"
  using assms evaluate_software_inv [of sha256 ctx cfg p r out ctx' q] evaluate_hardware_inv [of sha256 ctx cfg p r out ctx' q]
  by (auto simp: perf_evaluate_def split: if_splits)

section \<open>Life of a context\<close>

lemma measure_inv:
  assumes "perf_measure_baseline sha256 ctx cfg p = (ctx', q)" "perf_inv base ctx p"
  shows "perf_inv base ctx' q"
proof (cases "pc_mode ctx")
  case TSD_PERF_MODE_SOFTWARE
  obtain t1 p1 where c1: "clock_or 0 p = (t1, p1)" by fastforce
  let ?p2 = "create_baseline_observation p1"
  obtain t3 p3 where c3: "clock_or 0 ?p2 = (t3, p3)" by fastforce
  obtain t4 p4 where c4: "clock_or (pc_sw_last_timestamp ctx) p3 = (t4, p4)" by fastforce
  have "bridge_frame p1 ?p2 \<and> fd_table ?p2 = fd_table p1" using observation_io [of p1] by (auto simp: io_step_def bridge_frame_def)
  then have f: "bridge_frame p p4 \<and> fd_table p4 = fd_table p"
    using ticks_frame [OF clock_ticks(1) [OF c1]] ticks_frame [OF clock_ticks(1) [OF c3]] ticks_frame [OF clock_ticks(1) [OF c4]]
    by (simp add: bridge_frame_def)
  have r: "measure_software_baseline cfg ctx p = (ctx', q)" using assms(1) TSD_PERF_MODE_SOFTWARE by (simp add: perf_measure_baseline_def)
  have "q = p4" using r c1 c3 c4 by (auto simp: measure_software_baseline_def Let_def)
  moreover have "ctx_same ctx ctx'" using r c1 c3 c4 by (auto simp: measure_software_baseline_def Let_def ctx_same_def ctx_wf_def)
  ultimately show ?thesis using perf_inv_same [OF assms(2)] f by blast
next
  case TSD_PERF_MODE_HARDWARE
  obtain k1 c1 p1 where e: "enable_perf_events_strict ctx p = (k1, c1, p1)" by (metis prod_cases3)
  obtain k2 c2 p2 where m: "measure_hardware_baseline sha256 c1 cfg p1 = (k2, c2, p2)" by (metis prod_cases3)
  note i1 = perf_inv_llc [OF assms(2) TSD_PERF_MODE_HARDWARE enable_strict_moves [OF e]]
  note h = measure_baseline_held [OF m] 
  have h2: "ctx_wf c2" "held base c2 p2" "pc_mode c2 = TSD_PERF_MODE_HARDWARE" "0 \<le> pc_fd_cycles c2" "0 \<le> pc_fd_insns c2"
    using h [of base] i1 by (simp_all add: perf_inv_def mode_wf_def)
  let ?c = "c2\<lparr>pc_hardware_validated := True\<rparr>"
  have i3: "perf_inv base ?c p2" using h2 by (simp add: perf_inv_def mode_wf_def ctx_wf_def held_def perf_fds_def)
  consider "perf_fail_closed sha256 c1 p1 = (ctx', q)" | "perf_fail_closed sha256 c2 p2 = (ctx', q)"
    | "ctx' = ?c" "q = publish_perf_state ?c True p2"
    using assms(1) TSD_PERF_MODE_HARDWARE e m by (auto simp: perf_measure_baseline_def Let_def split: bool.split_asm)
  then show ?thesis
  proof cases
    case 1
    then show ?thesis using fail_closed_inv(1) perf_inv_wf [OF i1(1)] by blast
  next
    case 2
    then show ?thesis using h2(1,2) by (rule fail_closed_inv)
  qed (use perf_inv_publish [OF i3] in simp)
qed (use assms in \<open>simp add: perf_inv_def mode_wf_def\<close>)

lemma enable_inv:
  assumes "perf_enable sha256 ctx p = (ctx', q)" "perf_inv base ctx p"
  shows "perf_inv base ctx' q"
proof (cases "pc_mode ctx = TSD_PERF_MODE_HARDWARE")
  case True
  obtain k1 c1 p1 where e: "enable_perf_events_strict ctx p = (k1, c1, p1)" by (metis prod_cases3)
  note i1 = perf_inv_llc [OF assms(2) True enable_strict_moves [OF e]]
  show ?thesis using assms(1) True e i1(1) fail_closed_inv(1) [of sha256 c1 p1 ctx' q base] perf_inv_wf [OF i1(1)]
    by (auto simp: perf_enable_def split: bool.split_asm)
qed (use assms in \<open>simp add: perf_enable_def\<close>)

lemma set_affinity_frame: "bridge_frame p (set_affinity cpus p) \<and> fd_table (set_affinity cpus p) = fd_table p"
  by (simp add: set_affinity_def bridge_frame_def Let_def split: prod.split)

lemma bridge_inv_frame: "bridge_inv base p \<Longrightarrow> bridge_frame p q \<and> fd_table q = fd_table p \<Longrightarrow> bridge_inv base q"
  using bridge_move [of base p q base] bridge_inv_fds [of base p] by auto

lemma select_cpus_step:
  assumes "select_runtime_cpus tid ctx p = (ctx', q)"
  obtains af a b where "ctx' = ctx\<lparr>pc_owner_tid := tid, pc_original_affinity := af, pc_pinned_cpu := a, pc_monitor_cpu := b\<rparr>" "0 \<le> a"
    "q = set_affinity [nat a] p"
proof -
  define cpu where "cpu = (if current_cpu p \<ge> 0 then current_cpu p else 0)"
  define af where "af = (case allowed_cpus p of None \<Rightarrow> pc_original_affinity ctx | Some allowed \<Rightarrow> Some allowed)"
  obtain a b where ab: "(case allowed_cpus p of None \<Rightarrow> (- 1, - 1) | Some allowed \<Rightarrow> first_two_cpus allowed) = (a, b)" by fastforce
  define a' where "a' = (if a < 0 then cpu else a)"
  define b' where "b' = (if a < 0 then cpu else if b < 0 then a else b)"
  have "(case allowed_cpus p of None \<Rightarrow> (ctx\<lparr>pc_owner_tid := tid\<rparr>, - 1, - 1)
      | Some allowed \<Rightarrow> (ctx\<lparr>pc_owner_tid := tid, pc_original_affinity := Some allowed\<rparr>, first_two_cpus allowed))
      = (ctx\<lparr>pc_owner_tid := tid, pc_original_affinity := af\<rparr>, a, b)"
    using ab by (cases "allowed_cpus p"; cases ctx) (simp_all add: af_def)
  moreover have "0 \<le> cpu" by (simp add: cpu_def)
  ultimately have "ctx' = ctx\<lparr>pc_owner_tid := tid, pc_original_affinity := af, pc_pinned_cpu := a', pc_monitor_cpu := b'\<rparr>"
    "q = set_affinity [nat a'] p" "0 \<le> a'"
    using assms by (auto simp: select_runtime_cpus_def Let_def a'_def b'_def cpu_def [symmetric] split: if_splits)
  then show ?thesis using that by blast
qed

lemma fresh_ctx_fields:
  "pc_fd_cycles (fresh_ctx w) = - 1" "pc_fd_insns (fresh_ctx w) = - 1" "pc_fd_llc_misses (fresh_ctx w) = - 1"
  "pc_mode (fresh_ctx w) = TSD_PERF_MODE_NONE" "\<not> pc_hardware_validated (fresh_ctx w)" "ctx_wf (fresh_ctx w)"
  by (simp_all add: fresh_ctx_def zero_ctx_def reset_perf_retry_def reset_llc_retry_def ctx_wf_def)

lemma acquire_held:
  assumes "acquire_telemetry sha256 ctx p = (ctx', q)" "bridge_inv base p" "0 \<le> pc_pinned_cpu ctx"
    "pc_fd_cycles ctx = - 1" "pc_fd_insns ctx = - 1" "pc_fd_llc_misses ctx = - 1"
  shows "held base ctx' q" "\<exists>h b. ctx' = ctx\<lparr>pc_telemetry := h, pc_fusion_acquired := b\<rparr>"
proof -
  obtain h p1 where i: "tsd_telemetry_helper_init (pc_pinned_cpu ctx) (pc_telemetry ctx) p = (ok, h, p1)" using helper_init_ok [OF assms(3)] .
  obtain r p2 where s: "tsd_telemetry_fusion_start_for_cpu sha256 (pc_pinned_cpu ctx) p1 = (r, p2)" by fastforce
  note w = helper_init_wf [OF i]
  have r: "ctx' = ctx\<lparr>pc_telemetry := h, pc_fusion_acquired := (r = ok)\<rparr>" "q = p2" using assms(1) i s by (auto simp: acquire_telemetry_def)
  have "mset (fd_table p1) = base + open_fd (th_msr_fd h) + service_fds p"
    using w(3) [OF bridge_inv_fds [OF assms(2)]] by (auto simp: owns_msr_def open_fd_def)
  then have "bridge_inv (base + open_fd (th_msr_fd h)) p1" using bridge_move [OF assms(2) env_frame [OF w(1)]] by simp
  then have "bridge_inv (base + open_fd (th_msr_fd h)) p2" using s by (rule start_inv(1))
  then show "held base ctx' q" using r w(2) assms(4-6) by (simp add: held_def perf_fds_def open_fd_def)
  show "\<exists>h b. ctx' = ctx\<lparr>pc_telemetry := h, pc_fusion_acquired := b\<rparr>" using r by blast
qed

lemma open_initial_inv:
  assumes "open_initial sha256 ctx p = (ctx', q)" "ctx_wf ctx" "held base ctx p" "pc_fd_cycles ctx = - 1" "pc_fd_insns ctx = - 1"
    "pc_fd_llc_misses ctx = - 1" "\<not> pc_hardware_validated ctx"
  shows "perf_inv base ctx' q"
proof (cases "pc_force_software ctx")
  case True
  then show ?thesis using assms set_software_inv(1) [of sha256 ctx p ctx' q] by (simp add: open_initial_def)
next
  case False
  obtain r c1 p1 where o: "open_perf_events ctx p = (r, c1, p1)" by (metis prod_cases3)
  note m = open_perf_events_moves [OF o]
  show ?thesis
  proof (cases "r = ok")
    case True
    note k = opened_keeps [OF m(2) [OF True]]
    let ?c = "c1\<lparr>pc_hardware_validated := False\<rparr>"
    have "held base c1 p1" using assms(3) m(1) k(4) by (rule held_moves)
    then have "held base ?c p1" by (simp add: held_def perf_fds_def)
    moreover have "ctx_wf ?c" using k(5) assms(2) by (simp add: ctx_wf_def)
    moreover have "perf_set_mode sha256 TSD_PERF_MODE_HARDWARE ?c p1 = (ctx', q)" using assms(1) False o True by (simp add: open_initial_def)
    ultimately show ?thesis using set_hardware_inv(1) [of sha256 ?c p1 ctx' q base] k(2,3) by simp
  next
    case failed: False
    have c1: "c1 = closed_ctx ctx" using m(3) failed by blast
    have h: "held base c1 p1" using assms(3) m(1) by (rule held_moves) (simp add: c1)
    obtain c2 p2 where s: "schedule_perf_retry c1 p1 = (c2, p2)" by fastforce
    have w: "ctx_wf c1" using c1 assms(2) by simp
    note i = schedule_perf_inv [OF s w h]
    obtain d b where d: "c2 = c1\<lparr>pc_perf_retry_deadline_ns := d, pc_perf_retry_backoff_seconds := b\<rparr>"
      using schedule_perf_step [OF s] by metis
    have "perf_set_mode sha256 TSD_PERF_MODE_SOFTWARE c2 p2 = (ctx', q)"
      using assms(1) False o failed s by (cases r) (auto simp: open_initial_def)
    then show ?thesis using set_software_inv(1) [OF _ i(1,2)] c1 d assms(7) by (simp add: closed_ctx_def)
  qed
qed

lemma perf_init_result:
  assumes "tsd_perf_init sha256 tid workload p = (r, q)" "bridge_inv base p"
  shows "case r of None \<Rightarrow> bridge_inv base q | Some ctx \<Rightarrow> perf_inv base ctx q"
proof -
  obtain a rest where n: "next_of True (calloc_ok p) = (a, rest)" by fastforce
  define p1 where "p1 = p\<lparr>calloc_ok := rest\<rparr>"
  have i1: "bridge_inv base p1" using assms(2) by (rule bridge_inv_frame) (simp add: p1_def bridge_frame_def)
  let ?c = "fresh_ctx workload"
  obtain t p2 where c: "clock_or (pc_mode_entered_at ?c) p1 = (t, p2)" by fastforce
  obtain c3 p3 where s: "select_runtime_cpus tid (?c\<lparr>pc_mode_entered_at := t\<rparr>) p2 = (c3, p3)" by fastforce
  let ?p4 = "publish_perf_state c3 False p3"
  obtain c5 p5 where e: "acquire_telemetry sha256 c3 ?p4 = (c5, p5)" by fastforce
  let ?c5 = "c5\<lparr>pc_force_software := env_forces_software (fake_perf_env p5)\<rparr>"
  obtain c6 p6 where o: "open_initial sha256 ?c5 p5 = (c6, p6)" by fastforce
  obtain af x y where c3: "c3 = ?c\<lparr>pc_mode_entered_at := t, pc_owner_tid := tid, pc_original_affinity := af, pc_pinned_cpu := x, pc_monitor_cpu := y\<rparr>"
    "0 \<le> x" "p3 = set_affinity [nat x] p2" using select_cpus_step [OF s] by metis
  have "bridge_inv base p2" using i1 ticks_frame [OF clock_ticks(1) [OF c]] by (rule bridge_inv_frame)
  then have "bridge_inv base p3" unfolding c3(3) using set_affinity_frame by (rule bridge_inv_frame)
  then have i4: "bridge_inv base ?p4" using publish_frame by (rule bridge_inv_frame)
  note h = acquire_held [OF e i4]
  have h5: "held base c5 p5" using h(1) c3 fresh_ctx_fields by simp
  obtain u v where c5: "c5 = c3\<lparr>pc_telemetry := u, pc_fusion_acquired := v\<rparr>" using h(2) c3 fresh_ctx_fields by auto
  have w: "ctx_wf ?c5" "pc_fd_cycles ?c5 = - 1" "pc_fd_insns ?c5 = - 1" "pc_fd_llc_misses ?c5 = - 1" "\<not> pc_hardware_validated ?c5"
    using fresh_ctx_fields [of workload] by (simp_all add: c5 c3 ctx_wf_def)
  have "held base ?c5 p5" using h5 by (simp add: held_def perf_fds_def)
  then have "perf_inv base c6 p6" using open_initial_inv [OF o w(1) _ w(2-5)] by blast
  moreover have "(r, q) = (if a then (Some c6, p6) else (None, p1))"
    using assms(1) n c s e o by (cases a) (auto simp: tsd_perf_init_def p1_def [symmetric] Let_def)
  ultimately show ?thesis using i1 by (simp split: if_splits)
qed

lemma restore_frame:
  "bridge_frame p (snd (restore_owner_affinity ctx p)) \<and> fd_table (snd (restore_owner_affinity ctx p)) = fd_table p"
  by (simp add: restore_owner_affinity_def set_affinity_frame split: option.split)

lemma cleanup_releases:
  assumes "perf_inv base ctx p"
  shows "bridge_inv base (perf_cleanup ctx p)"
proof -
  have h: "held base ctx p" using assms by (simp add: perf_inv_def)
  define p1 where "p1 = tsd_perf_disable ctx p"
  have io: "io_step s (snd (perf_ioctl fd b s))" for s :: "'a pproc_scheme" and fd b using io_reads(5) [of fd b s] by (metis prod.collapse)
  have "io_step p p1" unfolding p1_def tsd_perf_disable_def using io_trans [OF io io] by simp
  then have h1: "held base ctx p1" using held_moves [OF h io_moves] by simp
  obtain p2 where c: "close_perf_events ctx p1 = (closed_ctx ctx, p2)" "perf_moves ctx p1 (closed_ctx ctx) p2"
    using close_perf_events_moves by (metis prod.exhaust)
  have h2: "held base (closed_ctx ctx) p2" using h1 c(2) by (rule held_moves) simp
  obtain hh p3 where d: "tsd_telemetry_helper_destroy (pc_telemetry ctx) p2 = (hh, p3)" by fastforce
  have p3: "p3 = close_if_open (th_msr_fd (pc_telemetry ctx)) p2" using d by (auto simp: tsd_telemetry_helper_destroy_def close_if_open_def)
  have b2: "bridge_inv (base + open_fd (th_msr_fd (pc_telemetry ctx))) p2" using h2 by (simp add: held_def perf_fds_def closed_ctx_def open_fd_def)
  have "mset (fd_table p3) = base + service_fds p2" unfolding p3 close_if_open_fds bridge_inv_fds [OF b2] by simp
  then have b3: "bridge_inv base p3" using bridge_move [OF b2] close_if_open_frame p3 by blast
  define p4 where "p4 = (if pc_fusion_acquired ctx then tsd_telemetry_fusion_stop p3 else p3)"
  have b4: "bridge_inv base p4" using b3 stop_inv(1) [OF b3] by (simp add: p4_def)
  let ?c = "(closed_ctx ctx)\<lparr>pc_telemetry := hh, pc_mode := TSD_PERF_MODE_NONE, pc_hardware_validated := False\<rparr>"
  let ?p5 = "publish_perf_state ?c False p4"
  have b5: "bridge_inv base ?p5" using b4 publish_frame by (rule bridge_inv_frame)
  have q: "perf_cleanup ctx p = snd (restore_owner_affinity ?c ?p5)"
    using c d by (simp add: perf_cleanup_def p1_def [symmetric] p4_def [symmetric] closed_ctx_def Let_def)
  show ?thesis unfolding q using b5 restore_frame by (rule bridge_inv_frame)
qed

section \<open>Runs\<close>

text \<open>
  The calls on a context, at most one of which exists, with any outcome and in any order, and between them
  the steps of the fusion service.
\<close>

inductive perf_step :: "(u8 list \<Rightarrow> u8 list option) \<Rightarrow> perf_ctx option \<times> 'a pproc_scheme \<Rightarrow> perf_ctx option \<times> 'a pproc_scheme \<Rightarrow> bool"
  for sha256 where
  perf_step_init: "tsd_perf_init sha256 tid workload p = (c, q) \<Longrightarrow> perf_step sha256 (None, p) (c, q)"
| perf_step_enable: "tsd_perf_enable sha256 c p = (c', q) \<Longrightarrow> perf_step sha256 (c, p) (c', q)"
| perf_step_baseline: "tsd_perf_measure_baseline sha256 c cfg p = (c', q) \<Longrightarrow> perf_step sha256 (c, p) (c', q)"
| perf_step_evaluate: "tsd_perf_evaluate sha256 c cfg p = (r, out, c', q) \<Longrightarrow> perf_step sha256 (c, p) (c', q)"
| perf_step_timeout: "tsd_perf_check_software_timeout c sec p = (r, c', q) \<Longrightarrow> perf_step sha256 (c, p) (c', q)"
| perf_step_cleanup: "perf_step sha256 (c, p) (None, tsd_perf_cleanup c p)"
| perf_step_bridge: "bridge_step sha256 p q \<Longrightarrow> perf_step sha256 (c, p) (c, q)"

definition perf_start :: "int multiset \<Rightarrow> perf_ctx option \<times> 'a pproc_scheme \<Rightarrow> bool" where
  "perf_start base s \<longleftrightarrow> fst s = None \<and> bridge_idle base (snd s)"

definition perf_state_inv :: "int multiset \<Rightarrow> perf_ctx option \<times> 'a pproc_scheme \<Rightarrow> bool" where
  "perf_state_inv base s \<longleftrightarrow> (case fst s of None \<Rightarrow> bridge_inv base (snd s) | Some c \<Rightarrow> perf_inv base c (snd s))"

lemma timeout_inv:
  assumes "tsd_perf_check_software_timeout (Some c) sec p = (r, c', q)" "perf_inv base c p"
  shows "perf_state_inv base (c', q)"
proof -
  obtain b p1 where t: "perf_software_timeout_exceeded c sec p = (b, p1)" by fastforce
  have "ticks p p1" using t clock_ticks(1) [of 0 p] by (auto simp: perf_software_timeout_exceeded_def split: if_splits prod.splits)
  then have f: "bridge_frame p p1 \<and> fd_table p1 = fd_table p" by (rule ticks_frame)
  let ?c = "c\<lparr>pc_timeout_notified := True\<rparr>" and ?p2 = "count_metric TSD_METRIC_SOFTWARE_TIMEOUT_ESCALATIONS p1"
  have g: "bridge_frame p ?p2 \<and> fd_table ?p2 = fd_table p" using f by (simp add: count_metric_def bridge_frame_def)
  have "ctx_same c c" "ctx_same c ?c" by (simp_all add: ctx_same_def ctx_wf_def)
  then have "perf_inv base c p1" "perf_inv base ?c ?p2" using perf_inv_same [OF assms(2)] f g by blast+
  moreover have "(c', q) \<in> {(Some c, p), (Some c, p1), (Some ?c, ?p2)}"
    using assms(1) t by (auto simp: tsd_perf_check_software_timeout_def split: if_splits bool.splits)
  ultimately show ?thesis using assms(2) by (auto simp: perf_state_inv_def)
qed

lemma perf_step_inv:
  assumes "perf_state_inv base s" "perf_step sha256 s s'"
  shows "perf_state_inv base s'"
  using assms(2)
proof cases
  case (perf_step_init tid workload p c q)
  then show ?thesis using perf_init_result [OF perf_step_init(3)] assms(1) by (cases c) (auto simp: perf_state_inv_def)
next
  case (perf_step_enable c p c' q)
  then show ?thesis using assms(1) enable_inv
    by (cases c) (auto simp: perf_state_inv_def tsd_perf_enable_def split: prod.splits)
next
  case (perf_step_baseline c cfg p c' q)
  then show ?thesis using assms(1) measure_inv
    by (cases c) (auto simp: perf_state_inv_def tsd_perf_measure_baseline_def split: prod.splits)
next
  case (perf_step_evaluate c cfg p r out c' q)
  then show ?thesis using assms(1) evaluate_inv
    by (cases c) (auto simp: perf_state_inv_def tsd_perf_evaluate_def split: prod.splits)
next
  case (perf_step_timeout c sec p r c' q)
  then show ?thesis using assms(1) timeout_inv [of _ sec p r c' q base]
    by (cases c) (auto simp: perf_state_inv_def tsd_perf_check_software_timeout_def)
next
  case (perf_step_cleanup c p)
  then show ?thesis using assms(1) cleanup_releases by (cases c) (auto simp: perf_state_inv_def tsd_perf_cleanup_def)
next
  case (perf_step_bridge p q c)
  then have "bridge_inv b p \<Longrightarrow> bridge_inv b q" for b using bridge_step_inv by blast
  then show ?thesis using perf_step_bridge assms(1) by (cases c) (auto simp: perf_state_inv_def perf_inv_def held_def)
qed

interpretation perf_runs: inductive_invariant "perf_start base" "perf_step sha256" "perf_state_inv base" for base sha256
  using perf_step_inv by unfold_locales (auto simp: perf_start_def perf_state_inv_def bridge_inv_def)

section \<open>Authorization after a loss\<close>

text \<open>What the perf state that was published last says about wide widths.\<close>

definition perf_denied :: "'a proc_scheme \<Rightarrow> bool" where
  "perf_denied p \<longleftrightarrow> telemetry_throws p \<or> ps_mode (ts_perf (telemetry p)) = 2"

lemma denied_conditions: "perf_denied p \<Longrightarrow> \<not> wide_conditions p"
  by (auto simp: perf_denied_def wide_conditions_def guard_live_def perf_trusted_def Let_def)

lemma leave_published:
  "telemetry_throws (tsd_runtime_safety_write_leave p) = telemetry_throws p" "telemetry (tsd_runtime_safety_write_leave p) = telemetry p"
  by (simp_all add: tsd_runtime_safety_write_leave_def width_authorized_pair capture_limits_def safety_config_snapshot_def Let_def)

lemma publish_denies:
  assumes "fst (next_of None (guard_lock_rcs p)) = None" "pc_mode ctx = TSD_PERF_MODE_SOFTWARE"
  shows "perf_denied (publish_perf_state ctx b p)" "\<not> wide_admission_open (publish_perf_state ctx b p)"
proof -
  let ?q = "publish_perf_state ctx b p"
  define t where "t = \<lparr>pt_mode = mode_number (pc_mode ctx), pt_counters_healthy = c_bool b, pt_pinned_cpu = pc_pinned_cpu ctx,
    pt_monitor_cpu = pc_monitor_cpu ctx\<rparr>"
  have q: "?q = tsd_observability_update_perf (Some t) p" by (simp add: publish_perf_state_def t_def)
  show d: "perf_denied ?q"
  proof (cases p rule: safety_write_enter_cases)
    case (locked rcs)
    let ?p = "p\<lparr>guard_lock_rcs := rcs, wide_admission_open := False\<rparr>"
    have "?q = (if telemetry_throws p then tsd_runtime_wide_admission_close (tsd_runtime_safety_write_leave ?p)
        else tsd_runtime_safety_write_leave (?p\<lparr>telemetry := perf_assign (system_now p) (steady_now p) t (telemetry p)\<rparr>))"
      unfolding q tsd_observability_update_perf_def by (simp add: locked(2))
    then show ?thesis using assms(2)
      by (simp add: perf_denied_def leave_published tsd_runtime_wide_admission_close_def perf_assign_def t_def)
  qed (use assms(1) in simp)
  have "fst (tsd_runtime_safety_write_enter p) = ok" using assms(1) by (cases p rule: safety_write_enter_cases) simp_all
  then show "\<not> wide_admission_open ?q" using perf_update.admission_exact [of p t] denied_conditions [OF d] q by simp
qed

lemma patch_denied:
  assumes "perf_denied p" "\<not> wide_admission_open p"
  shows "perf_denied (snd (tsd_trampoline_patch sha256 w p))" "\<not> wide_admission_open (snd (tsd_trampoline_patch sha256 w p))"
proof -
  let ?q = "snd (tsd_trampoline_patch sha256 w p)"
  show d: "perf_denied ?q" using patch_guard [of p sha256 w] assms(1) by (simp add: perf_denied_def published_same_def)
  have "?q = snd (tsd_runtime_safety_write_enter p) \<and> fst (tsd_runtime_safety_write_enter p) \<noteq> ok \<or> (\<exists>s. ?q = tsd_runtime_safety_write_leave s)"
    by (auto simp: tsd_trampoline_patch_def split: prod.split sum.split bool.split)
  then show "\<not> wide_admission_open ?q"
  proof
    assume "?q = snd (tsd_runtime_safety_write_enter p) \<and> fst (tsd_runtime_safety_write_enter p) \<noteq> ok"
    then show ?thesis using assms(2) by (cases p rule: safety_write_enter_cases) auto
  next
    assume "\<exists>s. ?q = tsd_runtime_safety_write_leave s"
    then obtain s where "?q = tsd_runtime_safety_write_leave s" by blast
    then show ?thesis using denied_conditions [OF d] safety_write_leave_open [of s] by simp
  qed
qed

lemma set_software_denies:
  assumes "perf_set_mode sha256 TSD_PERF_MODE_SOFTWARE ctx p = (ctx', q)" "fst (next_of None (guard_lock_rcs p)) = None"
  shows "perf_denied q" "\<not> wide_admission_open q"
proof -
  have "perf_denied q \<and> \<not> wide_admission_open q"
  proof (cases "pc_mode ctx = TSD_PERF_MODE_SOFTWARE")
    case True
    then have "q = publish_perf_state ctx False p" using assms(1) by (auto simp: perf_set_mode_def)
    then show ?thesis using publish_denies [OF assms(2) True] by simp
  next
    case False
    obtain t p1 where c: "clock_or (pc_mode_entered_at ctx) p = (t, p1)" by fastforce
    let ?c = "(settled_ctx TSD_PERF_MODE_SOFTWARE t ctx)
      \<lparr>pc_calibrated_cpi_reference := 0, pc_calibrated_work_reference := 0, pc_hardware_validated := False\<rparr>"
    define p2 where "p2 = count_metric TSD_METRIC_PERF_FALLBACKS (tsd_runtime_wide_admission_close p1)"
    define p3 where "p3 = p2\<lparr>degraded_active := tsd_runtime_config_enter_degraded_mode (Some GlobalConfig) (degraded_active p2)\<rparr>"
    let ?p4 = "publish_perf_state ?c False p3"
    have "guard_lock_rcs p3 = guard_lock_rcs p" using clock_ticks(1) [OF c]
      by (auto simp: p2_def p3_def count_metric_def tsd_runtime_wide_admission_close_def ticks_def)
    then have d: "perf_denied ?p4" "\<not> wide_admission_open ?p4" using publish_denies [of p3 ?c False] assms(2) by simp_all
    have "enter_software sha256 (settled_ctx TSD_PERF_MODE_SOFTWARE t ctx) p1 = (ctx', q)"
      using assms(1) c False by (simp add: perf_set_mode_def settled_ctx_def reset_measurement_domain_def Let_def)
    then have "q = ?p4 \<or> q = snd (tsd_trampoline_patch sha256 SIMD_SSE41 ?p4)"
      unfolding enter_software_def Let_def p2_def [symmetric] p3_def [symmetric] by (auto split: if_split_asm)
    then show ?thesis using d patch_denied [OF d] by auto
  qed
  then show "perf_denied q" "\<not> wide_admission_open q" by blast+
qed

lemma fail_closed_denies:
  assumes "perf_fail_closed sha256 ctx p = (ctx', q)" "fst (next_of None (guard_lock_rcs p)) = None"
  shows "perf_denied q" "\<not> wide_admission_open q"
proof -
  obtain c1 p1 where "close_perf_events ctx p = (c1, p1)" by fastforce
  then have c: "close_perf_events ctx p = (closed_ctx ctx, p1)" by (auto simp: close_perf_events_def closed_ctx_def)
  let ?c1 = "(closed_ctx ctx)\<lparr>pc_hardware_validated := False, pc_software_adaptation := False\<rparr>"
  obtain c2 p2 where s: "schedule_perf_retry ?c1 p1 = (c2, p2)" by fastforce
  have "guard_lock_rcs p1 = guard_lock_rcs p" using c by (auto simp: close_perf_events_def close_if_open_def close_fd_def)
  moreover have "ticks p1 p2" using schedule_perf_step [OF s] by metis
  ultimately have "guard_lock_rcs p2 = guard_lock_rcs p" by (auto simp: ticks_def)
  moreover have "perf_set_mode sha256 TSD_PERF_MODE_SOFTWARE c2 p2 = (ctx', q)" using assms(1) c s by (simp add: perf_fail_closed_def)
  ultimately show "perf_denied q" "\<not> wide_admission_open q" using set_software_denies [of sha256 c2 p2 ctx' q] assms(2) by simp_all
qed

text \<open>The operations on the optional counter and on the clock take no guard lock.\<close>

lemma ticks_locks: "ticks p q \<Longrightarrow> guard_lock_rcs q = guard_lock_rcs p"
  by (auto simp: ticks_def)

lemma io_locks: "io_step p q \<Longrightarrow> guard_lock_rcs q = guard_lock_rcs p"
  by (auto simp: io_step_def)

lemma schedule_llc_locks: "schedule_llc_retry ctx p = (ctx', q) \<Longrightarrow> guard_lock_rcs q = guard_lock_rcs p"
  using schedule_llc_step ticks_locks by metis

lemma drop_llc_locks: "drop_llc ctx p = (ctx', q) \<Longrightarrow> guard_lock_rcs q = guard_lock_rcs p"
  using schedule_llc_locks [of "ctx\<lparr>pc_fd_llc_misses := - 1\<rparr>" "close_fd (pc_fd_llc_misses ctx) p" ctx' q]
  by (simp add: drop_llc_def close_fd_def)

lemma open_llc_locks:
  assumes "open_llc_event ctx p = (r, ctx', q)"
  shows "guard_lock_rcs q = guard_lock_rcs p"
proof -
  let ?p = "close_if_open (pc_fd_llc_misses ctx) p"
  obtain r1 p1 where o: "perf_event_open_sys ?p = (r1, p1)" by fastforce
  have "guard_lock_rcs ?p = guard_lock_rcs p" by (simp add: close_if_open_def close_fd_def)
  moreover have "guard_lock_rcs p1 = guard_lock_rcs ?p" using o by (auto simp: perf_event_open_sys_def split: prod.splits sum.splits)
  moreover have "q = p1 \<or> (\<exists>c. schedule_llc_retry c p1 = (ctx', q))" using assms o
    by (cases r1) (auto simp: open_llc_event_def Let_def split: prod.splits)
  ultimately show ?thesis using schedule_llc_locks by metis
qed

lemma enable_llc_locks:
  assumes "enable_optional_llc ctx p = (r, ctx', q)"
  shows "guard_lock_rcs q = guard_lock_rcs p"
proof -
  obtain r1 p1 where i: "perf_ioctl (pc_fd_llc_misses ctx) False p = (r1, p1)" by fastforce
  obtain r2 p2 where j: "perf_ioctl (pc_fd_llc_misses ctx) False p1 = (r2, p2)" by fastforce
  have l: "guard_lock_rcs p1 = guard_lock_rcs p" "guard_lock_rcs p2 = guard_lock_rcs p"
    using io_locks [OF io_reads(5) [OF i]] io_locks [OF io_reads(5) [OF j]] by simp_all
  have "q = p \<or> q = p2 \<or> drop_llc ctx p1 = (ctx', q) \<or> drop_llc ctx p2 = (ctx', q)"
    using assms i j by (auto simp: enable_optional_llc_def split: if_splits bool.splits)
  then show ?thesis using l drop_llc_locks [of ctx p1 ctx' q] drop_llc_locks [of ctx p2 ctx' q] by auto
qed

lemma recover_llc_locks:
  assumes "try_recover_llc ctx p = (ctx', q)"
  shows "guard_lock_rcs q = guard_lock_rcs p"
proof -
  obtain b p1 where d: "llc_retry_due ctx p = (b, p1)" by fastforce
  obtain r2 c2 p2 where o: "open_llc_event ctx p1 = (r2, c2, p2)" by (metis prod_cases3)
  obtain r3 c3 p3 where e: "enable_optional_llc c2 p2 = (r3, c3, p3)" by (metis prod_cases3)
  obtain v p4 where v: "read_counter (pc_fd_llc_misses c3) p3 = (v, p4)" by fastforce
  have l: "guard_lock_rcs p1 = guard_lock_rcs p" "guard_lock_rcs p2 = guard_lock_rcs p" "guard_lock_rcs p3 = guard_lock_rcs p"
    "guard_lock_rcs p4 = guard_lock_rcs p"
    using ticks_locks [OF due_ticks(2) [OF d]] open_llc_locks [OF o] enable_llc_locks [OF e] io_locks [OF io_reads(3) [OF v]] by simp_all
  show ?thesis
  proof (cases "pc_mode ctx \<noteq> TSD_PERF_MODE_HARDWARE \<or> pc_fd_llc_misses ctx \<ge> 0")
    case False
    then consider "q = p1" | "q = p2" | "q = p3" | "drop_llc c3 p4 = (ctx', q)" | "q = p4"
      using assms d o e v by (cases b; cases r2; cases r3; cases v) (auto simp: try_recover_llc_def)
    then show ?thesis by cases (use l drop_llc_locks [of c3 p4 ctx' q] in simp_all)
  qed (use assms in \<open>simp add: try_recover_llc_def\<close>)
qed

lemma read_llc_locks:
  assumes "read_llc_or_drop ctx p = (v, ctx', q)"
  shows "guard_lock_rcs q = guard_lock_rcs p"
proof -
  obtain r p1 where r: "read_counter (pc_fd_llc_misses ctx) p = (r, p1)" by fastforce
  have "guard_lock_rcs p1 = guard_lock_rcs p" using io_locks [OF io_reads(3) [OF r]] .
  then show ?thesis using assms r drop_llc_locks [of ctx p1 ctx' q]
    by (cases r) (auto simp: read_llc_or_drop_def split: if_splits)
qed

text \<open>An evaluation that leaves hardware mode has failed closed, before it published anything.\<close>

lemma fetch_mode: "fetch_fused_telemetry sha256 ctx p = (out, ctx', q) \<Longrightarrow> pc_mode ctx' = pc_mode ctx"
  using fetch_ctx [of sha256 ctx p out ctx' q] by auto

lemma evaluate_progress_lost:
  assumes "evaluate_progress sha256 rd llc e u ctx cfg p = (r, out, ctx', q)" "pc_mode ctx' \<noteq> pc_mode ctx"
  shows "handle_no_running_progress sha256 ctx p = (r, out, ctx', q)"
proof -
  let ?c2 = "ctx\<lparr>pc_hw_last_iterations := workload_iterations p, pc_last_group_read := rd, pc_last_llc_value := llc\<rparr>"
  obtain s c3 p3 where f: "fetch_fused_telemetry sha256 ?c2 (publish_perf_state ?c2 True p) = (s, c3, p3)" by (metis prod_cases3)
  have m: "pc_mode c3 = pc_mode ctx" using fetch_mode [OF f] by simp
  have "pc_mode c4 = pc_mode ctx" if "process_measurement d c3 cpi work mpki cfg s = (r4, o4, c4)" for d cpi work mpki r4 o4 c4
    using measurement_same [OF that] m by (simp add: ctx_same_def)
  then show ?thesis using assms f m by (auto simp: evaluate_progress_def Let_def split: if_split_asm prod.split_asm)
qed

lemma no_progress_lost:
  assumes "handle_no_running_progress sha256 ctx p = (r, out, ctx', q)" "pc_mode ctx' \<noteq> pc_mode ctx"
  shows "\<exists>c1. fail_evaluation sha256 c1 p = (r, out, ctx', q)"
  using assms by (auto simp: handle_no_running_progress_def Let_def split: if_split_asm)

lemma evaluate_hardware_lost:
  assumes "evaluate_hardware sha256 ctx cfg p = (r, out, ctx', q)" "pc_mode ctx = TSD_PERF_MODE_HARDWARE" "pc_mode ctx' \<noteq> TSD_PERF_MODE_HARDWARE"
  obtains c1 p1 where "fail_evaluation sha256 c1 p1 = (r, out, ctx', q)" "guard_lock_rcs p1 = guard_lock_rcs p"
proof -
  obtain c1 p1 where l: "try_recover_llc ctx p = (c1, p1)" by fastforce
  obtain g p2 where g: "read_group (pc_fd_cycles c1) p1 = (g, p2)" by fastforce
  obtain v c3 p3 where v: "read_llc_or_drop c1 p2 = (v, c3, p3)" by (metis prod_cases3)
  have m: "pc_mode c1 = TSD_PERF_MODE_HARDWARE" "pc_mode c3 = TSD_PERF_MODE_HARDWARE"
    using llc_step_keeps(1) [OF try_recover_llc_moves(1) [OF l]] llc_step_keeps(1) [OF read_llc_moves(1) [OF v]] assms(2) by simp_all
  have k: "guard_lock_rcs p2 = guard_lock_rcs p" "guard_lock_rcs p3 = guard_lock_rcs p"
    using recover_llc_locks [OF l] io_locks [OF io_reads(2) [OF g]] read_llc_locks [OF v] by simp_all
  let ?c4 = "c3\<lparr>pc_zero_running_samples := 0\<rparr>"
  consider "fail_evaluation sha256 c1 p2 = (r, out, ctx', q)" | "fail_evaluation sha256 c3 p3 = (r, out, ctx', q)"
    | "pc_mode ctx' = pc_mode c3" | "handle_no_running_progress sha256 c3 p3 = (r, out, ctx', q)"
    | rd e u where "evaluate_progress sha256 rd v e u ?c4 cfg p3 = (r, out, ctx', q)"
    using assms(1) l g v by (auto simp: evaluate_hardware_def Let_def split: option.split_asm if_split_asm)
  then show ?thesis
  proof cases
    case 4
    then obtain c where "fail_evaluation sha256 c p3 = (r, out, ctx', q)" using no_progress_lost m(2) assms(3) by metis
    then show ?thesis using that k(2) by blast
  next
    case (5 rd e u)
    have "handle_no_running_progress sha256 ?c4 p3 = (r, out, ctx', q)" using evaluate_progress_lost [OF 5] m(2) assms(3) by simp
    then obtain c where "fail_evaluation sha256 c p3 = (r, out, ctx', q)" using no_progress_lost m(2) assms(3)
      by (metis perf_ctx.select_convs(25) perf_ctx.surjective perf_ctx.update_convs(24))
    then show ?thesis using that k(2) by blast
  qed (use that k m assms(3) in auto)
qed

text \<open>What failing closed leaves of the context.\<close>

lemma fail_closed_ctx:
  fixes p :: "'a fproc_scheme"
  assumes "perf_fail_closed sha256 ctx p = (ctx', q)"
  shows "pc_mode ctx' = TSD_PERF_MODE_SOFTWARE" "\<not> pc_hardware_validated ctx'" "pc_fd_cycles ctx' = - 1" "pc_fd_insns ctx' = - 1"
    "pc_fd_llc_misses ctx' = - 1"
proof -
  let ?c1 = "(closed_ctx ctx)\<lparr>pc_hardware_validated := False, pc_software_adaptation := False\<rparr>"
  obtain p1 where c: "close_perf_events ctx p = (closed_ctx ctx, p1)" by (simp add: close_perf_events_def closed_ctx_def)
  obtain c2 p2 where s: "schedule_perf_retry ?c1 p1 = (c2, p2)" by fastforce
  obtain d b where d: "c2 = ?c1\<lparr>pc_perf_retry_deadline_ns := d, pc_perf_retry_backoff_seconds := b\<rparr>"
    using schedule_perf_step [OF s] by metis
  have e: "perf_set_mode sha256 TSD_PERF_MODE_SOFTWARE c2 p2 = (ctx', q)" using assms c s by (simp add: perf_fail_closed_def)
  have "pc_mode ctx' = TSD_PERF_MODE_SOFTWARE \<and> \<not> pc_hardware_validated ctx' \<and> pc_fd_cycles ctx' = - 1 \<and> pc_fd_insns ctx' = - 1 \<and>
      pc_fd_llc_misses ctx' = - 1"
    using set_mode_step(1,2) [OF e] by (cases "pc_mode c2 = TSD_PERF_MODE_SOFTWARE") (auto simp: d closed_ctx_def)
  then show "pc_mode ctx' = TSD_PERF_MODE_SOFTWARE" "\<not> pc_hardware_validated ctx'" "pc_fd_cycles ctx' = - 1" "pc_fd_insns ctx' = - 1"
    "pc_fd_llc_misses ctx' = - 1" by blast+
qed

section \<open>The recovered context\<close>

lemma leave_degraded: "degraded_active (publish_perf_state ctx b p) = degraded_active p"
proof (cases p rule: safety_write_enter_cases)
  case (locked rcs)
  then show ?thesis
    by (simp add: publish_perf_state_def tsd_observability_update_perf_def tsd_runtime_wide_admission_close_def)
qed (simp add: publish_perf_state_def tsd_observability_update_perf_def)

lemma exit_degraded: "tsd_runtime_config_exit_degraded_mode (Some GlobalConfig) b = False"
  by (simp add: tsd_runtime_config_exit_degraded_mode_def)

lemma measured_keeps:
  assumes "measure_hardware_baseline sha256 ctx cfg p = (True, ctx', q)"
  obtains a b where "group_baseline_progress_valid a b" "pc_last_group_read ctx' = b" "pc_last_group_valid ctx'"
    "pc_calibrated_cpi_reference ctx' \<noteq> 0" "pc_mode ctx' = pc_mode ctx" "pc_fd_cycles ctx' = pc_fd_cycles ctx" "pc_fd_insns ctx' = pc_fd_insns ctx"
  using assms
proof (cases rule: measure_baseline_cases)
  case (measured a b cy ins l0 l1 w0 w1 p1 out)
  then show ?thesis using that [of a b] fetch_ctx [OF measured(6)] store_keeps [where cfg = cfg and rd = b and cy = cy and ins = ins and ctx = ctx] by auto
qed simp

section \<open>Thermal severity\<close>

lemma product_div:
  fixes a b :: int
  assumes "0 \<le> a" "0 \<le> b" "a * b < 2 ^ 62"
  shows "unat ((of_int a * of_int b :: u64) div 1000) = nat (a * b div 1000)"
proof -
  obtain n m where n: "a = int n" "b = int m" using assms(1,2) by (metis nonneg_int_cases)
  have "n * m < 2 ^ 62" using assms(3) unfolding n by (metis of_nat_less_iff of_nat_mult of_nat_numeral of_nat_power)
  then have "unat (of_nat (n * m) :: u64) = n * m" by (simp only: unat_of_nat) simp
  moreover have "(of_int a * of_int b :: u64) = of_nat (n * m)" by (simp add: n)
  ultimately have "unat ((of_int a * of_int b :: u64) div 1000) = n * m div 1000" by (simp only: unat_div) simp
  then show ?thesis by (simp add: n nat_div_distrib nat_mult_distrib)
qed

lemma product_bound:
  fixes a b :: int
  assumes "0 \<le> a" "0 \<le> b" "a < 2 ^ 31" "b < 2 ^ 31"
  shows "a * b < 2 ^ 62"
proof -
  have "a * b \<le> (2 ^ 31 - 1) * (2 ^ 31 - 1)" using assms by (intro mult_mono) auto
  also have "\<dots> < (2 :: int) ^ 62" by simp
  finally show ?thesis .
qed

lemma temp_severity_value:
  assumes "sm_temp_available s \<noteq> 0" "0 < thermal_temp_weight_milli c" "thermal_temp_weight_milli c < 2 ^ 31"
    "85000 \<le> sm_package_temp_millic s" "sm_package_temp_millic s < 2 ^ 31"
  shows "unat (temp_severity c s) = nat ((sm_package_temp_millic s - 85000) * thermal_temp_weight_milli c div 1000)"
proof (cases "sm_package_temp_millic s = 85000")
  case False
  have "(sm_package_temp_millic s - 85000) * thermal_temp_weight_milli c < 2 ^ 62" using assms by (intro product_bound) auto
  then show ?thesis using assms False by (simp add: temp_severity_def Let_def product_div del: of_int_diff)
qed (use assms in \<open>simp add: temp_severity_def Let_def\<close>)

lemma severity_bounds:
  assumes "thermal_temp_weight_milli c < 2 ^ 31" "sm_package_temp_millic s < 2 ^ 31"
  shows "unat (temp_severity c s) < 2 ^ 53" 
proof (cases "sm_temp_available s \<noteq> 0 \<and> 0 < thermal_temp_weight_milli c \<and> 85000 \<le> sm_package_temp_millic s")
  case True
  have "(sm_package_temp_millic s - 85000) * thermal_temp_weight_milli c < 2 ^ 62" using assms True by (intro product_bound) auto
  then show ?thesis using temp_severity_value [of s c] assms True by simp
qed (auto simp: temp_severity_def Let_def)

lemma freq_severity_bound:
  assumes "thermal_ratio_weight_milli c < 2 ^ 31"
  shows "unat (freq_severity c s) < 2 ^ 53"
proof (cases "sm_freq_ratio_available s \<noteq> 0 \<and> 0 < thermal_ratio_weight_milli c \<and> 0 < 1000 - uint (sm_freq_ratio_milli s)")
  case True
  have "(1000 - uint (sm_freq_ratio_milli s)) * thermal_ratio_weight_milli c < 2 ^ 62"
  proof (rule product_bound)
    have "1000 - uint (sm_freq_ratio_milli s) \<le> 1000" by simp
    also have "\<dots> < (2 :: int) ^ 31" by simp
    finally show "1000 - uint (sm_freq_ratio_milli s) < 2 ^ 31" .
  qed (use assms True in auto)
  then show ?thesis using True by (simp add: freq_severity_def Let_def product_div del: of_int_diff)
qed (auto simp: freq_severity_def Let_def)

lemma half_bound: "unat (x div 2 :: u64) < 2 ^ 63"
  using unat_lt_pow [of x] by (simp add: unat_div)

section \<open>Properties\<close>

text \<open>
  C29. Whatever is called and however it ends, the descriptors of the process are those of the rest of the
  program, those the context says it holds, and the one of the fusion service: none is lost or closed twice,
  and after a cleanup the context holds none. Meanwhile the ratio history and both back-offs stay within
  bounds, hardware mode means an open group, and software mode means that everything is closed and nothing
  is validated.
\<close>
theorem perf_context_consistent:
  assumes "reachable (perf_start base) (perf_step sha256) (c, p)"
  shows "mset (fd_table p) = base + (case c of None \<Rightarrow> {#} | Some ctx \<Rightarrow> perf_fds ctx) + service_fds p \<and>
    (case c of None \<Rightarrow> True | Some ctx \<Rightarrow> ctx_wf ctx \<and> mode_wf ctx)"
proof -
  have "perf_state_inv base (c, p)" using assms by (rule perf_runs.reachable_inv)
  then show ?thesis
    by (cases c) (auto simp: perf_state_inv_def perf_inv_def held_def dest!: bridge_inv_fds)
qed

definition example_pproc :: pproc where
  "example_pproc = fproc.extend example_fproc (pproc_ext [Inr 3, Inr 4] [] [] (Some [0, 1]) 0 [0, 1] [] [] None ())"

lemma example_pproc_fields:
  "perf_open_results example_pproc = [Inr 3, Inr 4]" "ioctl_results example_pproc = []" "read_results example_pproc = []"
  "observed_work example_pproc = []" "clock_results example_pproc = []" "guard_lock_rcs example_pproc = []" "calloc_ok example_pproc = []"
  "workload_iterations example_pproc = 7" "fd_table example_pproc = []"
  by (simp_all add: example_pproc_def example_fproc_def example_sproc_def proc_init_def fproc.defs sproc.defs proc.defs)

theorem perf_context_consistent_witness:
  "case tsd_perf_init Some 7 True example_pproc of (c, q) \<Rightarrow>
     c \<noteq> None \<and> mset (fd_table q) = (case c of None \<Rightarrow> {#} | Some ctx \<Rightarrow> perf_fds ctx) + service_fds q"
proof -
  obtain c q where i: "tsd_perf_init Some 7 True example_pproc = (c, q)" by fastforce
  have "bridge_idle {#} example_pproc"
    by (simp add: bridge_idle_def example_pproc_def example_fproc_def example_sproc_def proc_init_def fproc.defs sproc.defs proc.defs)
  then have "reachable (perf_start {#}) (perf_step Some) (None, example_pproc)" by (simp add: reachable_init perf_start_def)
  then have "reachable (perf_start {#}) (perf_step Some) (c, q)" using perf_step_init [OF i] by (rule reachable_step)
  moreover have "c \<noteq> None" using i by (auto simp: tsd_perf_init_def example_pproc_fields Let_def split: prod.splits)
  ultimately show ?thesis using perf_context_consistent [of "{#}" Some c q] i by simp
qed

text \<open>
  C28. Fail closed: an evaluation that leaves hardware mode, for whichever reason, reports a severity, leaves
  every counter closed and nothing validated, and, when the guard lock for its publication is granted, no
  admission is open afterwards and no width but SSE4.1 is authorized.
\<close>
theorem perf_loss_denies_wide:
  assumes "perf_evaluate sha256 ctx cfg p = (r, out, ctx', q)" "pc_mode ctx = TSD_PERF_MODE_HARDWARE"
    "pc_mode ctx' \<noteq> TSD_PERF_MODE_HARDWARE" "fst (next_of None (guard_lock_rcs p)) = None"
  shows "r \<and> te_severity_milli out = 1 \<and> pc_mode ctx' = TSD_PERF_MODE_SOFTWARE \<and> \<not> tsd_perf_upgrades_allowed (Some ctx') \<and>
    pc_fd_cycles ctx' = - 1 \<and> pc_fd_insns ctx' = - 1 \<and> pc_fd_llc_misses ctx' = - 1 \<and>
    \<not> wide_admission_open q \<and> (\<forall>w. fst (tsd_runtime_width_authorized w q) = (w = SIMD_SSE41))"
proof -
  have "evaluate_hardware sha256 ctx cfg p = (r, out, ctx', q)" using assms(1-3) by (auto simp: perf_evaluate_def split: if_splits)
  then obtain c1 p1 where f: "fail_evaluation sha256 c1 p1 = (r, out, ctx', q)" "guard_lock_rcs p1 = guard_lock_rcs p"
    using assms(2,3) by (rule evaluate_hardware_lost)
  then have c: "perf_fail_closed sha256 c1 p1 = (ctx', q)" "r" "te_severity_milli out = 1"
    by (auto simp: fail_evaluation_def split: prod.splits)
  have "perf_denied q" "\<not> wide_admission_open q" using fail_closed_denies [OF c(1)] f(2) assms(4) by simp_all
  then show ?thesis using fail_closed_ctx [OF c(1)] c(2,3) denied_conditions [of q]
    by (simp add: tsd_perf_upgrades_allowed_def width_authorized_pair)
qed

definition example_measuring :: perf_ctx where
  "example_measuring = (fresh_ctx True)\<lparr>pc_fd_cycles := 3, pc_fd_insns := 4, pc_fd_llc_misses := 5,
     pc_mode := TSD_PERF_MODE_HARDWARE, pc_hardware_validated := True\<rparr>"

theorem perf_loss_denies_wide_witness:
  "case perf_evaluate Some example_measuring None example_pproc of (r, out, ctx', q) \<Rightarrow>
     r \<and> pc_mode ctx' = TSD_PERF_MODE_SOFTWARE \<and> \<not> wide_admission_open q"
proof -
  obtain r out ctx' q where e: "perf_evaluate Some example_measuring None example_pproc = (r, out, ctx', q)" by (metis prod_cases4)
  have m: "pc_mode example_measuring = TSD_PERF_MODE_HARDWARE" "pc_hardware_validated example_measuring" by (simp_all add: example_measuring_def)
  obtain p1 where g: "read_group 3 example_pproc = (None, p1)" by (simp add: read_group_def tsd_perf_read_exact_def example_pproc_fields)
  have "try_recover_llc example_measuring example_pproc = (example_measuring, example_pproc)" "pc_fd_cycles example_measuring = 3"
    by (simp_all add: try_recover_llc_def example_measuring_def)
  then have "evaluate_hardware Some example_measuring None example_pproc = fail_evaluation Some example_measuring p1"
    using g by (simp add: evaluate_hardware_def)
  then have "fail_evaluation Some example_measuring p1 = (r, out, ctx', q)" using e m by (simp add: perf_evaluate_def)
  then have "pc_mode ctx' = TSD_PERF_MODE_SOFTWARE" using fail_closed_ctx(1) by (auto simp: fail_evaluation_def split: prod.splits)
  then show ?thesis using perf_loss_denies_wide [OF e] m e by (simp add: example_pproc_fields)
qed


definition group_bytes :: "u8 \<Rightarrow> u8 \<Rightarrow> u8 list" where
  "group_bytes t n = [2, 0, 0, 0, 0, 0, 0, 0] @ [t, 0, 0, 0, 0, 0, 0, 0] @ [t, 0, 0, 0, 0, 0, 0, 0] @
     [n, 0, 0, 0, 0, 0, 0, 0] @ [n, 0, 0, 0, 0, 0, 0, 0]"

lemma group_bytes_words:
  "length (group_bytes t n) = 40" "word_at (group_bytes t n) 0 = 2" "word_at (group_bytes t n) (Suc 0) = ucast t"
  "word_at (group_bytes t n) 2 = ucast t" "word_at (group_bytes t n) 3 = ucast n" "word_at (group_bytes t n) 4 = ucast n"
  by (simp_all add: word_at_def group_bytes_def)

lemma group_bytes_read:
  assumes "0 \<le> fd" "read_results p = Inr (group_bytes t n) # rs"
  shows "read_group fd p = (Some \<lparr>pg_nr = 2, pg_time_enabled = ucast t, pg_time_running = ucast t, pg_cycles = ucast n, pg_insns = ucast n\<rparr>,
    p\<lparr>read_results := rs\<rparr>)"
proof -
  have "group_bytes t n \<noteq> []" by (simp add: group_bytes_def)
  then have "read_loop 40 [] (Inr (group_bytes t n) # rs) = (Some (group_bytes t n), rs)" by (cases rs) (simp_all add: group_bytes_words)
  then show ?thesis using assms by (simp add: read_group_def tsd_perf_read_exact_def group_bytes_words)
qed

definition example_waiting :: perf_ctx where
  "example_waiting = (fresh_ctx True)\<lparr>pc_mode := TSD_PERF_MODE_SOFTWARE\<rparr>"


text \<open>
  C31. A hot package is always reported: whatever the counters say, when the raw temperature exceeds the
  reference by enough for its weighted excess to reach one unit, the measurement signals, its thermal
  severity is at least that excess, and the total severity is at least the thermal one; none of the sums
  wraps. The filtered channel has no part in it.
\<close>
theorem hot_measurement_signals:
  assumes "process_measurement degraded ctx cpi work mpki (Some cfg) s = (r, out, ctx')" "sm_temp_available s \<noteq> 0"
    "0 < thermal_temp_weight_milli cfg" "thermal_temp_weight_milli cfg < 2 ^ 31" "thermal_ratio_weight_milli cfg < 2 ^ 31"
    "sm_package_temp_millic s < 2 ^ 31" "1000 \<le> (sm_package_temp_millic s - 85000) * thermal_temp_weight_milli cfg"
  shows "r \<and> nat ((sm_package_temp_millic s - 85000) * thermal_temp_weight_milli cfg div 1000) \<le> unat (te_thermal_severity_milli out) \<and>
    te_thermal_severity_milli out \<le> te_severity_milli out"
proof -
  let ?x = "(sm_package_temp_millic s - 85000) * thermal_temp_weight_milli cfg div 1000"
  have "0 < sm_package_temp_millic s - 85000" using assms(3,7) by (metis int_one_le_iff_zero_less less_le_trans zero_less_mult_iff zero_less_numeral not_less_iff_gr_or_eq)
  then have t: "unat (temp_severity cfg s) = nat ?x" using assms by (intro temp_severity_value) auto
  have x: "1 \<le> ?x" using assms(7) by linarith
  let ?th = "thermal_severity (Some cfg) s"
  have b: "unat (temp_severity cfg s) < 2 ^ 53" "unat (freq_severity cfg s) < 2 ^ 53"
    using severity_bounds freq_severity_bound assms(4-6) by blast+
  then have th: "unat ?th = nat ?x + unat (freq_severity cfg s)" using t by (simp add: thermal_severity_def unat_plus_simple_le)
  obtain base where o: "te_severity_milli out = base + ?th" "te_thermal_severity_milli out = ?th" "r = (0 < base + ?th)" "unat base < 2 ^ 63"
  proof -
    let ?c1 = "update_averages cpi mpki ctx"
    obtain ratio c2 where w: "work_ratio cpi work ?c1 = (ratio, c2)" by fastforce
    let ?c3 = "record_ratio ratio c2"
    let ?z = "(ratio + ucast (pc_ratio_trimmed_milli ?c3)) div 2"
    let ?t = "dynamic_threshold degraded (Some cfg) (is_memory_bound mpki ?c3) ?c3"
    let ?b = "if ?z > ?t then ?z - ?t else 0"
    have "unat ?b \<le> unat ?z" by (auto simp: word_le_nat_alt [symmetric] intro: word_sub_le dest: less_imp_le)
    also have "\<dots> < 2 ^ 63" by (rule half_bound)
    finally have "unat ?b < 2 ^ 63" .
    moreover have "te_severity_milli out = ?b + ?th" "te_thermal_severity_milli out = ?th" "r = (0 < ?b + ?th)"
      using assms(1) w by (auto simp: process_measurement_def Let_def)
    ultimately show ?thesis using that by blast
  qed
  have s: "unat (base + ?th) = unat base + unat ?th" using o(4) th t b by (intro unat_plus_simple_le) simp
  then have "0 < base + ?th" using th x by (simp add: word_less_nat_alt)
  moreover have "?th \<le> base + ?th" using s by (simp add: word_le_nat_alt)
  ultimately show ?thesis using o th by simp
qed

definition example_hot :: tsd_telemetry_sample_t where
  "example_hot = zero_sample\<lparr>sm_temp_available := 1, sm_package_temp_millic := 90000\<rparr>"

theorem hot_measurement_signals_witness:
  "case process_measurement False zero_ctx 1000 0 0 (Some (zero_runtime_config\<lparr>thermal_temp_weight_milli := 100\<rparr>)) example_hot of (r, out, ctx') \<Rightarrow>
     r \<and> 500 \<le> unat (te_thermal_severity_milli out) \<and> te_thermal_severity_milli out \<le> te_severity_milli out"
proof -
  let ?cfg = "zero_runtime_config\<lparr>thermal_temp_weight_milli := 100\<rparr>"
  obtain r out ctx' where m: "process_measurement False zero_ctx 1000 0 0 (Some ?cfg) example_hot = (r, out, ctx')" by (metis prod_cases3)
  show ?thesis using hot_measurement_signals [OF m] m by (simp add: example_hot_def zero_runtime_config_def)
qed

text \<open>
  C32. While the counters open but their validation keeps failing, the back-off of the hardware probe does not
  grow: opening resets it before the validation, so each rejected probe leaves it at twice the initial value.
\<close>
theorem rejected_probe_backoff:
  assumes "try_recover_hardware sha256 ctx p = (False, ctx', q)" "pc_mode ctx = TSD_PERF_MODE_SOFTWARE"
    "perf_retry_due ctx p = (True, p1)" "open_perf_events ctx p1 = (ok, c2, p2)"
  shows "pc_perf_retry_backoff_seconds ctx' = 2 * PERF_INITIAL_BACKOFF_SEC"
proof -
  have nf: "\<not> pc_force_software ctx" using assms(3) by (auto simp: perf_retry_due_def split: if_splits)
  have reject: "pc_perf_retry_backoff_seconds ctx' = 10" if "reject_reprobe c s = (False, ctx', q)" "pc_perf_retry_backoff_seconds c = 5"
    "\<not> pc_force_software c" for c and s :: "'a pproc_scheme"
  proof -
    obtain s1 where "close_perf_events c s = (closed_ctx c, s1)" by (simp add: close_perf_events_def closed_ctx_def)
    moreover obtain c3 s2 where r: "schedule_perf_retry ((closed_ctx c)\<lparr>pc_hardware_validated := False\<rparr>) s1 = (c3, s2)" by fastforce
    ultimately have "ctx' = c3" using that(1) by (simp add: reject_reprobe_def)
    then show ?thesis using schedule_perf_backoff [OF r] that(2,3) by (simp add: closed_ctx_def)
  qed
  have k: "pc_perf_retry_backoff_seconds c3 = 5 \<and> \<not> pc_force_software c3"
    if "enable_perf_events_strict c2 p2 = (b, c3, p3)" for b c3 p3
    using llc_step_keeps(7,8) [OF enable_strict_moves(1) [OF that]] opened_keeps(6,7) [OF open_perf_events_moves(2) [OF assms(4) refl]] nf by simp
  show ?thesis using assms(1)
  proof (cases rule: recover_hardware_cases)
    case (rejected p1 c2 p2 ok3 c3 p3)
    then show ?thesis using reject k assms by auto
  next
    case (unmeasured p1 c2 p2 c3 p3 c4 p4)
    have "c4 = c3" using unmeasured(4) by (cases rule: measure_baseline_cases) auto
    then show ?thesis using unmeasured reject k assms by auto
  next
    case (idle p1)
    then show ?thesis using assms(2,3) by simp
  qed (use assms in auto)
qed

theorem rejected_probe_backoff_witness:
  "case try_recover_hardware Some example_waiting (example_pproc\<lparr>ioctl_results := [False]\<rparr>) of (r, ctx', q) \<Rightarrow>
     \<not> r \<and> pc_perf_retry_backoff_seconds ctx' = 10"
proof -
  let ?p = "example_pproc\<lparr>ioctl_results := [False]\<rparr>"
  have d: "perf_retry_due example_waiting ?p = (True, ?p)"
    by (simp add: perf_retry_due_def example_waiting_def fresh_ctx_def reset_llc_retry_def reset_perf_retry_def zero_ctx_def)
  obtain c2 p2 where o: "open_perf_events example_waiting ?p = (ok, c2, p2)" "pc_fd_cycles c2 = 3" "pc_fd_insns c2 = 4" "ioctl_results p2 = [False]"
    by (simp add: open_perf_events_def close_perf_events_def close_if_open_def perf_event_open_sys_def example_waiting_def fresh_ctx_def
        reset_llc_retry_def reset_perf_retry_def zero_ctx_def example_pproc_fields open_llc_event_def schedule_llc_retry_def next_retry_def
        monotonic_now_ns_def clock_gettime_def Let_def)
  obtain p3 where e: "enable_perf_events_strict c2 p2 = (False, c2, p3)"
    using o by (simp add: enable_perf_events_strict_def perf_ioctl_def)
  obtain r ctx' q where t: "try_recover_hardware Some example_waiting ?p = (r, ctx', q)" by (metis prod_cases3)
  have "reject_reprobe c2 p3 = (r, ctx', q)" using t d o(1) e by (simp add: try_recover_hardware_def example_waiting_def)
  then have "\<not> r" by (rule reject_false)
  then show ?thesis using rejected_probe_backoff [of Some example_waiting ?p ctx' q ?p c2 p2] t d o(1) by (simp add: example_waiting_def)
qed

text \<open>
  A complete read is exactly as long as it was asked to be, whatever the sizes of the pieces, and
  interruptions have no effect on the result.
\<close>
theorem perf_read_exact_correct:
  "(case fst (tsd_perf_read_exact fd want p) of None \<Rightarrow> True | Some bs \<Rightarrow> length bs = want) \<and>
   fst (tsd_perf_read_exact fd want (p\<lparr>read_results := filter (\<lambda>r. r \<noteq> Inl EINTR) (read_results p)\<rparr>)) = fst (tsd_perf_read_exact fd want p)"
proof -
  obtain r rest where l: "read_loop want [] (read_results p) = (r, rest)" by fastforce
  have "length bs = want" if "r = Some bs" for bs using read_loop_length [of want "[]" "read_results p" bs rest] l that by simp
  moreover have "fst (read_loop want [] (filter (\<lambda>r. r \<noteq> Inl EINTR) (read_results p))) = r"
    using read_loop_interrupts [of want "[]" "read_results p"] l by simp
  ultimately show ?thesis using l by (auto simp: tsd_perf_read_exact_def split: option.split prod.splits)
qed

end
