(* ===== verification/Fusion_Lifecycle.thy ===== *)
theory Fusion_Lifecycle
  imports Telemetry_Fusion
begin

text \<open>
  \<^verbatim>\<open>TelemetryFusion::start\<close>, \<^verbatim>\<open>stop\<close> and the worker's \<^verbatim>\<open>run\<close> (\<^verbatim>\<open>src/telemetry/fusion.cpp\<close>) under
  interleaving. A section between two operations of \<^verbatim>\<open>thread_mutex_\<close>, \<^verbatim>\<open>wake_mutex_\<close>, \<^verbatim>\<open>running_\<close> or the
  published telemetry is one step; the steps of different threads interleave freely. The
  predicates of \<^verbatim>\<open>thread_cv_\<close> are only written under \<^verbatim>\<open>thread_mutex_\<close> and followed by a
  notification, so waiting there is a guard; the sleep on \<^verbatim>\<open>wake_cv_\<close> is modelled with its
  notification, because \<^verbatim>\<open>running_\<close> is an atomic that is also written outside \<^verbatim>\<open>wake_mutex_\<close>.
\<close>

section \<open>State\<close>

text \<open>
  Where a thread is in a call: in \<^verbatim>\<open>start\<close> after creating the worker, in \<^verbatim>\<open>stop\<close> after
  counting itself, after clearing \<^verbatim>\<open>running_\<close>, after the notification, waiting for another join,
  joining a worker, or past the join.
\<close>

datatype call_pc = Outside | Start_publishing | Stop_entered | Stop_stored | Stop_notified
  | Stop_waiting | Stop_joining int | Stop_joined

text \<open>
  Where a worker is in \<^verbatim>\<open>run\<close>: at the loop condition, in \<^verbatim>\<open>poll\<close>, with \<^verbatim>\<open>running_\<close> read for the
  telemetry, past the iteration, checking the predicate under \<^verbatim>\<open>wake_mutex_\<close>, asleep, woken, returned.
\<close>

datatype worker_pc = No_worker | W_top | W_poll | W_loaded bool | W_published | W_locked | W_asleep | W_woken | W_done

record lifecycle =
  lf_running :: bool
  lf_stop_callers :: u32
  lf_join_in_progress :: bool
  lf_worker_id :: "int option"
  lf_thread :: "int option"
  lf_mutex :: "int option"
  lf_wake_mutex :: "int option"
  lf_published :: bool
  lf_pc :: "int \<Rightarrow> call_pc"
  lf_worker :: "int \<Rightarrow> worker_pc"

definition lifecycle_init :: lifecycle where
  "lifecycle_init = \<lparr>lf_running = False, lf_stop_callers = 0, lf_join_in_progress = False, lf_worker_id = None,
     lf_thread = None, lf_mutex = None, lf_wake_mutex = None, lf_published = False,
     lf_pc = (\<lambda>_. Outside), lf_worker = (\<lambda>_. No_worker)\<rparr>"

definition at_pc :: "int \<Rightarrow> call_pc \<Rightarrow> lifecycle \<Rightarrow> lifecycle" where
  "at_pc t c s = s\<lparr>lf_pc := (lf_pc s)(t := c)\<rparr>"

definition worker_at :: "int \<Rightarrow> worker_pc \<Rightarrow> lifecycle \<Rightarrow> lifecycle" where
  "worker_at w c s = s\<lparr>lf_worker := (lf_worker s)(w := c)\<rparr>"

section \<open>Sections of the calls\<close>

definition start_refused :: "lifecycle \<Rightarrow> bool" where
  "start_refused s = (lf_running s \<or> lf_stop_callers s \<noteq> 0 \<or> lf_join_in_progress s \<or> lf_thread s \<noteq> None)"

text \<open>\<^verbatim>\<open>start\<close> up to its publication, with the thread the library creates, or the exception.\<close>

definition start_spawn :: "int \<Rightarrow> int \<Rightarrow> lifecycle \<Rightarrow> lifecycle" where
  "start_spawn t w s = at_pc t Start_publishing (worker_at w W_top
     (s\<lparr>lf_running := True, lf_worker_id := Some w, lf_thread := Some w, lf_mutex := Some t\<rparr>))"

definition start_throw :: "lifecycle \<Rightarrow> lifecycle" where
  "start_throw s = s\<lparr>lf_running := False, lf_worker_id := None, lf_published := False\<rparr>"

definition start_publish :: "int \<Rightarrow> lifecycle \<Rightarrow> lifecycle" where
  "start_publish t s = at_pc t Outside (s\<lparr>lf_mutex := None, lf_published := True\<rparr>)"

definition stop_enter :: "int \<Rightarrow> lifecycle \<Rightarrow> lifecycle" where
  "stop_enter t s = at_pc t Stop_entered (s\<lparr>lf_stop_callers := lf_stop_callers s + 1, lf_mutex := Some t\<rparr>)"

definition stop_store :: "int \<Rightarrow> lifecycle \<Rightarrow> lifecycle" where
  "stop_store t s = at_pc t Stop_stored (s\<lparr>lf_running := False\<rparr>)"

text \<open>\<^verbatim>\<open>wake_cv_.notify_all()\<close>.\<close>

definition stop_notify :: "int \<Rightarrow> lifecycle \<Rightarrow> lifecycle" where
  "stop_notify t s = at_pc t Stop_notified
     (s\<lparr>lf_worker := (\<lambda>w. if lf_worker s w = W_asleep then W_woken else lf_worker s w)\<rparr>)"

text \<open>The way out of \<^verbatim>\<open>stop\<close>: one caller less, and the mutex released.\<close>

definition stop_leave :: "int \<Rightarrow> lifecycle \<Rightarrow> lifecycle" where
  "stop_leave t s = at_pc t Outside (s\<lparr>lf_stop_callers := lf_stop_callers s - 1, lf_mutex := None\<rparr>)"

definition stop_branch :: "int \<Rightarrow> lifecycle \<Rightarrow> lifecycle" where
  "stop_branch caller s =
     (let caller_is_worker = (lf_worker_id s = Some caller)
      in if lf_join_in_progress s then
           (if caller_is_worker then stop_leave caller s
            else at_pc caller Stop_waiting (s\<lparr>lf_mutex := None\<rparr>))
         else (case lf_thread s of
             None \<Rightarrow> stop_leave caller (s\<lparr>lf_worker_id := None, lf_published := False\<rparr>)
           | Some w \<Rightarrow>
               if caller_is_worker then stop_leave caller (s\<lparr>lf_published := False\<rparr>)
               else at_pc caller (Stop_joining w) (s\<lparr>lf_join_in_progress := True, lf_thread := None, lf_mutex := None\<rparr>)))"

text \<open>\<^verbatim>\<open>joiner.join()\<close> returns, and the identifier of the worker is free again.\<close>

definition stop_joined :: "int \<Rightarrow> int \<Rightarrow> lifecycle \<Rightarrow> lifecycle" where
  "stop_joined t w s = at_pc t Stop_joined (worker_at w No_worker s)"

definition stop_finish :: "int \<Rightarrow> lifecycle \<Rightarrow> lifecycle" where
  "stop_finish t s = stop_leave t (s\<lparr>lf_join_in_progress := False, lf_worker_id := None, lf_published := False\<rparr>)"

section \<open>Steps\<close>

text \<open>New calls. A worker only calls from a provider, inside \<^verbatim>\<open>poll\<close>.\<close>

definition may_call :: "int \<Rightarrow> lifecycle \<Rightarrow> bool" where
  "may_call t s = (0 < t \<and> t \<le> INT_MAX \<and> lf_pc s t = Outside \<and> lf_worker s t \<in> {No_worker, W_poll} \<and> lf_mutex s = None)"

inductive call_step :: "lifecycle \<Rightarrow> lifecycle \<Rightarrow> bool" where
  call_refused: "may_call t s \<Longrightarrow> start_refused s \<Longrightarrow> call_step s s"
| call_spawn: "\<lbrakk>may_call t s; \<not> start_refused s; w \<noteq> t; lf_worker s w = No_worker; lf_pc s w = Outside\<rbrakk>
    \<Longrightarrow> call_step s (start_spawn t w s)"
| call_throw: "may_call t s \<Longrightarrow> \<not> start_refused s \<Longrightarrow> call_step s (start_throw s)"
| call_stop: "may_call t s \<Longrightarrow> call_step s (stop_enter t s)"

text \<open>Progress of the calls and of the worker.\<close>

inductive inner_step :: "lifecycle \<Rightarrow> lifecycle \<Rightarrow> bool" where
  in_publish: "lf_pc s t = Start_publishing \<Longrightarrow> inner_step s (start_publish t s)"
| in_store: "lf_pc s t = Stop_entered \<Longrightarrow> lf_wake_mutex s = None \<Longrightarrow> inner_step s (stop_store t s)"
| in_notify: "lf_pc s t = Stop_stored \<Longrightarrow> inner_step s (stop_notify t s)"
| in_branch: "lf_pc s t = Stop_notified \<Longrightarrow> inner_step s (stop_branch t s)"
| in_wait: "\<lbrakk>lf_pc s t = Stop_waiting; lf_mutex s = None; \<not> lf_join_in_progress s\<rbrakk> \<Longrightarrow> inner_step s (stop_leave t s)"
| in_join: "lf_pc s t = Stop_joining w \<Longrightarrow> lf_worker s w = W_done \<Longrightarrow> inner_step s (stop_joined t w s)"
| in_finish: "lf_pc s t = Stop_joined \<Longrightarrow> lf_mutex s = None \<Longrightarrow> inner_step s (stop_finish t s)"
| w_iterate: "lf_worker s w = W_top \<Longrightarrow> lf_running s \<Longrightarrow> inner_step s (worker_at w W_poll s)"
| w_return: "lf_worker s w = W_top \<Longrightarrow> \<not> lf_running s \<Longrightarrow> inner_step s (worker_at w W_done s)"
| w_load: "lf_worker s w = W_poll \<Longrightarrow> lf_pc s w = Outside \<Longrightarrow> inner_step s (worker_at w (W_loaded (lf_running s)) s)"
| w_publish: "lf_worker s w = W_loaded b \<Longrightarrow> inner_step s (worker_at w W_published (s\<lparr>lf_published := b\<rparr>))"
| w_late: "lf_worker s w = W_published \<Longrightarrow> inner_step s (worker_at w W_top s)"
| w_lock: "lf_worker s w \<in> {W_published, W_woken} \<Longrightarrow> lf_wake_mutex s = None
    \<Longrightarrow> inner_step s (worker_at w W_locked (s\<lparr>lf_wake_mutex := Some w\<rparr>))"
| w_stopped: "lf_worker s w = W_locked \<Longrightarrow> \<not> lf_running s \<Longrightarrow> inner_step s (worker_at w W_top (s\<lparr>lf_wake_mutex := None\<rparr>))"
| w_sleep: "lf_worker s w = W_locked \<Longrightarrow> lf_running s \<Longrightarrow> inner_step s (worker_at w W_asleep (s\<lparr>lf_wake_mutex := None\<rparr>))"

text \<open>
  The end of the poll interval, and spurious wake-ups. After a timeout the worker leaves
  \<^verbatim>\<open>wait_until\<close> whatever the predicate says.
\<close>

inductive time_step :: "lifecycle \<Rightarrow> lifecycle \<Rightarrow> bool" where
  t_wake: "lf_worker s w = W_asleep \<Longrightarrow> time_step s (worker_at w W_woken s)"
| t_timeout: "lf_worker s w = W_woken \<Longrightarrow> lf_wake_mutex s = None \<Longrightarrow> time_step s (worker_at w W_top s)"

inductive_cases call_stepE: "call_step s s'"
inductive_cases inner_stepE: "inner_step s s'"
inductive_cases time_stepE: "time_step s s'"

definition lifecycle_step :: "lifecycle \<Rightarrow> lifecycle \<Rightarrow> bool" where
  "lifecycle_step s s' \<longleftrightarrow> call_step s s' \<or> inner_step s s' \<or> time_step s s'"

abbreviation lifecycle_reachable :: "lifecycle \<Rightarrow> bool" where
  "lifecycle_reachable \<equiv> reachable (\<lambda>s. s = lifecycle_init) lifecycle_step"

section \<open>Invariant\<close>

fun in_stop :: "call_pc \<Rightarrow> bool" where
  "in_stop Outside = False"
| "in_stop Start_publishing = False"
| "in_stop _ = True"

fun joins :: "call_pc \<Rightarrow> bool" where
  "joins (Stop_joining _) = True"
| "joins Stop_joined = True"
| "joins _ = False"

fun holds_mutex :: "call_pc \<Rightarrow> bool" where
  "holds_mutex Start_publishing = True"
| "holds_mutex Stop_entered = True"
| "holds_mutex Stop_stored = True"
| "holds_mutex Stop_notified = True"
| "holds_mutex _ = False"

text \<open>Where the thread is that holds \<^verbatim>\<open>thread_mutex_\<close>.\<close>

definition holder_pc :: "lifecycle \<Rightarrow> call_pc" where
  "holder_pc s = (case lf_mutex s of None \<Rightarrow> Outside | Some t \<Rightarrow> lf_pc s t)"

text \<open>At most one thread has a property, and it is the one named.\<close>

definition owner :: "('a \<Rightarrow> bool) \<Rightarrow> (int \<Rightarrow> 'a) \<Rightarrow> int option \<Rightarrow> bool" where
  "owner P f j \<longleftrightarrow> (\<forall>u. P (f u) \<longleftrightarrow> j = Some u)"

definition stop_count :: "lifecycle \<Rightarrow> bool" where
  "stop_count s \<longleftrightarrow> (\<forall>t. lf_pc s t \<noteq> Outside \<longrightarrow> 0 < t \<and> t \<le> INT_MAX) \<and>
     unat (lf_stop_callers s) = card {t. in_stop (lf_pc s t)}"

text \<open>Counting and mutual exclusion of the calls; \<open>j\<close> is the joiner.\<close>

definition calls_inv :: "int option \<Rightarrow> lifecycle \<Rightarrow> bool" where
  "calls_inv j s \<longleftrightarrow> stop_count s \<and> owner holds_mutex (lf_pc s) (lf_mutex s) \<and> owner joins (lf_pc s) j \<and>
     (lf_join_in_progress s \<longleftrightarrow> j \<noteq> None)"

text \<open>The worker \<open>c\<close> belongs to the thread object or to the joiner, and knows itself.\<close>

definition worker_inv :: "int option \<Rightarrow> int option \<Rightarrow> lifecycle \<Rightarrow> bool" where
  "worker_inv j c s \<longleftrightarrow> owner (\<lambda>x. x \<noteq> No_worker) (lf_worker s) c \<and> owner (\<lambda>x. x = W_locked) (lf_worker s) (lf_wake_mutex s) \<and>
     (case c of
        None \<Rightarrow> lf_thread s = None \<and> (case j of None \<Rightarrow> True | Some t \<Rightarrow> lf_pc s t = Stop_joined)
      | Some w \<Rightarrow> lf_worker_id s = Some w \<and>
          (case j of None \<Rightarrow> lf_thread s = Some w | Some t \<Rightarrow> lf_thread s = None \<and> lf_pc s t = Stop_joining w \<and> t \<noteq> w) \<and>
          (lf_pc s w \<noteq> Outside \<longrightarrow> lf_worker s w = W_poll \<and> lf_pc s w \<in> {Stop_entered, Stop_stored, Stop_notified}))"

text \<open>What \<^verbatim>\<open>running_\<close>, the sleep and the published state say to each other.\<close>

definition run_ok :: "bool \<Rightarrow> bool \<Rightarrow> bool \<Rightarrow> call_pc \<Rightarrow> bool \<Rightarrow> worker_pc \<Rightarrow> bool" where
  "run_ok running joinable joining hpc published wpc \<longleftrightarrow>
     (let stopping = (joining \<or> hpc \<in> {Stop_stored, Stop_notified})
      in (running \<longrightarrow> joinable \<and> \<not> stopping \<and> wpc \<noteq> W_done \<and> wpc \<noteq> W_loaded False) \<and>
         (hpc = Start_publishing \<longrightarrow> running) \<and>
         (published \<longrightarrow> running \<or> stopping) \<and>
         (running \<longrightarrow> published \<or> hpc = Start_publishing) \<and>
         (wpc = W_loaded True \<longrightarrow> running \<or> stopping) \<and>
         (wpc = W_asleep \<longrightarrow> running \<or> hpc = Stop_stored))"

definition worker_pc_of :: "int option \<Rightarrow> lifecycle \<Rightarrow> worker_pc" where
  "worker_pc_of c s = (case c of None \<Rightarrow> No_worker | Some w \<Rightarrow> lf_worker s w)"

definition running_inv :: "int option \<Rightarrow> lifecycle \<Rightarrow> bool" where
  "running_inv c s \<longleftrightarrow> run_ok (lf_running s) (lf_thread s \<noteq> None) (lf_join_in_progress s) (holder_pc s) (lf_published s) (worker_pc_of c s)"

definition all_inv :: "int option \<Rightarrow> int option \<Rightarrow> lifecycle \<Rightarrow> bool" where
  "all_inv j c s \<longleftrightarrow> calls_inv j s \<and> worker_inv j c s \<and> running_inv c s"

definition lifecycle_inv :: "lifecycle \<Rightarrow> bool" where
  "lifecycle_inv s \<longleftrightarrow> (\<exists>j c. all_inv j c s)"

lemmas section_defs = start_spawn_def start_throw_def start_publish_def stop_enter_def stop_store_def stop_notify_def
  stop_leave_def stop_branch_def stop_joined_def stop_finish_def at_pc_def worker_at_def may_call_def

lemma init_lifecycle_inv: "lifecycle_inv lifecycle_init"
  by (auto simp: lifecycle_inv_def all_inv_def calls_inv_def worker_inv_def running_inv_def lifecycle_init_def stop_count_def
      run_ok_def worker_pc_of_def holder_pc_def owner_def intro!: exI [of _ None])

subsection \<open>Counting the callers of \<^verbatim>\<open>stop\<close>\<close>

lemma stop_count_finite: "stop_count s \<Longrightarrow> finite {t. lf_pc s t \<noteq> Outside} \<and> finite {t. in_stop (lf_pc s t)} \<and>
    card {t. in_stop (lf_pc s t)} \<le> 2147483647"
proof -
  assume "stop_count s"
  then have sub: "{t. lf_pc s t \<noteq> Outside} \<subseteq> {1..INT_MAX}" by (auto simp: stop_count_def int_one_le_iff_zero_less)
  moreover have "{t. in_stop (lf_pc s t)} \<subseteq> {t. lf_pc s t \<noteq> Outside}" by auto
  ultimately have "{t. in_stop (lf_pc s t)} \<subseteq> {1..INT_MAX}" by blast
  then show ?thesis using sub finite_subset [of _ "{1..INT_MAX}"] card_mono [of "{1..INT_MAX}" "{t. in_stop (lf_pc s t)}"]
    by simp
qed

lemma count_keep:
  assumes "stop_count s" "lf_pc s' = (lf_pc s)(t := c)" "lf_stop_callers s' = lf_stop_callers s"
    "in_stop c = in_stop (lf_pc s t)" "0 < t" "t \<le> INT_MAX"
  shows "stop_count s'"
proof -
  have "{u. in_stop (lf_pc s' u)} = {u. in_stop (lf_pc s u)}" using assms by auto
  then show ?thesis using assms by (auto simp: stop_count_def)
qed

lemma count_enter:
  assumes "stop_count s" "lf_pc s' = (lf_pc s)(t := c)" "lf_stop_callers s' = lf_stop_callers s + 1"
    "in_stop c" "\<not> in_stop (lf_pc s t)" "0 < t" "t \<le> INT_MAX"
  shows "stop_count s'"
proof -
  have "{u. in_stop (lf_pc s' u)} = insert t {u. in_stop (lf_pc s u)}" using assms by auto
  moreover have "unat (lf_stop_callers s + 1) = unat (lf_stop_callers s) + 1"
    using stop_count_finite [OF assms(1)] assms(1) by (subst unat_plus_simple_le) (simp_all add: stop_count_def)
  ultimately show ?thesis using assms stop_count_finite [OF assms(1)] by (auto simp: stop_count_def)
qed

lemma count_leave:
  assumes "stop_count s" "lf_pc s' = (lf_pc s)(t := Outside)" "lf_stop_callers s' = lf_stop_callers s - 1" "in_stop (lf_pc s t)"
  shows "stop_count s'"
proof -
  have e: "{u. in_stop (lf_pc s' u)} = {u. in_stop (lf_pc s u)} - {t}" using assms by auto
  have f: "finite {u. in_stop (lf_pc s u)}" using stop_count_finite [OF assms(1)] by simp
  then have "card {u. in_stop (lf_pc s u)} \<noteq> 0" using assms(4) by auto
  then have "lf_stop_callers s \<noteq> 0" using assms(1) by (auto simp: stop_count_def)
  then have "unat (lf_stop_callers s - 1) = unat (lf_stop_callers s) - 1" by (rule unat_minus_one)
  then show ?thesis using assms e f by (auto simp: stop_count_def)
qed

subsection \<open>Preservation\<close>

lemma owner_update:
  assumes "owner P f j" "P c \<Longrightarrow> j \<in> {None, Some t}" "j' = (if P c then Some t else if P (f t) then None else j)"
  shows "owner P (f(t := c)) j'"
  using assms by (auto simp: owner_def)

lemma count_move:
  assumes "stop_count s" "lf_pc s' = (lf_pc s)(t := c)" "0 < t" "t \<le> INT_MAX"
    "lf_stop_callers s' = lf_stop_callers s + of_bool (in_stop c) - of_bool (in_stop (lf_pc s t))"
  shows "stop_count s'"
proof (cases "in_stop c = in_stop (lf_pc s t)")
  case True
  show ?thesis by (rule count_keep [OF assms(1,2)]) (use True assms in simp_all)
next
  case False
  consider "in_stop c" "\<not> in_stop (lf_pc s t)" | "\<not> in_stop c" "in_stop (lf_pc s t)" using False by auto
  then show ?thesis
  proof cases
    case 1
    show ?thesis by (rule count_enter [OF assms(1,2)]) (use 1 assms in simp_all)
  next
    case 2
    have "stop_count (s'\<lparr>lf_pc := (lf_pc s)(t := Outside)\<rparr>)"
      by (rule count_leave [OF assms(1), of _ t]) (use 2 assms in simp_all)
    then show ?thesis by (rule count_keep [of _ _ t c]) (use 2 assms in simp_all)
  qed
qed

lemma calls_move:
  assumes "calls_inv j s" "lf_pc s' = (lf_pc s)(t := c)" "0 < t" "t \<le> INT_MAX"
    "lf_stop_callers s' = lf_stop_callers s + of_bool (in_stop c) - of_bool (in_stop (lf_pc s t))"
    "holds_mutex c \<Longrightarrow> lf_mutex s \<in> {None, Some t}"
    "lf_mutex s' = (if holds_mutex c then Some t else if holds_mutex (lf_pc s t) then None else lf_mutex s)"
    "joins c \<Longrightarrow> j \<in> {None, Some t}" "j' = (if joins c then Some t else if joins (lf_pc s t) then None else j)"
    "lf_join_in_progress s' \<longleftrightarrow> j' \<noteq> None"
  shows "calls_inv j' s'"
  unfolding calls_inv_def
proof (intro conjI)
  show "stop_count s'" using assms(1) by (intro count_move [OF _ assms(2-5)]) (simp add: calls_inv_def)
  show "owner holds_mutex (lf_pc s') (lf_mutex s')" unfolding assms(2)
    using assms(1,6,7) by (intro owner_update [where j = "lf_mutex s"]) (simp_all add: calls_inv_def)
  show "owner joins (lf_pc s') j'" unfolding assms(2)
    using assms(1,8,9) by (intro owner_update [where j = j]) (simp_all add: calls_inv_def)
  show "lf_join_in_progress s' = (j' \<noteq> None)" by (rule assms(10))
qed

lemma calls_bounds: "calls_inv j s \<Longrightarrow> lf_pc s t \<noteq> Outside \<Longrightarrow> 0 < t \<and> t \<le> INT_MAX"
  by (simp add: calls_inv_def stop_count_def)

lemma calls_holder: "calls_inv j s \<Longrightarrow> holds_mutex (lf_pc s t) \<longleftrightarrow> lf_mutex s = Some t"
  by (simp add: calls_inv_def owner_def)

lemma calls_joiner: "calls_inv j s \<Longrightarrow> joins (lf_pc s t) \<longleftrightarrow> j = Some t"
  by (simp add: calls_inv_def owner_def)

lemma calls_joining: "calls_inv j s \<Longrightarrow> lf_join_in_progress s \<longleftrightarrow> j \<noteq> None"
  by (simp add: calls_inv_def)

lemma calls_other: "calls_inv j s \<Longrightarrow> lf_pc s' = lf_pc s \<Longrightarrow> lf_stop_callers s' = lf_stop_callers s \<Longrightarrow>
    lf_mutex s' = lf_mutex s \<Longrightarrow> lf_join_in_progress s' = lf_join_in_progress s \<Longrightarrow> calls_inv j s'"
  by (simp add: calls_inv_def stop_count_def)

text \<open>A step that takes one call from one point to another.\<close>

lemma inv_move:
  assumes "all_inv j c s"
    and "(lf_pc s t \<noteq> Outside \<longrightarrow> 0 < t \<and> t \<le> INT_MAX) \<Longrightarrow> (holds_mutex (lf_pc s t) \<longleftrightarrow> lf_mutex s = Some t) \<Longrightarrow>
      (joins (lf_pc s t) \<longleftrightarrow> j = Some t) \<Longrightarrow> (lf_join_in_progress s \<longleftrightarrow> j \<noteq> None) \<Longrightarrow> worker_inv j c s \<Longrightarrow> running_inv c s \<Longrightarrow>
      lf_pc s' = (lf_pc s)(t := d) \<and> 0 < t \<and> t \<le> INT_MAX \<and>
      lf_stop_callers s' = lf_stop_callers s + of_bool (in_stop d) - of_bool (in_stop (lf_pc s t)) \<and>
      (holds_mutex d \<longrightarrow> lf_mutex s \<in> {None, Some t}) \<and>
      lf_mutex s' = (if holds_mutex d then Some t else if holds_mutex (lf_pc s t) then None else lf_mutex s) \<and>
      (joins d \<longrightarrow> j \<in> {None, Some t}) \<and> j' = (if joins d then Some t else if joins (lf_pc s t) then None else j) \<and>
      (lf_join_in_progress s' \<longleftrightarrow> j' \<noteq> None) \<and> worker_inv j' c' s' \<and> running_inv c' s'"
  shows "all_inv j' c' s'"
proof -
  have i: "calls_inv j s" "worker_inv j c s" "running_inv c s" using assms(1) by (simp_all add: all_inv_def)
  have b: "lf_pc s t \<noteq> Outside \<longrightarrow> 0 < t \<and> t \<le> INT_MAX" using calls_bounds [OF i(1)] by blast
  note m = assms(2) [OF b calls_holder [OF i(1)] calls_joiner [OF i(1)] calls_joining [OF i(1)] i(2,3)]
  have "calls_inv j' s'"
    by (rule calls_move [OF i(1), where t = t and c = d, OF m [THEN conjunct1]]) (insert m, elim conjE, blast)+
  moreover have "worker_inv j' c' s'" "running_inv c' s'" using m by blast+
  ultimately show ?thesis by (simp only: all_inv_def simp_thms)
qed

lemmas inv_core = section_defs worker_inv_def running_inv_def holder_pc_def worker_pc_of_def run_ok_def start_refused_def
lemmas inv_defs = inv_core owner_def

lemma owner_wake:
  assumes "owner P f j" "P W_asleep = P W_woken"
  shows "owner P (\<lambda>w. if f w = W_asleep then W_woken else f w) j"
proof -
  have "P (if f w = W_asleep then W_woken else f w) = P (f w)" for w using assms(2) by simp
  then show ?thesis using assms(1) unfolding owner_def by simp
qed

lemma store_inv:
  assumes "all_inv j c s" "lf_pc s t = Stop_entered"
  shows "all_inv j c (stop_store t s)"
  by (rule inv_move [OF assms(1), where t = t and d = Stop_stored])
     (use assms(2-) in \<open>cases j; cases c; auto simp: inv_defs\<close>)

lemma notify_inv:
  assumes "all_inv j c s" "lf_pc s t = Stop_stored"
  shows "all_inv j c (stop_notify t s)"
  by (rule inv_move [OF assms(1), where t = t and d = Stop_notified])
     (use assms(2-) in \<open>cases j; cases c; auto simp: inv_core owner_wake\<close>)

lemma publish_inv:
  assumes "all_inv j c s" "lf_pc s t = Start_publishing"
  shows "all_inv j c (start_publish t s)"
  by (rule inv_move [OF assms(1), where t = t and d = Outside])
     (use assms(2-) in \<open>cases j; cases c; auto simp: inv_defs\<close>)

lemma enter_inv:
  assumes "all_inv j c s" "may_call t s"
  shows "all_inv j c (stop_enter t s)"
  by (rule inv_move [OF assms(1), where t = t and d = Stop_entered])
     (use assms(2-) in \<open>cases j; cases c; auto simp: inv_defs\<close>)

lemma leave_waiting_inv:
  assumes "all_inv j c s" "lf_pc s t = Stop_waiting" "lf_mutex s = None"
  shows "all_inv j c (stop_leave t s)"
  by (rule inv_move [OF assms(1), where t = t and d = Outside])
     (use assms(2-) in \<open>cases j; cases c; auto simp: inv_defs\<close>)

lemma leave_joining_inv:
  assumes "all_inv j c s" "lf_pc s t = Stop_notified" "lf_join_in_progress s"
  shows "all_inv j c (stop_leave t s)"
  by (rule inv_move [OF assms(1), where t = t and d = Outside])
     (use assms(2-) in \<open>cases j; cases c; auto simp: inv_defs\<close>)

lemma branch_wait_inv:
  assumes "all_inv j c s" "lf_pc s t = Stop_notified" "lf_join_in_progress s" "lf_worker_id s \<noteq> Some t"
  shows "all_inv j c (at_pc t Stop_waiting (s\<lparr>lf_mutex := None\<rparr>))"
  by (rule inv_move [OF assms(1), where t = t and d = Stop_waiting])
     (use assms(2-) in \<open>cases j; cases c; auto simp: inv_defs\<close>)

lemma branch_idle_inv:
  assumes "all_inv j c s" "lf_pc s t = Stop_notified" "\<not> lf_join_in_progress s" "lf_thread s = None"
  shows "all_inv j c (stop_leave t (s\<lparr>lf_worker_id := None, lf_published := False\<rparr>))"
  by (rule inv_move [OF assms(1), where t = t and d = Outside])
     (use assms(2-) in \<open>cases j; cases c; auto simp: inv_defs\<close>)

lemma branch_worker_inv:
  assumes "all_inv j c s" "lf_pc s t = Stop_notified" "\<not> lf_join_in_progress s" "lf_worker_id s = Some t" "lf_thread s = Some w"
  shows "all_inv j c (stop_leave t (s\<lparr>lf_published := False\<rparr>))"
  by (rule inv_move [OF assms(1), where t = t and d = Outside])
     (use assms(2-) in \<open>cases j; cases c; auto simp: inv_defs\<close>)

lemma branch_join_inv:
  assumes "all_inv j c s" "lf_pc s t = Stop_notified" "\<not> lf_join_in_progress s"
    "lf_worker_id s \<noteq> Some t" "lf_thread s = Some w"
  shows "all_inv (Some t) c (at_pc t (Stop_joining w) (s\<lparr>lf_join_in_progress := True, lf_thread := None, lf_mutex := None\<rparr>))"
  by (rule inv_move [OF assms(1), where t = t and d = "Stop_joining w"])
     (use assms(2-) in \<open>cases j; cases c; auto simp: inv_defs\<close>)

lemma joined_inv:
  assumes "all_inv j c s" "lf_pc s t = Stop_joining w" "lf_worker s w = W_done"
  shows "all_inv j None (stop_joined t w s)"
proof -
  have "owner (\<lambda>x. x = W_locked) (lf_worker s) (lf_wake_mutex s)" using assms(1) by (simp add: all_inv_def worker_inv_def)
  then have "lf_wake_mutex s \<noteq> Some w" using assms(3) unfolding owner_def by force
  then show ?thesis
    by (intro inv_move [OF assms(1), where t = t and d = Stop_joined])
       (use assms(2-) in \<open>cases j; cases c; auto simp: inv_defs split: option.splits\<close>)
qed

lemma finish_inv:
  assumes "all_inv j c s" "lf_pc s t = Stop_joined" "lf_mutex s = None"
  shows "all_inv None c (stop_finish t s)"
  by (rule inv_move [OF assms(1), where t = t and d = Outside])
     (use assms(2-) in \<open>cases j; cases c; auto simp: inv_defs\<close>)

lemma spawn_inv:
  assumes "all_inv j c s" "may_call t s" "\<not> start_refused s" "w \<noteq> t" "lf_worker s w = No_worker" "lf_pc s w = Outside"
  shows "all_inv j (Some w) (start_spawn t w s)"
  by (rule inv_move [OF assms(1), where t = t and d = Start_publishing])
     (use assms(2-) in \<open>cases j; cases c; auto simp: inv_defs\<close>)

lemma throw_inv:
  assumes "all_inv j c s" "\<not> start_refused s"
  shows "all_inv j c (start_throw s)"
proof -
  have i: "calls_inv j s" "worker_inv j c s" "running_inv c s" using assms(1) by (simp_all add: all_inv_def)
  have "calls_inv j (start_throw s)" using i(1) by (rule calls_other) (simp_all add: start_throw_def)
  moreover have "c = None" using i(1,2) assms(2) by (cases c; cases j) (simp_all add: worker_inv_def calls_inv_def start_refused_def)
  moreover have "holder_pc (start_throw s) = holder_pc s" by (simp add: holder_pc_def start_throw_def split: option.split)
  ultimately show ?thesis using i assms(2)
    by (cases j) (auto simp: all_inv_def worker_inv_def running_inv_def run_ok_def worker_pc_of_def start_throw_def start_refused_def)
qed

lemma branch_inv:
  assumes "all_inv j c s" "lf_pc s t = Stop_notified"
  shows "\<exists>j. all_inv j c (stop_branch t s)"
proof (cases "lf_join_in_progress s")
  case True
  then show ?thesis using leave_joining_inv [OF assms] branch_wait_inv [OF assms]
    by (auto simp: stop_branch_def Let_def)
next
  case False
  then show ?thesis using branch_idle_inv [OF assms] branch_worker_inv [OF assms] branch_join_inv [OF assms]
    by (cases "lf_thread s") (auto simp: stop_branch_def Let_def)
qed

text \<open>A step of the worker.\<close>

lemma worker_move:
  assumes "all_inv j c s" "lf_worker s w \<noteq> No_worker" "lf_pc s w = Outside" "lf_worker s' = (lf_worker s)(w := x)" "x \<noteq> No_worker"
    "lf_wake_mutex s' = (if x = W_locked then Some w else if lf_worker s w = W_locked then None else lf_wake_mutex s)"
    "x = W_locked \<Longrightarrow> lf_wake_mutex s = None" "lf_pc s' = lf_pc s" "lf_stop_callers s' = lf_stop_callers s"
    "lf_mutex s' = lf_mutex s" "lf_join_in_progress s' = lf_join_in_progress s" "lf_thread s' = lf_thread s"
    "lf_worker_id s' = lf_worker_id s"
    "run_ok (lf_running s) (lf_thread s \<noteq> None) (lf_join_in_progress s) (holder_pc s) (lf_published s) (lf_worker s w) \<Longrightarrow>
      run_ok (lf_running s') (lf_thread s \<noteq> None) (lf_join_in_progress s) (holder_pc s) (lf_published s') x"
  shows "all_inv j c s'"
proof -
  have i: "calls_inv j s" "worker_inv j c s" "running_inv c s" using assms(1) by (simp_all add: all_inv_def)
  have c: "c = Some w" using i(2) assms(2) by (simp add: worker_inv_def owner_def)
  have o: "owner (\<lambda>x. x \<noteq> No_worker) (lf_worker s') (Some w)" "owner (\<lambda>x. x = W_locked) (lf_worker s') (lf_wake_mutex s')"
    unfolding assms(4) using i(2) assms(5-7) by (auto simp: worker_inv_def c intro!: owner_update simp del: fun_upd_apply)
  have "calls_inv j s'" using i(1) assms(8-11) by (rule calls_other)
  moreover have "worker_inv j c s'" using i(2) o assms(3,8,10-13) by (cases j) (simp_all add: worker_inv_def c)
  moreover have "holder_pc s' = holder_pc s" using assms(8,10) by (simp add: holder_pc_def split: option.split)
  then have "running_inv c s'" using i(3) assms(4,11,12,14) by (simp add: running_inv_def worker_pc_of_def c)
  ultimately show ?thesis by (simp add: all_inv_def)
qed

lemma worker_outside: "all_inv j c s \<Longrightarrow> lf_worker s w \<notin> {No_worker, W_poll} \<Longrightarrow> lf_pc s w = Outside"
  by (cases c) (auto simp: all_inv_def worker_inv_def owner_def)

lemma the_worker: "all_inv j c s \<Longrightarrow> lf_worker s w \<noteq> No_worker \<longleftrightarrow> c = Some w"
  by (simp add: all_inv_def worker_inv_def owner_def)

lemma wake_holder: "all_inv j c s \<Longrightarrow> lf_worker s w = W_locked \<longleftrightarrow> lf_wake_mutex s = Some w"
  by (simp add: all_inv_def worker_inv_def owner_def)

lemma worker_steps_inv:
  assumes "all_inv j c s"
  shows "lf_worker s w = W_top \<Longrightarrow> lf_running s \<Longrightarrow> all_inv j c (worker_at w W_poll s)"
    "lf_worker s w = W_top \<Longrightarrow> \<not> lf_running s \<Longrightarrow> all_inv j c (worker_at w W_done s)"
    "lf_worker s w = W_poll \<Longrightarrow> lf_pc s w = Outside \<Longrightarrow> all_inv j c (worker_at w (W_loaded (lf_running s)) s)"
    "lf_worker s w = W_loaded b \<Longrightarrow> all_inv j c (worker_at w W_published (s\<lparr>lf_published := b\<rparr>))"
    "lf_worker s w = W_published \<Longrightarrow> all_inv j c (worker_at w W_top s)"
    "lf_worker s w \<in> {W_published, W_woken} \<Longrightarrow> lf_wake_mutex s = None \<Longrightarrow>
       all_inv j c (worker_at w W_locked (s\<lparr>lf_wake_mutex := Some w\<rparr>))"
    "lf_worker s w = W_locked \<Longrightarrow> \<not> lf_running s \<Longrightarrow> all_inv j c (worker_at w W_top (s\<lparr>lf_wake_mutex := None\<rparr>))"
    "lf_worker s w = W_locked \<Longrightarrow> lf_running s \<Longrightarrow> all_inv j c (worker_at w W_asleep (s\<lparr>lf_wake_mutex := None\<rparr>))"
    "lf_worker s w = W_asleep \<Longrightarrow> all_inv j c (worker_at w W_woken s)"
    "lf_worker s w = W_woken \<Longrightarrow> all_inv j c (worker_at w W_top s)"
  by (rule worker_move [OF assms, of w], use worker_outside [OF assms, of w] in \<open>auto simp: worker_at_def run_ok_def Let_def\<close>)+

lemma step_lifecycle_inv:
  assumes "lifecycle_inv s" "lifecycle_step s s'"
  shows "lifecycle_inv s'"
proof -
  obtain j c where i: "all_inv j c s" using assms(1) by (auto simp: lifecycle_inv_def)
  have "\<exists>j c. all_inv j c s'" if "call_step s s'" using that i
    by (elim call_stepE) (blast intro: spawn_inv throw_inv enter_inv)+
  moreover have "\<exists>j c. all_inv j c s'" if "inner_step s s'" using that
  proof (elim inner_stepE)
    fix t assume "lf_pc s t = Stop_notified" "s' = stop_branch t s"
    then show ?thesis using branch_inv [OF i] by blast
  qed (use i in \<open>blast intro: publish_inv store_inv notify_inv leave_waiting_inv joined_inv finish_inv worker_steps_inv\<close>)+
  moreover have "\<exists>j c. all_inv j c s'" if "time_step s s'" using that i
    by (elim time_stepE) (blast intro: worker_steps_inv)+
  ultimately show ?thesis using assms(2) by (auto simp: lifecycle_inv_def lifecycle_step_def)
qed

interpretation lifecycle: inductive_invariant "\<lambda>s. s = lifecycle_init" lifecycle_step lifecycle_inv
  by unfold_locales (simp_all add: init_lifecycle_inv step_lifecycle_inv)

section \<open>Progress\<close>

text \<open>Work left in the calls and in the worker once \<^verbatim>\<open>running_\<close> is false.\<close>

fun call_rank :: "call_pc \<Rightarrow> nat" where
  "call_rank Outside = 0"
| "call_rank Start_publishing = 1"
| "call_rank Stop_entered = 6"
| "call_rank Stop_stored = 5"
| "call_rank Stop_notified = 4"
| "call_rank (Stop_joining _) = 3"
| "call_rank Stop_joined = 2"
| "call_rank Stop_waiting = 1"

fun worker_rank :: "worker_pc \<Rightarrow> nat" where
  "worker_rank No_worker = 0"
| "worker_rank W_done = 0"
| "worker_rank W_top = 1"
| "worker_rank W_locked = 2"
| "worker_rank W_woken = 3"
| "worker_rank W_asleep = 4"
| "worker_rank W_published = 4"
| "worker_rank (W_loaded _) = 5"
| "worker_rank W_poll = 6"

definition pending :: "lifecycle \<Rightarrow> nat" where
  "pending s = (\<Sum>t | lf_pc s t \<noteq> Outside. call_rank (lf_pc s t)) + (\<Sum>w | lf_worker s w \<noteq> No_worker. worker_rank (lf_worker s w))"

lemma rank_sum_update:
  fixes f :: "int \<Rightarrow> 'a" and g :: "'a \<Rightarrow> nat"
  assumes "finite {t. f t \<noteq> z}" "g z = 0"
  shows "(\<Sum>u | (f(t := d)) u \<noteq> z. g ((f(t := d)) u)) + g (f t) = (\<Sum>u | f u \<noteq> z. g (f u)) + g d"
proof -
  let ?A = "insert t {t. f t \<noteq> z}"
  have "(\<Sum>u | (f(t := d)) u \<noteq> z. g ((f(t := d)) u)) = (\<Sum>u\<in>?A. g ((f(t := d)) u))"
    using assms by (intro sum.mono_neutral_left) auto
  also have "\<dots> = g d + (\<Sum>u\<in>?A - {t}. g (f u))"
    using assms by (subst sum.remove [of _ t]) (auto intro: sum.cong)
  also have "\<dots> + g (f t) = (\<Sum>u\<in>?A. g (f u)) + g d"
    using assms by (subst (2) sum.remove [of _ t]) auto
  also have "(\<Sum>u\<in>?A. g (f u)) = (\<Sum>u | f u \<noteq> z. g (f u))"
    using assms by (intro sum.mono_neutral_right) auto
  finally show ?thesis .
qed

lemma inv_finite: "all_inv j c s \<Longrightarrow> finite {t. lf_pc s t \<noteq> Outside} \<and> finite {w. lf_worker s w \<noteq> No_worker}"
proof -
  assume i: "all_inv j c s"
  then have "{w. lf_worker s w \<noteq> No_worker} \<subseteq> (case c of None \<Rightarrow> {} | Some w \<Rightarrow> {w})"
    by (cases c) (auto simp: all_inv_def worker_inv_def owner_def)
  then show ?thesis using i stop_count_finite [of s] finite_subset
    by (cases c) (auto simp: all_inv_def calls_inv_def)
qed

lemma pending_call:
  assumes "all_inv j c s" "lf_pc s' = (lf_pc s)(t := d)" "call_rank d < call_rank (lf_pc s t)"
    "(\<Sum>w | lf_worker s' w \<noteq> No_worker. worker_rank (lf_worker s' w)) \<le> (\<Sum>w | lf_worker s w \<noteq> No_worker. worker_rank (lf_worker s w))"
  shows "pending s' < pending s"
  using rank_sum_update [of "lf_pc s" Outside call_rank t d] inv_finite [OF assms(1)] assms(2-) by (simp add: pending_def)

lemma pending_worker:
  assumes "all_inv j c s" "worker_rank d < worker_rank (lf_worker s w)" "lf_pc s0 = lf_pc s" "lf_worker s0 = lf_worker s"
  shows "pending (worker_at w d s0) < pending s"
  using rank_sum_update [of "lf_worker s" No_worker worker_rank w d] inv_finite [OF assms(1)] assms(2-)
  by (simp add: pending_def worker_at_def)

lemma pending_notify:
  assumes "all_inv j c s" "lf_pc s t = Stop_stored"
  shows "pending (stop_notify t s) < pending s"
proof (rule pending_call [OF assms(1), of _ t Stop_notified])
  have "{w. lf_worker (stop_notify t s) w \<noteq> No_worker} = {w. lf_worker s w \<noteq> No_worker}" by (auto simp: stop_notify_def at_pc_def)
  moreover have "worker_rank (lf_worker (stop_notify t s) w) \<le> worker_rank (lf_worker s w)" for w
    by (simp add: stop_notify_def at_pc_def)
  ultimately show "(\<Sum>w | lf_worker (stop_notify t s) w \<noteq> No_worker. worker_rank (lf_worker (stop_notify t s) w)) \<le>
      (\<Sum>w | lf_worker s w \<noteq> No_worker. worker_rank (lf_worker s w))" by (auto intro: sum_mono)
qed (use assms in \<open>simp_all add: stop_notify_def at_pc_def\<close>)

lemma pending_joined:
  assumes "all_inv j c s" "lf_pc s t = Stop_joining w" "lf_worker s w = W_done"
  shows "pending (stop_joined t w s) < pending s"
  by (rule pending_call [OF assms(1), of _ t Stop_joined])
     (use assms inv_finite [OF assms(1)] rank_sum_update [of "lf_worker s" No_worker worker_rank w No_worker] in
      \<open>simp_all add: stop_joined_def at_pc_def worker_at_def\<close>)

lemma pending_branch:
  assumes "all_inv j c s" "lf_pc s t = Stop_notified"
  shows "pending (stop_branch t s) < pending s"
proof -
  have "\<exists>d. lf_pc (stop_branch t s) = (lf_pc s)(t := d) \<and> call_rank d < 4" "lf_worker (stop_branch t s) = lf_worker s"
    by (auto simp: stop_branch_def Let_def stop_leave_def at_pc_def split: option.split intro!: exI)
  then show ?thesis using pending_call [OF assms(1), of "stop_branch t s" t] assms(2) by auto
qed

lemma pending_decreases:
  assumes "all_inv j c s" "\<not> lf_running s" "inner_step s s' \<or> time_step s s'"
  shows "pending s' < pending s"
proof -
  note call = pending_call [OF assms(1)] and worker = pending_worker [OF assms(1)]
  have "pending s' < pending s" if "inner_step s s'"
    using that
  proof (elim inner_stepE)
    fix t assume "lf_pc s t = Start_publishing" "s' = start_publish t s"
    then show ?thesis by (intro call [of _ t Outside]) (simp_all add: section_defs)
  next
    fix t assume "lf_pc s t = Stop_entered" "s' = stop_store t s"
    then show ?thesis by (intro call [of _ t Stop_stored]) (simp_all add: section_defs)
  next
    fix t assume "lf_pc s t = Stop_waiting" "s' = stop_leave t s"
    then show ?thesis by (intro call [of _ t Outside]) (simp_all add: section_defs)
  next
    fix t assume "lf_pc s t = Stop_joined" "s' = stop_finish t s"
    then show ?thesis by (intro call [of _ t Outside]) (simp_all add: section_defs)
  qed (use assms(1,2) pending_notify pending_branch pending_joined in \<open>auto intro!: worker\<close>)
  moreover have "pending s' < pending s" if "time_step s s'"
    using that by (elim time_stepE) (auto intro!: worker)
  ultimately show ?thesis using assms(3) by blast
qed

lemma running_stays_off: "inner_step s s' \<or> time_step s s' \<Longrightarrow> \<not> lf_running s \<Longrightarrow> \<not> lf_running s'"
  by (elim disjE inner_stepE time_stepE) (auto simp: section_defs Let_def split: option.split)

text \<open>Once \<^verbatim>\<open>running_\<close> is false, a worker that has not returned can go on, or the call it waits for can.\<close>

lemma worker_progress:
  assumes "all_inv j c s" "\<not> lf_running s" "lf_worker s w \<notin> {No_worker, W_done}"
  shows "\<exists>s'. inner_step s s'"
proof -
  have c: "c = Some w" using the_worker [OF assms(1), of w] assms(3) by simp
  have wake: "lf_wake_mutex s = None" if "lf_worker s w \<noteq> W_locked"
  proof (rule ccontr)
    assume "lf_wake_mutex s \<noteq> None"
    then obtain v where "lf_worker s v = W_locked" using wake_holder [OF assms(1)] by blast
    moreover from this have "v = w" using the_worker [OF assms(1), of v] c by simp
    ultimately show False using that by simp
  qed
  have poll: "lf_pc s w \<in> {Outside, Stop_entered, Stop_stored, Stop_notified}"
    using assms(1) c by (auto simp: all_inv_def worker_inv_def)
  have sleep: "\<exists>t. lf_pc s t = Stop_stored" if "lf_worker s w = W_asleep"
    using that assms(1,2) c
    by (auto simp: all_inv_def running_inv_def worker_pc_of_def run_ok_def holder_pc_def split: option.splits)
  show ?thesis
  proof (cases "lf_worker s w")
    case W_poll
    then have "lf_wake_mutex s = None" using wake by simp
    with W_poll show ?thesis using poll in_store [of s w] in_notify [of s w] in_branch [of s w] w_load [of s w] by auto
  next
    case W_asleep
    then show ?thesis using sleep in_notify by blast
  next
    case W_woken
    then show ?thesis using wake w_lock by auto
  qed (use assms(2,3) w_return [of s w] w_publish [of s w] w_late [of s w] w_stopped [of s w] in auto)
qed

lemma stop_progress:
  assumes "all_inv j c s" "\<not> lf_running s" "\<nexists>s'. inner_step s s'"
  shows "(\<forall>t. lf_pc s t = Outside) \<and> (\<forall>w. lf_worker s w \<in> {No_worker, W_done})"
proof -
  have w: "lf_worker s w \<in> {No_worker, W_done}" for w using worker_progress [OF assms(1,2)] assms(3) by blast
  then have wake: "lf_wake_mutex s = None"
    using wake_holder [OF assms(1)] by (metis insertE not_Some_eq singletonD worker_pc.distinct)
  have held: "\<not> holds_mutex (lf_pc s t)" for t
    using assms(3) wake inner_step.intros by (cases "lf_pc s t") (simp_all, blast+)
  then have mutex: "lf_mutex s = None" using calls_holder [of j s] assms(1) by (cases "lf_mutex s") (auto simp: all_inv_def)
  have joiner: "\<not> joins (lf_pc s t)" for t
  proof (cases "lf_pc s t")
    case (Stop_joining v)
    then have "lf_worker s v \<noteq> No_worker" using assms(1) calls_joiner [of j s t]
      by (cases c) (auto simp: all_inv_def worker_inv_def owner_def)
    then show ?thesis using w [of v] Stop_joining assms(3) in_join by blast
  qed (use assms(3) mutex in_finish in auto)
  then have "\<not> lf_join_in_progress s" using calls_joiner [of j s] calls_joining [of j s] assms(1) by (auto simp: all_inv_def)
  then have "lf_pc s t = Outside" for t
    using held [of t] joiner [of t] in_wait [of s t] mutex assms(3) by (cases "lf_pc s t") auto
  then show ?thesis using w by blast
qed

section \<open>Properties\<close>

lemma reachable_all_inv: "lifecycle_reachable s \<Longrightarrow> \<exists>j c. all_inv j c s"
  using lifecycle.reachable_inv by (auto simp: lifecycle_inv_def)

text \<open>
  C38. However starts, stops and the worker interleave, there is at most one worker thread, the
  counter of stop callers is the number of threads inside \<^verbatim>\<open>stop\<close>, a running engine owns a worker
  that has not returned, and whenever no call holds the mutex and no join is under way, the
  published running state is the real one: an old stop never overwrites a newer start.
\<close>
theorem fusion_lifecycle_consistent:
  assumes "lifecycle_reachable s"
  shows "(\<forall>v w. lf_worker s v \<noteq> No_worker \<and> lf_worker s w \<noteq> No_worker \<longrightarrow> v = w) \<and>
    unat (lf_stop_callers s) = card {t. in_stop (lf_pc s t)} \<and>
    (lf_running s \<longrightarrow> (\<exists>w. lf_thread s = Some w \<and> lf_worker s w \<notin> {No_worker, W_done})) \<and>
    (lf_mutex s = None \<and> \<not> lf_join_in_progress s \<longrightarrow> lf_published s = lf_running s)"
proof -
  obtain j c where i: "all_inv j c s" using reachable_all_inv [OF assms] by blast
  then have run: "run_ok (lf_running s) (lf_thread s \<noteq> None) (lf_join_in_progress s) (holder_pc s) (lf_published s) (worker_pc_of c s)"
    unfolding all_inv_def running_inv_def by blast
  have count: "stop_count s" using i unfolding all_inv_def calls_inv_def by blast
  have "\<exists>w. lf_thread s = Some w \<and> lf_worker s w \<notin> {No_worker, W_done}" if "lf_running s"
  proof -
    have r: "lf_thread s \<noteq> None" "\<not> lf_join_in_progress s" "worker_pc_of c s \<noteq> W_done"
      using run that unfolding run_ok_def Let_def by blast+
    have "j = None" using i r(2) by (simp add: all_inv_def calls_inv_def)
    then obtain w where "lf_thread s = Some w" "c = Some w"
      using i r(1) by (cases c) (simp_all add: all_inv_def worker_inv_def)
    then show ?thesis using r(3) the_worker [OF i, of w] by (simp add: worker_pc_of_def)
  qed
  moreover have "lf_published s = lf_running s" if "lf_mutex s = None" "\<not> lf_join_in_progress s"
    using run that by (auto simp: run_ok_def holder_pc_def Let_def)
  moreover have "v = w" if "lf_worker s v \<noteq> No_worker" "lf_worker s w \<noteq> No_worker" for v w
    using that the_worker [OF i] by simp
  ultimately show ?thesis using count by (auto simp: stop_count_def)
qed

definition example_stop :: lifecycle where
  "example_stop = stop_store 1 (stop_enter 1 (start_publish 1 (start_spawn 1 7 lifecycle_init)))"

lemma example_stop_reachable: "lifecycle_reachable example_stop"
proof -
  let ?s1 = "start_spawn 1 7 lifecycle_init" and ?s2 = "start_publish 1 (start_spawn 1 7 lifecycle_init)"
  have 1: "lifecycle_step lifecycle_init ?s1" unfolding lifecycle_step_def
    by (intro disjI1 call_spawn) (simp_all add: may_call_def start_refused_def lifecycle_init_def)
  have 2: "lifecycle_step ?s1 ?s2" unfolding lifecycle_step_def
    by (intro disjI2 disjI1 in_publish) (simp add: section_defs)
  have 3: "lifecycle_step ?s2 (stop_enter 1 ?s2)" unfolding lifecycle_step_def
    by (intro disjI1 call_stop) (simp add: section_defs lifecycle_init_def)
  have 4: "lifecycle_step (stop_enter 1 ?s2) (stop_store 1 (stop_enter 1 ?s2))" unfolding lifecycle_step_def
    by (intro disjI2 disjI1 in_store) (simp_all add: section_defs lifecycle_init_def)
  have "lifecycle_reachable lifecycle_init" by (rule reachable_init) simp
  with 1 2 3 4 show ?thesis unfolding example_stop_def by (blast intro: reachable_step)
qed

theorem fusion_lifecycle_consistent_witness:
  "unat (lf_stop_callers example_stop) = card {t. in_stop (lf_pc example_stop t)} \<and> lf_stop_callers example_stop = 1 \<and> lf_published example_stop"
proof -
  have "unat (lf_stop_callers example_stop) = card {t. in_stop (lf_pc example_stop t)}"
    using fusion_lifecycle_consistent [OF example_stop_reachable] by blast
  moreover have "lf_stop_callers example_stop = 1" "lf_published example_stop"
    by (simp_all add: example_stop_def section_defs lifecycle_init_def)
  ultimately show ?thesis by blast
qed

text \<open>
  C39. Once \<^verbatim>\<open>running_\<close> is false, every step of a call or of the worker uses up a finite amount of
  work, and as long as a call has not returned or the worker has not, some step other than the end
  of a poll interval is possible: no wake-up is lost, no two stops wait for each other, and after
  finitely many steps every \<^verbatim>\<open>stop\<close> has returned and the published state says stopped.
\<close>
theorem fusion_stop_returns:
  assumes "lifecycle_reachable s" "\<not> lf_running s"
  shows "(\<forall>s'. inner_step s s' \<or> time_step s s' \<longrightarrow> pending s' < pending s \<and> \<not> lf_running s') \<and>
    ((\<exists>t. lf_pc s t \<noteq> Outside) \<or> (\<exists>w. lf_worker s w \<notin> {No_worker, W_done}) \<or> lf_published s \<longrightarrow> (\<exists>s'. inner_step s s'))"
proof -
  obtain j c where i: "all_inv j c s" using reachable_all_inv [OF assms(1)] by blast
  have "\<not> lf_published s" if "\<forall>t. lf_pc s t = Outside"
  proof -
    have "lf_mutex s = None" "j = None"
      using that calls_holder [of j s] calls_joiner [of j s] i
      by (cases "lf_mutex s"; auto simp: all_inv_def; cases j; auto)+
    then show ?thesis using i assms(2) by (auto simp: all_inv_def calls_inv_def running_inv_def run_ok_def holder_pc_def)
  qed
  then show ?thesis using stop_progress [OF i assms(2)] pending_decreases [OF i assms(2)] running_stays_off assms(2) by blast
qed

theorem fusion_stop_returns_witness:
  "pending (stop_notify 1 example_stop) < pending example_stop \<and> (\<exists>s'. inner_step example_stop s')"
proof -
  have pc: "lf_pc example_stop 1 = Stop_stored" "\<not> lf_running example_stop" by (simp_all add: example_stop_def section_defs)
  then have "inner_step example_stop (stop_notify 1 example_stop)" by (intro in_notify)
  moreover have "lf_pc example_stop 1 \<noteq> Outside" using pc by simp
  ultimately show ?thesis using fusion_stop_returns [OF example_stop_reachable pc(2)] by blast
qed

end
