(* ===== verification/ARX_Model.thy ===== *)
theory ARX_Model
  imports Config_File Telemetry_Helper_Facts
begin

text \<open>
  \<^verbatim>\<open>src/policy/arx_model.cpp\<close>: the forecast of the package temperature from recent samples, and the reader
  of its coefficient file. A position in the text is the rest of the text from there on. The texts of the errors
  are those the code hands to the log.
\<close>

section \<open>State\<close>

text \<open>The sample type is declared in \<^verbatim>\<open>mpc_controller.h\<close>; a time point is a number of nanoseconds.\<close>

record TelemetrySample =
  sa_ratio_milli :: dbl
  sa_trimmed_ratio_milli :: dbl
  sa_severity_milli :: dbl
  sa_temperature_millic :: dbl
  sa_temp_valid :: bool
  sa_width :: simd_width_t
  sa_timestamp :: int

record ARXModel =
  arx_bias :: dbl
  arx_temperature_coeffs :: "dbl list"
  arx_ratio_coeffs :: "dbl list"
  arx_severity_coeffs :: "dbl list"
  arx_trimmed_ratio_coeffs :: "dbl list"
  arx_ma_coefficient :: dbl
  arx_ma_enabled :: bool
  arx_last_residual :: dbl
  arx_residual_valid :: bool
  arx_coefficients_loaded :: bool
  arx_required_history :: nat
  arx_staleness_window_ms :: u64
  arx_width_temperature_millic_per_step :: dbl
  arx_width_performance_benefit_milli_per_step :: dbl

abbreviation kDefaultWidthTemperatureMillicPerStep :: dbl where
  "kDefaultWidthTemperatureMillicPerStep \<equiv> Fin 2000"
abbreviation kDefaultWidthPerformanceBenefitMilliPerStep :: dbl where
  "kDefaultWidthPerformanceBenefitMilliPerStep \<equiv> Fin 100"

definition arx_model_init :: ARXModel where
  "arx_model_init = \<lparr>arx_bias = Fin 0, arx_temperature_coeffs = [], arx_ratio_coeffs = [], arx_severity_coeffs = [],
     arx_trimmed_ratio_coeffs = [], arx_ma_coefficient = Fin 0, arx_ma_enabled = False, arx_last_residual = Fin 0,
     arx_residual_valid = False, arx_coefficients_loaded = False, arx_required_history = 1, arx_staleness_window_ms = 500,
     arx_width_temperature_millic_per_step = kDefaultWidthTemperatureMillicPerStep,
     arx_width_performance_benefit_milli_per_step = kDefaultWidthPerformanceBenefitMilliPerStep\<rparr>"

section \<open>Fields of the coefficient file\<close>

text \<open>\<^verbatim>\<open>std::string::find\<close>: what follows the first occurrence.\<close>

fun after_find :: "string \<Rightarrow> string \<Rightarrow> string option" where
  "after_find needle [] = (if needle = [] then Some [] else None)"
| "after_find needle (c # s) =
     (if take (length needle) (c # s) = needle then Some (drop (length needle) (c # s)) else after_find needle s)"

definition quoted :: "string \<Rightarrow> string" where
  "quoted key = [CHR 0x22] @ key @ [CHR 0x22]"

definition is_number_char :: "char \<Rightarrow> bool" where
  "is_number_char c = (c_isdigit c \<or> c \<in> {CHR ''-'', CHR ''+'', CHR ''.'', CHR ''e'', CHR ''E''})"

definition extractNumberToken :: "string \<Rightarrow> string option" where
  "extractNumberToken s = (let token = takeWhile is_number_char s in if token = [] then None else Some token)"

text \<open>
  The test on \<^verbatim>\<open>strtod\<close> both readers make: no range error, the whole text consumed, a finite value.
\<close>

definition finite_double :: "string \<Rightarrow> dbl option" where
  "finite_double token =
     (let (v, endp, erange) = strtod token
      in if erange \<or> endp \<noteq> length token \<or> \<not> isfinite v then None else Some v)"

text \<open>The field, \<open>Inr None\<close> when an optional one is missing.\<close>

definition parseDoubleField :: "string \<Rightarrow> string \<Rightarrow> bool \<Rightarrow> string + dbl option" where
  "parseDoubleField content key required =
     (case after_find (quoted key) content of
        None \<Rightarrow> if required then Inl (''missing field: '' @ key) else Inr None
      | Some rest \<Rightarrow>
          (case after_find '':'' rest of
             None \<Rightarrow> Inl (''malformed field: '' @ key)
           | Some rest \<Rightarrow>
               (case extractNumberToken (dropWhile c_isspace rest) of
                  None \<Rightarrow> Inl (''invalid numeric value for field: '' @ key)
                | Some token \<Rightarrow>
                    (case finite_double token of
                       None \<Rightarrow> Inl (''failed to parse finite double for field: '' @ key)
                     | Some v \<Rightarrow> Inr (Some v)))))"

text \<open>\<^verbatim>\<open>(double)UINT64_MAX\<close> rounds to \<open>2 ^ 64\<close>.\<close>

definition parseUint64Field :: "string \<Rightarrow> string \<Rightarrow> bool \<Rightarrow> string + u64 option" where
  "parseUint64Field content key required =
     (case parseDoubleField content key required of
        Inl e \<Rightarrow> Inl e
      | Inr None \<Rightarrow> Inr None
      | Inr (Some v) \<Rightarrow>
          if dbl_less v (Fin 0) \<or> dbl_less (dbl_of_int (2 ^ 64 - 1)) v then Inl (''out-of-range value for field: '' @ key)
          else Inr (Some (of_int (dbl_trunc (dbl_add v (Fin (1 / 2)))))))"

definition is_blank :: "char \<Rightarrow> bool" where
  "is_blank c = (c \<in> {CHR '' '', CHR 0x09, CHR 0x0A, CHR 0x0D})"

definition trim_blanks :: "string \<Rightarrow> string" where
  "trim_blanks token = rev (dropWhile is_blank (rev (dropWhile is_blank token)))"

definition array_entry :: "string \<Rightarrow> string \<Rightarrow> string + dbl" where
  "array_entry key token =
     (let token = trim_blanks token
      in if token = [] then Inl (''empty entry in array for field: '' @ key)
         else (case finite_double (c_string token) of
             None \<Rightarrow> Inl (''invalid finite numeric entry in array for field: '' @ key)
           | Some v \<Rightarrow> Inr v))"

definition is_entry_char :: "char \<Rightarrow> bool" where
  "is_entry_char c = (c \<noteq> CHR '','' \<and> c \<noteq> CHR '']'')"

definition skip_comma :: "string \<Rightarrow> string" where
  "skip_comma s = (case s of [] \<Rightarrow> [] | c # rest \<Rightarrow> if c = CHR '','' then rest else s)"

lemma array_entry_nonempty: "array_entry key token = Inr v \<Longrightarrow> token \<noteq> []"
  by (auto simp: array_entry_def trim_blanks_def)

lemma skip_comma_length: "length (skip_comma s) \<le> length s"
  by (auto simp: skip_comma_def split: list.splits)

text \<open>The loop over the entries after the opening bracket.\<close>

function array_loop :: "string \<Rightarrow> dbl list \<Rightarrow> string \<Rightarrow> string + dbl list" where
  "array_loop key acc s =
     (let s = dropWhile c_isspace s
      in if s = [] then Inl (''unterminated array for field: '' @ key)
         else if hd s = CHR '']'' then Inr acc
         else (case array_entry key (takeWhile is_entry_char s) of
             Inl e \<Rightarrow> Inl e
           | Inr v \<Rightarrow> array_loop key (acc @ [v]) (skip_comma (dropWhile is_entry_char s))))"
  by auto
termination
proof (relation "measure (\<lambda>(key, acc, s). length s)", simp)
  fix key :: string and acc :: "dbl list" and s t :: string and v :: dbl
  assume t: "t = dropWhile c_isspace s" and v: "array_entry key (takeWhile is_entry_char t) = Inr v"
  have "takeWhile is_entry_char t \<noteq> []" using array_entry_nonempty [OF v] .
  moreover have "length t = length (takeWhile is_entry_char t) + length (dropWhile is_entry_char t)"
    by (metis length_append takeWhile_dropWhile_id)
  ultimately have "length (dropWhile is_entry_char t) < length t" by simp
  moreover have "length t \<le> length s" unfolding t by (rule length_dropWhile_le)
  ultimately have "length (skip_comma (dropWhile is_entry_char t)) < length s"
    using skip_comma_length [of "dropWhile is_entry_char t"] by linarith
  then show "((key, acc @ [v], skip_comma (dropWhile is_entry_char t)), key, acc, s) \<in>
      measure (\<lambda>(key, acc, s). length s)" by simp
qed

declare array_loop.simps [simp del]

definition parseDoubleArrayField :: "string \<Rightarrow> string \<Rightarrow> string + dbl list" where
  "parseDoubleArrayField content key =
     (case after_find (quoted key) content of
        None \<Rightarrow> Inr []
      | Some rest \<Rightarrow>
          (case after_find ''['' rest of
             None \<Rightarrow> Inl (''malformed array for field: '' @ key)
           | Some rest \<Rightarrow> array_loop key [] rest))"

section \<open>Loading\<close>

text \<open>\<^verbatim>\<open>parseContent\<close> with its outputs collected before any member is assigned.\<close>

definition nonnegative_field :: "string \<Rightarrow> string \<Rightarrow> dbl \<Rightarrow> string + dbl" where
  "nonnegative_field content key fallback =
     (case parseDoubleField content key False of
        Inl e \<Rightarrow> Inl e
      | Inr None \<Rightarrow> Inr fallback
      | Inr (Some v) \<Rightarrow> if dbl_less v (Fin 0) then Inl (key @ '' must be non-negative'') else Inr v)"

definition staleness_field :: "string \<Rightarrow> string + u64" where
  "staleness_field content =
     (case parseUint64Field content ''staleness_window_ms'' False of
        Inl e \<Rightarrow> Inl e
      | Inr None \<Rightarrow> Inr 500
      | Inr (Some w) \<Rightarrow> Inr (if w = 0 then 1 else w))"

definition bind_sum :: "'e + 'a \<Rightarrow> ('a \<Rightarrow> 'e + 'b) \<Rightarrow> 'e + 'b" where
  "bind_sum r f = (case r of Inl e \<Rightarrow> Inl e | Inr x \<Rightarrow> f x)"

definition parseContent :: "string \<Rightarrow> ARXModel \<Rightarrow> string + ARXModel" where
  "parseContent content m =
     bind_sum (parseDoubleField content ''bias'' True) (\<lambda>bias.
     bind_sum (parseDoubleArrayField content ''ar_temperature'') (\<lambda>temp_coeffs.
     if temp_coeffs = [] then Inl ''ar_temperature array must contain at least one coefficient'' else
     bind_sum (parseDoubleArrayField content ''ratio'') (\<lambda>ratio_coeffs.
     bind_sum (parseDoubleArrayField content ''severity'') (\<lambda>severity_coeffs.
     bind_sum (parseDoubleArrayField content ''trimmed_ratio'') (\<lambda>trimmed_ratio_coeffs.
     bind_sum (parseDoubleField content ''ma'' False) (\<lambda>ma.
     bind_sum (staleness_field content) (\<lambda>staleness_window.
     bind_sum (nonnegative_field content ''width_temperature_millic_per_step'' kDefaultWidthTemperatureMillicPerStep) (\<lambda>width_temp.
     bind_sum (nonnegative_field content ''width_performance_benefit_milli_per_step''
                 kDefaultWidthPerformanceBenefitMilliPerStep) (\<lambda>width_perf.
     Inr (m\<lparr>arx_bias := the bias, arx_temperature_coeffs := temp_coeffs, arx_ratio_coeffs := ratio_coeffs,
            arx_severity_coeffs := severity_coeffs, arx_trimmed_ratio_coeffs := trimmed_ratio_coeffs,
            arx_ma_coefficient := (case ma of None \<Rightarrow> Fin 0 | Some v \<Rightarrow> v), arx_ma_enabled := (ma \<noteq> None),
            arx_staleness_window_ms := staleness_window,
            arx_width_temperature_millic_per_step := width_temp,
            arx_width_performance_benefit_milli_per_step := width_perf\<rparr>))))))))))"

definition mark_loaded :: "ARXModel \<Rightarrow> ARXModel" where
  "mark_loaded m = m\<lparr>arx_coefficients_loaded := True, arx_residual_valid := False,
     arx_required_history := max (max (max (max 1 (length (arx_temperature_coeffs m)))
       (length (arx_ratio_coeffs m))) (length (arx_severity_coeffs m))) (length (arx_trimmed_ratio_coeffs m))\<rparr>"

text \<open>
  Copying an empty stream into the buffer fails, so an empty file (and a directory, which opens but gives
  no bytes) is a read error.
\<close>

definition loadFromFile ::
    "string \<Rightarrow> ARXModel \<Rightarrow> 'a sproc_scheme \<Rightarrow> (string + unit) \<times> ARXModel \<times> 'a sproc_scheme" where
  "loadFromFile path m s =
     (case read_file path s of
        (None, s) \<Rightarrow> (Inl (''unable to open coefficient file: '' @ path), m\<lparr>arx_coefficients_loaded := False\<rparr>, s)
      | (Some content, s) \<Rightarrow>
          if content = [] then (Inl (''failed to read coefficient file: '' @ path), m\<lparr>arx_coefficients_loaded := False\<rparr>, s)
          else (case parseContent content m of
              Inl e \<Rightarrow> (Inl e, m\<lparr>arx_coefficients_loaded := False\<rparr>, s)
            | Inr m \<Rightarrow> (Inr (), mark_loaded m, s)))"

section \<open>Prediction\<close>

text \<open>
  One weighted sum: coefficient \<open>i\<close> goes with the sample \<open>i\<close> steps before the latest. The history is
  never shorter than a coefficient array when this runs (\<open>arx_required_history\<close>).
\<close>

definition weighted_sum :: "(TelemetrySample \<Rightarrow> dbl) \<Rightarrow> dbl list \<Rightarrow> TelemetrySample list \<Rightarrow> dbl \<Rightarrow> dbl" where
  "weighted_sum f coeffs history prediction =
     foldl (\<lambda>acc (c, sample). dbl_add acc (dbl_mul c (f sample))) prediction (zip coeffs (rev history))"

definition effective_ratio :: "TelemetrySample \<Rightarrow> dbl" where
  "effective_ratio sample =
     (if dbl_less (Fin 0) (sa_trimmed_ratio_milli sample) then sa_trimmed_ratio_milli sample else sa_ratio_milli sample)"

text \<open>\<open>None\<close> is \<^verbatim>\<open>*ok == false\<close>.\<close>

definition predict :: "TelemetrySample list \<Rightarrow> ARXModel \<Rightarrow> dbl option" where
  "predict history m =
     (if \<not> arx_coefficients_loaded m \<or> length history < arx_required_history m then None
      else if \<exists>sample \<in> set (take (length (arx_temperature_coeffs m)) (rev history)). \<not> sa_temp_valid sample then None
      else let prediction = weighted_sum sa_temperature_millic (arx_temperature_coeffs m) history (arx_bias m);
               prediction = weighted_sum effective_ratio (arx_ratio_coeffs m) history prediction;
               prediction = weighted_sum sa_severity_milli (arx_severity_coeffs m) history prediction;
               prediction = weighted_sum sa_trimmed_ratio_milli (arx_trimmed_ratio_coeffs m) history prediction
           in if arx_temperature_coeffs m = [] \<or> \<not> isfinite prediction then None
              else if arx_ma_enabled m \<and> arx_residual_valid m then
                (let prediction = dbl_add prediction (dbl_mul (arx_ma_coefficient m) (arx_last_residual m))
                 in if \<not> isfinite prediction then None else Some prediction)
              else Some prediction)"

definition updateResidual :: "dbl \<Rightarrow> ARXModel \<Rightarrow> ARXModel" where
  "updateResidual residual m =
     (if \<not> isfinite residual then m\<lparr>arx_residual_valid := False, arx_last_residual := Fin 0\<rparr>
      else m\<lparr>arx_last_residual := residual, arx_residual_valid := True\<rparr>)"

definition resetResidual :: "ARXModel \<Rightarrow> ARXModel" where
  "resetResidual m = m\<lparr>arx_last_residual := Fin 0, arx_residual_valid := False\<rparr>"

section \<open>What a loaded model satisfies\<close>

definition nonnegative :: "dbl \<Rightarrow> bool" where
  "nonnegative d = (isfinite d \<and> \<not> dbl_less d (Fin 0))"

definition arx_wf :: "ARXModel \<Rightarrow> bool" where
  "arx_wf m \<longleftrightarrow>
     arx_required_history m \<ge> 1 \<and> arx_staleness_window_ms m \<noteq> 0 \<and> isfinite (arx_bias m) \<and>
     isfinite (arx_ma_coefficient m) \<and> isfinite (arx_last_residual m) \<and>
     nonnegative (arx_width_temperature_millic_per_step m) \<and>
     nonnegative (arx_width_performance_benefit_milli_per_step m) \<and>
     (\<forall>c \<in> set (arx_temperature_coeffs m @ arx_ratio_coeffs m @ arx_severity_coeffs m @ arx_trimmed_ratio_coeffs m).
        isfinite c) \<and>
     (arx_coefficients_loaded m \<longrightarrow> arx_temperature_coeffs m \<noteq> [] \<and>
        length (arx_temperature_coeffs m) \<le> arx_required_history m \<and> length (arx_ratio_coeffs m) \<le> arx_required_history m \<and>
        length (arx_severity_coeffs m) \<le> arx_required_history m \<and>
        length (arx_trimmed_ratio_coeffs m) \<le> arx_required_history m)"

lemma finite_double_finite: "finite_double t = Some v \<Longrightarrow> isfinite v"
  by (auto simp: finite_double_def Let_def split: prod.splits if_splits)

lemma double_field_finite: "parseDoubleField content key required = Inr (Some v) \<Longrightarrow> isfinite v"
  by (auto simp: parseDoubleField_def finite_double_finite split: option.splits if_splits)

lemma double_field_required: "parseDoubleField content key True = Inr r \<Longrightarrow> r \<noteq> None"
  by (auto simp: parseDoubleField_def dest: sym split: option.splits)

lemma array_entry_finite: "array_entry key token = Inr v \<Longrightarrow> isfinite v"
  by (auto simp: array_entry_def Let_def finite_double_finite split: if_splits option.splits)

lemma array_loop_finite:
  "array_loop key acc s = Inr vs \<Longrightarrow> \<forall>c \<in> set acc. isfinite c \<Longrightarrow> \<forall>c \<in> set vs. isfinite c"
proof (induction key acc s rule: array_loop.induct)
  case (1 key acc s)
  let ?s = "dropWhile c_isspace s"
  note unfolded = "1.prems"(1) [unfolded array_loop.simps [of key acc s] Let_def]
  show ?case
  proof (cases "?s \<noteq> [] \<and> hd ?s \<noteq> CHR '']''")
    case True
    then obtain v where v: "array_entry key (takeWhile is_entry_char ?s) = Inr v"
      and rest: "array_loop key (acc @ [v]) (skip_comma (dropWhile is_entry_char ?s)) = Inr vs"
      using unfolded by (auto split: sum.splits if_splits)
    from True have ne: "?s \<noteq> []" "hd ?s \<noteq> CHR '']''" by simp_all
    show ?thesis
      by (rule "1.IH" [OF refl ne v rest]) (use "1.prems"(2) array_entry_finite [OF v] in auto)
  next
    case False
    then show ?thesis using unfolded "1.prems"(2) by (auto split: if_splits)
  qed
qed

lemma array_field_finite: "parseDoubleArrayField content key = Inr vs \<Longrightarrow> \<forall>c \<in> set vs. isfinite c"
  using array_loop_finite [of key "[]"] by (fastforce simp: parseDoubleArrayField_def split: option.splits)

lemma nonnegative_field_ok:
  "nonnegative_field content key d = Inr v \<Longrightarrow> nonnegative d \<Longrightarrow> nonnegative v"
  by (auto simp: nonnegative_field_def nonnegative_def double_field_finite split: sum.splits option.splits if_splits)

lemma staleness_field_pos: "staleness_field content = Inr w \<Longrightarrow> w \<noteq> 0"
  by (auto simp: staleness_field_def split: sum.splits option.splits if_splits)

lemma bind_sum_Inr: "bind_sum r f = Inr y \<longleftrightarrow> (\<exists>x. r = Inr x \<and> f x = Inr y)"
  by (auto simp: bind_sum_def split: sum.splits)

lemma parse_content_wf:
  assumes wf: "arx_wf m" and parse: "parseContent content m = Inr m'"
  shows "arx_wf (m'\<lparr>arx_coefficients_loaded := False\<rparr>)" "arx_temperature_coeffs m' \<noteq> []"
proof -
  obtain bias temp ratio severity trimmed ma stale wt wp where
    bias: "parseDoubleField content ''bias'' True = Inr bias" and
    temp: "parseDoubleArrayField content ''ar_temperature'' = Inr temp" "temp \<noteq> []" and
    ratio: "parseDoubleArrayField content ''ratio'' = Inr ratio" and
    severity: "parseDoubleArrayField content ''severity'' = Inr severity" and
    trimmed: "parseDoubleArrayField content ''trimmed_ratio'' = Inr trimmed" and
    ma: "parseDoubleField content ''ma'' False = Inr ma" and
    stale: "staleness_field content = Inr stale" and
    wt: "nonnegative_field content ''width_temperature_millic_per_step'' kDefaultWidthTemperatureMillicPerStep = Inr wt" and
    wp: "nonnegative_field content ''width_performance_benefit_milli_per_step''
           kDefaultWidthPerformanceBenefitMilliPerStep = Inr wp" and
    m': "m' = m\<lparr>arx_bias := the bias, arx_temperature_coeffs := temp, arx_ratio_coeffs := ratio,
            arx_severity_coeffs := severity, arx_trimmed_ratio_coeffs := trimmed,
            arx_ma_coefficient := (case ma of None \<Rightarrow> Fin 0 | Some v \<Rightarrow> v), arx_ma_enabled := (ma \<noteq> None),
            arx_staleness_window_ms := stale, arx_width_temperature_millic_per_step := wt,
            arx_width_performance_benefit_milli_per_step := wp\<rparr>"
    using parse by (auto simp: parseContent_def bind_sum_Inr split: if_splits)
  obtain b where "bias = Some b" using double_field_required [OF bias] by blast
  then have "isfinite (the bias)" using double_field_finite bias by simp
  moreover have "isfinite (case ma of None \<Rightarrow> Fin 0 | Some v \<Rightarrow> v)"
    using double_field_finite ma by (auto split: option.splits)
  moreover have "nonnegative wt" using nonnegative_field_ok [OF wt] by (simp add: nonnegative_def)
  moreover have "nonnegative wp" using nonnegative_field_ok [OF wp] by (simp add: nonnegative_def)
  ultimately show "arx_wf (m'\<lparr>arx_coefficients_loaded := False\<rparr>)"
    using wf array_field_finite [OF temp(1)] array_field_finite [OF ratio] array_field_finite [OF severity]
      array_field_finite [OF trimmed] staleness_field_pos [OF stale]
    by (auto simp: arx_wf_def m')
  show "arx_temperature_coeffs m' \<noteq> []" using temp(2) m' by simp
qed

lemma arx_init_wf: "arx_wf arx_model_init"
  by (simp add: arx_wf_def arx_model_init_def nonnegative_def)

lemma residual_wf: "arx_wf m \<Longrightarrow> arx_wf (updateResidual r m)" "arx_wf m \<Longrightarrow> arx_wf (resetResidual m)"
  by (auto simp: arx_wf_def updateResidual_def resetResidual_def)

lemma load_cases:
  obtains e where "loadFromFile path m s = (Inl e, m\<lparr>arx_coefficients_loaded := False\<rparr>, sys_tick s)"
  | content m' where "parseContent content m = Inr m'" "loadFromFile path m s = (Inr (), mark_loaded m', sys_tick s)"
proof (cases "sys_file s (sys_calls s) path")
  case None
  then show thesis using that(1) by (simp add: loadFromFile_def read_file_def)
next
  case (Some content)
  then show thesis
    using that by (cases "content = []"; cases "parseContent content m") (simp_all add: loadFromFile_def read_file_def)
qed

lemma load_wf:
  assumes wf: "arx_wf m" and load: "loadFromFile path m s = (r, m', s')"
  shows "arx_wf m'"
proof (cases rule: load_cases [of path m s])
  case (1 e)
  then show ?thesis using load wf by (auto simp: arx_wf_def)
next
  case (2 content m1)
  then have "m' = mark_loaded m1" using load by simp
  then show ?thesis
    using parse_content_wf [OF wf 2(1)] by (simp add: arx_wf_def mark_loaded_def le_max_iff_disj)
qed

lemma predict_finite: "predict history m = Some v \<Longrightarrow> isfinite v"
  by (auto simp: predict_def Let_def split: if_splits)

section \<open>Reading back a printed array\<close>

lemma digit_not_special:
  assumes "c_isdigit c"
  shows "\<not> c_isspace c" "is_entry_char c" "\<not> is_blank c" "c \<noteq> CHR 0x00" "c_tolower c = c" "c \<noteq> CHR ''x''" "c \<noteq> CHR ''i''"
    "c \<noteq> CHR ''n''" "c \<noteq> CHR '']''"
  using assms by (auto simp: c_isdigit_def c_isspace_def is_entry_char_def is_blank_def c_tolower_def char_code_def)

lemma strtod_digits:
  assumes digits: "\<forall>c \<in> set ds. c_isdigit c" "ds \<noteq> []" and small: "base_val 10 ds < 2 ^ 53"
    and sg: "sg = [] \<or> sg = ''-''"
  shows "strtod (sg @ ds) = (Fin ((if sg = [] then 1 else - 1) * of_nat (base_val 10 ds)), length (sg @ ds), False)"
proof -
  obtain c cs where ds: "ds = c # cs" using digits(2) by (cases ds) auto
  have c: "c_isdigit c" using digits(1) ds by simp
  note c_props = digit_not_special [OF c]
  have minus: "\<not> c_isspace (CHR ''-'')" by (simp add: c_isspace_def char_code_def)
  have sgn: "c_sign (sg @ ds) = (sg \<noteq> [], length sg)" using sg c ds by (auto simp: c_sign_def c_isdigit_def char_code_def)
  have ws: "takeWhile c_isspace (sg @ ds) = []" using sg c_props(1) ds minus by auto
  have no_word: "\<not> prefix_ci ''infinity'' ds" "\<not> prefix_ci ''inf'' ds" "\<not> prefix_ci ''nan'' ds"
    using c_props by (auto simp: prefix_ci_def ds)
  have "\<not> (length ds \<ge> 2 \<and> c_tolower (ds ! 1) = CHR ''x'')"
    using digits(1) digit_not_special(5,6) by (metis Suc_1 Suc_le_lessD nth_mem)
  moreover have "mantissa_part c_isdigit ds = (ds, 0, length ds)"
  proof -
    have whole: "takeWhile c_isdigit ds = ds" using digits(1) by (simp add: takeWhile_eq_all_conv)
    show ?thesis unfolding mantissa_part_def Let_def whole by simp
  qed
  ultimately have num: "unsigned_number ds = Some (of_nat (base_val 10 ds), length ds)"
    using digits(2) by (auto simp: unsigned_number_def exponent_part_def pow_int_def Let_def split: prod.splits)
  have "rnd64 (of_int (int (base_val 10 ds))) = Fin (of_int (int (base_val 10 ds)))"
    using small by (intro rnd64_int) simp
  then have rnd: "rnd64 (of_nat (base_val 10 ds)) = Fin (of_nat (base_val 10 ds))" by simp
  show ?thesis using sg by (auto simp: strtod_def ws sgn no_word num rnd Let_def)
qed

lemma finite_double_dec_int:
  assumes "\<bar>n\<bar> < 2 ^ 53"
  shows "finite_double (dec_int n) = Some (Fin (of_int n))"
proof -
  let ?ds = "dec_nat (nat \<bar>n\<bar>)" and ?sg = "if n < 0 then ''-'' else []"
  have d: "dec_int n = ?sg @ ?ds" by (simp add: dec_int_def)
  have "strtod (?sg @ ?ds) = (Fin ((if ?sg = [] then 1 else - 1) * of_nat (nat \<bar>n\<bar>)), length (?sg @ ?ds), False)"
    using strtod_digits [of ?ds ?sg] dec_nat_digits dec_nat_nonempty assms by (simp add: base_val_dec_nat)
  moreover have "(if ?sg = [] then 1 else - 1) * of_nat (nat \<bar>n\<bar>) = (of_int n :: rat)"
    by (cases "n < 0") (simp_all add: of_nat_nat)
  ultimately have "strtod (dec_int n) = (Fin (of_int n), length (dec_int n), False)" unfolding d by simp
  then show ?thesis by (simp add: finite_double_def)
qed

lemma dec_int_chars:
  assumes "c \<in> set (dec_int n)"
  shows "\<not> c_isspace c" "is_entry_char c" "\<not> is_blank c" "c \<noteq> CHR 0x00"
proof -
  have "c = CHR ''-'' \<or> c_isdigit c" using assms dec_nat_digits by (auto simp: dec_int_def split: if_splits)
  then show "\<not> c_isspace c" "is_entry_char c" "\<not> is_blank c" "c \<noteq> CHR 0x00"
    using digit_not_special [of c] by (elim disjE; simp add: c_isspace_def is_entry_char_def is_blank_def char_code_def)+
qed

lemma trim_blanks_id: "(\<And>c. c \<in> set s \<Longrightarrow> \<not> is_blank c) \<Longrightarrow> trim_blanks s = s"
proof -
  assume no_blank: "\<And>c. c \<in> set s \<Longrightarrow> \<not> is_blank c"
  have "dropWhile is_blank s = s" "dropWhile is_blank (rev s) = rev s"
    using no_blank last_in_set [of s] hd_in_set [of s] by (auto simp: dropWhile_eq_self_iff hd_rev)
  then show ?thesis by (simp add: trim_blanks_def)
qed

lemma dec_int_nonempty: "dec_int n \<noteq> []"
  by (simp add: dec_int_def dec_nat_nonempty)

lemma array_entry_dec_int: "\<bar>n\<bar> < 2 ^ 53 \<Longrightarrow> array_entry key (dec_int n) = Inr (Fin (of_int n))"
proof -
  assume n: "\<bar>n\<bar> < 2 ^ 53"
  have "trim_blanks (dec_int n) = dec_int n" using dec_int_chars(3) by (rule trim_blanks_id)
  moreover have "c_string (dec_int n) = dec_int n"
    unfolding c_string_def using dec_int_chars(4) by (simp add: takeWhile_eq_all_conv)
  ultimately show ?thesis by (simp add: array_entry_def finite_double_dec_int [OF n] dec_int_nonempty)
qed

text \<open>An array of integers as \<^verbatim>\<open>printf\<close> writes it, without the opening bracket.\<close>

fun print_entries :: "int list \<Rightarrow> string" where
  "print_entries [] = '']''"
| "print_entries [n] = dec_int n @ '']''"
| "print_entries (n # m # ns) = dec_int n @ '', '' @ print_entries (m # ns)"

lemma array_loop_blank: "array_loop key acc (CHR '' '' # s) = array_loop key acc s"
proof -
  have "c_isspace (CHR '' '')" by (simp add: c_isspace_def char_code_def)
  then show ?thesis by (subst (1 2) array_loop.simps) simp
qed

lemma array_loop_entry:
  assumes "\<bar>n\<bar> < 2 ^ 53" "c = CHR '','' \<or> c = CHR '']''"
  shows "array_loop key acc (dec_int n @ c # rest) = array_loop key (acc @ [Fin (of_int n)]) (skip_comma (c # rest))"
proof -
  obtain d ds where d: "dec_int n = d # ds" using dec_int_nonempty [of n] by (cases "dec_int n") auto
  have first: "\<not> c_isspace d" "is_entry_char d" using dec_int_chars [of d n] d by auto
  have entry: "takeWhile is_entry_char (dec_int n @ c # rest) = dec_int n"
    "dropWhile is_entry_char (dec_int n @ c # rest) = c # rest"
    using assms(2) dec_int_chars(2) by (auto simp: takeWhile_append dropWhile_append is_entry_char_def)
  have "dropWhile c_isspace (dec_int n @ c # rest) = dec_int n @ c # rest" using first d by simp
  moreover have "hd (dec_int n @ c # rest) \<noteq> CHR '']''" using first d by (auto simp: is_entry_char_def)
  ultimately show ?thesis
    by (subst array_loop.simps) (simp add: entry array_entry_dec_int [OF assms(1)])
qed

lemma array_loop_end: "array_loop key acc (CHR '']'' # rest) = Inr acc"
proof -
  have "\<not> c_isspace (CHR '']'')" by (simp add: c_isspace_def char_code_def)
  then show ?thesis by (subst array_loop.simps) simp
qed

lemma array_loop_print:
  "\<forall>n \<in> set ns. \<bar>n\<bar> < 2 ^ 53 \<Longrightarrow> array_loop key acc (print_entries ns @ rest) = Inr (acc @ map (Fin \<circ> of_int) ns)"
proof (induction ns arbitrary: acc rule: print_entries.induct)
  case 1
  then show ?case by (simp add: array_loop_end)
next
  case (2 n)
  then show ?case
    using array_loop_entry [of n "CHR '']''" key acc rest] by (simp add: skip_comma_def array_loop_end)
next
  case (3 n m ns)
  then show ?case
    using array_loop_entry [of n "CHR '',''" key acc "CHR '' '' # print_entries (m # ns) @ rest"]
    by (simp add: skip_comma_def array_loop_blank)
qed

lemma after_find_here: "after_find needle (needle @ rest) = Some rest"
proof (cases "needle @ rest")
  case (Cons c s)
  then have "take (length needle) (c # s) = needle" "drop (length needle) (c # s) = rest"
    by (metis append_eq_conv_conj)+
  then show ?thesis by (simp add: Cons)
qed simp

section \<open>Properties\<close>

text \<open>
  C26. Whatever a coefficient file contains, loading it leaves a well-formed model: every coefficient
  finite, the width effects finite and not negative, the staleness window at least one millisecond, and while
  the model counts as loaded at least one temperature coefficient and enough required history for every
  coefficient array. It counts as loaded exactly if the load succeeded, and a failed load changes
  no coefficient.
\<close>
theorem coefficient_load_validated:
  assumes "arx_wf m"
  shows "case loadFromFile path m s of (r, m', s') \<Rightarrow>
    arx_wf m' \<and> (arx_coefficients_loaded m' \<longleftrightarrow> r = Inr ()) \<and>
    (r \<noteq> Inr () \<longrightarrow> m' = m\<lparr>arx_coefficients_loaded := False\<rparr>)"
  using load_wf [OF assms, of path s]
  by (cases rule: load_cases [of path m s]) (auto simp: mark_loaded_def)

text \<open>A small coefficient file.\<close>

definition example_coefficients :: string where
  "example_coefficients = concat [quoted ''bias'', '':7,'', quoted ''ar_temperature'', '':[1, -2]'']"

lemma example_coefficients_find:
  "after_find (quoted ''bias'') example_coefficients = Some ('':7,'' @ quoted ''ar_temperature'' @ '':[1, -2]'')"
  "after_find (quoted ''ar_temperature'') example_coefficients = Some '':[1, -2]''"
  "after_find (quoted ''ratio'') example_coefficients = None"
  "after_find (quoted ''severity'') example_coefficients = None"
  "after_find (quoted ''trimmed_ratio'') example_coefficients = None"
  "after_find (quoted ''ma'') example_coefficients = None"
  "after_find (quoted ''staleness_window_ms'') example_coefficients = None"
  "after_find (quoted ''width_temperature_millic_per_step'') example_coefficients = None"
  "after_find (quoted ''width_performance_benefit_milli_per_step'') example_coefficients = None"
  by (simp_all add: example_coefficients_def quoted_def)

lemma example_coefficients_fields:
  "parseDoubleField example_coefficients ''bias'' True = Inr (Some (Fin 7))"
  "parseDoubleArrayField example_coefficients ''ar_temperature'' = Inr [Fin 1, Fin (- 2)]"
  "parseDoubleArrayField example_coefficients ''ratio'' = Inr []"
  "parseDoubleArrayField example_coefficients ''severity'' = Inr []"
  "parseDoubleArrayField example_coefficients ''trimmed_ratio'' = Inr []"
  "parseDoubleField example_coefficients ''ma'' False = Inr None"
  "parseDoubleField example_coefficients ''staleness_window_ms'' False = Inr None"
  "parseDoubleField example_coefficients ''width_temperature_millic_per_step'' False = Inr None"
  "parseDoubleField example_coefficients ''width_performance_benefit_milli_per_step'' False = Inr None"
proof -
  have digits: "dec_int 7 = ''7''" "dec_int 1 = ''1''" "dec_int (- 2) = ''-2''" by code_simp+
  have "extractNumberToken (dropWhile c_isspace (''7,'' @ quoted ''ar_temperature'' @ '':[1, -2]'')) = Some ''7''"
    by (simp add: extractNumberToken_def is_number_char_def c_isspace_def c_isdigit_def char_code_def)
  then show "parseDoubleField example_coefficients ''bias'' True = Inr (Some (Fin 7))"
    using finite_double_dec_int [of 7] by (simp add: parseDoubleField_def example_coefficients_find digits)
  show "parseDoubleArrayField example_coefficients ''ar_temperature'' = Inr [Fin 1, Fin (- 2)]"
    using array_loop_print [of "[1, -2]" "''ar_temperature''" "[]" "[]"]
    by (simp add: parseDoubleArrayField_def example_coefficients_find digits)
qed (simp_all add: parseDoubleArrayField_def parseDoubleField_def example_coefficients_find)

lemma example_coefficients_parse:
  "parseContent example_coefficients arx_model_init =
     Inr (arx_model_init\<lparr>arx_bias := Fin 7, arx_temperature_coeffs := [Fin 1, Fin (- 2)]\<rparr>)"
  by (simp add: parseContent_def bind_sum_def example_coefficients_fields nonnegative_field_def staleness_field_def
    parseUint64Field_def arx_model_init_def)

theorem coefficient_load_validated_witness:
  "case loadFromFile ''coeffs'' arx_model_init (example_sproc\<lparr>sys_file := \<lambda>_ _. Some example_coefficients\<rparr>) of (r, m, s) \<Rightarrow>
     arx_wf m \<and> arx_coefficients_loaded m \<and> arx_required_history m = 2 \<and> arx_temperature_coeffs m = [Fin 1, Fin (- 2)]"
proof -
  let ?s = "example_sproc\<lparr>sys_file := \<lambda>_ _. Some example_coefficients\<rparr>"
  have ne: "example_coefficients \<noteq> []" by (simp add: example_coefficients_def quoted_def)
  have "loadFromFile ''coeffs'' arx_model_init ?s = (Inr (), mark_loaded (arx_model_init\<lparr>arx_bias := Fin 7,
      arx_temperature_coeffs := [Fin 1, Fin (- 2)]\<rparr>), sys_tick ?s)"
    by (simp add: loadFromFile_def read_file_def ne example_coefficients_parse)
  then show ?thesis
    using coefficient_load_validated [OF arx_init_wf, of "''coeffs''" ?s] by (simp add: mark_loaded_def arx_model_init_def)
qed

text \<open>
  C27. Reading an array field gives back the numbers that were printed into it, in order, for every list of
  integers a double represents exactly, whatever the key is and whatever follows the array.
\<close>
theorem coefficient_array_roundtrip:
  assumes "\<forall>n \<in> set ns. \<bar>n\<bar> < 2 ^ 53"
  shows "parseDoubleArrayField (quoted key @ '': ['' @ print_entries ns @ rest) key = Inr (map (Fin \<circ> of_int) ns)"
  using array_loop_print [OF assms, of key "[]" rest]
  by (simp add: parseDoubleArrayField_def after_find_here del: append_assoc)

theorem coefficient_array_roundtrip_witness:
  "parseDoubleArrayField (quoted ''ratio'' @ '': ['' @ print_entries [-350, 7] @ '',''@ quoted ''ma'' @ '':[3]'') ''ratio'' =
     Inr [Fin (- 350), Fin 7]"
  using coefficient_array_roundtrip [of "[-350, 7]" "''ratio''"] by simp

end
