(* ===== verification/MPC_Controller.thy ===== *)
theory MPC_Controller
  imports ARX_Model Perf_Facts
begin

text \<open>
  \<^verbatim>\<open>src/policy/mpc_controller.cpp\<close>: the optimizer that scores every SIMD width on a forecast and recommends a change
  when it pays. Every arithmetic operation on a \<^verbatim>\<open>double\<close> rounds, in the order the code has them.
\<close>

section \<open>State\<close>

record MPCController =
  mpc_config :: tsd_policy_config
  mpc_history :: "TelemetrySample list"
  mpc_coeff_path :: string
  mpc_arx_model :: ARXModel
  mpc_staleness_window :: int
  mpc_last_prediction_millic :: dbl
  mpc_last_prediction_valid :: bool
  mpc_history_limit :: nat

text \<open>
  The environment of the file: the value of \<^verbatim>\<open>TSD_PREDICTIVE_COEFF_PATH\<close> and the two paths the build compiles in.
\<close>

record cproc = pproc +
  coeff_path_env :: "string option"
  installed_coeff_path :: string
  default_coeff_path :: string

abbreviation kMinImprovement :: dbl where "kMinImprovement \<equiv> Fin 1"
abbreviation kDefaultRatioTrendWeight :: dbl where "kDefaultRatioTrendWeight \<equiv> Fin (1 / 4)"
abbreviation kRatioViolationWeight :: dbl where "kRatioViolationWeight \<equiv> Fin 4"
abbreviation kRatioEfficiencyWeight :: dbl where "kRatioEfficiencyWeight \<equiv> rnd64 (1 / 20)"
abbreviation kTemperatureWeight :: dbl where "kTemperatureWeight \<equiv> Fin (1 / 4)"
abbreviation kStabilityMargin :: dbl where "kStabilityMargin \<equiv> Fin (1 / 4)"
abbreviation kHorizonDiscount :: dbl where "kHorizonDiscount \<equiv> rnd64 (9 / 10)"
abbreviation kHardConstraintCost :: dbl where "kHardConstraintCost \<equiv> Fin 1000000000"
abbreviation kDefaultStalenessWindow :: int where "kDefaultStalenessWindow \<equiv> 500"

text \<open>The controller before its constructor has run; every member but the model is assigned by \<open>mpc_reset\<close>.\<close>

definition mpc_blank :: "tsd_policy_config \<Rightarrow> MPCController" where
  "mpc_blank config = \<lparr>mpc_config = config, mpc_history = [], mpc_coeff_path = [], mpc_arx_model = arx_model_init,
     mpc_staleness_window = 0, mpc_last_prediction_millic = Fin 0, mpc_last_prediction_valid = False, mpc_history_limit = 0\<rparr>"

section \<open>Configuration and coefficients\<close>

definition runtimeTrendWeight :: "'a proc_scheme \<Rightarrow> dbl" where
  "runtimeTrendWeight p =
     (let alpha = predictive_alpha (tsd_runtime_config_active_snapshot p)
      in if \<not> isfinite alpha \<or> dbl_less alpha (Fin 0) \<or> dbl_less (Fin 1) alpha then kDefaultRatioTrendWeight else alpha)"

definition fileReadable :: "string \<Rightarrow> 'a sproc_scheme \<Rightarrow> bool \<times> 'a sproc_scheme" where
  "fileReadable path p = (if path = [] then (False, p) else let (r, p) = read_file path p in (r \<noteq> None, p))"

text \<open>The strings are allocated, so finding the path may throw.\<close>

definition resolveCoefficientPath :: "'a cproc_scheme \<Rightarrow> (cpp_exception + string) \<times> 'a cproc_scheme" where
  "resolveCoefficientPath p =
     (let (path, p) =
        (case coeff_path_env p of
           Some (c # cs) \<Rightarrow> (c # cs, p)
         | _ \<Rightarrow> if predictive_coeff_path (tsd_runtime_config_active_snapshot p) \<noteq> [] then (predictive_coeff_path (tsd_runtime_config_active_snapshot p), p)
                else let (readable, p) = fileReadable (installed_coeff_path p) p
                     in (if readable then installed_coeff_path p else default_coeff_path p, p))
      in (case may_throw p of (Some e, p) \<Rightarrow> (Inl e, p) | (None, p) \<Rightarrow> (Inr path, p)))"

definition horizon_limit :: "tsd_policy_config \<Rightarrow> nat" where
  "horizon_limit config = max 1 (unat (forecast_horizon config))"

text \<open>A window beyond the range of \<^verbatim>\<open>long long\<close> becomes negative and is replaced by the default.\<close>

definition usable_window :: "u64 \<Rightarrow> int" where
  "usable_window w = (let window_ms = sint w in if window_ms \<le> 0 then kDefaultStalenessWindow else window_ms)"

text \<open>An exception can only come from an allocation before the model is assigned, so it leaves the controller as it was.\<close>

definition loadCoefficients :: "MPCController \<Rightarrow> 'a fproc_scheme \<Rightarrow> (cpp_exception + bool) \<times> MPCController \<times> 'a fproc_scheme" where
  "loadCoefficients c p =
     (case may_throw p of
        (Some e, p) \<Rightarrow> (Inl e, c, p)
      | (None, p) \<Rightarrow>
          (case loadFromFile (mpc_coeff_path c) (mpc_arx_model c) p of
             (Inl _, m, p) \<Rightarrow>
               (Inr False, c\<lparr>mpc_arx_model := m, mpc_staleness_window := kDefaultStalenessWindow,
                             mpc_history_limit := horizon_limit (mpc_config c)\<rparr>,
                count_metric TSD_METRIC_PREDICTIVE_RELOAD_ERRORS p)
           | (Inr _, m, p) \<Rightarrow>
               (Inr True, c\<lparr>mpc_arx_model := resetResidual m, mpc_staleness_window := usable_window (arx_staleness_window_ms m),
                             mpc_history_limit := max (horizon_limit (mpc_config c)) (arx_required_history m)\<rparr>,
                count_metric TSD_METRIC_PREDICTIVE_RELOADS p)))"

definition mpc_reset :: "tsd_policy_config \<Rightarrow> MPCController \<Rightarrow> 'a cproc_scheme \<Rightarrow>
    cpp_exception option \<times> MPCController \<times> 'a cproc_scheme" where
  "mpc_reset config c p =
     (let c = c\<lparr>mpc_config := config, mpc_history := [], mpc_arx_model := resetResidual (mpc_arx_model c),
                mpc_staleness_window := kDefaultStalenessWindow, mpc_last_prediction_millic := Fin 0,
                mpc_last_prediction_valid := False, mpc_history_limit := horizon_limit config\<rparr>
      in (case resolveCoefficientPath p of
            (Inl e, p) \<Rightarrow> (Some e, c, p)
          | (Inr path, p) \<Rightarrow>
              (case loadCoefficients (c\<lparr>mpc_coeff_path := path\<rparr>) p of
                 (Inl e, c, p) \<Rightarrow> (Some e, c, p)
               | (Inr _, c, p) \<Rightarrow> (None, c, p))))"

definition mpc_construct :: "tsd_policy_config \<Rightarrow> 'a cproc_scheme \<Rightarrow> (cpp_exception + MPCController) \<times> 'a cproc_scheme" where
  "mpc_construct config p =
     (case resolveCoefficientPath p of
        (Inl e, p) \<Rightarrow> (Inl e, p)
      | (Inr path, p) \<Rightarrow>
          (case mpc_reset config ((mpc_blank config)\<lparr>mpc_coeff_path := path\<rparr>) p of
             (Some e, _, p) \<Rightarrow> (Inl e, p)
           | (None, c, p) \<Rightarrow> (Inr c, p)))"

definition reloadCoefficients :: "MPCController \<Rightarrow> 'a cproc_scheme \<Rightarrow> (cpp_exception + bool) \<times> MPCController \<times> 'a cproc_scheme" where
  "reloadCoefficients c p =
     (case resolveCoefficientPath p of
        (Inl e, p) \<Rightarrow> (Inl e, c, p)
      | (Inr path, p) \<Rightarrow> loadCoefficients (c\<lparr>mpc_coeff_path := path\<rparr>) p)"

definition historyLimit :: "MPCController \<Rightarrow> nat" where
  "historyLimit c = (if mpc_history_limit c = 0 then horizon_limit (mpc_config c) else mpc_history_limit c)"

section \<open>Samples\<close>

fun dbl_fabs :: "dbl \<Rightarrow> dbl" where
  "dbl_fabs (Fin x) = Fin \<bar>x\<bar>"
| "dbl_fabs NInf = PInf"
| "dbl_fabs d = d"

definition control_temp_valid :: "tsd_thermal_eval_t \<Rightarrow> bool" where
  "control_temp_valid sample =
     (sm_filtered_temp_available (te_sample sample) \<noteq> 0 \<or> sm_temp_available (te_sample sample) \<noteq> 0)"

definition control_temp :: "tsd_thermal_eval_t \<Rightarrow> dbl" where
  "control_temp sample =
     (if sm_filtered_temp_available (te_sample sample) \<noteq> 0
      then dbl_of_int (sm_filtered_package_temp_millic (te_sample sample))
      else dbl_of_int (sm_package_temp_millic (te_sample sample)))"

definition account_residual :: "tsd_thermal_eval_t \<Rightarrow> MPCController \<Rightarrow> 'a sproc_scheme \<Rightarrow> MPCController \<times> 'a sproc_scheme" where
  "account_residual sample c p =
     (if mpc_last_prediction_valid c \<and> control_temp_valid sample then
        (let residual = dbl_sub (control_temp sample) (mpc_last_prediction_millic c);
             scaled = of_int (dbl_trunc (dbl_add (dbl_fabs residual) (Fin (1 / 2))))
         in (c\<lparr>mpc_arx_model := updateResidual residual (mpc_arx_model c)\<rparr>,
             p\<lparr>metrics := tsd_metrics_add TSD_METRIC_PREDICTIVE_ABS_ERROR_MILLIC scaled (metrics p)\<rparr>))
      else (c, p))"

definition trim_history :: "nat \<Rightarrow> TelemetrySample list \<Rightarrow> TelemetrySample list" where
  "trim_history limit history = (if limit > 0 then drop (length history - limit) history else history)"

definition pushSample :: "tsd_thermal_eval_t \<Rightarrow> simd_width_t \<Rightarrow> MPCController \<Rightarrow> 'a fproc_scheme \<Rightarrow>
    cpp_exception option \<times> MPCController \<times> 'a fproc_scheme" where
  "pushSample sample width c p =
     (let (c, p) = account_residual sample c p;
          c = c\<lparr>mpc_last_prediction_valid := False\<rparr>;
          (now, p) = steady_clock_now p;
          entry = \<lparr>sa_ratio_milli = dbl_of_int (uint (te_ratio_milli sample)),
                   sa_trimmed_ratio_milli = dbl_of_int (uint (te_trimmed_ratio_milli sample)),
                   sa_severity_milli = dbl_of_int (uint (te_severity_milli sample)),
                   sa_temperature_millic = control_temp sample, sa_temp_valid = control_temp_valid sample,
                   sa_width = width, sa_timestamp = now\<rparr>
      in (case may_throw p of
            (Some e, p) \<Rightarrow> (Some e, c, p)
          | (None, p) \<Rightarrow> (None, c\<lparr>mpc_history := trim_history (historyLimit c) (mpc_history c @ [entry])\<rparr>, p)))"

section \<open>Forecasts\<close>

definition recent :: "nat \<Rightarrow> 'a list \<Rightarrow> 'a list" where
  "recent horizon xs = drop (length xs - min (length xs) horizon) xs"

definition computeForecastRatio :: "nat \<Rightarrow> MPCController \<Rightarrow> dbl" where
  "computeForecastRatio horizon c =
     (if mpc_history c = [] \<or> horizon = 0 then Fin 0
      else dbl_div (foldl (\<lambda>acc s. dbl_add acc (effective_ratio s)) (Fin 0) (recent horizon (mpc_history c)))
             (dbl_of_int (int (min (length (mpc_history c)) horizon))))"

definition dbl_max :: "dbl \<Rightarrow> dbl \<Rightarrow> dbl" where
  "dbl_max a b = (if dbl_less a b then b else a)"

definition average_temperature :: "nat \<Rightarrow> MPCController \<Rightarrow> dbl \<times> nat" where
  "average_temperature horizon c =
     (let valid = filter sa_temp_valid (recent horizon (mpc_history c));
          sum = foldl (\<lambda>acc s. dbl_add acc (sa_temperature_millic s)) (Fin 0) valid
      in (if valid = [] then Fin 0 else dbl_div sum (dbl_of_int (int (length valid))), length valid))"

text \<open>The forecast, the number of valid samples it rests on and whether the model made it.\<close>

definition computeForecastTemperature :: "nat \<Rightarrow> MPCController \<Rightarrow> dbl \<times> nat \<times> bool" where
  "computeForecastTemperature horizon c =
     (if mpc_history c = [] \<or> horizon = 0 then (Fin 0, 0, False)
      else (case (if arx_coefficients_loaded (mpc_arx_model c) then predict (mpc_history c) (mpc_arx_model c) else None) of
          Some prediction \<Rightarrow>
            (if sa_temp_valid (last (mpc_history c)) then dbl_max prediction (sa_temperature_millic (last (mpc_history c)))
             else prediction, 1, True)
        | None \<Rightarrow> (let (avg, n) = average_temperature horizon c in (avg, n, False))))"

section \<open>Scoring\<close>

definition hard_limit_valid :: "tsd_runtime_config \<Rightarrow> bool" where
  "hard_limit_valid runtime = (predictive_temp_ceiling_c runtime \<ge> 20 \<and> predictive_temp_ceiling_c runtime \<le> 125)"

definition control_step :: "simd_width_t \<Rightarrow> simd_width_t \<Rightarrow> int" where
  "control_step candidate current = int (width_rank candidate) - int (width_rank current)"

text \<open>\<^verbatim>\<open>1.0 - std::pow(0.5, step)\<close>: the power is exact until it underflows.\<close>

definition step_response :: "nat \<Rightarrow> dbl" where
  "step_response step = dbl_sub (Fin 1) (rnd64 (1 / 2 ^ step))"

definition ratio_projection :: "int \<Rightarrow> dbl \<Rightarrow> dbl \<Rightarrow> nat \<Rightarrow> MPCController \<Rightarrow> 'a proc_scheme \<Rightarrow> dbl" where
  "ratio_projection ctl forecast_ratio ratio_trend step c p =
     (let projection = dbl_add forecast_ratio (dbl_mul (dbl_mul ratio_trend (runtimeTrendWeight p)) (dbl_of_int (int step)));
          projection = dbl_sub projection (dbl_mul (dbl_mul (dbl_of_int ctl)
            (arx_width_performance_benefit_milli_per_step (mpc_arx_model c))) (step_response step))
      in if dbl_less projection (Fin 0) then Fin 0 else projection)"

definition ratio_cost :: "dbl \<Rightarrow> MPCController \<Rightarrow> dbl" where
  "ratio_cost projection c =
     (let ratio_excess = dbl_max (Fin 0) (dbl_sub projection (dbl_of_int (uint (slo_ratio_milli (mpc_config c)))))
      in dbl_add (dbl_mul ratio_excess kRatioViolationWeight) (dbl_mul projection kRatioEfficiencyWeight))"

definition temperature_projection :: "int \<Rightarrow> dbl \<Rightarrow> nat \<Rightarrow> MPCController \<Rightarrow> dbl" where
  "temperature_projection ctl forecast_temp step c =
     dbl_add forecast_temp (dbl_mul (dbl_mul (dbl_of_int ctl)
       (arx_width_temperature_millic_per_step (mpc_arx_model c))) (step_response step))"

definition temperature_cost :: "simd_width_t \<Rightarrow> int \<Rightarrow> dbl \<Rightarrow> nat \<Rightarrow> MPCController \<Rightarrow> 'a proc_scheme \<Rightarrow> dbl" where
  "temperature_cost candidate ctl forecast_temp step c p =
     (let runtime = tsd_runtime_config_active_snapshot p;
          hard_limit = dbl_mul (dbl_of_int (predictive_temp_ceiling_c runtime)) (Fin 1000)
      in if isfinite forecast_temp then
           (let projection = temperature_projection ctl forecast_temp step c;
                slo = slo_temp_millic (mpc_config c);
                excess = dbl_sub projection (dbl_of_int slo);
                temp_cost = (if slo \<noteq> 0 \<and> dbl_less (Fin 0) excess
                             then dbl_add (Fin 0) (dbl_mul excess kTemperatureWeight) else Fin 0)
            in if \<not> hard_limit_valid runtime \<and> candidate > SIMD_SSE41 then dbl_add temp_cost kHardConstraintCost
               else if hard_limit_valid runtime \<and> dbl_less hard_limit projection
               then dbl_add temp_cost (dbl_add kHardConstraintCost (dbl_sub projection hard_limit))
               else temp_cost)
         else if \<not> hard_limit_valid runtime \<and> candidate > SIMD_SSE41 then dbl_add (Fin 0) kHardConstraintCost
         else Fin 0)"

definition rollout_step ::
    "simd_width_t \<Rightarrow> simd_width_t \<Rightarrow> dbl \<Rightarrow> dbl \<Rightarrow> dbl \<Rightarrow> MPCController \<Rightarrow> 'a proc_scheme \<Rightarrow> dbl \<times> dbl \<Rightarrow> nat \<Rightarrow> dbl \<times> dbl" where
  "rollout_step candidate current forecast_ratio ratio_trend forecast_temp c p = (\<lambda>(cost, discount) step.
     (let ctl = control_step candidate current;
          rcost = ratio_cost (ratio_projection ctl forecast_ratio ratio_trend step c p) c;
          tcost = temperature_cost candidate ctl forecast_temp step c p
      in (dbl_add cost (dbl_mul discount (dbl_add rcost tcost)), dbl_mul discount kHorizonDiscount)))"

definition transition_penalty :: "simd_width_t \<Rightarrow> simd_width_t \<Rightarrow> MPCController \<Rightarrow> dbl" where
  "transition_penalty candidate current c =
     (let base_penalty = (if width_rank candidate < width_rank current
        then dbl_of_int (uint (transition_penalty_down_milli (mpc_config c)))
        else dbl_of_int (uint (transition_penalty_up_milli (mpc_config c))))
      in dbl_mul base_penalty (dbl_of_int \<bar>control_step candidate current\<bar>))"

definition scoreWidth ::
    "simd_width_t \<Rightarrow> simd_width_t \<Rightarrow> nat \<Rightarrow> dbl \<Rightarrow> dbl \<Rightarrow> dbl \<Rightarrow> MPCController \<Rightarrow> 'a proc_scheme \<Rightarrow> dbl" where
  "scoreWidth candidate current horizon forecast_ratio ratio_trend forecast_temp c p =
     (let (cost, _) = foldl (rollout_step candidate current forecast_ratio ratio_trend forecast_temp c p)
                        (Fin 0, Fin 1) [1..<Suc (max 1 horizon)]
      in if candidate \<noteq> current then dbl_add cost (transition_penalty candidate current c) else cost)"

section \<open>Recommendation\<close>

definition evaluate_width :: "simd_width_t \<Rightarrow> (simd_width_t \<Rightarrow> dbl) \<Rightarrow> dbl \<times> simd_width_t \<Rightarrow> simd_width_t \<Rightarrow> dbl \<times> simd_width_t" where
  "evaluate_width max_width score = (\<lambda>(best_cost, best_width) candidate.
     (if width_rank candidate > width_rank max_width then (best_cost, best_width)
      else if dbl_less (dbl_add (score candidate) kStabilityMargin) best_cost then (score candidate, candidate)
      else (best_cost, best_width)))"

definition best_candidate :: "simd_width_t \<Rightarrow> simd_width_t \<Rightarrow> (simd_width_t \<Rightarrow> dbl) \<Rightarrow> dbl \<times> simd_width_t" where
  "best_candidate current max_width score =
     foldl (evaluate_width max_width score) (PInf, current) [current, SIMD_SSE41, SIMD_AVX2, SIMD_AVX512]"

definition decide :: "simd_width_t \<Rightarrow> simd_width_t \<Rightarrow> (simd_width_t \<Rightarrow> dbl) \<Rightarrow> simd_width_t option" where
  "decide current max_width score =
     (let (best_cost, best_width) = best_candidate current max_width score
      in if best_width = current then None
         else if dbl_less (dbl_sub (score current) best_cost) kMinImprovement then None
         else Some best_width)"

definition ratio_trend :: "nat \<Rightarrow> TelemetrySample list \<Rightarrow> dbl" where
  "ratio_trend horizon history =
     (if horizon > 1
      then dbl_div (dbl_sub (sa_ratio_milli (last history)) (sa_ratio_milli (hd (recent horizon history))))
             (dbl_of_int (int (horizon - 1)))
      else Fin 0)"

definition milliseconds :: "int \<Rightarrow> int" where
  "milliseconds ns = (if ns < 0 then - (- ns div 1000000) else ns div 1000000)"

text \<open>Without the model and without a valid temperature there is no forecast.\<close>

definition forecast_temperature :: "nat \<Rightarrow> MPCController \<Rightarrow> dbl \<times> bool" where
  "forecast_temperature horizon c =
     (let (forecast_temp, temp_valid_count, used_model) = computeForecastTemperature horizon c
      in (if \<not> used_model \<and> temp_valid_count = 0 then NaN else forecast_temp, used_model))"

definition decision_horizon :: "MPCController \<Rightarrow> nat" where
  "decision_horizon c = min (length (mpc_history c)) (unat (forecast_horizon (mpc_config c)))"

definition candidate_score :: "simd_width_t \<Rightarrow> MPCController \<Rightarrow> 'a proc_scheme \<Rightarrow> simd_width_t \<Rightarrow> dbl" where
  "candidate_score current c p candidate =
     (let horizon = decision_horizon c
      in scoreWidth candidate current horizon (computeForecastRatio horizon c) (ratio_trend horizon (mpc_history c))
           (fst (forecast_temperature horizon c)) c p)"

text \<open>\<open>None\<close> is the result false, with \<^verbatim>\<open>out_width\<close> as it was or the current width.\<close>

definition mpc_recommend :: "simd_width_t \<Rightarrow> simd_width_t \<Rightarrow> MPCController \<Rightarrow> 'a sproc_scheme \<Rightarrow>
    simd_width_t option \<times> MPCController \<times> 'a sproc_scheme" where
  "mpc_recommend current max_width c p =
     (if mpc_history c = [] \<or> decision_horizon c = 0 then (None, c, p)
      else let (now, p) = steady_clock_now p
           in if milliseconds (now - sa_timestamp (last (mpc_history c))) > mpc_staleness_window c
              then (None, c, count_metric TSD_METRIC_PREDICTIVE_STALE_SAMPLES p)
              else let (forecast_temp, used_model) = forecast_temperature (decision_horizon c) c;
                       p = (if used_model then count_metric TSD_METRIC_PREDICTIVE_FORECASTS p else p);
                       c' = c\<lparr>mpc_last_prediction_millic := forecast_temp, mpc_last_prediction_valid := used_model\<rparr>
                   in (case decide current max_width (candidate_score current c p) of
                         None \<Rightarrow> (None, c', p)
                       | Some target \<Rightarrow> (Some target, c', count_metric TSD_METRIC_PREDICTIVE_DECISIONS p)))"

section \<open>The choice of a width\<close>

lemma evaluate_width_cases:
  "evaluate_width max_width score (b, w) candidate =
     (if \<not> width_rank candidate > width_rank max_width \<and> dbl_less (dbl_add (score candidate) kStabilityMargin) b
      then (score candidate, candidate) else (b, w))"
  by (simp add: evaluate_width_def)

text \<open>
  What holds of the best candidate after a list of candidates: it is the start or an admissible candidate with its score,
  and no admissible candidate seen is better by more than the margin.
\<close>

definition best_of :: "simd_width_t \<Rightarrow> (simd_width_t \<Rightarrow> dbl) \<Rightarrow> simd_width_t \<Rightarrow> simd_width_t list \<Rightarrow> dbl \<times> simd_width_t \<Rightarrow> bool" where
  "best_of max_width score current seen best \<longleftrightarrow>
     (best = (PInf, current) \<or> (snd best \<in> set seen \<and> snd best \<le> max_width \<and> fst best = score (snd best))) \<and>
     (\<forall>w \<in> set seen. w \<le> max_width \<longrightarrow> \<not> dbl_less (dbl_add (score w) kStabilityMargin) (fst best))"

lemma best_of_step:
  assumes is_dbl: "\<And>w. is_dbl (score w)" and best: "best_of max_width score current seen best"
  shows "best_of max_width score current (seen @ [w]) (evaluate_width max_width score best w)"
proof -
  obtain b v where bv: "best = (b, v)" by fastforce
  have below: "dbl_less (score w) b" if "dbl_less (dbl_add (score w) kStabilityMargin) b"
    using dbl_less_of_margin [OF is_dbl _ that] by simp
  have not_self: "\<not> dbl_less (dbl_add (score w) kStabilityMargin) (score w)"
    using dbl_less_of_margin [OF is_dbl, of "1 / 4" w "score w"] by (cases "score w") auto
  show ?thesis
    using best below not_self dbl_less_trans
    by (auto simp: bv best_of_def evaluate_width_cases less_eq_simd_width_t_def not_less)
qed

lemma best_of_fold:
  assumes "\<And>w. is_dbl (score w)"
  shows "best_of max_width score current seen best \<Longrightarrow>
    best_of max_width score current (seen @ ws) (foldl (evaluate_width max_width score) best ws)"
  by (induction ws arbitrary: seen best) (use best_of_step [OF assms] in fastforce)+

lemma decide_sound:
  assumes is_dbl: "\<And>w. is_dbl (score w)" and target: "decide current max_width score = Some t"
  shows "t \<noteq> current" "t \<le> max_width" "width_valid t" "\<not> dbl_less (dbl_sub (score current) (score t)) kMinImprovement"
    "w \<in> {current, SIMD_SSE41, SIMD_AVX2, SIMD_AVX512} \<Longrightarrow> w \<le> max_width \<Longrightarrow>
       \<not> dbl_less (dbl_add (score w) kStabilityMargin) (score t)"
proof -
  let ?ws = "[current, SIMD_SSE41, SIMD_AVX2, SIMD_AVX512]"
  obtain b v where bv: "best_candidate current max_width score = (b, v)" by fastforce
  have "best_of max_width score current [] (PInf, current)" by (simp add: best_of_def)
  then have "best_of max_width score current ?ws (b, v)"
    using best_of_fold [where max_width = max_width and score = score and current = current and seen = "[]" and
        best = "(PInf, current)" and ws = ?ws, OF is_dbl] bv by (simp add: best_candidate_def)
  moreover have t: "v = t" "t \<noteq> current" "\<not> dbl_less (dbl_sub (score current) b) kMinImprovement"
    using target bv by (auto simp: decide_def split: if_splits)
  ultimately have best: "t \<in> set ?ws" "t \<le> max_width" "b = score t"
    "\<forall>w \<in> set ?ws. w \<le> max_width \<longrightarrow> \<not> dbl_less (dbl_add (score w) kStabilityMargin) b"
    by (auto simp: best_of_def)
  show "t \<noteq> current" "t \<le> max_width" using t best by simp_all
  show "width_valid t" using t best by auto
  show "\<not> dbl_less (dbl_sub (score current) (score t)) kMinImprovement" using t best by simp
  show "\<not> dbl_less (dbl_add (score w) kStabilityMargin) (score t)"
    if "w \<in> {current, SIMD_SSE41, SIMD_AVX2, SIMD_AVX512}" "w \<le> max_width" using that best by auto
qed

lemma score_is_dbl: "is_dbl (scoreWidth w current horizon fr tr ft c p)"
proof -
  have "[1..<Suc (max 1 horizon)] \<noteq> []" by simp
  then obtain s ss where steps: "[1..<Suc (max 1 horizon)] = ss @ [s]" by (metis rev_exhaust)
  have "is_dbl (fst (foldl (rollout_step w current fr tr ft c p) (Fin 0, Fin 1) [1..<Suc (max 1 horizon)]))"
    unfolding steps by (simp add: rollout_step_def Let_def split: prod.splits)
  then show ?thesis by (auto simp: scoreWidth_def simp del: upt_Suc split: prod.splits)
qed

lemma candidate_score_cong:
  "tsd_runtime_config_active_snapshot p = tsd_runtime_config_active_snapshot q \<Longrightarrow>
     candidate_score current c p = candidate_score current c q"
  by (rule ext) (simp add: candidate_score_def scoreWidth_def rollout_step_def ratio_projection_def runtimeTrendWeight_def
    temperature_cost_def Let_def)

lemma steady_clock_snapshot:
  "steady_clock_now p = (now, q) \<Longrightarrow> tsd_runtime_config_active_snapshot q = tsd_runtime_config_active_snapshot p \<and>
     steady_now p \<le> now \<and> now = steady_now q"
  by (auto simp: steady_clock_now_def clock_gettime_def tsd_runtime_config_active_snapshot_def Let_def
    split: option.splits prod.splits)

lemma count_metric_snapshot:
  "tsd_runtime_config_active_snapshot (count_metric m p) = tsd_runtime_config_active_snapshot p"
  by (simp add: count_metric_def tsd_runtime_config_active_snapshot_def)

lemma mpc_recommend_some:
  assumes "mpc_recommend current max_width c p = (Some t, c', q)"
  shows "decide current max_width (candidate_score current c p) = Some t" "mpc_history c \<noteq> []"
    "\<exists>now \<ge> steady_now p. milliseconds (now - sa_timestamp (last (mpc_history c))) \<le> mpc_staleness_window c \<and> now = steady_now q"
proof -
  obtain now p1 where clock: "steady_clock_now p = (now, p1)" by fastforce
  obtain ft used where f: "forecast_temperature (decision_horizon c) c = (ft, used)" by fastforce
  let ?p = "if used then count_metric TSD_METRIC_PREDICTIVE_FORECASTS p1 else p1"
  note split = assms [unfolded mpc_recommend_def clock f Let_def case_prod_conv]
  have d: "decide current max_width (candidate_score current c ?p) = Some t" and ne: "mpc_history c \<noteq> []" and
    fresh: "milliseconds (now - sa_timestamp (last (mpc_history c))) \<le> mpc_staleness_window c" and
    q: "q = count_metric TSD_METRIC_PREDICTIVE_DECISIONS ?p"
    using split by (auto split: if_splits option.splits)
  have "candidate_score current c ?p = candidate_score current c p"
    using steady_clock_snapshot [OF clock] by (intro candidate_score_cong) (simp add: count_metric_snapshot)
  with d show "decide current max_width (candidate_score current c p) = Some t" by simp
  show "mpc_history c \<noteq> []" by (rule ne)
  show "\<exists>now \<ge> steady_now p. milliseconds (now - sa_timestamp (last (mpc_history c))) \<le> mpc_staleness_window c \<and> now = steady_now q"
    using fresh steady_clock_snapshot [OF clock] q by (auto simp: count_metric_def)
qed

section \<open>Invariant\<close>

text \<open>
  The model is well formed, the window is positive and the history covers the horizon. \<open>mpc_ready\<close> adds that it covers
  what the loaded model needs; only a reset that throws can leave a controller without it.
\<close>

definition mpc_wf :: "MPCController \<Rightarrow> bool" where
  "mpc_wf c \<longleftrightarrow> arx_wf (mpc_arx_model c) \<and> mpc_staleness_window c > 0 \<and>
     horizon_limit (mpc_config c) \<le> mpc_history_limit c"

definition mpc_ready :: "MPCController \<Rightarrow> bool" where
  "mpc_ready c \<longleftrightarrow> mpc_wf c \<and>
     (arx_coefficients_loaded (mpc_arx_model c) \<longrightarrow> arx_required_history (mpc_arx_model c) \<le> mpc_history_limit c)"

lemma horizon_limit_pos: "horizon_limit config \<ge> 1"
  by (simp add: horizon_limit_def)

lemma load_coefficients_wf:
  assumes load: "loadCoefficients c p = (r, c', q)" and wf: "mpc_wf c"
  shows "mpc_wf c'" "r = Inr b \<Longrightarrow> mpc_ready c'" "mpc_ready c \<Longrightarrow> mpc_ready c'"
    "mpc_history c' = mpc_history c" "mpc_config c' = mpc_config c"
proof -
  obtain e p1 where t: "may_throw p = (e, p1)" by fastforce
  obtain lr m p2 where l: "loadFromFile (mpc_coeff_path c) (mpc_arx_model c) p1 = (lr, m, p2)" by (metis prod_cases3)
  have m: "arx_wf m" using load_wf [OF _ l] wf by (simp add: mpc_wf_def)
  have unloaded: "lr = Inl x \<Longrightarrow> \<not> arx_coefficients_loaded m" for x
    using l by (cases rule: load_cases [of "mpc_coeff_path c" "mpc_arx_model c" p1]) auto
  note unfolded = load [unfolded loadCoefficients_def t l Let_def case_prod_conv]
  consider e' where "e = Some e'" "r = Inl e'" "c' = c"
    | x where "e = None" "lr = Inl x" "c' = c\<lparr>mpc_arx_model := m, mpc_staleness_window := kDefaultStalenessWindow,
                             mpc_history_limit := horizon_limit (mpc_config c)\<rparr>"
    | "e = None" "lr = Inr ()" "c' = c\<lparr>mpc_arx_model := resetResidual m,
                             mpc_staleness_window := usable_window (arx_staleness_window_ms m),
                             mpc_history_limit := max (horizon_limit (mpc_config c)) (arx_required_history m)\<rparr>"
    using unfolded by (cases e; cases lr) (auto split: if_splits)
  then have "mpc_wf c' \<and> (r = Inr b \<longrightarrow> mpc_ready c') \<and> (mpc_ready c \<longrightarrow> mpc_ready c') \<and>
      mpc_history c' = mpc_history c \<and> mpc_config c' = mpc_config c"
  proof cases
    case 3
    then show ?thesis
      using wf residual_wf(2) [OF m] by (simp add: mpc_wf_def mpc_ready_def resetResidual_def usable_window_def Let_def)
  qed (use wf m unloaded in \<open>auto simp: mpc_wf_def mpc_ready_def\<close>)
  then show "mpc_wf c'" "r = Inr b \<Longrightarrow> mpc_ready c'" "mpc_ready c \<Longrightarrow> mpc_ready c'"
    "mpc_history c' = mpc_history c" "mpc_config c' = mpc_config c" by auto
qed

section \<open>What the controller changes in the process\<close>

definition mpc_frame :: "'a fproc_scheme \<Rightarrow> 'a fproc_scheme \<Rightarrow> bool" where
  "mpc_frame p q \<longleftrightarrow> (\<exists>t m c n e. steady_now p \<le> t \<and>
     q = p\<lparr>steady_now := t, metrics := m, clock_results := c, sys_calls := n, cpp_throws := e\<rparr>)"

lemma mpc_frameI:
  "steady_now p \<le> t \<Longrightarrow> mpc_frame p (p\<lparr>steady_now := t, metrics := m, clock_results := c, sys_calls := n, cpp_throws := e\<rparr>)"
  unfolding mpc_frame_def by blast

lemma mpc_frame_refl: "mpc_frame p p"
  using mpc_frameI [where p = p and t = "steady_now p" and m = "metrics p" and c = "clock_results p" and n = "sys_calls p" and e = "cpp_throws p"] by simp

lemma mpc_frame_trans:
  assumes "mpc_frame p q" "mpc_frame q r"
  shows "mpc_frame p r"
proof -
  obtain t m c n e where q: "q = p\<lparr>steady_now := t, metrics := m, clock_results := c, sys_calls := n, cpp_throws := e\<rparr>"
    and t: "steady_now p \<le> t" using assms(1) by (auto simp: mpc_frame_def)
  obtain t' m' c' n' e' where r: "r = q\<lparr>steady_now := t', metrics := m', clock_results := c', sys_calls := n', cpp_throws := e'\<rparr>"
    and t': "steady_now q \<le> t'" using assms(2) by (auto simp: mpc_frame_def)
  have "r = p\<lparr>steady_now := t', metrics := m', clock_results := c', sys_calls := n', cpp_throws := e'\<rparr>" by (simp add: q r)
  moreover have "steady_now p \<le> t'" using t t' q by simp
  ultimately show ?thesis by (simp add: mpc_frameI)
qed

lemma mpc_frame_basic:
  "may_throw p = (e, q) \<Longrightarrow> mpc_frame p q"
  "steady_clock_now p = (now, q) \<Longrightarrow> mpc_frame p q"
  "mpc_frame p (count_metric i p)"
  "mpc_frame p (p\<lparr>metrics := m\<rparr>)"
  "mpc_frame p (sys_tick p)"
proof -
  show "mpc_frame p q" if "may_throw p = (e, q)"
    using that mpc_frameI [where p = p and t = "steady_now p" and m = "metrics p" and c = "clock_results p" and n = "sys_calls p" and e = "cpp_throws q"]
    by (auto simp: may_throw_def Let_def split: prod.splits)
  show "mpc_frame p q" if clock: "steady_clock_now p = (now, q)"
  proof -
    obtain c where "q = p\<lparr>steady_now := now, clock_results := c\<rparr>" "steady_now p \<le> now"
      using steady_clock_step [OF clock] by blast
    then show ?thesis
      using mpc_frameI [where p = p and t = now and m = "metrics p" and c = c and n = "sys_calls p" and e = "cpp_throws p"] by simp
  qed
  show "mpc_frame p (count_metric i p)" "mpc_frame p (p\<lparr>metrics := m\<rparr>)"
    using mpc_frameI [where p = p and t = "steady_now p" and c = "clock_results p" and n = "sys_calls p" and e = "cpp_throws p"] by (simp_all add: count_metric_def)
  show "mpc_frame p (sys_tick p)"
    using mpc_frameI [where p = p and t = "steady_now p" and m = "metrics p" and c = "clock_results p" and n = "Suc (sys_calls p)" and e = "cpp_throws p"]
    by (simp add: sys_tick_def)
qed

lemma resolve_path_frame: "resolveCoefficientPath p = (r, q) \<Longrightarrow> mpc_frame p q"
proof -
  assume "resolveCoefficientPath p = (r, q)"
  then obtain e p1 where "may_throw p1 = (e, q)" "p1 = p \<or> p1 = sys_tick p"
    by (auto simp: resolveCoefficientPath_def fileReadable_def read_file_def Let_def
      split: option.splits list.splits if_splits prod.splits)
  then show ?thesis using mpc_frame_basic(1,5) mpc_frame_trans by metis
qed

lemma load_coefficients_frame: "loadCoefficients c p = (r, c', q) \<Longrightarrow> mpc_frame p q"
proof -
  assume load: "loadCoefficients c p = (r, c', q)"
  obtain e p1 where t: "may_throw p = (e, p1)" by fastforce
  then have p1: "mpc_frame p p1" by (rule mpc_frame_basic)
  show ?thesis
  proof (cases e)
    case None
    have "q = count_metric TSD_METRIC_PREDICTIVE_RELOAD_ERRORS (sys_tick p1) \<or>
        q = count_metric TSD_METRIC_PREDICTIVE_RELOADS (sys_tick p1)"
      using load by (cases rule: load_cases [of "mpc_coeff_path c" "mpc_arx_model c" p1]) (auto simp: loadCoefficients_def t None)
    then have "mpc_frame p1 q"
      using mpc_frame_trans [OF mpc_frame_basic(5) mpc_frame_basic(3)] by auto
    with p1 show ?thesis by (rule mpc_frame_trans)
  next
    case (Some x)
    then show ?thesis using load p1 by (simp add: loadCoefficients_def t)
  qed
qed

lemma mpc_reset_result:
  assumes reset: "mpc_reset config c p = (r, c', q)" and wf: "arx_wf (mpc_arx_model c)"
  shows "mpc_frame p q" "mpc_wf c'" "r = None \<Longrightarrow> mpc_ready c'" "mpc_history c' = []" "mpc_config c' = config"
proof -
  let ?c = "c\<lparr>mpc_config := config, mpc_history := [], mpc_arx_model := resetResidual (mpc_arx_model c),
     mpc_staleness_window := kDefaultStalenessWindow, mpc_last_prediction_millic := Fin 0,
     mpc_last_prediction_valid := False, mpc_history_limit := horizon_limit config\<rparr>"
  obtain pr p1 where path: "resolveCoefficientPath p = (pr, p1)" by fastforce
  have wf': "mpc_wf (?c\<lparr>mpc_coeff_path := s\<rparr>)" "mpc_wf ?c" for s using residual_wf(2) [OF wf] by (simp_all add: mpc_wf_def)
  have "mpc_frame p q \<and> mpc_wf c' \<and> (r = None \<longrightarrow> mpc_ready c') \<and> mpc_history c' = [] \<and> mpc_config c' = config"
  proof (cases pr)
    case (Inl e)
    then have "q = p1" "c' = ?c" "r = Some e" using reset by (simp_all add: mpc_reset_def path)
    then show ?thesis using resolve_path_frame [OF path] wf'(2) by simp
  next
    case (Inr s)
    obtain lr c1 p2 where l: "loadCoefficients (?c\<lparr>mpc_coeff_path := s\<rparr>) p1 = (lr, c1, p2)" by (metis prod_cases3)
    have res: "c' = c1" "q = p2" "r = None \<Longrightarrow> \<exists>b. lr = Inr b"
      using reset by (auto simp: mpc_reset_def path Inr l split: sum.splits)
    show ?thesis
      using load_coefficients_wf [OF l wf'(1)] load_coefficients_frame [OF l] resolve_path_frame [OF path]
        mpc_frame_trans res by auto
  qed
  then show "mpc_frame p q" "mpc_wf c'" "r = None \<Longrightarrow> mpc_ready c'" "mpc_history c' = []" "mpc_config c' = config" by auto
qed

lemma mpc_construct_result:
  assumes "mpc_construct config p = (r, q)"
  shows "mpc_frame p q" "r = Inr c \<Longrightarrow> mpc_ready c \<and> mpc_history c = [] \<and> mpc_config c = config"
proof -
  obtain pr p1 where path: "resolveCoefficientPath p = (pr, p1)" by fastforce
  have "mpc_frame p q \<and> (r = Inr c \<longrightarrow> mpc_ready c \<and> mpc_history c = [] \<and> mpc_config c = config)"
  proof (cases pr)
    case (Inl e)
    then show ?thesis using assms resolve_path_frame [OF path] by (auto simp: mpc_construct_def path)
  next
    case (Inr s)
    obtain e c1 p2 where l: "mpc_reset config ((mpc_blank config)\<lparr>mpc_coeff_path := s\<rparr>) p1 = (e, c1, p2)" by (metis prod_cases3)
    have "arx_wf (mpc_arx_model ((mpc_blank config)\<lparr>mpc_coeff_path := s\<rparr>))" by (simp add: mpc_blank_def arx_init_wf)
    note reset = mpc_reset_result [OF l this]
    show ?thesis
      using assms reset resolve_path_frame [OF path] mpc_frame_trans [of p p1 p2]
      by (auto simp: mpc_construct_def path Inr l split: option.splits)
  qed
  then show "mpc_frame p q" "r = Inr c \<Longrightarrow> mpc_ready c \<and> mpc_history c = [] \<and> mpc_config c = config" by auto
qed

lemma updateResidual_keeps:
  "arx_coefficients_loaded (updateResidual r m) = arx_coefficients_loaded m"
  "arx_required_history (updateResidual r m) = arx_required_history m"
  by (simp_all add: updateResidual_def)

lemma account_residual_result:
  assumes "account_residual sample c p = (c', q)" "mpc_wf c"
  shows "mpc_frame p q" "mpc_wf c'" "mpc_ready c \<Longrightarrow> mpc_ready c'" "mpc_history c' = mpc_history c"
    "mpc_history_limit c' = mpc_history_limit c" "mpc_config c' = mpc_config c"
  using assms mpc_frame_basic(4) [of p] mpc_frame_refl [of p] residual_wf(1) [of "mpc_arx_model c"]
  by (auto simp: account_residual_def Let_def mpc_wf_def mpc_ready_def updateResidual_keeps split: if_splits)

lemma history_limit_pos: "mpc_wf c \<Longrightarrow> historyLimit c = mpc_history_limit c \<and> mpc_history_limit c \<ge> 1"
  using horizon_limit_pos [of "mpc_config c"] by (auto simp: historyLimit_def mpc_wf_def)

lemma push_sample_result:
  assumes push: "pushSample sample width c p = (r, c', q)" and wf: "mpc_wf c"
  shows "mpc_frame p q" "mpc_wf c'" "mpc_ready c \<Longrightarrow> mpc_ready c'"
    "r \<noteq> None \<Longrightarrow> mpc_history c' = mpc_history c" "mpc_history_limit c' = mpc_history_limit c"
    "r = None \<Longrightarrow> \<exists>entry. sa_width entry = width \<and> sa_temp_valid entry = control_temp_valid sample \<and>
       sa_timestamp entry = steady_now q \<and>
       mpc_history c' = drop (Suc (length (mpc_history c)) - mpc_history_limit c) (mpc_history c @ [entry])"
proof -
  obtain c1 p1 where a: "account_residual sample c p = (c1, p1)" by fastforce
  note res = account_residual_result [OF a wf]
  obtain now p2 where clk: "steady_clock_now p1 = (now, p2)" by fastforce
  obtain e p3 where t: "may_throw p2 = (e, p3)" by fastforce
  let ?entry = "\<lparr>sa_ratio_milli = dbl_of_int (uint (te_ratio_milli sample)),
     sa_trimmed_ratio_milli = dbl_of_int (uint (te_trimmed_ratio_milli sample)),
     sa_severity_milli = dbl_of_int (uint (te_severity_milli sample)),
     sa_temperature_millic = control_temp sample, sa_temp_valid = control_temp_valid sample,
     sa_width = width, sa_timestamp = now\<rparr>"
  let ?c = "c1\<lparr>mpc_last_prediction_valid := False\<rparr>"
  have wf': "mpc_wf ?c" "mpc_ready c \<Longrightarrow> mpc_ready ?c" using res by (auto simp: mpc_wf_def mpc_ready_def)
  have lim: "historyLimit ?c = mpc_history_limit c" "mpc_history_limit c \<ge> 1"
    using history_limit_pos [OF wf'(1)] res by simp_all
  have out: "q = p3" "r = e" "c' = (if e = None then ?c\<lparr>mpc_history := trim_history (historyLimit ?c) (mpc_history ?c @ [?entry])\<rparr> else ?c)"
    using push by (auto simp: pushSample_def a clk t Let_def split: option.splits)
  show "mpc_frame p q"
    unfolding out(1) using mpc_frame_trans [OF mpc_frame_trans [OF res(1) mpc_frame_basic(2) [OF clk]] mpc_frame_basic(1) [OF t]] .
  show "mpc_wf c'" "mpc_ready c \<Longrightarrow> mpc_ready c'" "r \<noteq> None \<Longrightarrow> mpc_history c' = mpc_history c"
    "mpc_history_limit c' = mpc_history_limit c"
    using out wf' res by (auto simp: mpc_wf_def mpc_ready_def)
  have "steady_now q = now"
    using steady_clock_snapshot [OF clk] t out(1) by (auto simp: may_throw_def Let_def split: prod.splits)
  then show "\<exists>entry. sa_width entry = width \<and> sa_temp_valid entry = control_temp_valid sample \<and>
      sa_timestamp entry = steady_now q \<and>
      mpc_history c' = drop (Suc (length (mpc_history c)) - mpc_history_limit c) (mpc_history c @ [entry])" if "r = None"
    using that out lim res(4) by (intro exI [of _ ?entry]) (simp add: trim_history_def del: drop_append)
qed

lemma mpc_recommend_result:
  assumes "mpc_recommend current max_width c p = (r, c', q)"
  shows "mpc_frame p q" "mpc_wf c \<Longrightarrow> mpc_wf c'" "mpc_ready c \<Longrightarrow> mpc_ready c'" "mpc_history c' = mpc_history c"
proof -
  obtain now p1 where clk: "steady_clock_now p = (now, p1)" by fastforce
  obtain ft used where f: "forecast_temperature (decision_horizon c) c = (ft, used)" by fastforce
  let ?p = "if used then count_metric TSD_METRIC_PREDICTIVE_FORECASTS p1 else p1"
  note unfolded = assms [unfolded mpc_recommend_def clk f Let_def case_prod_conv]
  have c': "c' = c \<or> c' = c\<lparr>mpc_last_prediction_millic := ft, mpc_last_prediction_valid := used\<rparr>"
    using unfolded by (auto split: if_splits option.splits)
  then show "mpc_wf c \<Longrightarrow> mpc_wf c'" "mpc_ready c \<Longrightarrow> mpc_ready c'" "mpc_history c' = mpc_history c"
    by (auto simp: mpc_wf_def mpc_ready_def)
  have p1: "mpc_frame p p1" using clk by (rule mpc_frame_basic)
  then have "mpc_frame p ?p" using mpc_frame_trans [OF p1 mpc_frame_basic(3)] by simp
  moreover have "q = p \<or> q = ?p \<or> (\<exists>m. q = count_metric m p1) \<or> (\<exists>m. q = count_metric m ?p)"
    using unfolded by (auto split: if_splits option.splits)
  ultimately show "mpc_frame p q"
    using mpc_frame_refl mpc_frame_trans [OF p1 mpc_frame_basic(3)] mpc_frame_trans [of p ?p, OF _ mpc_frame_basic(3)] by metis
qed

lemma mpc_recommend_target:
  assumes "mpc_recommend current max_width c p = (Some t, c', q)"
  shows "t \<noteq> current" "t \<le> max_width" "width_valid t"
proof -
  have is_dbl: "\<And>w. is_dbl (candidate_score current c p w)"
    unfolding candidate_score_def Let_def by (rule score_is_dbl)
  show "t \<noteq> current" "t \<le> max_width" "width_valid t"
    using decide_sound(1-3) [OF is_dbl mpc_recommend_some(1) [OF assms]] by simp_all
qed

section \<open>Properties\<close>

text \<open>
  C25. A recommendation of the optimizer names another, valid width not beyond the maximum; it rests on a
  sample no older than the staleness window; by its scores it improves on the current width by at least the minimal improvement,
  and no admissible width is better than it by more than the stability margin (with rounding arithmetic throughout).
\<close>
theorem mpc_recommendation_sound:
  assumes "mpc_recommend current max_width c p = (Some t, c', q)"
  shows "t \<noteq> current \<and> t \<le> max_width \<and> width_valid t \<and>
    milliseconds (steady_now q - sa_timestamp (last (mpc_history c))) \<le> mpc_staleness_window c \<and>
    \<not> dbl_less (dbl_sub (candidate_score current c p current) (candidate_score current c p t)) kMinImprovement \<and>
    (\<forall>w \<in> {current, SIMD_SSE41, SIMD_AVX2, SIMD_AVX512}. w \<le> max_width \<longrightarrow>
       \<not> dbl_less (dbl_add (candidate_score current c p w) kStabilityMargin) (candidate_score current c p t))"
proof -
  have is_dbl: "\<And>w. is_dbl (candidate_score current c p w)"
    unfolding candidate_score_def Let_def by (rule score_is_dbl)
  show ?thesis
    using decide_sound [OF is_dbl mpc_recommend_some(1) [OF assms]] mpc_recommend_some(3) [OF assms] by auto
qed

definition example_mpc :: MPCController where
  "example_mpc = (mpc_blank zero_policy_config)\<lparr>mpc_config := zero_policy_config\<lparr>slo_temp_millic := 80000, forecast_horizon := 1\<rparr>,
     mpc_history := [\<lparr>sa_ratio_milli = Fin 0, sa_trimmed_ratio_milli = Fin 0, sa_severity_milli = Fin 0,
       sa_temperature_millic = Fin 90000, sa_temp_valid = True, sa_width = SIMD_AVX2, sa_timestamp = 0\<rparr>],
     mpc_arx_model := arx_model_init\<lparr>arx_width_performance_benefit_milli_per_step := Fin 0\<rparr>,
     mpc_staleness_window := 500, mpc_history_limit := 1\<rparr>"

lemma rnd64_numerals:
  "numeral k < (2 ^ 53 :: int) \<Longrightarrow> rnd64 (numeral k) = Fin (numeral k)"
  "numeral k < (2 ^ 53 :: int) \<Longrightarrow> rnd64 (- numeral k) = Fin (- numeral k)"
  "rnd64 1 = Fin 1" "rnd64 (- 1) = Fin (- 1)" "rnd64 0 = Fin 0" "rnd64 (1 / 2) = Fin (1 / 2)"
  using rnd64_int [of "numeral k"] rnd64_int [of "- numeral k"] rnd64_int [of 1] rnd64_int [of "- 1"] rnd64_int [of 0]
    rnd64_grid [of 1 "- 1"] by (simp_all add: pow2_def)

lemma example_mpc_score:
  assumes "tsd_runtime_config_active_snapshot p = k_default_config"
  shows "candidate_score SIMD_AVX2 example_mpc p SIMD_AVX2 = Fin 2500"
    "candidate_score SIMD_AVX2 example_mpc p SIMD_SSE41 = Fin 2250"
proof -
  obtain r where r: "rnd64 (1 / 20) = Fin r" by (rule rnd64_finite [of "1 / 20"]) simp_all
  have d: "[1..<Suc (max 1 1)] = [1::nat]" by simp
  show "candidate_score SIMD_AVX2 example_mpc p SIMD_AVX2 = Fin 2500"
    "candidate_score SIMD_AVX2 example_mpc p SIMD_SSE41 = Fin 2250"
    using assms
    by (simp_all add: example_mpc_def mpc_blank_def candidate_score_def decision_horizon_def scoreWidth_def d rollout_step_def
      ratio_projection_def ratio_cost_def temperature_cost_def temperature_projection_def transition_penalty_def
      control_step_def step_response_def computeForecastRatio_def forecast_temperature_def computeForecastTemperature_def
      average_temperature_def recent_def effective_ratio_def ratio_trend_def runtimeTrendWeight_def hard_limit_valid_def
      arx_model_init_def zero_policy_config_def k_default_config_def dbl_sub_def dbl_max_def dbl_of_int_def rnd64_numerals r Let_def)
qed

lemma example_mpc_decides:
  assumes "tsd_runtime_config_active_snapshot p = k_default_config"
  shows "decide SIMD_AVX2 SIMD_AVX2 (candidate_score SIMD_AVX2 example_mpc p) = Some SIMD_SSE41"
proof -
  have "rnd64 (10001 / 4) = Fin (10001 / 4)" "rnd64 (9001 / 4) = Fin (9001 / 4)"
    using rnd64_quarters [of 10001] rnd64_quarters [of 9001] by simp_all
  then show ?thesis
    by (simp add: decide_def best_candidate_def evaluate_width_def example_mpc_score [OF assms] dbl_sub_def rnd64_numerals)
qed

theorem mpc_recommendation_sound_witness:
  "\<exists>c q. mpc_recommend SIMD_AVX2 SIMD_AVX2 example_mpc (example_pproc\<lparr>global_config := k_default_config\<rparr>) =
     (Some SIMD_SSE41, c, q) \<and> milliseconds (steady_now q) \<le> 500 \<and>
     \<not> dbl_less (dbl_sub (Fin 2500) (Fin 2250)) kMinImprovement"
proof -
  let ?p = "example_pproc\<lparr>global_config := k_default_config\<rparr>"
  have snap: "tsd_runtime_config_active_snapshot ?p = k_default_config" "steady_now ?p = 0" "clock_results ?p = []"
    by (simp_all add: tsd_runtime_config_active_snapshot_def example_pproc_def example_fproc_def example_sproc_def proc_init_def
      fproc.defs sproc.defs proc.defs)
  have clk: "steady_clock_now ?p = (0, ?p)" using snap by (simp add: steady_clock_now_def clock_gettime_def)
  have ft: "forecast_temperature (decision_horizon example_mpc) example_mpc = (Fin 90000, False)"
    by (simp add: forecast_temperature_def decision_horizon_def example_mpc_def mpc_blank_def computeForecastTemperature_def
      average_temperature_def recent_def arx_model_init_def zero_policy_config_def rnd64_numerals dbl_of_int_def Let_def)
  have h: "mpc_history example_mpc \<noteq> []" "decision_horizon example_mpc \<noteq> 0" "sa_timestamp (last (mpc_history example_mpc)) = 0"
    "mpc_staleness_window example_mpc = 500"
    by (simp_all add: example_mpc_def mpc_blank_def decision_horizon_def zero_policy_config_def)
  obtain c q where r: "mpc_recommend SIMD_AVX2 SIMD_AVX2 example_mpc ?p = (Some SIMD_SSE41, c, q)"
    by (simp add: mpc_recommend_def clk ft h example_mpc_decides [OF snap(1)] milliseconds_def)
  then show ?thesis
    using mpc_recommendation_sound [OF r] h example_mpc_score [OF snap(1)] by auto
qed

end
