(* ===== verification/Dispatcher_Policy.thy ===== *)
theory Dispatcher_Policy
  imports MPC_Controller
begin

text \<open>
  \<^verbatim>\<open>src/policy/dispatcher_policy.cpp\<close>: the C interface of the policy. It puts the temperature limits of the runtime around
  the optimizer's recommendations and turns every C++ exception into a fallback that admits no wide width.
  A call on a null handle returns at once and destroying a state only frees it.
\<close>

section \<open>State\<close>

record DispatcherPolicyState =
  dp_config :: tsd_policy_config
  dp_fallback_active :: bool
  dp_last_temp_available :: bool
  dp_last_temp_millic :: int
  dp_have_sample :: bool
  dp_temp_ceiling_c :: int
  dp_safety_margin_c :: int
  dp_emergency_margin_c :: int
  dp_controller :: "MPCController option"

definition policy_state_init :: DispatcherPolicyState where
  "policy_state_init = \<lparr>dp_config = zero_policy_config, dp_fallback_active = False, dp_last_temp_available = False,
     dp_last_temp_millic = 0, dp_have_sample = False, dp_temp_ceiling_c = 0, dp_safety_margin_c = 0,
     dp_emergency_margin_c = 0, dp_controller = None\<rparr>"

definition publish_state :: "DispatcherPolicyState \<Rightarrow> simd_width_t \<Rightarrow> simd_width_t \<Rightarrow> bool \<Rightarrow> 'a proc_scheme \<Rightarrow> 'a proc_scheme" where
  "publish_state st current recommended changed p = tsd_observability_update_controller (Some
     \<lparr>ct_fallback_active = c_bool (dp_fallback_active st), ct_current_width = current, ct_recommended_width = recommended,
      ct_issued_change = c_bool changed\<rparr>) p"

definition fallback_target :: "simd_width_t \<Rightarrow> simd_width_t" where
  "fallback_target current = (if current > SIMD_SSE41 then SIMD_SSE41 else current)"

definition enter_fail_closed :: "DispatcherPolicyState \<Rightarrow> simd_width_t \<Rightarrow> 'a proc_scheme \<Rightarrow> DispatcherPolicyState \<times> 'a proc_scheme" where
  "enter_fail_closed st current p =
     (let st = st\<lparr>dp_fallback_active := True\<rparr>; target = fallback_target current
      in (st, publish_state st current target (target \<noteq> current) p))"

definition snapshot_runtime_limits :: "'a proc_scheme \<Rightarrow> DispatcherPolicyState \<Rightarrow> DispatcherPolicyState" where
  "snapshot_runtime_limits p st =
     (let runtime = tsd_runtime_config_active_snapshot p
      in st\<lparr>dp_temp_ceiling_c := predictive_temp_ceiling_c runtime, dp_safety_margin_c := predictive_safety_margin_c runtime,
            dp_emergency_margin_c := predictive_emergency_margin_c runtime\<rparr>)"

definition policy_limits_valid :: "DispatcherPolicyState \<Rightarrow> bool" where
  "policy_limits_valid st = (dp_temp_ceiling_c st \<ge> 20 \<and> dp_temp_ceiling_c st \<le> 125 \<and> dp_safety_margin_c st \<ge> 0 \<and>
     dp_safety_margin_c st \<le> 60 \<and> dp_emergency_margin_c st \<ge> 0 \<and> dp_emergency_margin_c st \<le> 60)"

abbreviation INT64_MIN :: int where "INT64_MIN \<equiv> - (2 ^ 63)"

definition upgrade_temperature_limit_millic :: "DispatcherPolicyState \<Rightarrow> int" where
  "upgrade_temperature_limit_millic st =
     (if \<not> policy_limits_valid st then INT64_MIN else (dp_temp_ceiling_c st - dp_safety_margin_c st) * 1000)"

definition emergency_temperature_limit_millic :: "DispatcherPolicyState \<Rightarrow> int" where
  "emergency_temperature_limit_millic st =
     (if \<not> policy_limits_valid st then INT64_MIN else (dp_temp_ceiling_c st + dp_emergency_margin_c st) * 1000)"

definition caught_errno :: "cpp_exception \<Rightarrow> errno" where
  "caught_errno e = (if e = Bad_alloc then ENOMEM else EIO)"

section \<open>Operations\<close>

definition tsd_dispatcher_policy_create ::
    "tsd_policy_config option \<Rightarrow> 'a cproc_scheme \<Rightarrow> (errno + DispatcherPolicyState) \<times> 'a cproc_scheme" where
  "tsd_dispatcher_policy_create config p =
     (case may_throw p of
        (Some e, p) \<Rightarrow> (Inl (caught_errno e), p)
      | (None, p) \<Rightarrow>
          (let st = policy_state_init\<lparr>dp_config := (case config of
                 None \<Rightarrow> tsd_policy_config_set_defaults zero_policy_config | Some c \<Rightarrow> c)\<rparr>;
               st = snapshot_runtime_limits p st
           in (case mpc_construct (dp_config st) p of
                 (Inl e, p) \<Rightarrow> (Inl (caught_errno e), p)
               | (Inr c, p) \<Rightarrow>
                   (let st = st\<lparr>dp_controller := Some c, dp_fallback_active := False\<rparr>
                    in (Inr st, publish_state st SIMD_SSE41 SIMD_SSE41 False p)))))"

text \<open>A missing controller is made on demand.\<close>

definition ensure_controller ::
    "DispatcherPolicyState \<Rightarrow> 'a cproc_scheme \<Rightarrow> (cpp_exception + MPCController) \<times> DispatcherPolicyState \<times> 'a cproc_scheme" where
  "ensure_controller st p =
     (case dp_controller st of
        Some c \<Rightarrow> (Inr c, st, p)
      | None \<Rightarrow> (case mpc_construct (dp_config st) p of
            (Inl e, p) \<Rightarrow> (Inl e, st, p)
          | (Inr c, p) \<Rightarrow> (Inr c, st\<lparr>dp_controller := Some c\<rparr>, p)))"

definition tsd_dispatcher_policy_reset ::
    "tsd_policy_config option \<Rightarrow> DispatcherPolicyState \<Rightarrow> 'a cproc_scheme \<Rightarrow> DispatcherPolicyState \<times> 'a cproc_scheme" where
  "tsd_dispatcher_policy_reset config st p =
     (let st = (case config of None \<Rightarrow> st | Some c \<Rightarrow> st\<lparr>dp_config := c\<rparr>);
          st = snapshot_runtime_limits p st
      in (case ensure_controller st p of
            (Inl e, st, p) \<Rightarrow> enter_fail_closed st SIMD_SSE41 p
          | (Inr c, st, p) \<Rightarrow>
              (case mpc_reset (dp_config st) c p of
                 (Some e, c, p) \<Rightarrow> enter_fail_closed (st\<lparr>dp_controller := Some c\<rparr>) SIMD_SSE41 p
               | (None, c, p) \<Rightarrow>
                   (let st = st\<lparr>dp_controller := Some c, dp_fallback_active := False, dp_last_temp_available := False,
                                dp_last_temp_millic := 0, dp_have_sample := False\<rparr>
                    in (st, publish_state st SIMD_SSE41 SIMD_SSE41 False p)))))"

definition tsd_dispatcher_policy_record ::
    "tsd_thermal_eval_t \<Rightarrow> simd_width_t \<Rightarrow> DispatcherPolicyState \<Rightarrow> 'a cproc_scheme \<Rightarrow> DispatcherPolicyState \<times> 'a cproc_scheme" where
  "tsd_dispatcher_policy_record sample width st p =
     (let st = st\<lparr>dp_last_temp_available := (sm_temp_available (te_sample sample) \<noteq> 0),
                  dp_last_temp_millic := sm_package_temp_millic (te_sample sample), dp_have_sample := True\<rparr>
      in (case ensure_controller st p of
            (Inl e, st, p) \<Rightarrow> enter_fail_closed st width p
          | (Inr c, st, p) \<Rightarrow>
              (case pushSample sample width c p of
                 (Some e, c, p) \<Rightarrow> enter_fail_closed (st\<lparr>dp_controller := Some c\<rparr>) width p
               | (None, c, p) \<Rightarrow>
                   (let st = st\<lparr>dp_controller := Some c\<rparr> in (st, publish_state st width width False p)))))"

text \<open>The result, what is left in \<^verbatim>\<open>*out_width\<close> and \<^verbatim>\<open>*fallback_active\<close>, and the state.\<close>

record policy_advice =
  pa_changed :: bool
  pa_width :: simd_width_t
  pa_fallback :: bool

definition optimizer_advice ::
    "simd_width_t \<Rightarrow> simd_width_t \<Rightarrow> MPCController \<Rightarrow> DispatcherPolicyState \<Rightarrow> 'a cproc_scheme \<Rightarrow>
     policy_advice \<times> DispatcherPolicyState \<times> 'a cproc_scheme" where
  "optimizer_advice current max_width c st p =
     (let (r, c, p) = mpc_recommend current max_width c p;
          st = st\<lparr>dp_controller := Some c\<rparr>;
          keep = \<lparr>pa_changed = False, pa_width = current, pa_fallback = False\<rparr>
      in (case r of
            None \<Rightarrow> (keep, st, publish_state st current current False p)
          | Some target \<Rightarrow>
              if target > current \<and> (\<not> dp_have_sample st \<or> \<not> dp_last_temp_available st \<or>
                   dp_last_temp_millic st > upgrade_temperature_limit_millic st)
              then (keep, st, publish_state st current current False p)
              else (\<lparr>pa_changed = True, pa_width = target, pa_fallback = False\<rparr>, st, publish_state st current target True p)))"

definition tsd_dispatcher_policy_recommend ::
    "simd_width_t \<Rightarrow> simd_width_t \<Rightarrow> DispatcherPolicyState \<Rightarrow> 'a cproc_scheme \<Rightarrow>
     policy_advice \<times> DispatcherPolicyState \<times> 'a cproc_scheme" where
  "tsd_dispatcher_policy_recommend current max_width st p =
     (let target = fallback_target current;
          fallback = \<lparr>pa_changed = (target \<noteq> current), pa_width = target, pa_fallback = True\<rparr>
      in if dp_fallback_active st then (fallback, st, publish_state st current target (target \<noteq> current) p)
         else if dp_have_sample st \<and> dp_last_temp_available st \<and> current > SIMD_SSE41 \<and>
              dp_last_temp_millic st \<ge> emergency_temperature_limit_millic st
         then (\<lparr>pa_changed = True, pa_width = SIMD_SSE41, pa_fallback = False\<rparr>, st, publish_state st current SIMD_SSE41 True p)
         else (case ensure_controller st p of
             (Inl e, st, p) \<Rightarrow> (let (st, p) = enter_fail_closed st current p in (fallback, st, p))
           | (Inr c, st, p) \<Rightarrow> optimizer_advice current max_width c st p))"

definition tsd_dispatcher_policy_force_fallback :: "DispatcherPolicyState \<Rightarrow> 'a proc_scheme \<Rightarrow> DispatcherPolicyState \<times> 'a proc_scheme" where
  "tsd_dispatcher_policy_force_fallback st p =
     (let st = st\<lparr>dp_fallback_active := True\<rparr> in (st, publish_state st SIMD_SSE41 SIMD_SSE41 False p))"

definition tsd_dispatcher_policy_heartbeat :: "DispatcherPolicyState \<Rightarrow> simd_width_t \<Rightarrow> 'a proc_scheme \<Rightarrow> 'a proc_scheme" where
  "tsd_dispatcher_policy_heartbeat st current p = publish_state st current current False p"

definition tsd_dispatcher_policy_reload ::
    "DispatcherPolicyState \<Rightarrow> 'a cproc_scheme \<Rightarrow> rc \<times> DispatcherPolicyState \<times> 'a cproc_scheme" where
  "tsd_dispatcher_policy_reload st p =
     (case ensure_controller st p of
        (Inl e, st, p) \<Rightarrow> (let (st, p) = enter_fail_closed st SIMD_SSE41 p in (Inl (caught_errno e), st, p))
      | (Inr c, st, p) \<Rightarrow>
          (case reloadCoefficients c p of
             (Inl e, c, p) \<Rightarrow>
               (let (st, p) = enter_fail_closed (st\<lparr>dp_controller := Some c\<rparr>) SIMD_SSE41 p in (Inl (caught_errno e), st, p))
           | (Inr loaded, c, p) \<Rightarrow> (if loaded then ok else Inl EIO, st\<lparr>dp_controller := Some c\<rparr>, p)))"

section \<open>What the policy changes in the process\<close>

definition policy_frame :: "'a fproc_scheme \<Rightarrow> 'a fproc_scheme \<Rightarrow> bool" where
  "policy_frame p q \<longleftrightarrow> (\<exists>r tl. mpc_frame p r \<and> q = r\<lparr>telemetry := tl\<rparr> \<and>
     ts_fusion tl = ts_fusion (telemetry p) \<and> ts_perf tl = ts_perf (telemetry p))"

lemma mpc_policy_frame:
  assumes "mpc_frame p q"
  shows "policy_frame p q"
proof -
  have "telemetry q = telemetry p" using assms by (auto simp: mpc_frame_def)
  then show ?thesis unfolding policy_frame_def using assms by (intro exI [of _ q] exI [of _ "telemetry q"]) simp
qed

lemma policy_frame_trans:
  assumes "policy_frame p q" "policy_frame q r"
  shows "policy_frame p r"
proof -
  obtain p1 tl where 1: "mpc_frame p p1" "q = p1\<lparr>telemetry := tl\<rparr>" "ts_fusion tl = ts_fusion (telemetry p)"
    "ts_perf tl = ts_perf (telemetry p)" using assms(1) by (auto simp: policy_frame_def)
  obtain q1 tl' where 2: "mpc_frame q q1" "r = q1\<lparr>telemetry := tl'\<rparr>" "ts_fusion tl' = ts_fusion (telemetry q)"
    "ts_perf tl' = ts_perf (telemetry q)" using assms(2) by (auto simp: policy_frame_def)
  obtain t m c n e where q1: "q1 = q\<lparr>steady_now := t, metrics := m, clock_results := c, sys_calls := n, cpp_throws := e\<rparr>"
    and t: "steady_now q \<le> t" using 2(1) by (auto simp: mpc_frame_def)
  let ?p2 = "p1\<lparr>steady_now := t, metrics := m, clock_results := c, sys_calls := n, cpp_throws := e\<rparr>"
  have "mpc_frame p1 ?p2" using t 1(2) by (intro mpc_frameI) simp
  then have "mpc_frame p ?p2" by (rule mpc_frame_trans [OF 1(1)])
  moreover have "r = ?p2\<lparr>telemetry := tl'\<rparr>" using 2(2) q1 1(2) by simp
  moreover have "ts_fusion tl' = ts_fusion (telemetry p)" "ts_perf tl' = ts_perf (telemetry p)" using 1 2 by simp_all
  ultimately show ?thesis unfolding policy_frame_def by blast
qed

lemma publish_state_frame: "policy_frame p (publish_state st w v b p)"
proof -
  have "publish_state st w v b p = p\<lparr>telemetry := telemetry (publish_state st w v b p)\<rparr>"
    "ts_fusion (telemetry (publish_state st w v b p)) = ts_fusion (telemetry p)"
    "ts_perf (telemetry (publish_state st w v b p)) = ts_perf (telemetry p)"
    by (auto simp: publish_state_def tsd_observability_update_controller_def controller_assign_def)
  then show ?thesis unfolding policy_frame_def using mpc_frame_refl by blast
qed

lemma policy_frame_refl: "policy_frame p p"
  using mpc_frame_refl by (rule mpc_policy_frame)

lemmas frame_publish = policy_frame_trans [OF mpc_policy_frame publish_state_frame]

lemma fail_closed_result:
  assumes "enter_fail_closed st w p = (st', q)"
  shows "policy_frame p q" "dp_fallback_active st'" "dp_controller st' = dp_controller st"
  using assms publish_state_frame by (auto simp: enter_fail_closed_def Let_def)

lemma policy_frame_fields:
  assumes "policy_frame p q"
  shows "tstate q = tstate p" "tsd_runtime_config_active_snapshot q = tsd_runtime_config_active_snapshot p"
    "wide_admission_open q = wide_admission_open p" "runtime_stopping q = runtime_stopping p"
    "active_wide_executions q = active_wide_executions p" "steady_now p \<le> steady_now q"
  using assms by (auto simp: policy_frame_def mpc_frame_def tsd_runtime_config_active_snapshot_def)

section \<open>Invariant\<close>

definition controller_ok :: "bool \<Rightarrow> MPCController option \<Rightarrow> bool" where
  "controller_ok fallback c = (case c of None \<Rightarrow> True | Some c \<Rightarrow> mpc_wf c \<and> (\<not> fallback \<longrightarrow> mpc_ready c))"

definition policy_wf :: "DispatcherPolicyState \<Rightarrow> bool" where
  "policy_wf st = controller_ok (dp_fallback_active st) (dp_controller st)"

lemma controller_ok_simps [simp]:
  "controller_ok b None" "controller_ok True (Some c) = mpc_wf c" "controller_ok False (Some c) = mpc_ready c"
  by (auto simp: controller_ok_def mpc_ready_def)

lemma ready_ok: "mpc_ready c \<Longrightarrow> controller_ok b (Some c)"
  by (simp add: controller_ok_def mpc_ready_def)

lemma policy_wf_controller: "policy_wf st \<Longrightarrow> dp_controller st = Some c \<Longrightarrow> mpc_wf c"
  "policy_wf st \<Longrightarrow> dp_controller st = Some c \<Longrightarrow> \<not> dp_fallback_active st \<Longrightarrow> mpc_ready c"
  by (auto simp: policy_wf_def controller_ok_def)

lemma ensure_controller_result:
  assumes "ensure_controller st p = (r, st', q)" "policy_wf st"
  shows "policy_frame p q" "policy_wf st'" "r = Inr c \<Longrightarrow> dp_controller st' = Some c \<and> mpc_wf c"
    "st' = st\<lparr>dp_controller := dp_controller st'\<rparr>" "r = Inl e \<Longrightarrow> st' = st" "r = Inl e \<Longrightarrow> dp_controller st = None"
proof -
  have "policy_frame p q \<and> policy_wf st' \<and> (r = Inr c \<longrightarrow> dp_controller st' = Some c \<and> mpc_wf c) \<and>
      st' = st\<lparr>dp_controller := dp_controller st'\<rparr> \<and> (r = Inl e \<longrightarrow> st' = st) \<and> (r = Inl e \<longrightarrow> dp_controller st = None)"
  proof (cases "dp_controller st")
    case (Some d)
    then have "r = Inr d" "st' = st" "q = p" using assms(1) by (simp_all add: ensure_controller_def)
    then show ?thesis using Some assms(2) policy_frame_refl policy_wf_controller(1) by simp
  next
    case None
    obtain x p1 where x: "mpc_construct (dp_config st) p = (x, p1)" by fastforce
    show ?thesis
      using assms None mpc_construct_result [OF x] mpc_policy_frame [of p q]
      by (cases x) (auto simp: ensure_controller_def x policy_wf_def controller_ok_def mpc_ready_def)
  qed
  then show "policy_frame p q" "policy_wf st'" "r = Inr c \<Longrightarrow> dp_controller st' = Some c \<and> mpc_wf c"
    "st' = st\<lparr>dp_controller := dp_controller st'\<rparr>" "r = Inl e \<Longrightarrow> st' = st" "r = Inl e \<Longrightarrow> dp_controller st = None" by auto
qed

lemma policy_create_result:
  assumes "tsd_dispatcher_policy_create config p = (r, q)"
  shows "policy_frame p q" "r = Inr st \<Longrightarrow> policy_wf st \<and> dp_controller st \<noteq> None \<and> \<not> dp_fallback_active st \<and> \<not> dp_have_sample st"
proof -
  obtain e p1 where t: "may_throw p = (e, p1)" by fastforce
  let ?st = "snapshot_runtime_limits p1 (policy_state_init\<lparr>dp_config := (case config of
     None \<Rightarrow> tsd_policy_config_set_defaults zero_policy_config | Some c \<Rightarrow> c)\<rparr>)"
  obtain x p2 where x: "mpc_construct (dp_config ?st) p1 = (x, p2)" by fastforce
  have f: "mpc_frame p p1" "mpc_frame p p2"
    using mpc_frame_basic(1) [OF t] mpc_construct_result(1) [OF x] mpc_frame_trans by blast+
  have "policy_frame p q \<and> (r = Inr st \<longrightarrow> policy_wf st \<and> dp_controller st \<noteq> None \<and> \<not> dp_fallback_active st \<and> \<not> dp_have_sample st)"
  proof (cases e)
    case (Some x)
    then show ?thesis using assms f(1) by (auto simp: tsd_dispatcher_policy_create_def t mpc_policy_frame)
  next
    case None
    show ?thesis
    proof (cases x)
      case (Inl y)
      then show ?thesis using assms f(2) by (auto simp: tsd_dispatcher_policy_create_def t None x Let_def mpc_policy_frame)
    next
      case (Inr c)
      let ?st' = "?st\<lparr>dp_controller := Some c, dp_fallback_active := False\<rparr>"
      have out: "r = Inr ?st'" "q = publish_state ?st' SIMD_SSE41 SIMD_SSE41 False p2"
        using assms by (auto simp: tsd_dispatcher_policy_create_def t None x Inr Let_def)
      have "\<not> dp_have_sample ?st'" by (simp add: snapshot_runtime_limits_def policy_state_init_def Let_def)
      then show ?thesis
        using out frame_publish [OF f(2)] mpc_construct_result(2) [OF x Inr] by (auto simp: policy_wf_def)
    qed
  qed
  then show "policy_frame p q" "r = Inr st \<Longrightarrow> policy_wf st \<and> dp_controller st \<noteq> None \<and> \<not> dp_fallback_active st \<and> \<not> dp_have_sample st"
    by auto
qed

lemma wf_update: "policy_wf st \<Longrightarrow> policy_wf (st\<lparr>dp_config := c\<rparr>)"
  "policy_wf st \<Longrightarrow> policy_wf (snapshot_runtime_limits p st)"
  "policy_wf st \<Longrightarrow> policy_wf (st\<lparr>dp_last_temp_available := a, dp_last_temp_millic := m, dp_have_sample := h\<rparr>)"
  by (simp_all add: policy_wf_def snapshot_runtime_limits_def Let_def)

lemma policy_reset_result:
  assumes "tsd_dispatcher_policy_reset config st p = (st', q)" "policy_wf st"
  shows "policy_frame p q" "policy_wf st'" "dp_fallback_active st' \<or> \<not> dp_have_sample st'"
    "dp_controller st \<noteq> None \<Longrightarrow> dp_controller st' \<noteq> None"
proof -
  let ?st = "snapshot_runtime_limits p (case config of None \<Rightarrow> st | Some c \<Rightarrow> st\<lparr>dp_config := c\<rparr>)"
  have wf: "policy_wf ?st" using assms(2) by (auto intro!: wf_update split: option.splits)
  have ctl: "dp_controller ?st = dp_controller st" by (auto simp: snapshot_runtime_limits_def Let_def split: option.splits)
  obtain r st1 p1 where e: "ensure_controller ?st p = (r, st1, p1)" by (metis prod_cases3)
  note ens = ensure_controller_result [OF e wf]
  have "policy_frame p q \<and> policy_wf st' \<and> (dp_fallback_active st' \<or> \<not> dp_have_sample st') \<and>
      (dp_controller st \<noteq> None \<longrightarrow> dp_controller st' \<noteq> None)"
  proof (cases r)
    case (Inl x)
    then have fc: "enter_fail_closed st1 SIMD_SSE41 p1 = (st', q)"
      using assms(1) by (simp add: tsd_dispatcher_policy_reset_def e)
    have "dp_controller st = None" using ens(6) [OF Inl] ctl by simp
    then show ?thesis
      using fail_closed_result [OF fc] ens(2) policy_frame_trans [OF ens(1)]
      by (auto simp: policy_wf_def controller_ok_def split: option.splits)
  next
    case (Inr c)
    obtain x c1 p2 where m: "mpc_reset (dp_config st1) c p1 = (x, c1, p2)" by (metis prod_cases3)
    have "arx_wf (mpc_arx_model c)" using ens(3) [OF Inr] by (simp add: mpc_wf_def)
    note reset = mpc_reset_result [OF m this]
    have p2: "policy_frame p p2" using ens(1) mpc_policy_frame [OF reset(1)] by (rule policy_frame_trans)
    show ?thesis
    proof (cases x)
      case None
      then show ?thesis
        using assms(1) reset(3) policy_frame_trans [OF p2 publish_state_frame]
        by (auto simp: tsd_dispatcher_policy_reset_def e Inr m policy_wf_def Let_def)
    next
      case (Some y)
      then have fc: "enter_fail_closed (st1\<lparr>dp_controller := Some c1\<rparr>) SIMD_SSE41 p2 = (st', q)"
        using assms(1) by (simp add: tsd_dispatcher_policy_reset_def e Inr m)
      then show ?thesis
        using fail_closed_result [OF fc] reset(2) policy_frame_trans [OF p2] by (auto simp: policy_wf_def)
    qed
  qed
  then show "policy_frame p q" "policy_wf st'" "dp_fallback_active st' \<or> \<not> dp_have_sample st'"
    "dp_controller st \<noteq> None \<Longrightarrow> dp_controller st' \<noteq> None" by auto
qed

text \<open>What recording means: the raw temperature is remembered and the history ends in the new sample, trimmed to its limit.\<close>

definition sample_stored :: "tsd_thermal_eval_t \<Rightarrow> simd_width_t \<Rightarrow> MPCController \<Rightarrow> DispatcherPolicyState \<Rightarrow> bool" where
  "sample_stored sample width c st \<longleftrightarrow>
     dp_have_sample st \<and> dp_last_temp_available st = (sm_temp_available (te_sample sample) \<noteq> 0) \<and>
     dp_last_temp_millic st = sm_package_temp_millic (te_sample sample) \<and>
     (\<exists>c' entry. dp_controller st = Some c' \<and> sa_width entry = width \<and>
        sa_temp_valid entry = control_temp_valid sample \<and>
        mpc_history c' = drop (Suc (length (mpc_history c)) - mpc_history_limit c) (mpc_history c @ [entry]) \<and>
        mpc_history_limit c' = mpc_history_limit c)"

lemma policy_record_result:
  assumes "tsd_dispatcher_policy_record sample width st p = (st', q)" "policy_wf st"
  shows "policy_frame p q" "policy_wf st'" "dp_fallback_active st \<Longrightarrow> dp_fallback_active st'"
    "dp_controller st \<noteq> None \<Longrightarrow> dp_controller st' \<noteq> None"
    "dp_controller st = Some c \<Longrightarrow> \<not> dp_fallback_active st' \<Longrightarrow>
       sample_stored sample width c st'"
proof -
  let ?st = "st\<lparr>dp_last_temp_available := (sm_temp_available (te_sample sample) \<noteq> 0),
     dp_last_temp_millic := sm_package_temp_millic (te_sample sample), dp_have_sample := True\<rparr>"
  have wf: "policy_wf ?st" using assms(2) by (rule wf_update)
  obtain r st1 p1 where e: "ensure_controller ?st p = (r, st1, p1)" by (metis prod_cases3)
  note ens = ensure_controller_result [OF e wf]
  have same: "dp_fallback_active st1 = dp_fallback_active st" "dp_have_sample st1"
    "dp_last_temp_available st1 = (sm_temp_available (te_sample sample) \<noteq> 0)"
    "dp_last_temp_millic st1 = sm_package_temp_millic (te_sample sample)"
    by (subst ens(4), simp)+
  have "policy_frame p q \<and> policy_wf st' \<and> (dp_fallback_active st \<longrightarrow> dp_fallback_active st') \<and>
      (dp_controller st \<noteq> None \<longrightarrow> dp_controller st' \<noteq> None) \<and>
      (dp_controller st = Some c \<and> \<not> dp_fallback_active st' \<longrightarrow>
       sample_stored sample width c st')"
  proof (cases r)
    case (Inl x)
    then have fc: "enter_fail_closed st1 width p1 = (st', q)"
      using assms(1) by (simp add: tsd_dispatcher_policy_record_def e)
    have "dp_controller st = None" using ens(6) [OF Inl] by simp
    then show ?thesis
      using fail_closed_result [OF fc] ens(2) policy_frame_trans [OF ens(1)]
      by (auto simp: policy_wf_def controller_ok_def split: option.splits)
  next
    case (Inr d)
    obtain x c1 p2 where m: "pushSample sample width d p1 = (x, c1, p2)" by (metis prod_cases3)
    have d: "dp_controller st1 = Some d" "mpc_wf d" using ens(3) [OF Inr] by simp_all
    note push = push_sample_result [OF m d(2)]
    have p2: "policy_frame p p2" using ens(1) mpc_policy_frame [OF push(1)] by (rule policy_frame_trans)
    show ?thesis
    proof (cases x)
      case None
      have out: "st' = st1\<lparr>dp_controller := Some c1\<rparr>" "q = publish_state (st1\<lparr>dp_controller := Some c1\<rparr>) width width False p2"
        using assms(1) by (auto simp: tsd_dispatcher_policy_record_def e Inr m None Let_def)
      have "policy_wf st'" using ens(2) push(2,3) d by (auto simp: out policy_wf_def controller_ok_def)
      moreover have "dp_controller st = Some c \<Longrightarrow> d = c"
        using e Inr by (simp add: ensure_controller_def)
      ultimately show ?thesis
        using policy_frame_trans [OF p2 publish_state_frame] out same push(5,6) None by (auto simp: sample_stored_def)
    next
      case (Some y)
      then have fc: "enter_fail_closed (st1\<lparr>dp_controller := Some c1\<rparr>) width p2 = (st', q)"
        using assms(1) by (simp add: tsd_dispatcher_policy_record_def e Inr m)
      then show ?thesis
        using fail_closed_result [OF fc] push(2) policy_frame_trans [OF p2] by (auto simp: policy_wf_def)
    qed
  qed
  then show "policy_frame p q" "policy_wf st'" "dp_fallback_active st \<Longrightarrow> dp_fallback_active st'"
    "dp_controller st \<noteq> None \<Longrightarrow> dp_controller st' \<noteq> None"
    "dp_controller st = Some c \<Longrightarrow> \<not> dp_fallback_active st' \<Longrightarrow>
       sample_stored sample width c st'" by auto
qed

text \<open>What the policy knows when it advises a wider width.\<close>

definition upgrade_known_safe :: "DispatcherPolicyState \<Rightarrow> bool" where
  "upgrade_known_safe st \<longleftrightarrow> \<not> dp_fallback_active st \<and> dp_have_sample st \<and> dp_last_temp_available st \<and>
     dp_last_temp_millic st \<le> upgrade_temperature_limit_millic st"

lemma optimizer_advice_result:
  assumes adv: "optimizer_advice current max_width c st p = (a, st', q)" and wf: "policy_wf st" and c: "dp_controller st = Some c"
    and active: "\<not> dp_fallback_active st"
  shows "policy_frame p q" "policy_wf st'" "dp_fallback_active st' = dp_fallback_active st" "dp_controller st' \<noteq> None"
    "\<not> pa_fallback a" "pa_changed a \<longleftrightarrow> pa_width a \<noteq> current"
    "pa_width a > current \<Longrightarrow> upgrade_known_safe st" "pa_changed a \<Longrightarrow> pa_width a \<le> max_width \<and> width_valid (pa_width a)"
proof -
  obtain r c1 p1 where m: "mpc_recommend current max_width c p = (r, c1, p1)" by (metis prod_cases3)
  note res = mpc_recommend_result [OF m]
  have ready: "mpc_ready c1" using res(3) policy_wf_controller(2) [OF wf c active] by simp
  have frame: "policy_frame p (publish_state s w v b p1)" for s w v b using res(1) by (rule frame_publish)
  note unfolded = adv [unfolded optimizer_advice_def m Let_def case_prod_conv]
  have st': "st' = st\<lparr>dp_controller := Some c1\<rparr>" using unfolded by (auto split: option.splits if_splits)
  show "policy_frame p q" using unfolded frame by (auto split: option.splits if_splits)
  show "policy_wf st'" "dp_fallback_active st' = dp_fallback_active st" "dp_controller st' \<noteq> None"
    using ready by (simp_all add: st' policy_wf_def ready_ok)
  have target: "t \<noteq> current" "t \<le> max_width" "width_valid t" if "r = Some t" for t
    using mpc_recommend_target [of current max_width c p t c1 p1] m that by simp_all
  show "\<not> pa_fallback a" "pa_changed a \<longleftrightarrow> pa_width a \<noteq> current"
    "pa_changed a \<Longrightarrow> pa_width a \<le> max_width \<and> width_valid (pa_width a)"
    using unfolded target by (auto split: option.splits if_splits)
  show "upgrade_known_safe st" if "pa_width a > current"
    using unfolded that active by (auto simp: upgrade_known_safe_def upgrade_temperature_limit_millic_def policy_limits_valid_def
      split: option.splits if_splits)
qed

lemma policy_recommend_result:
  assumes rec: "tsd_dispatcher_policy_recommend current max_width st p = (a, st', q)" and wf: "policy_wf st"
  shows "policy_frame p q" "policy_wf st'" "dp_fallback_active st \<Longrightarrow> dp_fallback_active st'"
    "dp_controller st \<noteq> None \<Longrightarrow> dp_controller st' \<noteq> None" "pa_changed a \<longleftrightarrow> pa_width a \<noteq> current"
    "dp_fallback_active st' \<Longrightarrow> pa_fallback a \<and> pa_width a = SIMD_SSE41"
    "pa_width a > current \<Longrightarrow> upgrade_known_safe st \<and> pa_width a \<le> max_width \<and> width_valid (pa_width a)"
    "pa_width a \<noteq> current \<Longrightarrow> pa_width a \<noteq> SIMD_SSE41 \<Longrightarrow> pa_width a \<le> max_width \<and> width_valid (pa_width a)"
proof -
  let ?t = "fallback_target current"
  have t: "?t = SIMD_SSE41" "\<not> ?t > current" by (auto simp: fallback_target_def)
  let ?emergency = "dp_have_sample st \<and> dp_last_temp_available st \<and> current > SIMD_SSE41 \<and>
     dp_last_temp_millic st \<ge> emergency_temperature_limit_millic st"
  have "policy_frame p q \<and> policy_wf st' \<and> (dp_fallback_active st \<longrightarrow> dp_fallback_active st') \<and>
      (dp_controller st \<noteq> None \<longrightarrow> dp_controller st' \<noteq> None) \<and> (pa_changed a \<longleftrightarrow> pa_width a \<noteq> current) \<and>
      (dp_fallback_active st' \<longrightarrow> pa_fallback a \<and> pa_width a = SIMD_SSE41) \<and>
      (pa_width a > current \<longrightarrow> upgrade_known_safe st) \<and>
      (pa_width a \<noteq> current \<and> pa_width a \<noteq> SIMD_SSE41 \<longrightarrow> pa_width a \<le> max_width \<and> width_valid (pa_width a))"
  proof (cases "dp_fallback_active st \<or> ?emergency")
    case True
    then have "a = (if dp_fallback_active st then \<lparr>pa_changed = (?t \<noteq> current), pa_width = ?t, pa_fallback = True\<rparr>
         else \<lparr>pa_changed = True, pa_width = SIMD_SSE41, pa_fallback = False\<rparr>)" "st' = st"
      "\<exists>b. q = publish_state st current SIMD_SSE41 b p"
      using rec by (auto simp: tsd_dispatcher_policy_recommend_def t(1) Let_def split: if_splits)
    then show ?thesis using True wf publish_state_frame t by (auto split: if_splits)
  next
    case False
    then have no: "\<not> dp_fallback_active st" "\<not> ?emergency" by blast+
    obtain r st1 p1 where e: "ensure_controller st p = (r, st1, p1)" by (metis prod_cases3)
    note ens = ensure_controller_result [OF e wf]
    show ?thesis
    proof (cases r)
      case (Inl x)
      obtain st2 p2 where f: "enter_fail_closed st1 current p1 = (st2, p2)" by fastforce
      have out: "a = \<lparr>pa_changed = (?t \<noteq> current), pa_width = ?t, pa_fallback = True\<rparr>" "st' = st2" "q = p2"
        using rec unfolding tsd_dispatcher_policy_recommend_def Let_def if_not_P [OF no(1)] if_not_P [OF no(2)] e Inl
        by (simp_all add: f)
      note fc = fail_closed_result [OF f]
      have "policy_wf st'" using ens(2) fc out by (simp add: policy_wf_def controller_ok_def split: option.splits)
      then show ?thesis using policy_frame_trans [OF ens(1) fc(1)] fc out t ens(6) [OF Inl] False by simp
    next
      case (Inr c)
      have adv: "optimizer_advice current max_width c st1 p1 = (a, st', q)"
        using rec unfolding tsd_dispatcher_policy_recommend_def Let_def if_not_P [OF no(1)] if_not_P [OF no(2)] e Inr by simp
      have same: "dp_fallback_active st1 = dp_fallback_active st" "upgrade_known_safe st1 = upgrade_known_safe st"
        by (subst ens(4), simp add: upgrade_known_safe_def upgrade_temperature_limit_millic_def policy_limits_valid_def)+
      have "dp_controller st1 = Some c" "\<not> dp_fallback_active st1" using ens(3) [OF Inr] same False by simp_all
      note res = optimizer_advice_result [OF adv ens(2) this]
      have "policy_frame p q" using ens(1) res(1) by (rule policy_frame_trans)
      then show ?thesis using res(2-8) same False by auto
    qed
  qed
  then show "policy_frame p q" "policy_wf st'" "dp_fallback_active st \<Longrightarrow> dp_fallback_active st'"
    "dp_controller st \<noteq> None \<Longrightarrow> dp_controller st' \<noteq> None" "pa_changed a \<longleftrightarrow> pa_width a \<noteq> current"
    "dp_fallback_active st' \<Longrightarrow> pa_fallback a \<and> pa_width a = SIMD_SSE41"
    "pa_width a > current \<Longrightarrow> upgrade_known_safe st \<and> pa_width a \<le> max_width \<and> width_valid (pa_width a)"
    "pa_width a \<noteq> current \<Longrightarrow> pa_width a \<noteq> SIMD_SSE41 \<Longrightarrow> pa_width a \<le> max_width \<and> width_valid (pa_width a)"
    by (auto simp: not_less [symmetric])
qed

lemma reload_coefficients_result:
  assumes "reloadCoefficients c p = (r, c', q)" "mpc_wf c"
  shows "mpc_frame p q" "mpc_wf c'" "mpc_ready c \<Longrightarrow> mpc_ready c'" "mpc_history c' = mpc_history c"
proof -
  obtain x p1 where path: "resolveCoefficientPath p = (x, p1)" by fastforce
  have "mpc_frame p q \<and> mpc_wf c' \<and> (mpc_ready c \<longrightarrow> mpc_ready c') \<and> mpc_history c' = mpc_history c"
  proof (cases x)
    case (Inl e)
    then show ?thesis using assms resolve_path_frame [OF path] by (auto simp: reloadCoefficients_def path)
  next
    case (Inr s)
    have load: "loadCoefficients (c\<lparr>mpc_coeff_path := s\<rparr>) p1 = (r, c', q)"
      using assms(1) by (simp add: reloadCoefficients_def path Inr)
    have "mpc_wf (c\<lparr>mpc_coeff_path := s\<rparr>)" "mpc_ready (c\<lparr>mpc_coeff_path := s\<rparr>) = mpc_ready c"
      using assms(2) by (simp_all add: mpc_wf_def mpc_ready_def)
    then show ?thesis
      using load_coefficients_wf [OF load] load_coefficients_frame [OF load] mpc_frame_trans [OF resolve_path_frame [OF path]] by simp
  qed
  then show "mpc_frame p q" "mpc_wf c'" "mpc_ready c \<Longrightarrow> mpc_ready c'" "mpc_history c' = mpc_history c" by auto
qed

lemma policy_reload_result:
  assumes rel: "tsd_dispatcher_policy_reload st p = (r, st', q)" and wf: "policy_wf st"
  shows "policy_frame p q" "policy_wf st'" "dp_fallback_active st \<Longrightarrow> dp_fallback_active st'"
    "dp_controller st \<noteq> None \<Longrightarrow> dp_controller st' \<noteq> None"
proof -
  obtain x st1 p1 where e: "ensure_controller st p = (x, st1, p1)" by (metis prod_cases3)
  note ens = ensure_controller_result [OF e wf]
  have same: "dp_fallback_active st1 = dp_fallback_active st" by (subst ens(4)) simp
  have "policy_frame p q \<and> policy_wf st' \<and> (dp_fallback_active st \<longrightarrow> dp_fallback_active st') \<and>
      (dp_controller st \<noteq> None \<longrightarrow> dp_controller st' \<noteq> None)"
  proof (cases x)
    case (Inl y)
    obtain st2 p2 where f: "enter_fail_closed st1 SIMD_SSE41 p1 = (st2, p2)" by fastforce
    have out: "st' = st2" "q = p2" using rel by (simp_all add: tsd_dispatcher_policy_reload_def e Inl f)
    note fc = fail_closed_result [OF f]
    show ?thesis
      using policy_frame_trans [OF ens(1) fc(1)] fc out ens(2) ens(6) [OF Inl]
      by (simp add: policy_wf_def controller_ok_def split: option.splits)
  next
    case (Inr c)
    obtain y c1 p2 where l: "reloadCoefficients c p1 = (y, c1, p2)" by (metis prod_cases3)
    note c = ens(3) [OF Inr]
    note load = reload_coefficients_result [OF l conjunct2 [OF c]]
    have p2: "policy_frame p p2" using ens(1) mpc_policy_frame [OF load(1)] by (rule policy_frame_trans)
    show ?thesis
    proof (cases y)
      case (Inl z)
      obtain st3 p3 where f: "enter_fail_closed (st1\<lparr>dp_controller := Some c1\<rparr>) SIMD_SSE41 p2 = (st3, p3)" by fastforce
      have out: "st' = st3" "q = p3" using rel by (simp_all add: tsd_dispatcher_policy_reload_def e Inr l Inl f)
      note fc = fail_closed_result [OF f]
      show ?thesis using policy_frame_trans [OF p2 fc(1)] fc out load(2) by (simp add: policy_wf_def)
    next
      case (Inr b)
      have out: "st' = st1\<lparr>dp_controller := Some c1\<rparr>" "q = p2"
        using rel by (simp_all add: tsd_dispatcher_policy_reload_def e \<open>x = Inr c\<close> l Inr)
      show ?thesis using p2 out load ens(2) c same by (auto simp: policy_wf_def controller_ok_def)
    qed
  qed
  then show "policy_frame p q" "policy_wf st'" "dp_fallback_active st \<Longrightarrow> dp_fallback_active st'"
    "dp_controller st \<noteq> None \<Longrightarrow> dp_controller st' \<noteq> None" by auto
qed

lemma policy_force_result:
  assumes "tsd_dispatcher_policy_force_fallback st p = (st', q)" "policy_wf st"
  shows "policy_frame p q" "policy_wf st'" "dp_fallback_active st'" "dp_controller st' = dp_controller st"
  using assms publish_state_frame [of p]
  by (auto simp: tsd_dispatcher_policy_force_fallback_def policy_wf_def controller_ok_def mpc_ready_def Let_def split: option.splits)

lemma policy_heartbeat_frame: "policy_frame p (tsd_dispatcher_policy_heartbeat st w p)"
  unfolding tsd_dispatcher_policy_heartbeat_def by (rule publish_state_frame)

section \<open>Runs of the policy\<close>

text \<open>The calls between two resets, and with the resets.\<close>

inductive policy_call :: "DispatcherPolicyState \<times> 'a cproc_scheme \<Rightarrow> DispatcherPolicyState \<times> 'a cproc_scheme \<Rightarrow> bool" where
  call_record: "tsd_dispatcher_policy_record sample width st p = (st', q) \<Longrightarrow> policy_call (st, p) (st', q)"
| call_recommend: "tsd_dispatcher_policy_recommend current max_width st p = (a, st', q) \<Longrightarrow> policy_call (st, p) (st', q)"
| call_reload: "tsd_dispatcher_policy_reload st p = (r, st', q) \<Longrightarrow> policy_call (st, p) (st', q)"
| call_force: "tsd_dispatcher_policy_force_fallback st p = (st', q) \<Longrightarrow> policy_call (st, p) (st', q)"
| call_heartbeat: "policy_call (st, p) (st, tsd_dispatcher_policy_heartbeat st w p)"

inductive policy_step :: "DispatcherPolicyState \<times> 'a cproc_scheme \<Rightarrow> DispatcherPolicyState \<times> 'a cproc_scheme \<Rightarrow> bool" where
  step_call: "policy_call s s' \<Longrightarrow> policy_step s s'"
| step_reset: "tsd_dispatcher_policy_reset config st p = (st', q) \<Longrightarrow> policy_step (st, p) (st', q)"
| step_elsewhere: "policy_step (st, p) (st, q)"

definition policy_created :: "DispatcherPolicyState \<times> 'a cproc_scheme \<Rightarrow> bool" where
  "policy_created s \<longleftrightarrow> (\<exists>config p. tsd_dispatcher_policy_create config p = (Inr (fst s), snd s))"

definition policy_inv :: "DispatcherPolicyState \<times> 'a cproc_scheme \<Rightarrow> bool" where
  "policy_inv s \<longleftrightarrow> policy_wf (fst s) \<and> dp_controller (fst s) \<noteq> None"

lemma policy_call_inv:
  assumes "policy_call s s'" "policy_wf (fst s)"
  shows "policy_wf (fst s') \<and> (dp_fallback_active (fst s) \<longrightarrow> dp_fallback_active (fst s')) \<and>
    (dp_controller (fst s) \<noteq> None \<longrightarrow> dp_controller (fst s') \<noteq> None)"
  using assms
proof cases
  case (call_record sample width st p st' q)
  then show ?thesis using policy_record_result(2-4) [OF call_record(3)] assms(2) by simp
next
  case (call_recommend current max_width st p a st' q)
  then show ?thesis using policy_recommend_result(2-4) [OF call_recommend(3)] assms(2) by simp
next
  case (call_reload st p r st' q)
  then show ?thesis using policy_reload_result(2-4) [OF call_reload(3)] assms(2) by simp
next
  case (call_force st p st' q)
  then show ?thesis using policy_force_result(2-4) [OF call_force(3)] assms(2) by simp
qed simp

interpretation policy_runs: inductive_invariant policy_created policy_step policy_inv
proof
  show "policy_inv s" if "policy_created s" for s :: "DispatcherPolicyState \<times> 'a cproc_scheme"
    using that policy_create_result(2) [of _ _ _ "snd s" "fst s"] by (auto simp: policy_created_def policy_inv_def)
  show "policy_inv s'" if inv: "policy_inv s" and step: "policy_step s s'" for s s' :: "DispatcherPolicyState \<times> 'a cproc_scheme"
    using step
  proof cases
    case step_call
    then show ?thesis using policy_call_inv [OF step_call] inv by (simp add: policy_inv_def)
  next
    case (step_reset config st p st' q)
    then show ?thesis using policy_reset_result(2,4) [OF step_reset(3)] inv by (simp add: policy_inv_def)
  next
    case step_elsewhere
    then show ?thesis using inv by (simp add: policy_inv_def)
  qed
qed

lemma policy_calls_inv:
  assumes "run_while policy_call (\<lambda>_. True) s s'" "policy_wf (fst s)"
  shows "policy_wf (fst s') \<and> (dp_fallback_active (fst s) \<longrightarrow> dp_fallback_active (fst s'))"
  using assms by (induction rule: run_while.induct) (use policy_call_inv in auto)

section \<open>Properties\<close>

text \<open>
  C22. In every state the policy can reach, it advises a wider width only when it is not in fallback, the last
  recorded sample carried a raw package temperature, the limits it captured are valid, and that temperature does
  not exceed the ceiling less the safety margin; the width is valid and within the maximum. (The recorded temperature
  is a 32-bit number.)
\<close>
theorem policy_upgrade_guarded:
  assumes reach: "reachable policy_created policy_step (st, p)"
    and rec: "tsd_dispatcher_policy_recommend current max_width st p = (a, st', q)"
    and wider: "pa_width a > current" and int32: "INT_MIN \<le> dp_last_temp_millic st"
  shows "\<not> dp_fallback_active st \<and> dp_have_sample st \<and> dp_last_temp_available st \<and> policy_limits_valid st \<and>
    dp_last_temp_millic st \<le> (dp_temp_ceiling_c st - dp_safety_margin_c st) * 1000 \<and>
    pa_width a \<le> max_width \<and> width_valid (pa_width a)"
proof -
  have "policy_wf st" using policy_runs.reachable_inv [OF reach] by (simp add: policy_inv_def)
  then have "upgrade_known_safe st" "pa_width a \<le> max_width" "width_valid (pa_width a)"
    using policy_recommend_result(7) [OF rec] wider by simp_all
  then show ?thesis
    using int32 by (auto simp: upgrade_known_safe_def upgrade_temperature_limit_millic_def split: if_splits)
qed

text \<open>
  C23. A fallback is kept until the policy is reset: after any sequence of records, recommendations, reloads,
  forced fallbacks and heartbeats, whatever throws in them, the advice is SSE4.1 and marked as fallback.
\<close>
theorem policy_fallback_latched:
  assumes "reachable policy_created policy_step s" "dp_fallback_active (fst s)"
    "run_while policy_call (\<lambda>_. True) s s'" "tsd_dispatcher_policy_recommend current max_width (fst s') (snd s') = (a, st, q)"
  shows "pa_fallback a \<and> pa_width a = SIMD_SSE41 \<and> dp_fallback_active st"
proof -
  have "policy_wf (fst s)" using policy_runs.reachable_inv [OF assms(1)] by (simp add: policy_inv_def)
  then have "policy_wf (fst s')" "dp_fallback_active (fst s')" using policy_calls_inv [OF assms(3)] assms(2) by simp_all
  then show ?thesis using policy_recommend_result(3,6) [OF assms(4)] by simp
qed


text \<open>
  The policy always has a controller, its history covers the horizon it is configured for, and unless the policy is in fallback
  it also covers the samples a loaded model needs, so a loaded model is used once that many samples are recorded.
\<close>
theorem policy_history_suffices:
  assumes "reachable policy_created policy_step (st, p)"
  shows "\<exists>c. dp_controller st = Some c \<and> arx_wf (mpc_arx_model c) \<and>
    max 1 (unat (forecast_horizon (mpc_config c))) \<le> mpc_history_limit c \<and>
    (dp_fallback_active st \<or> \<not> arx_coefficients_loaded (mpc_arx_model c) \<or>
     arx_required_history (mpc_arx_model c) \<le> mpc_history_limit c)"
  using policy_runs.reachable_inv [OF assms] policy_wf_controller [of st]
  by (fastforce simp: policy_inv_def mpc_wf_def mpc_ready_def horizon_limit_def)

section \<open>Witnesses\<close>

definition example_policy_config :: tsd_policy_config where
  "example_policy_config = zero_policy_config\<lparr>forecast_horizon := 1\<rparr>"

text \<open>No coefficient file can be read, so the controller forecasts with averages.\<close>

definition example_cproc :: cproc where
  "example_cproc = pproc.extend (example_pproc\<lparr>global_config := k_default_config, sys_file := \<lambda>_ _. None\<rparr>)
     (cproc_ext None ''/etc/coeffs'' ''config/coeffs'' ())"

definition example_controller :: MPCController where
  "example_controller = \<lparr>mpc_config = example_policy_config, mpc_history = [], mpc_coeff_path = ''config/controller_coeffs.json'',
     mpc_arx_model = arx_model_init, mpc_staleness_window = kDefaultStalenessWindow, mpc_last_prediction_millic = Fin 0,
     mpc_last_prediction_valid = False, mpc_history_limit = 1\<rparr>"

definition example_policy :: DispatcherPolicyState where
  "example_policy = (snapshot_runtime_limits example_cproc policy_state_init)\<lparr>dp_config := example_policy_config,
     dp_controller := Some example_controller\<rparr>"

text \<open>The process after any number of steps of the example: nothing throws, no file opens, the clock stands.\<close>

definition example_like :: "'a cproc_scheme \<Rightarrow> bool" where
  "example_like p \<longleftrightarrow> cpp_throws p = [] \<and> clock_results p = [] \<and> steady_now p = 0 \<and> coeff_path_env p = None \<and>
     sys_file p = (\<lambda>_ _. None) \<and>
     tsd_runtime_config_active_snapshot p = k_default_config"

lemma example_like_cproc: "example_like example_cproc"
  by (simp add: example_like_def example_cproc_def example_pproc_def example_fproc_def example_sproc_def proc_init_def
    tsd_runtime_config_active_snapshot_def pproc.defs fproc.defs sproc.defs proc.defs)

lemma example_like_keep:
  "example_like p \<Longrightarrow> example_like (sys_tick p)" "example_like p \<Longrightarrow> example_like (count_metric m p)"
  "example_like p \<Longrightarrow> example_like (publish_state st w v b p)"
  by (auto simp: example_like_def sys_tick_def count_metric_def publish_state_def tsd_observability_update_controller_def
    tsd_runtime_config_active_snapshot_def)

lemma example_like_oracles:
  assumes "example_like p"
  shows "may_throw p = (None, p)" "steady_clock_now p = (0, p)" "resolveCoefficientPath p = (Inr ''config/controller_coeffs.json'', p)"
    "loadCoefficients c p = (Inr False, c\<lparr>mpc_arx_model := (mpc_arx_model c)\<lparr>arx_coefficients_loaded := False\<rparr>,
       mpc_staleness_window := kDefaultStalenessWindow, mpc_history_limit := horizon_limit (mpc_config c)\<rparr>,
       count_metric TSD_METRIC_PREDICTIVE_RELOAD_ERRORS (sys_tick p))"
proof -
  have p: "cpp_throws p = []" "clock_results p = []" "steady_now p = 0" "coeff_path_env p = None"
     "sys_file p = (\<lambda>_ _. None)"
     "predictive_coeff_path (tsd_runtime_config_active_snapshot p) = ''config/controller_coeffs.json''"
    using assms by (simp_all add: example_like_def k_default_config_def)
  show t: "may_throw p = (None, p)" "steady_clock_now p = (0, p)"
    using p by (simp_all add: may_throw_def steady_clock_now_def clock_gettime_def)
  show "resolveCoefficientPath p = (Inr ''config/controller_coeffs.json'', p)"
    using p by (simp add: resolveCoefficientPath_def may_throw_def)
  show "loadCoefficients c p = (Inr False, c\<lparr>mpc_arx_model := (mpc_arx_model c)\<lparr>arx_coefficients_loaded := False\<rparr>,
       mpc_staleness_window := kDefaultStalenessWindow, mpc_history_limit := horizon_limit (mpc_config c)\<rparr>,
       count_metric TSD_METRIC_PREDICTIVE_RELOAD_ERRORS (sys_tick p))"
    using p by (simp add: loadCoefficients_def t loadFromFile_def read_file_def)
qed

lemma example_created:
  obtains q where "tsd_dispatcher_policy_create (Some example_policy_config) example_cproc = (Inr example_policy, q)" "example_like q"
proof -
  let ?q = "count_metric TSD_METRIC_PREDICTIVE_RELOAD_ERRORS (sys_tick example_cproc)"
  have blank: "horizon_limit example_policy_config = 1" "resetResidual arx_model_init = arx_model_init"
    "arx_model_init\<lparr>arx_coefficients_loaded := False\<rparr> = arx_model_init"
    by (simp_all add: horizon_limit_def example_policy_config_def zero_policy_config_def resetResidual_def arx_model_init_def)
  have "mpc_construct example_policy_config example_cproc = (Inr example_controller, ?q)"
    by (simp add: mpc_construct_def mpc_reset_def mpc_blank_def example_controller_def blank
      example_like_oracles [OF example_like_cproc])
  then have "tsd_dispatcher_policy_create (Some example_policy_config) example_cproc =
      (Inr example_policy, publish_state example_policy SIMD_SSE41 SIMD_SSE41 False ?q)"
    by (simp add: tsd_dispatcher_policy_create_def example_like_oracles(1) [OF example_like_cproc] example_policy_def
      snapshot_runtime_limits_def policy_state_init_def Let_def)
  moreover have "example_like (publish_state example_policy SIMD_SSE41 SIMD_SSE41 False ?q)"
    by (intro example_like_keep example_like_cproc)
  ultimately show thesis by (rule that)
qed

definition example_eval :: tsd_thermal_eval_t where
  "example_eval = zero_eval\<lparr>te_ratio_milli := 50, te_trimmed_ratio_milli := 50,
     te_sample := zero_sample\<lparr>sm_temp_available := 1, sm_package_temp_millic := 50000\<rparr>\<rparr>"

definition example_entry :: TelemetrySample where
  "example_entry = \<lparr>sa_ratio_milli = Fin 50, sa_trimmed_ratio_milli = Fin 50, sa_severity_milli = Fin 0,
     sa_temperature_millic = Fin 50000, sa_temp_valid = True, sa_width = SIMD_SSE41, sa_timestamp = 0\<rparr>"

definition example_recorded :: DispatcherPolicyState where
  "example_recorded = example_policy\<lparr>dp_last_temp_available := True, dp_last_temp_millic := 50000, dp_have_sample := True,
     dp_controller := Some (example_controller\<lparr>mpc_history := [example_entry]\<rparr>)\<rparr>"

lemma example_record:
  assumes like: "example_like p"
  obtains q where "tsd_dispatcher_policy_record example_eval SIMD_SSE41 example_policy p = (example_recorded, q)" "example_like q"
proof -
  have "pushSample example_eval SIMD_SSE41 example_controller p = (None, example_controller\<lparr>mpc_history := [example_entry]\<rparr>, p)"
    by (simp add: pushSample_def account_residual_def example_controller_def example_eval_def example_entry_def zero_eval_def
      zero_sample_def control_temp_def control_temp_valid_def dbl_of_int_def rnd64_numerals trim_history_def historyLimit_def
      example_like_oracles [OF like])
  then have "tsd_dispatcher_policy_record example_eval SIMD_SSE41 example_policy p =
      (example_recorded, publish_state example_recorded SIMD_SSE41 SIMD_SSE41 False p)"
    by (simp add: tsd_dispatcher_policy_record_def ensure_controller_def example_policy_def example_recorded_def example_eval_def
      snapshot_runtime_limits_def policy_state_init_def zero_eval_def zero_sample_def Let_def)
  then show thesis using example_like_keep(3) [OF like] by (rule that)
qed

lemma example_scores:
  assumes "tsd_runtime_config_active_snapshot p = k_default_config" and c: "c = example_controller\<lparr>mpc_history := [example_entry]\<rparr>"
  shows "candidate_score SIMD_SSE41 c p SIMD_AVX2 = Fin 0" "\<exists>k \<ge> 200. candidate_score SIMD_SSE41 c p SIMD_SSE41 = Fin k"
proof -
  obtain r where r: "rnd64 (1 / 20) = Fin r" by (rule rnd64_finite [of "1 / 20"]) simp_all
  have r0: "0 \<le> r" "r \<le> 1" using rnd64_mono [of 0 "1 / 20"] rnd64_mono [of "1 / 20" 1] r by (simp_all add: rnd64_numerals)
  have d: "[1..<Suc (max 1 1)] = [1::nat]" by simp
  have le: "dbl_le (Fin 0) (rnd64 (50 * r))" "dbl_le (rnd64 (50 * r)) (Fin 50)"
    using rnd64_mono [of 0 "50 * r"] rnd64_mono [of "50 * r" 50] r0 by (simp_all add: rnd64_numerals)
  then obtain s where s: "rnd64 (50 * r) = Fin s" by (cases "rnd64 (50 * r)") (auto simp: dbl_le_def)
  have le': "dbl_le (Fin 200) (rnd64 (200 + s))" "dbl_le (rnd64 (200 + s)) (Fin 250)"
    using rnd64_mono [of 200 "200 + s"] rnd64_mono [of "200 + s" 250] le s by (simp_all add: rnd64_numerals)
  then obtain k where k: "rnd64 (200 + s) = Fin k" "200 \<le> k" by (cases "rnd64 (200 + s)") (auto simp: dbl_le_def)
  have kk: "rnd64 k = Fin k" using k(1) by (rule rnd64_idem)
  note defs = c example_controller_def example_policy_config_def example_entry_def candidate_score_def decision_horizon_def scoreWidth_def d
    rollout_step_def ratio_projection_def ratio_cost_def temperature_cost_def temperature_projection_def transition_penalty_def
    control_step_def step_response_def computeForecastRatio_def forecast_temperature_def computeForecastTemperature_def
    average_temperature_def recent_def effective_ratio_def ratio_trend_def runtimeTrendWeight_def hard_limit_valid_def
    arx_model_init_def zero_policy_config_def k_default_config_def dbl_sub_def dbl_max_def dbl_of_int_def rnd64_numerals r s k kk Let_def
  show "candidate_score SIMD_SSE41 c p SIMD_AVX2 = Fin 0" using assms(1) by (simp add: defs)
  have "candidate_score SIMD_SSE41 c p SIMD_SSE41 = Fin k" using assms(1) by (simp add: defs)
  then show "\<exists>k \<ge> 200. candidate_score SIMD_SSE41 c p SIMD_SSE41 = Fin k" using k(2) by blast
qed

lemma example_decides:
  assumes "tsd_runtime_config_active_snapshot p = k_default_config"
  shows "decide SIMD_SSE41 SIMD_AVX2 (candidate_score SIMD_SSE41 (example_controller\<lparr>mpc_history := [example_entry]\<rparr>) p) = Some SIMD_AVX2"
proof -
  let ?score = "candidate_score SIMD_SSE41 (example_controller\<lparr>mpc_history := [example_entry]\<rparr>) p"
  note scores = example_scores [OF assms refl]
  obtain k where k: "?score SIMD_SSE41 = Fin k" "200 \<le> k" using scores(2) by blast
  have self: "\<not> dbl_less (rnd64 (k + 1 / 4)) (Fin k)"
  proof -
    have "is_dbl (Fin k)" using k(1) score_is_dbl [of SIMD_SSE41 SIMD_SSE41] by (metis candidate_score_def)
    then show ?thesis using dbl_less_of_margin [of "Fin k" "1 / 4" "Fin k"] by auto
  qed
  obtain f where f: "rnd64 (k + 1 / 4) = Fin f \<or> rnd64 (k + 1 / 4) = PInf"
    using rnd64_mono [of 0 "k + 1 / 4"] k(2) by (cases "rnd64 (k + 1 / 4)") (auto simp: rnd64_numerals dbl_le_def)
  have quarter: "rnd64 (1 / 4) = Fin (1 / 4)" using rnd64_quarters [of 1] by simp
  have kk: "rnd64 k = Fin k" using k(1) score_is_dbl [of SIMD_SSE41 SIMD_SSE41] by (metis candidate_score_def is_dbl.simps(1))
  show ?thesis
    using self k(2) f by (auto simp: decide_def best_candidate_def evaluate_width_def k(1) scores(1) quarter dbl_sub_def kk)
qed

lemma example_recommend:
  assumes like: "example_like p"
  obtains a st q where "tsd_dispatcher_policy_recommend SIMD_SSE41 SIMD_AVX2 example_recorded p = (a, st, q)"
    "pa_width a = SIMD_AVX2"
proof -
  let ?c = "example_controller\<lparr>mpc_history := [example_entry]\<rparr>"
  have snap: "tsd_runtime_config_active_snapshot p = k_default_config" using like by (simp add: example_like_def)
  have h: "mpc_history ?c \<noteq> []" "decision_horizon ?c \<noteq> 0" "milliseconds (0 - sa_timestamp (last (mpc_history ?c))) = 0"
    "mpc_staleness_window ?c = 500"
    by (simp_all add: decision_horizon_def example_controller_def example_policy_config_def example_entry_def zero_policy_config_def milliseconds_def)
  have used: "snd (forecast_temperature (decision_horizon ?c) ?c) = False"
    by (simp add: forecast_temperature_def decision_horizon_def example_controller_def example_policy_config_def
      computeForecastTemperature_def arx_model_init_def zero_policy_config_def average_temperature_def Let_def)
  obtain c' q where rec: "mpc_recommend SIMD_SSE41 SIMD_AVX2 ?c p = (Some SIMD_AVX2, c', q)"
    using used h by (cases "forecast_temperature (decision_horizon ?c) ?c")
      (auto simp: mpc_recommend_def example_like_oracles [OF like] example_decides [OF snap])
  have limits: "dp_have_sample (example_recorded\<lparr>dp_controller := Some c'\<rparr>)" "dp_last_temp_available (example_recorded\<lparr>dp_controller := Some c'\<rparr>)"
    "\<not> dp_last_temp_millic (example_recorded\<lparr>dp_controller := Some c'\<rparr>) >
       upgrade_temperature_limit_millic (example_recorded\<lparr>dp_controller := Some c'\<rparr>)"
    using example_like_cproc
    by (simp_all add: example_recorded_def example_policy_def snapshot_runtime_limits_def example_like_def k_default_config_def
      upgrade_temperature_limit_millic_def policy_limits_valid_def Let_def)
  have "dp_controller example_recorded = Some ?c" "\<not> dp_fallback_active example_recorded"
    by (simp_all add: example_recorded_def example_policy_def snapshot_runtime_limits_def policy_state_init_def Let_def)
  then show thesis
    using that limits by (simp add: tsd_dispatcher_policy_recommend_def ensure_controller_def optimizer_advice_def rec Let_def)
qed

lemma example_reachable:
  obtains p q :: cproc where "reachable policy_created policy_step (example_policy, p)" "example_like p"
    "tsd_dispatcher_policy_record example_eval SIMD_SSE41 example_policy p = (example_recorded, q)" "example_like q"
    "reachable policy_created policy_step (example_recorded, q)"
proof -
  obtain p where p: "tsd_dispatcher_policy_create (Some example_policy_config) example_cproc = (Inr example_policy, p)" "example_like p"
    by (rule example_created)
  obtain q where q: "tsd_dispatcher_policy_record example_eval SIMD_SSE41 example_policy p = (example_recorded, q)" "example_like q"
    by (rule example_record [OF p(2)])
  have r: "reachable policy_created policy_step (example_policy, p)"
    using p(1) by (intro reachable_init) (auto simp: policy_created_def)
  show thesis by (rule that [OF r p(2) q reachable_step [OF r step_call [OF call_record [OF q(1)]]]])
qed

theorem policy_upgrade_guarded_witness:
  "\<exists>p a st q. reachable policy_created policy_step (example_recorded, p :: cproc) \<and>
     tsd_dispatcher_policy_recommend SIMD_SSE41 SIMD_AVX2 example_recorded p = (a, st, q) \<and> pa_width a = SIMD_AVX2 \<and>
     dp_last_temp_available example_recorded \<and> dp_last_temp_millic example_recorded \<le> 88000 \<and> pa_width a \<le> SIMD_AVX2"
proof -
  obtain p :: cproc where p: "reachable policy_created policy_step (example_recorded, p)" "example_like p" using example_reachable by metis
  obtain a st q where r: "tsd_dispatcher_policy_recommend SIMD_SSE41 SIMD_AVX2 example_recorded p = (a, st, q)" and
    w: "pa_width a = SIMD_AVX2" by (rule example_recommend [OF p(2)])
  have "(dp_temp_ceiling_c example_recorded - dp_safety_margin_c example_recorded) * 1000 = 88000" "INT_MIN \<le> dp_last_temp_millic example_recorded"
    using example_like_cproc
    by (simp_all add: example_recorded_def example_policy_def snapshot_runtime_limits_def example_like_def k_default_config_def Let_def)
  then show ?thesis using policy_upgrade_guarded [OF p(1) r] w p(1) r by auto
qed

theorem policy_fallback_latched_witness:
  "\<exists>p st q a r t. tsd_dispatcher_policy_force_fallback example_recorded (p :: cproc) = (st, q) \<and>
     tsd_dispatcher_policy_recommend SIMD_AVX2 SIMD_AVX2 st q = (a, r, t) \<and> pa_width a = SIMD_SSE41 \<and> dp_fallback_active r"
proof -
  obtain p :: cproc where p: "reachable policy_created policy_step (example_recorded, p)" using example_reachable by metis
  obtain st q where f: "tsd_dispatcher_policy_force_fallback example_recorded p = (st, q)" by fastforce
  have s: "reachable policy_created policy_step (st, q)"
    by (rule reachable_step [OF p step_call [OF call_force [OF f]]])
  have active: "dp_fallback_active (fst (st, q))" using f by (auto simp: tsd_dispatcher_policy_force_fallback_def Let_def)
  obtain a r t where rec: "tsd_dispatcher_policy_recommend SIMD_AVX2 SIMD_AVX2 st q = (a, r, t)" by (metis prod_cases3)
  then have "pa_width a = SIMD_SSE41 \<and> dp_fallback_active r"
    using policy_fallback_latched [OF s active run_refl, of SIMD_AVX2 SIMD_AVX2 a r t] by simp
  with f rec show ?thesis by blast
qed


theorem policy_history_suffices_witness:
  "\<exists>c. dp_controller example_recorded = Some c \<and> length (mpc_history c) = 1 \<and> 1 \<le> mpc_history_limit c"
proof -
  obtain p :: cproc where p: "reachable policy_created policy_step (example_recorded, p)" using example_reachable by metis
  have "dp_controller example_recorded = Some (example_controller\<lparr>mpc_history := [example_entry]\<rparr>)" by (simp add: example_recorded_def)
  then show ?thesis using policy_history_suffices [OF p] by auto
qed

end
