(* ===== verification/Spec2Isabelle.thy ===== *)
theory Spec2Isabelle
  imports Statistics Config_Parser Admission Guarded_Updates Adaptive_Dispatch Command_Line
    Perf_Facts Fusion_Lifecycle Dispatcher_Policy
begin

text \<open>
  \<^bold>\<open>The thermal SIMD dispatcher.\<close> The program selects the SIMD width of registered kernels at run time. It
  keeps one read-only executable page with a trampoline per width, publishes the selected slot in one
  atomic word, lets a kernel run wide only while a guard authorizes it, and withdraws that
  authorization as soon as the temperature, the counters, the sandbox or a shutdown say so. The
  sources are under \<^verbatim>\<open>src/src\<close> and \<^verbatim>\<open>src/include\<close>; file names below are relative to them.

  \<^bold>\<open>Conventions.\<close> A C function that fails returns \<open>Inl errno\<close>, one that succeeds \<open>ok\<close>. Machine
  integers whose width matters are words; \<^verbatim>\<open>int\<close> values that are range-checked are integers with the
  checks written out. A \<^verbatim>\<open>double\<close> is an IEEE value (\<open>Float64\<close>) whose operations round. What the operating
  system answers is part of the state: a list of the results a call will give (\<open>next_of\<close>), or a
  function of the number of the call and its arguments. Quantifying over the state thus
  quantifies over all behaviours of the environment. The process is one extensible record: \<open>proc\<close>
  (guard, flags, telemetry, clocks), \<open>tproc\<close> (trampoline), \<open>dproc\<close> (dispatch), \<open>sproc\<close> (system calls of
  the helper), \<open>fproc\<close> (globals of the fusion bridge), \<open>pproc\<close> (counters and affinity), \<open>cproc\<close> (paths of the coefficient
  file); operations are polymorphic in the extension, so a component works on the record of every
  component above it.

  \<^bold>\<open>Theories and sources.\<close>
  \<^item> \<open>TSD_Prelude\<close>: words, error codes, the width enumeration of \<^verbatim>\<open>simd_width.h\<close> with its order, oracle lists,
    reachability, and the locale \<open>inductive_invariant\<close>, which every state machine of the development
    interprets.
  \<^item> \<open>Float64\<close>, \<open>C_Library\<close>: rounding arithmetic (monotone, idempotent, exact on short integers); \<^verbatim>\<open>strtol\<close>, \<^verbatim>\<open>strtod\<close>, \<^verbatim>\<open>strncmp\<close>, number printing.
  \<^item> \<open>Statistics\<close> (\<^verbatim>\<open>statistics.c\<close>): trimmed mean (a loop over a word array, equal to its specification)
    and the integer EWMA (bounded, converging).
  \<^item> \<open>Config_Parser\<close> (\<^verbatim>\<open>config_parser.c\<close>), \<open>Runtime_Config\<close> (\<^verbatim>\<open>thermal_config.c\<close>, \<^verbatim>\<open>policy_config.c\<close>): option values, defaults,
    degraded overlay, ticks and the validation of a generation.
  \<^item> \<open>Jsmn\<close> (\<^verbatim>\<open>third_party/jsmn.c\<close>), \<open>Config_File\<close>, \<open>Command_Line\<close> (\<^verbatim>\<open>thermal_config.c\<close>, \<^verbatim>\<open>logging.c\<close>): the tokenizer with its
    token array, the file reader on top of it, and the command line. The locale \<open>json_member\<close> is the
    contract of the handlers of object members. Shown: termination, memory safety of the
    tokenizer, that everything accepted is in range, and where the code departs from its meaning.
  \<^item> \<open>Observability\<close> (\<^verbatim>\<open>observability/telemetry_state.cpp\<close>), \<open>Runtime_Guard\<close> (\<^verbatim>\<open>runtime_guard.c\<close>, queries of \<^verbatim>\<open>runtime_flags.c\<close>
    and \<^verbatim>\<open>fusion_bridge.cpp\<close>): telemetry with its freshness, width authorization, entry and exit of wide executions, the
    safety-write bracket, the wait for quiescence, configuration generations.
  \<^item> \<open>Admission\<close>: the entry protocol one atomic access at a time, any number of threads, writers and an
    arbitrary environment: exact counting, and quiescence that lasts until a writer reopens admission.
    The sequential entry of \<open>Runtime_Guard\<close> is a run of these steps.
  \<^item> \<open>Cpu\<close> (\<^verbatim>\<open>thermal_cpu.c\<close>), \<open>Metrics\<close> (\<^verbatim>\<open>runtime_metrics.c\<close>), \<open>Trampoline_State\<close> (\<^verbatim>\<open>patcher/trampoline_state.c\<close>), \<open>Trampoline\<close>
    (\<^verbatim>\<open>patcher/trampoline.cpp\<close>, \<^verbatim>\<open>trampoline_guard.c\<close>): detection, counters, the published word, code page, selection,
    self-validation, attestation. SHA-256 is a parameter (a function that may fail). Shown: write-xor-execute in
    every reachable state, the outcome of a selection on every branch, and that it succeeds when
    the operating system grants what it asks for.
  \<^item> \<open>Guarded_Updates\<close>: the writers of the guard state (\<^verbatim>\<open>update_*\<close>, the sandbox flags, the temperature gate) as
    interpretations of one locale \<open>guarded_update\<close>; admission after each is exactly what the published
    state authorizes. \<open>Frames\<close> states what they leave alone.
  \<^item> \<open>Adaptive_Dispatch\<close> (\<^verbatim>\<open>dispatch/adaptive_dispatch.c\<close>): registration, resolution, execution with cancellation
    clean-up, chunked execution of both interfaces (locale \<open>chunked_loop\<close>). Kernels and what happens inside them are
    parameters.
  \<^item> \<open>Telemetry_Helper\<close>, \<open>Telemetry_Helper_Facts\<close> (\<^verbatim>\<open>telemetry_helper.c\<close>): sensor detection, MSR and cpufreq sources with
    retry schedules; every sample is in range and was read in the call, descriptors are returned.
  \<^item> \<open>Telemetry_Fusion\<close> (\<^verbatim>\<open>telemetry/bus.cpp\<close>, \<^verbatim>\<open>collector.cpp\<close>, \<^verbatim>\<open>fusion.cpp\<close>), \<open>Fusion_Lifecycle\<close> (\<^verbatim>\<open>fusion.cpp\<close>: start, stop and worker as
    interleaved steps: exclusion, no lost wake-up, termination of stop), \<open>Fusion_Bridge\<close>, \<open>Fusion_Bridge_Facts\<close>
    (\<^verbatim>\<open>telemetry/fusion_bridge.cpp\<close>): the process-wide service, a counted service that hands out unfiltered, fresh readings.
  \<^item> \<open>Perf\<close>, \<open>Perf_Facts\<close> (\<^verbatim>\<open>thermal_perf.c\<close>): the counter group, hardware and software mode, back-off, baselines, recovery and the
    evaluation of a measurement. Shown: every descriptor is accounted for, losing the counters closes wide
    admission, recovery only after validation, a hot package is always reported, and where the back-off departs from its
    description.
  \<^item> \<open>ARX_Model\<close> (\<^verbatim>\<open>policy/arx_model.cpp\<close>), \<open>MPC_Controller\<close> (\<^verbatim>\<open>policy/mpc_controller.cpp\<close>), \<open>Dispatcher_Policy\<close>
    (\<^verbatim>\<open>policy/dispatcher_policy.cpp\<close>): the coefficient file, the forecast, the scoring of widths and the policy around
    it. Shown: whatever the file holds, the model is well formed; printed arrays are read back; a
    recommendation is best up to the margin; the policy advises a wider width only on a safe temperature, stores a sample or
    closes, and keeps a fallback until it is reset.

  \<^bold>\<open>How the parts interact.\<close> The telemetry helper feeds the fusion service, which publishes readings, channels and the
  temperature gate; the perf context publishes the health of the counters; the guard reads them to authorize widths; the
  selector and the dispatcher ask the guard. The policy turns evaluated samples into advice.
  The properties follow this chain: a temperature comes from a labelled sensor of the right package, is
  fresh and unfiltered when the service hands it out, closes the gate when it is missing; a
  closed gate revokes every wide width, and revocation means that no thread starts a wide kernel.

  \<^bold>\<open>Loops and fuel.\<close> Loops over lists and arrays are structural or come with a measure. The wait for
  quiescence runs on the list of results its waits will give and the theorem about it covers the
  run that drains. The tokenizer's and the file reader's loops are total; a file reader whose
  token array is exceeded returns that as a value instead of reading on.

  \<^bold>\<open>Not modelled.\<close> The monitor loop and the start and stop of a runtime (\<^verbatim>\<open>thermal_simd.c\<close>, \<^verbatim>\<open>runtime_api.c\<close>), which
  compose the parts above; the sandbox, which runs the kernels in a child process; the sensor, history and evaluator
  classes that only tools use; log messages, the usage text and the HTTP and StatsD exporters (output over
  sockets around counters that are modelled); the test hooks compiled under \<^verbatim>\<open>TSD_ENABLE_TESTS\<close>; memory ordering weaker
  than sequential consistency; the kernels themselves; the offline policy tuner and the benchmarks.
\<close>

end
